(* ===== verification/Prelude.thy ===== *)
theory Prelude
  imports Main "HOL-Library.Word" "HOL-Library.Sublist"
begin

text \<open>
  Shared vocabulary of the development: the machine integers and identifiers of the Rust
  sources, the outcomes a Rust call can have besides returning, the arithmetic of the standard
  library that the sources use, maps that are iterated in an unspecified order, and two
  interfaces (locales) that several components share: a state machine with an invariant and a
  store of records under a key.
\<close>

unbundle bit_operations_syntax

section \<open>Types\<close>

type_synonym u8 = "8 word"
type_synonym u16 = "16 word"
type_synonym u32 = "32 word"
type_synonym u64 = "64 word"

text \<open>A \<open>Uuid\<close> is a 128-bit value; \<open>Uuid::nil()\<close> is 0 and \<open>Uuid::new_v4()\<close> is an argument of
  the operation that calls it.\<close>

type_synonym uuid = "128 word"

text \<open>\<open>DateTime<Utc>\<close> in nanoseconds since the Unix epoch. \<open>Utc::now()\<close> is an argument of the
  operation that calls it, as is the reading of the Unix clock in seconds.\<close>

type_synonym datetime = int

datatype ip_addr = V4 u32 | V6 uuid

record socket_addr =
  sa_ip :: ip_addr
  sa_port :: u16

text \<open>
  How a call ends: it returns a value, it panics (an arithmetic overflow in a build with
  overflow checks), or it blocks for ever on a lock its own caller holds.
\<close>

datatype 'a outcome = Returns 'a | Panics | Blocks

fun map_outcome_val :: "('a \<Rightarrow> 'b) \<Rightarrow> 'a outcome \<Rightarrow> 'b outcome" where
  "map_outcome_val f (Returns x) = Returns (f x)"
| "map_outcome_val f Panics = Panics"
| "map_outcome_val f Blocks = Blocks"

section \<open>Collections of facts\<close>

named_theorems inv_defs "definitions of the invariants"
named_theorems op_defs "definitions of the operations"

section \<open>Arithmetic of the Rust standard library\<close>

definition saturating_sub :: "'a::len word \<Rightarrow> 'a word \<Rightarrow> 'a word" where
  "saturating_sub a b = (if b \<le> a then a - b else 0)"

lemma unat_saturating_sub: "unat (saturating_sub a b) = unat a - unat b"
  by (simp add: saturating_sub_def unat_sub word_le_nat_alt)

lemma saturating_sub_le: "saturating_sub a b \<le> a"
  by (simp add: saturating_sub_def word_le_nat_alt unat_sub)

lemma saturating_sub_zero [simp]: "saturating_sub a 0 = a"
  by (simp add: saturating_sub_def)

text \<open>
  \<open>a - b\<close> on \<open>u32\<close>: with overflow checks compiled in (\<open>ovf\<close>, the default of a debug build)
  it panics when \<open>b\<close> is larger, without them it wraps.
\<close>

definition sub_u32 :: "bool \<Rightarrow> u32 \<Rightarrow> u32 \<Rightarrow> u32 outcome" where
  "sub_u32 ovf a b = (if ovf \<and> a < b then Panics else Returns (a - b))"

text \<open>\<open>Iterator::sum\<close> over \<open>u32\<close>: the partial sums grow, so some addition overflows exactly
  when the whole sum does.\<close>

definition sum_u32 :: "bool \<Rightarrow> u32 list \<Rightarrow> u32 outcome" where
  "sum_u32 ovf ws =
     (if ovf \<and> 2 ^ 32 \<le> (\<Sum>w\<leftarrow>ws. unat w) then Panics else Returns (sum_list ws))"

lemma unat_sum_list_u32:
  fixes ws :: "u32 list"
  assumes "(\<Sum>w\<leftarrow>ws. unat w) < 2 ^ 32"
  shows "unat (sum_list ws) = (\<Sum>w\<leftarrow>ws. unat w)"
  using assms
proof (induction ws)
  case Nil
  then show ?case by simp
next
  case (Cons w ws)
  then have "unat (sum_list ws) = (\<Sum>w\<leftarrow>ws. unat w)" by simp
  with Cons.prems show ?case by (simp add: unat_add_lem [THEN iffD1])
qed

lemma sum_u32_exact:
  assumes "sum_u32 True ws = Returns s"
  shows "unat s = (\<Sum>w\<leftarrow>ws. unat w)"
  using assms by (auto simp: sum_u32_def unat_sum_list_u32 split: if_splits)

definition sum_u64 :: "bool \<Rightarrow> u64 list \<Rightarrow> u64 outcome" where
  "sum_u64 ovf ws =
     (if ovf \<and> 2 ^ 64 \<le> (\<Sum>w\<leftarrow>ws. unat w) then Panics else Returns (sum_list ws))"

text \<open>The \<open>Display\<close> of an unsigned integer: its decimal digits.\<close>

definition digit_char :: "nat \<Rightarrow> char" where
  "digit_char d = char_of (48 + d)"

fun show_nat :: "nat \<Rightarrow> string" where
  "show_nat n = (if n < 10 then [digit_char n] else show_nat (n div 10) @ [digit_char (n mod 10)])"

declare show_nat.simps [simp del]

text \<open>\<open>str::split\<close> on one character.\<close>

fun split_on :: "char \<Rightarrow> string \<Rightarrow> string list" where
  "split_on c [] = [[]]"
| "split_on c (x # xs) =
     (if x = c then [] # split_on c xs
      else (case split_on c xs of [] \<Rightarrow> [[x]] | p # ps \<Rightarrow> (x # p) # ps))"

fun join_with :: "string \<Rightarrow> string list \<Rightarrow> string" where
  "join_with sep [] = []"
| "join_with sep [s] = s"
| "join_with sep (s # t # ss) = s @ sep @ join_with sep (t # ss)"

lemma split_on_free: "c \<notin> set s \<Longrightarrow> split_on c s = [s]"
  by (induction s) auto

lemma split_on_sep: "c \<notin> set s \<Longrightarrow> split_on c (s @ c # t) = s # split_on c t"
  by (induction s) auto

text \<open>\<open>chrono::Duration::num_seconds\<close> truncates towards zero; \<open>as u64\<close> on a negative value
  wraps.\<close>

definition num_seconds :: "int \<Rightarrow> int" where
  "num_seconds d = (if 0 \<le> d then d div 1000000000 else - ((- d) div 1000000000))"

definition as_u64 :: "int \<Rightarrow> u64" where
  "as_u64 i = word_of_int i"

lemma unat_as_u64: "0 \<le> i \<Longrightarrow> i < 2 ^ 64 \<Longrightarrow> unat (as_u64 i) = nat i"
  by (simp add: as_u64_def unat_eq_nat_uint uint_word_of_int take_bit_eq_mod)

section \<open>Maps iterated in an unspecified order\<close>

text \<open>
  A \<open>DashMap\<close>, like a \<open>HashMap\<close>, is a map; the order in which an iteration visits its keys is
  not specified. An operation that iterates takes the visited keys as an argument, and
  \<open>iterates ks m\<close> says that they are the keys of the map, each once.
\<close>

definition iterates :: "'k list \<Rightarrow> ('k \<rightharpoonup> 'v) \<Rightarrow> bool" where
  "iterates ks m \<longleftrightarrow> distinct ks \<and> set ks = dom m"

fun values_in :: "'k list \<Rightarrow> ('k \<rightharpoonup> 'v) \<Rightarrow> 'v list" where
  "values_in [] m = []"
| "values_in (k # ks) m = (case m k of None \<Rightarrow> values_in ks m | Some v \<Rightarrow> v # values_in ks m)"

lemma set_values_in: "set (values_in ks m) = {v. \<exists>k\<in>set ks. m k = Some v}"
  by (induction ks) (auto split: option.splits)

lemma values_in_cong: "(\<And>k. k \<in> set ks \<Longrightarrow> m k = m' k) \<Longrightarrow> values_in ks m = values_in ks m'"
  by (induction ks) (auto split: option.splits)

lemma iterates_values: "iterates ks m \<Longrightarrow> set (values_in ks m) = ran m"
  by (auto simp: set_values_in iterates_def ran_def)

lemma iterates_length: "iterates ks m \<Longrightarrow> length ks = card (dom m)"
  by (metis iterates_def distinct_card)

lemma iterates_finite: "iterates ks m \<Longrightarrow> finite (dom m)"
  by (metis iterates_def finite_set)

lemma values_in_length: "set ks \<subseteq> dom m \<Longrightarrow> length (values_in ks m) = length ks"
  by (induction ks) (auto split: option.splits)

section \<open>Interface: a state machine with an invariant\<close>

text \<open>
  The contract of every stateful component: its operations, as steps on its state, keep its
  invariant. What follows is proved once: any sequence of calls keeps it, and so does a fact
  that each step keeps under the invariant.
\<close>

locale invariant_machine =
  fixes step :: "'e \<Rightarrow> 's \<Rightarrow> 's"
    and inv :: "'s \<Rightarrow> bool"
  assumes step_inv: "inv s \<Longrightarrow> inv (step e s)"
begin

lemma run_inv: "inv s \<Longrightarrow> inv (fold step es s)"
  by (induction es arbitrary: s) (auto simp: step_inv)

lemma run_stable:
  assumes "\<And>e s. inv s \<Longrightarrow> P s \<Longrightarrow> P (step e s)"
  shows "inv s \<Longrightarrow> P s \<Longrightarrow> P (fold step es s)"
proof (induction es arbitrary: s)
  case Nil
  then show ?case by simp
next
  case (Cons e es)
  then show ?case using assms step_inv by simp
qed

text \<open>A function on states that every step of an abstract machine follows is followed by
  every run: the simulation behind the refinement lemmas.\<close>

lemma run_simulation:
  assumes "\<And>e s. inv s \<Longrightarrow> h (step e s) = astep e (h s)"
  shows "inv s \<Longrightarrow> h (fold step es s) = fold astep es (h s)"
proof (induction es arbitrary: s)
  case Nil
  then show ?case by simp
next
  case (Cons e es)
  then show ?case using assms step_inv by simp
qed

end

section \<open>Interface: records stored under a key\<close>

text \<open>
  Several components are a concurrent map with a thin layer of operations: register or replace
  a record, remove it, look it up. The contract is what a lookup sees after each.
\<close>

fun apply_write :: "('r \<Rightarrow> 's \<Rightarrow> 's) \<Rightarrow> ('k \<Rightarrow> 's \<Rightarrow> 's) \<Rightarrow> 'r + 'k \<Rightarrow> 's \<Rightarrow> 's" where
  "apply_write store erase (Inl r) s = store r s"
| "apply_write store erase (Inr k) s = erase k s"

fun last_write ::
    "('r \<Rightarrow> 'k) \<Rightarrow> ('r \<Rightarrow> 'v) \<Rightarrow> ('r + 'k) list \<Rightarrow> 'k \<Rightarrow> 'v option \<Rightarrow> 'v option" where
  "last_write key val [] k v = v"
| "last_write key val (Inl r # ws) k v =
     last_write key val ws k (if k = key r then Some (val r) else v)"
| "last_write key val (Inr k' # ws) k v =
     last_write key val ws k (if k = k' then None else v)"

locale keyed_store =
  fixes lookup :: "'s \<Rightarrow> 'k \<Rightarrow> 'v option"
    and store :: "'r \<Rightarrow> 's \<Rightarrow> 's"
    and erase :: "'k \<Rightarrow> 's \<Rightarrow> 's"
    and key :: "'r \<Rightarrow> 'k"
    and val :: "'r \<Rightarrow> 'v"
  assumes lookup_store:
      "lookup (store r s) k = (if k = key r then Some (val r) else lookup s k)"
    and lookup_erase: "lookup (erase k' s) k = (if k = k' then None else lookup s k)"
begin

text \<open>The last write to a key decides what a lookup of it returns.\<close>

lemma lookup_run:
  "lookup (fold (apply_write store erase) ws s) k = last_write key val ws k (lookup s k)"
proof (induction ws arbitrary: s)
  case Nil
  then show ?case by simp
next
  case (Cons w ws)
  then show ?case by (cases w) (simp_all add: lookup_store lookup_erase)
qed

lemma store_then_erase: "lookup (erase (key r) (store r s)) = (lookup s)(key r := None)"
  by (auto simp: fun_eq_iff lookup_store lookup_erase)

lemma erase_frame: "k \<noteq> k' \<Longrightarrow> lookup (erase k' s) k = lookup s k"
  by (simp add: lookup_erase)

lemma store_overwrites:
  "key r = key r' \<Longrightarrow> lookup (store r' (store r s)) = lookup (store r' s)"
  by (auto simp: fun_eq_iff lookup_store)

end

end
