(* ===== verification/Circuit_Breaker.thy ===== *)
theory Circuit_Breaker
  imports Prelude
begin

text \<open>
  The circuit breaker of a host (\<open>akssora-scheduler/src/circuit_breaker.rs\<close>): its atomics as a
  record of words, its calls as functions on the record, the invariant that keeps the counters
  below their thresholds, and a refinement to an abstract breaker with three states.
  A call reads the Unix clock in seconds; the reading is an argument. Where the source reads the
  clock on one path only, the argument is unused on the others.
\<close>

section \<open>State and calls\<close>

datatype circuit_state = Closed | Open | HalfOpen

definition FAILURE_THRESHOLD :: u32 where "FAILURE_THRESHOLD = 5"
definition SUCCESS_THRESHOLD :: u32 where "SUCCESS_THRESHOLD = 3"
definition OPEN_DURATION_SECS :: u64 where "OPEN_DURATION_SECS = 30"

record circuit_breaker =
  failures :: u32
  successes :: u32
  opened_at :: u64
  breaker_word :: u32

fun state_as_u32 :: "circuit_state \<Rightarrow> u32" where
  "state_as_u32 Closed = 0"
| "state_as_u32 Open = 1"
| "state_as_u32 HalfOpen = 2"

definition new_breaker :: circuit_breaker where
  "new_breaker =
     \<lparr>failures = 0, successes = 0, opened_at = 0, breaker_word = state_as_u32 Closed\<rparr>"

definition trip :: "u64 \<Rightarrow> circuit_breaker \<Rightarrow> circuit_breaker" where
  "trip now cb = cb\<lparr>breaker_word := state_as_u32 Open, opened_at := now, successes := 0\<rparr>"

text \<open>Reading the state moves an open breaker to half-open once its time is up.\<close>

definition breaker_state :: "u64 \<Rightarrow> circuit_breaker \<Rightarrow> circuit_breaker \<times> circuit_state" where
  "breaker_state now cb =
     (if breaker_word cb = 0 then (cb, Closed)
      else if breaker_word cb = 1 then
        (if OPEN_DURATION_SECS \<le> saturating_sub now (opened_at cb)
         then (cb\<lparr>breaker_word := state_as_u32 HalfOpen, successes := 0\<rparr>, HalfOpen)
         else (cb, Open))
      else if breaker_word cb = 2 then (cb, HalfOpen)
      else (cb, Closed))"

text \<open>
  \<open>fetch_add\<close> returns the previous value; \<open>prev + 1\<close> is compared with the threshold. The
  invariant below bounds \<open>prev\<close>, so the addition never overflows.
\<close>

definition record_success :: "circuit_breaker \<Rightarrow> circuit_breaker" where
  "record_success cb =
     (if breaker_word cb = 0 then cb\<lparr>failures := 0\<rparr>
      else if breaker_word cb = 1 then cb
      else if breaker_word cb = 2 then
        (let prev = successes cb; cb' = cb\<lparr>successes := prev + 1\<rparr>
         in if SUCCESS_THRESHOLD \<le> prev + 1
            then cb'\<lparr>breaker_word := state_as_u32 Closed, failures := 0\<rparr>
            else cb')
      else cb)"

definition record_failure :: "u64 \<Rightarrow> circuit_breaker \<Rightarrow> circuit_breaker" where
  "record_failure now cb =
     (if breaker_word cb = 0 then
        (let prev = failures cb; cb' = cb\<lparr>failures := prev + 1\<rparr>
         in if FAILURE_THRESHOLD \<le> prev + 1 then trip now cb' else cb')
      else if breaker_word cb = 1 then cb\<lparr>opened_at := now\<rparr>
      else if breaker_word cb = 2 then trip now cb
      else cb)"

lemmas breaker_op_defs = trip_def breaker_state_def record_success_def record_failure_def
  Let_def FAILURE_THRESHOLD_def SUCCESS_THRESHOLD_def OPEN_DURATION_SECS_def

datatype breaker_call = CallState u64 | CallSuccess | CallFailure u64

fun breaker_step :: "breaker_call \<Rightarrow> circuit_breaker \<Rightarrow> circuit_breaker" where
  "breaker_step (CallState now) cb = fst (breaker_state now cb)"
| "breaker_step CallSuccess cb = record_success cb"
| "breaker_step (CallFailure now) cb = record_failure now cb"

section \<open>The invariant\<close>

text \<open>The state word is one of the three codes, and the counter that is live in a state is
  below the threshold that would leave it.\<close>

definition breaker_inv :: "circuit_breaker \<Rightarrow> bool" where
  "breaker_inv cb \<longleftrightarrow>
     (breaker_word cb = 0 \<and> failures cb < FAILURE_THRESHOLD) \<or>
     breaker_word cb = 1 \<or>
     (breaker_word cb = 2 \<and> successes cb < SUCCESS_THRESHOLD)"

lemma u32_succ_less:
  fixes x :: u32
  assumes "x < n"
  shows "\<not> n \<le> x + 1 \<longleftrightarrow> x + 1 < n" "unat (x + 1) = unat x + 1"
proof -
  have "unat x < unat n" using assms by (simp add: word_less_nat_alt)
  moreover have "unat n < 2 ^ 32" using unsigned_less [of n] by simp
  ultimately show "unat (x + 1) = unat x + 1" by (simp add: unat_word_ariths)
qed auto

lemma new_breaker_inv: "breaker_inv new_breaker"
  by (simp add: breaker_inv_def new_breaker_def FAILURE_THRESHOLD_def)

lemma breaker_step_inv: "breaker_inv cb \<Longrightarrow> breaker_inv (breaker_step e cb)"
  by (cases e) (auto simp: breaker_inv_def breaker_op_defs)

interpretation breaker: invariant_machine breaker_step breaker_inv
  by unfold_locales (rule breaker_step_inv)

section \<open>The abstract breaker\<close>

text \<open>Closed with the number of failures in a row, open since a time, or half-open with the
  number of successes so far.\<close>

datatype abs_breaker = AClosed nat | AOpen u64 | AHalf nat

fun abs_step :: "breaker_call \<Rightarrow> abs_breaker \<Rightarrow> abs_breaker" where
  "abs_step (CallState now) (AOpen t) = (if 30 \<le> unat now - unat t then AHalf 0 else AOpen t)"
| "abs_step (CallState now) a = a"
| "abs_step CallSuccess (AClosed n) = AClosed 0"
| "abs_step CallSuccess (AOpen t) = AOpen t"
| "abs_step CallSuccess (AHalf n) = (if n + 1 < 3 then AHalf (n + 1) else AClosed 0)"
| "abs_step (CallFailure now) (AClosed n) = (if n + 1 < 5 then AClosed (n + 1) else AOpen now)"
| "abs_step (CallFailure now) a = AOpen now"

definition abs_of :: "circuit_breaker \<Rightarrow> abs_breaker" where
  "abs_of cb =
     (if breaker_word cb = 0 then AClosed (unat (failures cb))
      else if breaker_word cb = 1 then AOpen (opened_at cb)
      else AHalf (unat (successes cb)))"

fun abs_state :: "abs_breaker \<Rightarrow> circuit_state" where
  "abs_state (AClosed n) = Closed"
| "abs_state (AOpen t) = Open"
| "abs_state (AHalf n) = HalfOpen"

lemma open_time_up:
  "OPEN_DURATION_SECS \<le> saturating_sub now t \<longleftrightarrow> 30 \<le> unat now - unat t"
  by (simp add: OPEN_DURATION_SECS_def word_le_nat_alt unat_saturating_sub)

lemma abs_of_step:
  assumes "breaker_inv cb"
  shows "abs_of (breaker_step e cb) = abs_step e (abs_of cb)"
proof (cases e)
  case (CallState now)
  then show ?thesis using assms
    by (auto simp: abs_of_def breaker_inv_def breaker_state_def open_time_up)
next
  case CallSuccess
  then show ?thesis using assms u32_succ_less(2) [of "successes cb" SUCCESS_THRESHOLD]
    by (auto simp: abs_of_def breaker_inv_def record_success_def Let_def
        SUCCESS_THRESHOLD_def word_le_nat_alt)
next
  case (CallFailure now)
  then show ?thesis using assms u32_succ_less(2) [of "failures cb" FAILURE_THRESHOLD]
    by (auto simp: abs_of_def breaker_inv_def record_failure_def trip_def Let_def
        FAILURE_THRESHOLD_def word_le_nat_alt)
qed

lemma abs_of_new: "abs_of new_breaker = AClosed 0"
  by (simp add: abs_of_def new_breaker_def)

text \<open>
  C4. Over any sequence of calls from a new breaker, in any order and at any clock readings, the
  record of atomics is an abstract breaker: closed with a count of failures in a row, open since
  a time, or half-open with a count of successes; and the state it reports is the state of that
  abstract breaker after its time-out is applied.
\<close>

theorem breaker_refines:
  "abs_of (fold breaker_step es new_breaker) = fold abs_step es (AClosed 0) \<and>
   snd (breaker_state now (fold breaker_step es new_breaker)) =
     abs_state (abs_step (CallState now) (fold abs_step es (AClosed 0)))"
proof -
  let ?cb = "fold breaker_step es new_breaker"
  have inv: "breaker_inv ?cb"
    using new_breaker_inv by (rule breaker.run_inv)
  have "abs_of ?cb = fold abs_step es (abs_of new_breaker)"
    using abs_of_step new_breaker_inv by (rule breaker.run_simulation)
  then have a: "abs_of ?cb = fold abs_step es (AClosed 0)"
    by (simp add: abs_of_new)
  have "snd (breaker_state now ?cb) = abs_state (abs_step (CallState now) (abs_of ?cb))"
    using inv by (auto simp: breaker_inv_def breaker_state_def abs_of_def open_time_up)
  with a show ?thesis by simp
qed

section \<open>When the breaker trips and when it recovers\<close>

text \<open>Outcomes of requests to a host whose breaker is not read meanwhile.\<close>

fun outcome_call :: "u64 option \<Rightarrow> breaker_call" where
  "outcome_call None = CallSuccess"
| "outcome_call (Some t) = CallFailure t"

fun failure_streak :: "u64 option list \<Rightarrow> nat" where
  "failure_streak [] = 0"
| "failure_streak (None # os) = 0"
| "failure_streak (Some t # os) = Suc (failure_streak os)"

definition has_streak :: "nat \<Rightarrow> u64 option list \<Rightarrow> bool" where
  "has_streak n os \<longleftrightarrow> (\<exists>xs ys zs. os = xs @ ys @ zs \<and> length ys = n \<and> None \<notin> set ys)"

lemma failure_streak_takeWhile: "failure_streak os = length (takeWhile (\<lambda>x. x \<noteq> None) os)"
  by (induction os rule: failure_streak.induct) auto

lemma has_streak_snoc:
  "has_streak n (os @ [x]) \<longleftrightarrow> has_streak n os \<or> n \<le> failure_streak (rev (os @ [x]))"
proof
  assume "has_streak n (os @ [x])"
  then obtain xs ys zs where e: "os @ [x] = xs @ ys @ zs" "length ys = n" "None \<notin> set ys"
    by (auto simp: has_streak_def)
  show "has_streak n os \<or> n \<le> failure_streak (rev (os @ [x]))"
  proof (cases zs rule: rev_cases)
    case Nil
    then have "rev (os @ [x]) = rev ys @ rev xs" using e by (metis append_Nil2 rev_append)
    then have "takeWhile (\<lambda>x. x \<noteq> None) (rev (os @ [x])) =
        rev ys @ takeWhile (\<lambda>x. x \<noteq> None) (rev xs)"
      using e(3) by (metis (mono_tags, lifting) set_rev takeWhile_append2)
    then show ?thesis using e(2) by (simp add: failure_streak_takeWhile)
  next
    case (snoc zs' z)
    then have "os = xs @ ys @ zs'" using e(1) by simp
    then show ?thesis using e(2,3) unfolding has_streak_def by blast
  qed
next
  assume "has_streak n os \<or> n \<le> failure_streak (rev (os @ [x]))"
  then show "has_streak n (os @ [x])"
  proof
    assume "has_streak n os"
    then show ?thesis unfolding has_streak_def by (metis append.assoc)
  next
    let ?s = "takeWhile (\<lambda>x. x \<noteq> None) (rev (os @ [x]))"
    let ?d = "dropWhile (\<lambda>x. x \<noteq> None) (rev (os @ [x]))"
    assume "n \<le> failure_streak (rev (os @ [x]))"
    then have len: "length (take n ?s) = n" by (simp add: failure_streak_takeWhile)
    have "rev (os @ [x]) = take n ?s @ drop n ?s @ ?d"
      by (metis append.assoc append_take_drop_id takeWhile_dropWhile_id)
    then have "os @ [x] = rev (drop n ?s @ ?d) @ rev (take n ?s) @ []"
      by (metis append_Nil2 rev_append rev_rev_ident append.assoc)
    moreover have "None \<notin> set (rev (take n ?s))"
      by (metis (mono_tags, lifting) in_set_takeD set_rev set_takeWhileD)
    ultimately show ?thesis using len unfolding has_streak_def by (metis length_rev)
  qed
qed

text \<open>What the breaker does with a list of outcomes, without a read of its state in between:
  it counts the failures at the end of the list, and is open once there have been five in a row.\<close>

lemma abs_outcomes:
  "(if has_streak 5 os then (\<exists>t. fold abs_step (map outcome_call os) (AClosed 0) = AOpen t)
    else failure_streak (rev os) < 5 \<and>
      fold abs_step (map outcome_call os) (AClosed 0) = AClosed (failure_streak (rev os)))"
proof (induction os rule: rev_induct)
  case Nil
  then show ?case by (simp add: has_streak_def)
next
  case (snoc x os)
  show ?case
  proof (cases "has_streak 5 os")
    case True
    with snoc obtain t where "fold abs_step (map outcome_call os) (AClosed 0) = AOpen t" by auto
    then show ?thesis using True has_streak_snoc [of 5 os x] by (cases x) auto
  next
    case False
    with snoc have "failure_streak (rev os) < 5"
      "fold abs_step (map outcome_call os) (AClosed 0) = AClosed (failure_streak (rev os))"
      by auto
    then show ?thesis using False has_streak_snoc [of 5 os x] by (cases x) auto
  qed
qed

text \<open>
  A new breaker fed with the outcomes of requests is open exactly when five failures in a
  row have occurred among them; otherwise it is closed and its failure counter is the number of
  failures since the last success.
\<close>

theorem breaker_trips_iff_five_in_a_row:
  "breaker_word (fold breaker_step (map outcome_call os) new_breaker) =
     (if has_streak 5 os then 1 else 0) \<and>
   (\<not> has_streak 5 os \<longrightarrow>
     unat (failures (fold breaker_step (map outcome_call os) new_breaker)) =
       failure_streak (rev os))"
proof -
  let ?cb = "fold breaker_step (map outcome_call os) new_breaker"
  have inv: "breaker_inv ?cb"
    using new_breaker_inv by (rule breaker.run_inv)
  have "abs_of ?cb = fold abs_step (map outcome_call os) (abs_of new_breaker)"
    using abs_of_step new_breaker_inv by (rule breaker.run_simulation)
  then have "abs_of ?cb = fold abs_step (map outcome_call os) (AClosed 0)"
    by (simp add: abs_of_new)
  with abs_outcomes [of os] inv show ?thesis
    by (auto simp: abs_of_def breaker_inv_def split: if_splits)
qed

theorem breaker_trips_witness:
  "has_streak 5 [None, Some 1, Some 2, Some 3, Some 4, Some 5, None] \<and>
   \<not> has_streak 5 [Some 1, Some 2, None, Some 3] \<and>
   unat (failures (fold breaker_step (map outcome_call [Some 1, Some 2, None, Some 3])
     new_breaker)) = 1"
proof -
  have y: "has_streak 5 [None, Some 1, Some 2, Some 3, Some 4, Some 5, None]"
    unfolding has_streak_def
    by (rule exI [of _ "[None]"], rule exI [of _ "[Some 1, Some 2, Some 3, Some 4, Some 5]"],
        rule exI [of _ "[None]"]) simp
  have "breaker_word (fold breaker_step (map outcome_call [Some 1, Some 2, None, Some 3])
      new_breaker) = 0"
    by (simp add: new_breaker_def breaker_op_defs word_le_nat_alt)
  then have n: "\<not> has_streak 5 [Some 1, Some 2, None, Some 3]"
    using breaker_trips_iff_five_in_a_row [of "[Some 1, Some 2, None, Some 3]"]
    by (auto split: if_splits)
  then show ?thesis
    using y breaker_trips_iff_five_in_a_row [of "[Some 1, Some 2, None, Some 3]"] by simp
qed

text \<open>
  Recovery: an open breaker whose clock reading is at least 30 seconds after it opened
  becomes half-open; the three outcomes that follow close it if all are successes, and it is open
  again, from the time of the failure, as soon as one of them is a failure.
\<close>

theorem breaker_recovery:
  assumes "breaker_word cb = 1" and "30 \<le> unat now - unat (opened_at cb)"
  shows "snd (breaker_state now cb) = HalfOpen \<and>
     (let half = fst (breaker_state now cb);
          recovered = fold breaker_step [CallSuccess, CallSuccess, CallSuccess] half
      in breaker_word recovered = 0 \<and> failures recovered = 0 \<and>
         (\<forall>k\<in>{0, 1, 2}. \<forall>t.
           let again = breaker_step (CallFailure t)
                 (fold breaker_step (replicate k CallSuccess) half)
           in breaker_word again = 1 \<and> opened_at again = t))"
proof -
  define half where "half = fst (breaker_state now cb)"
  have s: "breaker_state now cb = (cb\<lparr>breaker_word := 2, successes := 0\<rparr>, HalfOpen)"
    using assms by (simp add: breaker_state_def open_time_up)
  then have inv: "breaker_inv half" and half: "abs_of half = AHalf 0"
    by (simp_all add: half_def breaker_inv_def SUCCESS_THRESHOLD_def abs_of_def)
  have run: "abs_of (fold breaker_step es half) = fold abs_step es (AHalf 0)" for es
    using breaker.run_simulation [of abs_of abs_step, OF abs_of_step inv, of es]
    unfolding half .
  have open_again: "breaker_word (breaker_step (CallFailure t)
        (fold breaker_step (replicate k CallSuccess) half)) = 1 \<and>
      opened_at (breaker_step (CallFailure t)
        (fold breaker_step (replicate k CallSuccess) half)) = t" if "k \<in> {0, 1, 2}" for k t
    using run [of "replicate k CallSuccess @ [CallFailure t]"] that
    by (auto simp: numeral_2_eq_2 abs_of_def split: if_splits)
  have "breaker_word (fold breaker_step [CallSuccess, CallSuccess, CallSuccess] half) = 0 \<and>
      failures (fold breaker_step [CallSuccess, CallSuccess, CallSuccess] half) = 0"
    using run [of "[CallSuccess, CallSuccess, CallSuccess]"]
    by (auto simp: abs_of_def unat_eq_0 split: if_splits)
  with open_again s show ?thesis unfolding half_def [symmetric] Let_def by simp
qed

theorem breaker_recovery_witness:
  "breaker_word (fold breaker_step [CallSuccess, CallSuccess, CallSuccess]
     (fst (breaker_state 131 (trip 100 new_breaker)))) = 0"
proof -
  have "breaker_word (trip 100 new_breaker) = 1"
    and "30 \<le> unat (131 :: u64) - unat (opened_at (trip 100 new_breaker))"
    by (simp_all add: trip_def)
  then show ?thesis using breaker_recovery [of "trip 100 new_breaker" 131] by (simp add: Let_def)
qed

end
