(* ===== verification/Host_Registry.thy ===== *)
theory Host_Registry
  imports Circuit_Breaker
begin

text \<open>
  The scheduler's registry of hosts (\<open>akssora-scheduler/src/host_registry.rs\<close>): entries with
  capacity, usage, last heartbeat and a circuit breaker, under the host's id. Reading the state
  of a breaker may change it, so the queries return the registry too. A call takes its reading
  of \<open>Utc::now()\<close> as \<open>now\<close> and the readings of the breakers' clock as \<open>secs\<close>.
\<close>

section \<open>Data\<close>

record resource_request =
  req_vcpus :: u32
  req_mem_mib :: u32

record host_snapshot =
  hs_host_id :: uuid
  hs_address :: socket_addr
  hs_total_vcpus :: u32
  hs_used_vcpus :: u32
  hs_total_mem_mib :: u32
  hs_used_mem_mib :: u32
  hs_sandbox_count :: u32
  hs_circuit_state :: circuit_state
  hs_last_heartbeat :: datetime

definition free_vcpus :: "host_snapshot \<Rightarrow> u32" where
  "free_vcpus h = saturating_sub (hs_total_vcpus h) (hs_used_vcpus h)"

definition free_mem_mib :: "host_snapshot \<Rightarrow> u32" where
  "free_mem_mib h = saturating_sub (hs_total_mem_mib h) (hs_used_mem_mib h)"

definition can_schedule :: "host_snapshot \<Rightarrow> resource_request \<Rightarrow> bool" where
  "can_schedule h req \<longleftrightarrow>
     hs_circuit_state h \<noteq> Open \<and> req_vcpus req \<le> free_vcpus h \<and> req_mem_mib req \<le> free_mem_mib h"

record host_entry =
  he_address :: socket_addr
  he_total_vcpus :: u32
  he_used_vcpus :: u32
  he_total_mem_mib :: u32
  he_used_mem_mib :: u32
  he_sandbox_count :: u32
  he_last_heartbeat :: datetime
  he_breaker :: circuit_breaker

record host_registry =
  hosts :: "uuid \<rightharpoonup> host_entry"
  heartbeat_timeout_secs :: u64

section \<open>Operations\<close>

definition new_host_registry :: "u64 \<Rightarrow> host_registry" where
  "new_host_registry timeout = \<lparr>hosts = Map.empty, heartbeat_timeout_secs = timeout\<rparr>"

definition default_host_registry :: host_registry where
  "default_host_registry = new_host_registry 30"

definition upsert_host ::
    "datetime \<Rightarrow> uuid \<Rightarrow> socket_addr \<Rightarrow> u32 \<Rightarrow> u32 \<Rightarrow> host_registry \<Rightarrow> host_registry" where
  "upsert_host now host_id address total_vcpus total_mem_mib reg =
     reg\<lparr>hosts := (hosts reg)(host_id \<mapsto>
       (case hosts reg host_id of
          Some entry \<Rightarrow> entry\<lparr>he_address := address, he_total_vcpus := total_vcpus,
            he_total_mem_mib := total_mem_mib, he_last_heartbeat := now\<rparr>
        | None \<Rightarrow> \<lparr>he_address = address, he_total_vcpus = total_vcpus, he_used_vcpus = 0,
            he_total_mem_mib = total_mem_mib, he_used_mem_mib = 0, he_sandbox_count = 0,
            he_last_heartbeat = now, he_breaker = new_breaker\<rparr>))\<rparr>"

text \<open>
  The log line of a heartbeat computes \<open>total - used\<close> for processors and memory with the plain
  \<open>-\<close>. \<open>ovf\<close> says that the build has overflow checks and that the line is enabled; the entry is
  updated before the line is reached.
\<close>

definition heartbeat ::
    "bool \<Rightarrow> datetime \<Rightarrow> uuid \<Rightarrow> u32 \<Rightarrow> u32 \<Rightarrow> u32 \<Rightarrow> host_registry \<Rightarrow> host_registry \<times> bool outcome"
    where
  "heartbeat ovf now host_id used_vcpus used_mem_mib sandbox_count reg =
     (case hosts reg host_id of
        Some entry \<Rightarrow>
          (let entry' = entry\<lparr>he_used_vcpus := used_vcpus, he_used_mem_mib := used_mem_mib,
                 he_sandbox_count := sandbox_count, he_last_heartbeat := now,
                 he_breaker := record_success (he_breaker entry)\<rparr>;
               reg' = reg\<lparr>hosts := (hosts reg)(host_id \<mapsto> entry')\<rparr>
           in (reg', (case sub_u32 ovf (he_total_vcpus entry') (he_used_vcpus entry') of
                 Returns _ \<Rightarrow>
                   (case sub_u32 ovf (he_total_mem_mib entry') (he_used_mem_mib entry') of
                      Returns _ \<Rightarrow> Returns True | Panics \<Rightarrow> Panics | Blocks \<Rightarrow> Blocks)
               | Panics \<Rightarrow> Panics | Blocks \<Rightarrow> Blocks)))
      | None \<Rightarrow> (reg, Returns False))"

definition host_record_failure :: "u64 \<Rightarrow> uuid \<Rightarrow> host_registry \<Rightarrow> host_registry" where
  "host_record_failure secs host_id reg =
     (case hosts reg host_id of
        Some entry \<Rightarrow> reg\<lparr>hosts := (hosts reg)(host_id \<mapsto>
          entry\<lparr>he_breaker := record_failure secs (he_breaker entry)\<rparr>)\<rparr>
      | None \<Rightarrow> reg)"

definition registry_remove_host :: "uuid \<Rightarrow> host_registry \<Rightarrow> host_registry \<times> bool" where
  "registry_remove_host host_id reg =
     (reg\<lparr>hosts := (hosts reg)(host_id := None)\<rparr>, hosts reg host_id \<noteq> None)"

definition snapshot_of :: "uuid \<Rightarrow> host_entry \<Rightarrow> circuit_state \<Rightarrow> host_snapshot" where
  "snapshot_of host_id e st =
     \<lparr>hs_host_id = host_id, hs_address = he_address e, hs_total_vcpus = he_total_vcpus e,
      hs_used_vcpus = he_used_vcpus e, hs_total_mem_mib = he_total_mem_mib e,
      hs_used_mem_mib = he_used_mem_mib e, hs_sandbox_count = he_sandbox_count e,
      hs_circuit_state = st, hs_last_heartbeat = he_last_heartbeat e\<rparr>"

definition timed_out :: "datetime \<Rightarrow> host_registry \<Rightarrow> host_entry \<Rightarrow> bool" where
  "timed_out now reg e \<longleftrightarrow>
     heartbeat_timeout_secs reg < as_u64 (num_seconds (now - he_last_heartbeat e))"

text \<open>The iteration of \<open>available_hosts\<close>: a host whose heartbeat is too old is skipped before
  its breaker is read.\<close>

fun available_hosts ::
    "datetime \<Rightarrow> (uuid \<Rightarrow> u64) \<Rightarrow> uuid list \<Rightarrow> host_registry \<Rightarrow> host_registry \<times> host_snapshot list"
    where
  "available_hosts now secs [] reg = (reg, [])"
| "available_hosts now secs (k # ks) reg =
     (case hosts reg k of
        None \<Rightarrow> available_hosts now secs ks reg
      | Some e \<Rightarrow>
          if timed_out now reg e then available_hosts now secs ks reg
          else
            (let (b, st) = breaker_state (secs k) (he_breaker e);
                 reg' = reg\<lparr>hosts := (hosts reg)(k \<mapsto> e\<lparr>he_breaker := b\<rparr>)\<rparr>;
                 (reg'', ss) = available_hosts now secs ks reg'
             in (reg'', snapshot_of k e st # ss)))"

definition get_host ::
    "u64 \<Rightarrow> uuid \<Rightarrow> host_registry \<Rightarrow> host_registry \<times> host_snapshot option" where
  "get_host secs host_id reg =
     (case hosts reg host_id of
        None \<Rightarrow> (reg, None)
      | Some e \<Rightarrow>
          (let (b, st) = breaker_state secs (he_breaker e)
           in (reg\<lparr>hosts := (hosts reg)(host_id \<mapsto> e\<lparr>he_breaker := b\<rparr>)\<rparr>,
               Some (snapshot_of host_id e st))))"

definition host_count :: "host_registry \<Rightarrow> nat" where
  "host_count reg = card (dom (hosts reg))"

definition registry_total_sandboxes :: "bool \<Rightarrow> uuid list \<Rightarrow> host_registry \<Rightarrow> u32 outcome" where
  "registry_total_sandboxes ovf ks reg = sum_u32 ovf (map he_sandbox_count (values_in ks (hosts reg)))"

lemmas registry_op_defs [op_defs] = upsert_host_def heartbeat_def host_record_failure_def
  registry_remove_host_def get_host_def Let_def

section \<open>The invariant: every breaker is well formed\<close>

definition registry_inv :: "host_registry \<Rightarrow> bool" where
  "registry_inv reg \<longleftrightarrow> (\<forall>k e. hosts reg k = Some e \<longrightarrow> breaker_inv (he_breaker e))"

lemma registry_inv_update:
  "registry_inv reg \<Longrightarrow> breaker_inv (he_breaker e) \<Longrightarrow>
   registry_inv (reg\<lparr>hosts := (hosts reg)(k \<mapsto> e)\<rparr>)"
  by (auto simp: registry_inv_def)

lemma breaker_calls_inv [intro]:
  assumes "breaker_inv b"
  shows "breaker_inv (record_success b)" "breaker_inv (record_failure t b)"
    "breaker_inv (fst (breaker_state t b))"
  using breaker_step_inv [OF assms, of CallSuccess] breaker_step_inv [OF assms, of "CallFailure t"]
    breaker_step_inv [OF assms, of "CallState t"] by simp_all

lemma upsert_host_inv: "registry_inv reg \<Longrightarrow> registry_inv (upsert_host now k a v m reg)"
  by (auto simp: registry_inv_def upsert_host_def new_breaker_inv split: option.splits)

lemma heartbeat_inv: "registry_inv reg \<Longrightarrow> registry_inv (fst (heartbeat ovf now k v m c reg))"
  by (auto simp: registry_inv_def heartbeat_def Let_def split: option.splits)

lemma host_record_failure_inv: "registry_inv reg \<Longrightarrow> registry_inv (host_record_failure t k reg)"
  by (auto simp: registry_inv_def host_record_failure_def split: option.splits)

lemma registry_remove_host_inv: "registry_inv reg \<Longrightarrow> registry_inv (fst (registry_remove_host k reg))"
  by (auto simp: registry_inv_def registry_remove_host_def)

lemma get_host_inv:
  assumes "registry_inv reg"
  shows "registry_inv (fst (get_host t k reg))"
proof (cases "hosts reg k")
  case (Some e)
  then have "breaker_inv (fst (breaker_state t (he_breaker e)))"
    using assms by (auto simp: registry_inv_def)
  then show ?thesis using Some assms
    by (auto simp: get_host_def registry_inv_update split: prod.splits)
qed (simp add: get_host_def assms)

lemma available_hosts_inv:
  "registry_inv reg \<Longrightarrow> registry_inv (fst (available_hosts now secs ks reg))"
proof (induction ks arbitrary: reg)
  case (Cons k ks)
  show ?case
  proof (cases "hosts reg k")
    case (Some e)
    have "breaker_inv (fst (breaker_state (secs k) (he_breaker e)))"
      using Some Cons.prems by (auto simp: registry_inv_def)
    then have "registry_inv (reg\<lparr>hosts := (hosts reg)(k \<mapsto>
        e\<lparr>he_breaker := fst (breaker_state (secs k) (he_breaker e))\<rparr>)\<rparr>)"
      using Cons.prems by (simp add: registry_inv_update)
    from Cons.IH [OF this] Cons.IH [OF Cons.prems] Some show ?thesis
      by (simp add: split_def Let_def)
  qed (use Cons in simp)
qed simp

text \<open>The calls on the registry as the events of one machine.\<close>

datatype registry_call =
    UpsertHost datetime uuid socket_addr u32 u32
  | Heartbeat bool datetime uuid u32 u32 u32
  | RecordFailure u64 uuid
  | RemoveHost uuid
  | AvailableHosts datetime "uuid \<Rightarrow> u64" "uuid list"
  | GetHost u64 uuid

fun registry_step :: "registry_call \<Rightarrow> host_registry \<Rightarrow> host_registry" where
  "registry_step (UpsertHost now k a v m) reg = upsert_host now k a v m reg"
| "registry_step (Heartbeat ovf now k v m c) reg = fst (heartbeat ovf now k v m c reg)"
| "registry_step (RecordFailure t k) reg = host_record_failure t k reg"
| "registry_step (RemoveHost k) reg = fst (registry_remove_host k reg)"
| "registry_step (AvailableHosts now secs ks) reg = fst (available_hosts now secs ks reg)"
| "registry_step (GetHost t k) reg = fst (get_host t k reg)"

lemma registry_step_inv: "registry_inv reg \<Longrightarrow> registry_inv (registry_step c reg)"
  by (cases c) (simp_all add: upsert_host_inv heartbeat_inv host_record_failure_inv
      registry_remove_host_inv available_hosts_inv get_host_inv)

interpretation registry: invariant_machine registry_step registry_inv
  by unfold_locales (rule registry_step_inv)

lemma new_host_registry_inv: "registry_inv (new_host_registry t)"
  by (simp add: registry_inv_def new_host_registry_def)

section \<open>What the queries return\<close>

definition refreshed :: "u64 \<Rightarrow> host_entry \<Rightarrow> host_entry" where
  "refreshed t e = e\<lparr>he_breaker := fst (breaker_state t (he_breaker e))\<rparr>"

definition host_view :: "u64 \<Rightarrow> uuid \<Rightarrow> host_entry \<Rightarrow> host_snapshot" where
  "host_view t k e = snapshot_of k e (snd (breaker_state t (he_breaker e)))"

definition live_view :: "datetime \<Rightarrow> (uuid \<Rightarrow> u64) \<Rightarrow> host_registry \<Rightarrow> uuid \<rightharpoonup> host_snapshot" where
  "live_view now secs reg k =
     (case hosts reg k of
        None \<Rightarrow> None
      | Some e \<Rightarrow> if timed_out now reg e then None else Some (host_view (secs k) k e))"

lemma get_host_view:
  "get_host t k reg =
     (case hosts reg k of
        None \<Rightarrow> (reg, None)
      | Some e \<Rightarrow> (reg\<lparr>hosts := (hosts reg)(k \<mapsto> refreshed t e)\<rparr>, Some (host_view t k e)))"
  by (simp add: get_host_def refreshed_def host_view_def split_def Let_def split: option.split)

lemma live_view_update_other:
  "k \<noteq> k' \<Longrightarrow> live_view now secs (reg\<lparr>hosts := (hosts reg)(k \<mapsto> e)\<rparr>) k' = live_view now secs reg k'"
  by (simp add: live_view_def timed_out_def split: option.split)

lemma available_hosts_eq:
  assumes "distinct ks"
  shows "snd (available_hosts now secs ks reg) = values_in ks (live_view now secs reg) \<and>
    fst (available_hosts now secs ks reg) = reg\<lparr>hosts := (\<lambda>k.
      if k \<in> set ks \<and> live_view now secs reg k \<noteq> None
      then map_option (refreshed (secs k)) (hosts reg k) else hosts reg k)\<rparr>"
  using assms
proof (induction ks arbitrary: reg)
  case (Cons k ks)
  show ?case
  proof (cases "live_view now secs reg k")
    case None
    then have "available_hosts now secs (k # ks) reg = available_hosts now secs ks reg"
      by (auto simp: live_view_def split: option.splits if_splits)
    moreover have "(k' \<in> set (k # ks) \<and> live_view now secs reg k' \<noteq> None) =
        (k' \<in> set ks \<and> live_view now secs reg k' \<noteq> None)" for k'
      using None by auto
    ultimately show ?thesis using None Cons by simp
  next
    case (Some v)
    then obtain e where e: "hosts reg k = Some e" "\<not> timed_out now reg e" "v = host_view (secs k) k e"
      by (auto simp: live_view_def split: option.splits if_splits)
    let ?reg = "reg\<lparr>hosts := (hosts reg)(k \<mapsto> refreshed (secs k) e)\<rparr>"
    have step: "available_hosts now secs (k # ks) reg =
        (fst (available_hosts now secs ks ?reg), v # snd (available_hosts now secs ks ?reg))"
      using e by (simp add: split_def Let_def refreshed_def host_view_def)
    have same: "live_view now secs ?reg k' = live_view now secs reg k'" if "k' \<in> set ks" for k'
      using that Cons.prems by (metis distinct.simps(2) live_view_update_other)
    have ih: "snd (available_hosts now secs ks ?reg) = values_in ks (live_view now secs ?reg)"
      "fst (available_hosts now secs ks ?reg) = ?reg\<lparr>hosts := (\<lambda>k.
        if k \<in> set ks \<and> live_view now secs ?reg k \<noteq> None
        then map_option (refreshed (secs k)) (hosts ?reg k) else hosts ?reg k)\<rparr>"
      using Cons by simp_all
    have "values_in ks (live_view now secs ?reg) = values_in ks (live_view now secs reg)"
      by (rule values_in_cong) (rule same)
    moreover have "(\<lambda>k'. if k' \<in> set ks \<and> live_view now secs ?reg k' \<noteq> None
        then map_option (refreshed (secs k')) (hosts ?reg k') else hosts ?reg k') =
      (\<lambda>k'. if k' \<in> set (k # ks) \<and> live_view now secs reg k' \<noteq> None
        then map_option (refreshed (secs k')) (hosts reg k') else hosts reg k')"
      using Some e same Cons.prems by (auto simp: fun_eq_iff)
    ultimately show ?thesis unfolding step using ih Some by simp
  qed
qed simp

text \<open>
  \<open>available_hosts\<close> returns exactly the hosts whose last heartbeat is not older than the
  time-out, in the order of the iteration, each with its current capacity and usage and with the
  state its breaker reports; it changes nothing in the registry but those breakers.
\<close>

theorem available_hosts_exact:
  assumes "iterates ks (hosts reg)"
  shows "snd (available_hosts now secs ks reg) = values_in ks (live_view now secs reg) \<and>
    set (snd (available_hosts now secs ks reg)) =
      {host_view (secs k) k e |k e. hosts reg k = Some e \<and> \<not> timed_out now reg e} \<and>
    hosts (fst (available_hosts now secs ks reg)) =
      (\<lambda>k. map_option (\<lambda>e. if timed_out now reg e then e else refreshed (secs k) e) (hosts reg k))"
proof -
  have d: "distinct ks" and dom: "set ks = dom (hosts reg)"
    using assms by (simp_all add: iterates_def)
  note eq = available_hosts_eq [OF d, of now secs reg]
  have "hosts (fst (available_hosts now secs ks reg)) =
      (\<lambda>k. map_option (\<lambda>e. if timed_out now reg e then e else refreshed (secs k) e) (hosts reg k))"
    using eq dom by (auto simp: fun_eq_iff live_view_def split: option.splits)
  moreover have "set (values_in ks (live_view now secs reg)) =
      {host_view (secs k) k e |k e. hosts reg k = Some e \<and> \<not> timed_out now reg e}"
    using dom by (force simp: set_values_in live_view_def split: option.splits if_splits)
  ultimately show ?thesis using eq by simp
qed

text \<open>A snapshot with the given id and capacities, for the concrete instances.\<close>

definition sample_address :: socket_addr where
  "sample_address = \<lparr>sa_ip = V4 2130706433, sa_port = 9000\<rparr>"

definition sample_host :: "uuid \<Rightarrow> u32 \<Rightarrow> u32 \<Rightarrow> u32 \<Rightarrow> u32 \<Rightarrow> host_snapshot" where
  "sample_host k tv uv tm um =
     \<lparr>hs_host_id = k, hs_address = sample_address, hs_total_vcpus = tv, hs_used_vcpus = uv,
      hs_total_mem_mib = tm, hs_used_mem_mib = um, hs_sandbox_count = 0,
      hs_circuit_state = Closed, hs_last_heartbeat = 0\<rparr>"

text \<open>A registry with two hosts, one of which has not been heard of for 31 seconds.\<close>

definition sample_registry :: host_registry where
  "sample_registry = upsert_host 40000000000 2 sample_address 8 4096
     (upsert_host 9000000000 1 sample_address 4 2048 default_host_registry)"

theorem available_hosts_exact_witness:
  "iterates [1, 2] (hosts sample_registry) \<and>
   snd (available_hosts 40000000000 (\<lambda>_. 40) [1, 2] sample_registry) =
     values_in [1, 2] (live_view 40000000000 (\<lambda>_. 40) sample_registry)"
proof -
  have "iterates [1, 2] (hosts sample_registry)"
    by (auto simp: iterates_def sample_registry_def upsert_host_def default_host_registry_def
        new_host_registry_def split: if_splits)
  then show ?thesis using available_hosts_exact by blast
qed

section \<open>Heartbeats\<close>

lemma num_seconds_nonneg: "0 \<le> d \<Longrightarrow> num_seconds d = d div 1000000000"
  by (simp add: num_seconds_def)

lemma as_u64_neg:
  assumes "i < 0" "- (2 ^ 62) < i"
  shows "2 ^ 63 \<le> unat (as_u64 i)"
proof -
  have "uint (as_u64 i) = i + 2 ^ 64"
  proof -
    have "i mod 2 ^ 64 = (i + 2 ^ 64) mod 2 ^ 64" by simp
    also have "\<dots> = i + 2 ^ 64" using assms by (intro mod_pos_pos_trivial) simp_all
    finally show ?thesis by (simp add: as_u64_def uint_word_of_int take_bit_eq_mod)
  qed
  then have "unat (as_u64 i) = nat (i + 2 ^ 64)" by (simp add: unat_eq_nat_uint)
  then show ?thesis using assms by (simp add: le_nat_iff)
qed

text \<open>
  The liveness window of a host. For clock readings less than \<open>2 ^ 61\<close> seconds apart, a host
  is treated as dead when its last heartbeat is older than the time-out, and also when the
  heartbeat lies a second or more in the future: the negative age is cast to an unsigned
  number, so a host is dropped at once when the scheduler's clock is set back.
\<close>

theorem heartbeat_window:
  assumes "\<bar>now - he_last_heartbeat e\<bar> < 2 ^ 61 * 1000000000"
    and "unat (heartbeat_timeout_secs reg) < 2 ^ 61"
  shows "timed_out now reg e \<longleftrightarrow>
    now - he_last_heartbeat e \<le> - 1000000000 \<or>
    int (unat (heartbeat_timeout_secs reg)) < (now - he_last_heartbeat e) div 1000000000"
proof -
  define d where "d = now - he_last_heartbeat e"
  have d: "\<bar>d\<bar> < 2 ^ 61 * 1000000000" using assms(1) by (simp add: d_def)
  have t: "timed_out now reg e \<longleftrightarrow> unat (heartbeat_timeout_secs reg) < unat (as_u64 (num_seconds d))"
    by (simp add: timed_out_def d_def word_less_nat_alt)
  show ?thesis
  proof (cases "d \<le> - 1000000000")
    case True
    then have "num_seconds d < 0" "- (2 ^ 62) < num_seconds d"
      using d by (auto simp: num_seconds_def)
    from as_u64_neg [OF this] t assms(2) True show ?thesis by (simp add: d_def)
  next
    case False
    have n: "num_seconds d = (if 0 \<le> d then d div 1000000000 else 0)"
      using False by (auto simp: num_seconds_def)
    have lt: "num_seconds d < 2 ^ 64" "0 \<le> num_seconds d"
      using d n by auto
    have "int (unat (as_u64 (num_seconds d))) = num_seconds d"
      using unat_as_u64 [OF lt(2,1)] lt(2) by simp
    then have "timed_out now reg e \<longleftrightarrow> int (unat (heartbeat_timeout_secs reg)) < num_seconds d"
      using t by linarith
    moreover have "\<not> int (unat (heartbeat_timeout_secs reg)) < d div 1000000000" if "d < 0"
    proof -
      have "d div 1000000000 \<le> 0" using that by simp
      then show ?thesis by linarith
    qed
    moreover have "\<not> int (unat (heartbeat_timeout_secs reg)) < 0" by linarith
    ultimately have "timed_out now reg e \<longleftrightarrow>
        int (unat (heartbeat_timeout_secs reg)) < d div 1000000000"
      using n by (cases "0 \<le> d") auto
    with False show ?thesis unfolding d_def [symmetric] by simp
  qed
qed

theorem heartbeat_window_witness:
  "timed_out 8000000000 sample_registry
     \<lparr>he_address = sample_address, he_total_vcpus = 4, he_used_vcpus = 0, he_total_mem_mib = 2048,
      he_used_mem_mib = 0, he_sandbox_count = 0, he_last_heartbeat = 9000000000,
      he_breaker = new_breaker\<rparr>"
proof -
  have t: "heartbeat_timeout_secs sample_registry = 30"
    by (simp add: sample_registry_def upsert_host_def default_host_registry_def
        new_host_registry_def)
  show ?thesis by (subst heartbeat_window) (simp_all add: t)
qed

text \<open>
  A heartbeat of a registered host always records the reported usage and counts as a success
  of the host's breaker, and nothing else in the registry changes; it returns normally unless the
  build checks overflow and the report exceeds the capacity, in which case the call panics after
  the update. A heartbeat of an unknown host changes nothing and returns \<open>false\<close>.
\<close>

theorem heartbeat_effect:
  "hosts (fst (heartbeat ovf now k v m c reg)) =
     (case hosts reg k of
        None \<Rightarrow> hosts reg
      | Some e \<Rightarrow> (hosts reg)(k \<mapsto> e\<lparr>he_used_vcpus := v, he_used_mem_mib := m,
          he_sandbox_count := c, he_last_heartbeat := now,
          he_breaker := record_success (he_breaker e)\<rparr>)) \<and>
   snd (heartbeat ovf now k v m c reg) =
     (case hosts reg k of
        None \<Rightarrow> Returns False
      | Some e \<Rightarrow> if ovf \<and> (he_total_vcpus e < v \<or> he_total_mem_mib e < m) then Panics
          else Returns True)"
  by (auto simp: heartbeat_def sub_u32_def Let_def split: option.splits)

end
