(* ===== verification/Placement.thy ===== *)
theory Placement
  imports Host_Registry
begin

text \<open>
  The three placement strategies (\<open>akssora-scheduler/src/placement.rs\<close>), each as the loop of the
  source, the contract they share as a locale, and what each of them optimises.
\<close>

datatype unplaced_reason = NoHosts | InsufficientResources

datatype placement_decision = Placed host_snapshot | Unplaced unplaced_reason

section \<open>The strategies\<close>

definition decide :: "host_snapshot option \<Rightarrow> host_snapshot list \<Rightarrow> placement_decision" where
  "decide best hs =
     (case best of
        Some host \<Rightarrow> Placed host
      | None \<Rightarrow> if hs = [] then Unplaced NoHosts else Unplaced InsufficientResources)"

fun best_fit_loop ::
    "resource_request \<Rightarrow> host_snapshot list \<Rightarrow> host_snapshot option \<Rightarrow> u32 \<Rightarrow> host_snapshot option"
    where
  "best_fit_loop req [] best best_free = best"
| "best_fit_loop req (host # hs) best best_free =
     (if \<not> can_schedule host req then best_fit_loop req hs best best_free
      else if free_vcpus host < best_free
           then best_fit_loop req hs (Some host) (free_vcpus host)
           else best_fit_loop req hs best best_free)"

definition best_fit_place :: "host_snapshot list \<Rightarrow> resource_request \<Rightarrow> placement_decision" where
  "best_fit_place hs req = decide (best_fit_loop req hs None (- 1)) hs"

fun first_fit_loop :: "resource_request \<Rightarrow> host_snapshot list \<Rightarrow> host_snapshot option" where
  "first_fit_loop req [] = None"
| "first_fit_loop req (host # hs) =
     (if can_schedule host req then Some host else first_fit_loop req hs)"

definition first_fit_place :: "host_snapshot list \<Rightarrow> resource_request \<Rightarrow> placement_decision" where
  "first_fit_place hs req = decide (first_fit_loop req hs) hs"

definition load_score :: "host_snapshot \<Rightarrow> u64" where
  "load_score host = ucast (free_vcpus host) + ucast (free_mem_mib host)"

fun least_loaded_loop ::
    "resource_request \<Rightarrow> host_snapshot list \<Rightarrow> host_snapshot option \<Rightarrow> u64 \<Rightarrow> host_snapshot option"
    where
  "least_loaded_loop req [] best best_score = best"
| "least_loaded_loop req (host # hs) best best_score =
     (if \<not> can_schedule host req then least_loaded_loop req hs best best_score
      else if best_score < load_score host
           then least_loaded_loop req hs (Some host) (load_score host)
           else least_loaded_loop req hs best best_score)"

definition least_loaded_place :: "host_snapshot list \<Rightarrow> resource_request \<Rightarrow> placement_decision" where
  "least_loaded_place hs req = decide (least_loaded_loop req hs None 0) hs"

section \<open>The contract of a strategy\<close>

text \<open>
  What a caller may rely on: a placed host is one of the candidates and has room; \<open>NoHosts\<close> means
  that there were no candidates; and a candidate with room that the strategy does not overlook
  (\<open>seen\<close>) means that some host is placed.
\<close>

locale placement_strategy =
  fixes place :: "host_snapshot list \<Rightarrow> resource_request \<Rightarrow> placement_decision"
    and seen :: "host_snapshot \<Rightarrow> bool"
  assumes sound: "place hs req = Placed h \<Longrightarrow> h \<in> set hs \<and> can_schedule h req"
    and no_hosts: "place hs req = Unplaced NoHosts \<longleftrightarrow> hs = []"
    and complete: "h \<in> set hs \<Longrightarrow> can_schedule h req \<Longrightarrow> seen h \<Longrightarrow> \<exists>h'. place hs req = Placed h'"
begin

text \<open>A placed host is not behind an open breaker and is not filled beyond its capacity.\<close>

lemma placed_fits:
  assumes "place hs req = Placed h"
  shows "hs_circuit_state h \<noteq> Open"
    and "unat (hs_used_vcpus h) + unat (req_vcpus req) \<le> max (unat (hs_total_vcpus h)) (unat (hs_used_vcpus h))"
    and "unat (hs_used_mem_mib h) + unat (req_mem_mib req) \<le> max (unat (hs_total_mem_mib h)) (unat (hs_used_mem_mib h))"
  using sound [OF assms]
  by (auto simp: can_schedule_def free_vcpus_def free_mem_mib_def word_le_nat_alt
      unat_saturating_sub)

lemma insufficient:
  "place hs req = Unplaced InsufficientResources \<Longrightarrow> h \<in> set hs \<Longrightarrow> seen h \<Longrightarrow> \<not> can_schedule h req"
  using complete by fastforce

lemma none_fits:
  assumes "\<And>h. h \<in> set hs \<Longrightarrow> \<not> can_schedule h req" and "hs \<noteq> []"
  shows "place hs req = Unplaced InsufficientResources"
proof (cases "place hs req")
  case (Placed h)
  then show ?thesis using sound assms(1) by blast
next
  case (Unplaced r)
  then show ?thesis using no_hosts assms(2) by (cases r) auto
qed

end

section \<open>What the loops compute\<close>

text \<open>The reference: the first element with the least key.\<close>

fun best_by :: "('a \<Rightarrow> 'b::linorder) \<Rightarrow> 'a list \<Rightarrow> 'a option" where
  "best_by f [] = None"
| "best_by f (x # xs) =
     (case best_by f xs of None \<Rightarrow> Some x | Some y \<Rightarrow> if f x \<le> f y then Some x else Some y)"

lemma best_by_None [simp]: "best_by f xs = None \<longleftrightarrow> xs = []"
  by (cases xs) (auto split: option.splits)

text \<open>The best of the elements that satisfy a predicate, located in the unfiltered list.\<close>

lemma best_by_filter:
  "best_by f (filter P xs) = Some m \<Longrightarrow>
   \<exists>ys zs. xs = ys @ m # zs \<and> P m \<and>
     (\<forall>y\<in>set ys. P y \<longrightarrow> f m < f y) \<and> (\<forall>z\<in>set zs. P z \<longrightarrow> f m \<le> f z)"
proof (induction xs arbitrary: m)
  case (Cons x xs)
  show ?case
  proof (cases "P x \<and> m = x \<and> (\<forall>z\<in>set xs. P z \<longrightarrow> f x \<le> f z)")
    case True
    then show ?thesis by (intro exI [of _ "[]"] exI [of _ xs]) simp
  next
    case False
    have "best_by f (filter P xs) = Some m \<and> (P x \<longrightarrow> f m < f x)"
    proof (cases "best_by f (filter P xs)")
      case None
      then show ?thesis using Cons.prems False by (auto simp: filter_empty_conv split: if_splits)
    next
      case (Some y)
      then obtain ys zs where "xs = ys @ y # zs" "\<forall>v\<in>set ys. P v \<longrightarrow> f y < f v"
        "\<forall>z\<in>set zs. P z \<longrightarrow> f y \<le> f z"
        using Cons.IH by blast
      then have "f x \<le> f y \<Longrightarrow> \<forall>z\<in>set xs. P z \<longrightarrow> f x \<le> f z" by force
      then show ?thesis using Cons.prems Some False by (auto split: if_splits)
    qed
    then obtain ys zs where "xs = ys @ m # zs" "P m" "\<forall>y\<in>set ys. P y \<longrightarrow> f m < f y"
      "\<forall>z\<in>set zs. P z \<longrightarrow> f m \<le> f z" "P x \<longrightarrow> f m < f x"
      using Cons.IH by blast
    then show ?thesis by (intro exI [of _ "x # ys"] exI [of _ zs]) simp
  qed
qed simp

lemma best_by_member: "best_by f (filter P xs) = Some m \<Longrightarrow> m \<in> set xs \<and> P m"
  by (auto dest!: best_by_filter)

lemma best_by_below:
  "best_by f (filter (\<lambda>x. P x \<and> f x < c) xs) =
     (case best_by f (filter P xs) of None \<Rightarrow> None | Some m \<Rightarrow> if f m < c then Some m else None)"
  by (induction xs) (auto split: option.splits if_splits)

lemma best_by_above:
  "best_by (\<lambda>x. - g x) (filter (\<lambda>x. P x \<and> c < g x) xs) =
     (case best_by (\<lambda>x. - g x) (filter P xs) of
        None \<Rightarrow> None | Some m \<Rightarrow> if c < g m then Some m else None)"
  for g :: "'a \<Rightarrow> int"
  using best_by_below [of "\<lambda>x. - g x" P "- c" xs] by (auto split: option.splits)

lemma best_fit_loop_eq:
  "best_fit_loop req hs best b =
     (case best_by free_vcpus (filter (\<lambda>h. can_schedule h req \<and> free_vcpus h < b) hs) of
        None \<Rightarrow> best | Some h \<Rightarrow> Some h)"
  by (induction hs arbitrary: best b) (auto simp: best_by_below split: option.splits if_splits)

lemma least_loaded_loop_eq:
  "least_loaded_loop req hs best b =
     (case best_by (\<lambda>h. - uint (load_score h))
         (filter (\<lambda>h. can_schedule h req \<and> uint b < uint (load_score h)) hs) of
        None \<Rightarrow> best | Some h \<Rightarrow> Some h)"
  by (induction hs arbitrary: best b)
    (auto simp: best_by_above word_less_def split: option.splits if_splits)

lemma first_fit_loop_find: "first_fit_loop req hs = find (\<lambda>h. can_schedule h req) hs"
  by (induction hs) auto

lemma load_score_unat: "unat (load_score h) = unat (free_vcpus h) + unat (free_mem_mib h)"
proof -
  have "unat (free_vcpus h) < 2 ^ 32" "unat (free_mem_mib h) < 2 ^ 32"
    using unsigned_less [of "free_vcpus h"] unsigned_less [of "free_mem_mib h"] by simp_all
  then show ?thesis
    by (simp add: load_score_def unat_word_ariths unsigned_ucast_eq take_bit_nat_eq_self)
qed

lemma best_fit_place_eq:
  "best_fit_place hs req =
     decide (best_by free_vcpus (filter (\<lambda>h. can_schedule h req \<and> free_vcpus h \<noteq> - 1) hs)) hs"
proof -
  have "free_vcpus h < - 1 \<longleftrightarrow> free_vcpus h \<noteq> - 1" for h
    using word_order.not_eq_extremum by auto
  then show ?thesis
    by (simp add: best_fit_place_def best_fit_loop_eq split: option.split)
qed

lemma least_loaded_place_eq:
  "least_loaded_place hs req =
     decide (best_by (\<lambda>h. - uint (load_score h))
       (filter (\<lambda>h. can_schedule h req \<and> load_score h \<noteq> 0) hs)) hs"
proof -
  have "uint (0 :: u64) < uint (load_score h) \<longleftrightarrow> load_score h \<noteq> 0" for h
    by (simp add: uint_0_iff less_le)
  then show ?thesis
    by (simp add: least_loaded_place_def least_loaded_loop_eq split: option.split)
qed

lemma first_fit_place_eq:
  "first_fit_place hs req = decide (find (\<lambda>h. can_schedule h req) hs) hs"
  by (simp add: first_fit_place_def first_fit_loop_find)

lemma decide_simps:
  "decide best hs = Placed h \<longleftrightarrow> best = Some h"
  "decide best hs = Unplaced NoHosts \<longleftrightarrow> best = None \<and> hs = []"
  "decide best hs = Unplaced InsufficientResources \<longleftrightarrow> best = None \<and> hs \<noteq> []"
  by (auto simp: decide_def split: option.splits)

interpretation best_fit: placement_strategy best_fit_place "\<lambda>h. free_vcpus h \<noteq> - 1"
proof
  fix hs req h
  assume "best_fit_place hs req = Placed h"
  then show "h \<in> set hs \<and> can_schedule h req"
    by (auto simp: best_fit_place_eq decide_simps dest!: best_by_member)
next
  fix hs req
  show "best_fit_place hs req = Unplaced NoHosts \<longleftrightarrow> hs = []"
    by (auto simp: best_fit_place_eq decide_simps)
next
  fix hs req h
  assume "h \<in> set hs" "can_schedule h req" "free_vcpus h \<noteq> - 1"
  then have "best_by free_vcpus (filter (\<lambda>h. can_schedule h req \<and> free_vcpus h \<noteq> - 1) hs) \<noteq> None"
    by (auto simp: filter_empty_conv)
  then show "\<exists>h'. best_fit_place hs req = Placed h'"
    by (simp only: best_fit_place_eq decide_simps not_None_eq)
qed

interpretation first_fit: placement_strategy first_fit_place "\<lambda>h. True"
proof
  fix hs req h
  assume "first_fit_place hs req = Placed h"
  then show "h \<in> set hs \<and> can_schedule h req"
    by (auto simp: first_fit_place_eq decide_simps find_Some_iff)
next
  fix hs req
  show "first_fit_place hs req = Unplaced NoHosts \<longleftrightarrow> hs = []"
    by (auto simp: first_fit_place_eq decide_simps)
next
  fix hs req h
  assume "h \<in> set hs" "can_schedule h req"
  then have "find (\<lambda>h. can_schedule h req) hs \<noteq> None"
    by (auto simp: find_None_iff)
  then show "\<exists>h'. first_fit_place hs req = Placed h'"
    by (auto simp: first_fit_place_eq decide_simps)
qed

interpretation least_loaded: placement_strategy least_loaded_place "\<lambda>h. load_score h \<noteq> 0"
proof
  fix hs req h
  assume "least_loaded_place hs req = Placed h"
  then show "h \<in> set hs \<and> can_schedule h req"
    by (auto simp: least_loaded_place_eq decide_simps dest!: best_by_member)
next
  fix hs req
  show "least_loaded_place hs req = Unplaced NoHosts \<longleftrightarrow> hs = []"
    by (auto simp: least_loaded_place_eq decide_simps)
next
  fix hs req h
  assume "h \<in> set hs" "can_schedule h req" "load_score h \<noteq> 0"
  then have "best_by (\<lambda>h. - uint (load_score h))
      (filter (\<lambda>h. can_schedule h req \<and> load_score h \<noteq> 0) hs) \<noteq> None"
    by (auto simp: filter_empty_conv)
  then show "\<exists>h'. least_loaded_place hs req = Placed h'"
    by (simp only: least_loaded_place_eq decide_simps not_None_eq)
qed

section \<open>Properties\<close>

text \<open>
  C21. Best fit: the loop places on the first of the hosts that can take the request and have the
  fewest free processors among them; it reports \<open>NoHosts\<close> for an empty list and
  \<open>InsufficientResources\<close> exactly when no host can take the request, except that a host with
  \<open>u32::MAX\<close> free processors, the initial value of the running minimum, is never chosen.
\<close>

theorem best_fit_correct:
  "(\<forall>h. best_fit_place hs req = Placed h \<longrightarrow>
     (\<exists>ys zs. hs = ys @ h # zs \<and> can_schedule h req \<and>
       (\<forall>y\<in>set ys. can_schedule y req \<longrightarrow> free_vcpus h < free_vcpus y) \<and>
       (\<forall>z\<in>set zs. can_schedule z req \<longrightarrow> free_vcpus h \<le> free_vcpus z))) \<and>
   (best_fit_place hs req = Unplaced NoHosts \<longleftrightarrow> hs = []) \<and>
   (best_fit_place hs req = Unplaced InsufficientResources \<longleftrightarrow>
     hs \<noteq> [] \<and> (\<forall>h\<in>set hs. can_schedule h req \<longrightarrow> free_vcpus h = - 1))"
proof (intro conjI allI impI)
  fix h
  assume "best_fit_place hs req = Placed h"
  then have b: "best_by free_vcpus
      (filter (\<lambda>h. can_schedule h req \<and> free_vcpus h \<noteq> - 1) hs) = Some h"
    by (simp add: best_fit_place_eq decide_simps)
  from best_by_filter [OF b] obtain ys zs where
    "hs = ys @ h # zs" "can_schedule h req" "free_vcpus h \<noteq> - 1"
    "\<forall>y\<in>set ys. can_schedule y req \<and> free_vcpus y \<noteq> - 1 \<longrightarrow> free_vcpus h < free_vcpus y"
    "\<forall>z\<in>set zs. can_schedule z req \<and> free_vcpus z \<noteq> - 1 \<longrightarrow> free_vcpus h \<le> free_vcpus z"
    by blast
  moreover have "free_vcpus h < - 1"
    using calculation(3) word_order.not_eq_extremum by auto
  ultimately show "\<exists>ys zs. hs = ys @ h # zs \<and> can_schedule h req \<and>
      (\<forall>y\<in>set ys. can_schedule y req \<longrightarrow> free_vcpus h < free_vcpus y) \<and>
      (\<forall>z\<in>set zs. can_schedule z req \<longrightarrow> free_vcpus h \<le> free_vcpus z)"
    by (metis order_less_imp_le)
qed (auto simp: best_fit.no_hosts best_fit_place_eq decide_simps filter_empty_conv)

lemmas placement_eval = best_fit_place_def least_loaded_place_def first_fit_place_def decide_def
  can_schedule_def free_vcpus_def free_mem_mib_def load_score_def saturating_sub_def sample_host_def
  word_le_nat_alt word_less_nat_alt unsigned_minus_1_eq_mask mask_eq_exp_minus_1

theorem best_fit_correct_witness:
  "(let a = sample_host 1 8 0 4096 0; b = sample_host 2 8 6 4096 3500;
        req = \<lparr>req_vcpus = 1, req_mem_mib = 512\<rparr>
    in best_fit_place [a, b] req = Placed b \<and>
       (\<exists>ys zs. [a, b] = ys @ b # zs \<and>
         (\<forall>y\<in>set ys. can_schedule y req \<longrightarrow> free_vcpus b < free_vcpus y)))"
proof -
  let ?a = "sample_host 1 8 0 4096 0" and ?b = "sample_host 2 8 6 4096 3500"
  let ?req = "\<lparr>req_vcpus = 1, req_mem_mib = 512\<rparr>"
  have "best_fit_place [?a, ?b] ?req = Placed ?b"
    by (simp add: placement_eval)
  with best_fit_correct [of "[?a, ?b]" ?req] show ?thesis unfolding Let_def by blast
qed

text \<open>
  Least loaded: the loop places on the first of the hosts that can take the request and have
  the largest sum of free processors and free memory, computed in 64 bits so that it cannot
  overflow; a host with nothing free, the initial value of the running maximum, is never chosen
  (it can only take the empty request).
\<close>

theorem least_loaded_correct:
  "(\<forall>h. least_loaded_place hs req = Placed h \<longrightarrow>
     (\<exists>ys zs. hs = ys @ h # zs \<and> can_schedule h req \<and>
       (\<forall>y\<in>set ys. can_schedule y req \<longrightarrow>
         unat (free_vcpus y) + unat (free_mem_mib y) < unat (free_vcpus h) + unat (free_mem_mib h)) \<and>
       (\<forall>z\<in>set zs. can_schedule z req \<longrightarrow>
         unat (free_vcpus z) + unat (free_mem_mib z) \<le> unat (free_vcpus h) + unat (free_mem_mib h)))) \<and>
   (least_loaded_place hs req = Unplaced NoHosts \<longleftrightarrow> hs = []) \<and>
   (least_loaded_place hs req = Unplaced InsufficientResources \<longleftrightarrow>
     hs \<noteq> [] \<and>
     (\<forall>h\<in>set hs. can_schedule h req \<longrightarrow> free_vcpus h = 0 \<and> free_mem_mib h = 0))"
proof (intro conjI allI impI)
  fix h
  assume "least_loaded_place hs req = Placed h"
  then have b: "best_by (\<lambda>h. - uint (load_score h))
      (filter (\<lambda>h. can_schedule h req \<and> load_score h \<noteq> 0) hs) = Some h"
    by (simp add: least_loaded_place_eq decide_simps)
  from best_by_filter [OF b] obtain ys zs where s:
    "hs = ys @ h # zs" "can_schedule h req" "load_score h \<noteq> 0"
    "\<forall>y\<in>set ys. can_schedule y req \<and> load_score y \<noteq> 0 \<longrightarrow> load_score y < load_score h"
    "\<forall>z\<in>set zs. can_schedule z req \<and> load_score z \<noteq> 0 \<longrightarrow> load_score z \<le> load_score h"
    by (auto simp: word_less_def word_le_def)
  have pos: "0 < load_score h" using s(3) by (simp add: word_neq_0_conv)
  have "\<forall>y\<in>set ys. can_schedule y req \<longrightarrow> load_score y < load_score h"
    using s(4) pos by metis
  moreover have "\<forall>z\<in>set zs. can_schedule z req \<longrightarrow> load_score z \<le> load_score h"
    using s(5) by (metis word_zero_le)
  ultimately show "\<exists>ys zs. hs = ys @ h # zs \<and> can_schedule h req \<and>
       (\<forall>y\<in>set ys. can_schedule y req \<longrightarrow>
         unat (free_vcpus y) + unat (free_mem_mib y) < unat (free_vcpus h) + unat (free_mem_mib h)) \<and>
       (\<forall>z\<in>set zs. can_schedule z req \<longrightarrow>
         unat (free_vcpus z) + unat (free_mem_mib z) \<le> unat (free_vcpus h) + unat (free_mem_mib h))"
    using s(1,2) unfolding word_less_nat_alt word_le_nat_alt load_score_unat by blast
qed (auto simp: least_loaded.no_hosts least_loaded_place_eq decide_simps filter_empty_conv
    unat_eq_0 load_score_unat simp flip: unat_eq_0)

theorem least_loaded_correct_witness:
  "(let a = sample_host 1 16 10 8192 6000; b = sample_host 2 16 2 8192 1000;
        req = \<lparr>req_vcpus = 1, req_mem_mib = 512\<rparr>
    in least_loaded_place [a, b] req = Placed b \<and>
       (\<exists>ys zs. [a, b] = ys @ b # zs \<and> (\<forall>y\<in>set ys. can_schedule y req \<longrightarrow>
         unat (free_vcpus y) + unat (free_mem_mib y) < unat (free_vcpus b) + unat (free_mem_mib b))))"
proof -
  let ?a = "sample_host 1 16 10 8192 6000" and ?b = "sample_host 2 16 2 8192 1000"
  let ?req = "\<lparr>req_vcpus = 1, req_mem_mib = 512\<rparr>"
  have "least_loaded_place [?a, ?b] ?req = Placed ?b"
    by (simp add: placement_eval)
  with least_loaded_correct [of "[?a, ?b]" ?req] show ?thesis unfolding Let_def by blast
qed

end
