(* ===== verification/Region_Registry.thy ===== *)
theory Region_Registry
  imports Placement
begin

text \<open>
  Regions and the hosts in them (\<open>akssora-scheduler/src/region_registry.rs\<close>). The host registry
  is shared with the rest of the scheduler, so the operations that use it take it and return it.
\<close>

section \<open>Data\<close>

record host_region_entry =
  hre_region_id :: string
  hre_address :: socket_addr
  hre_registered_at :: datetime

record region =
  rg_id :: string
  rg_display_name :: string
  rg_location :: string
  rg_enabled :: bool
  rg_registered_at :: datetime
  rg_hosts :: "uuid \<rightharpoonup> host_region_entry"

record region_registry =
  regions :: "string \<rightharpoonup> region"
  host_regions :: "uuid \<rightharpoonup> string"

datatype placement_strategy_kind = BestFit | FirstFit | LeastLoaded

record region_info =
  ri_id :: string
  ri_display_name :: string
  ri_location :: string
  ri_enabled :: bool
  ri_host_count :: u32
  ri_total_vcpus :: u32
  ri_total_mem_mib :: u32
  ri_free_vcpus :: u32
  ri_free_mem_mib :: u32

section \<open>Operations\<close>

definition new_region_registry :: region_registry where
  "new_region_registry = \<lparr>regions = Map.empty, host_regions = Map.empty\<rparr>"

definition register_region ::
    "datetime \<Rightarrow> string \<Rightarrow> string \<Rightarrow> string \<Rightarrow> region_registry \<Rightarrow> region_registry" where
  "register_region now region_id display_name location rr =
     rr\<lparr>regions := (regions rr)(region_id \<mapsto>
       \<lparr>rg_id = region_id, rg_display_name = display_name, rg_location = location, rg_enabled = True,
        rg_registered_at = now, rg_hosts = Map.empty\<rparr>)\<rparr>"

definition register_host ::
    "datetime \<Rightarrow> uuid \<Rightarrow> string \<Rightarrow> socket_addr \<Rightarrow> u32 \<Rightarrow> u32 \<Rightarrow> region_registry \<Rightarrow> host_registry \<Rightarrow>
     region_registry \<times> host_registry \<times> bool" where
  "register_host now host_id region_id address total_vcpus total_mem_mib rr hr =
     (case regions rr region_id of
        None \<Rightarrow> (rr, hr, False)
      | Some region \<Rightarrow>
          (rr\<lparr>regions := (regions rr)(region_id \<mapsto>
                region\<lparr>rg_hosts := (rg_hosts region)(host_id \<mapsto>
                  \<lparr>hre_region_id = region_id, hre_address = address, hre_registered_at = now\<rparr>)\<rparr>),
              host_regions := (host_regions rr)(host_id \<mapsto> region_id)\<rparr>,
           upsert_host now host_id address total_vcpus total_mem_mib hr, True))"

definition region_remove_host ::
    "uuid \<Rightarrow> region_registry \<Rightarrow> host_registry \<Rightarrow> region_registry \<times> host_registry \<times> bool" where
  "region_remove_host host_id rr hr =
     (case host_regions rr host_id of
        None \<Rightarrow> (rr, hr, False)
      | Some region_id \<Rightarrow>
          (let rr' = rr\<lparr>host_regions := (host_regions rr)(host_id := None)\<rparr>;
               rr'' = (case regions rr' region_id of
                   None \<Rightarrow> rr'
                 | Some region \<Rightarrow> rr'\<lparr>regions := (regions rr')(region_id \<mapsto>
                     region\<lparr>rg_hosts := (rg_hosts region)(host_id := None)\<rparr>)\<rparr>)
           in (rr'', fst (registry_remove_host host_id hr), True)))"

text \<open>The iteration over the hosts of a region, in the order \<open>ks\<close>, with a look-up of each in the
  host registry.\<close>

fun region_snapshots ::
    "(uuid \<Rightarrow> u64) \<Rightarrow> uuid list \<Rightarrow> region \<Rightarrow> host_registry \<Rightarrow> host_registry \<times> host_snapshot list" where
  "region_snapshots secs [] region hr = (hr, [])"
| "region_snapshots secs (k # ks) region hr =
     (case rg_hosts region k of
        None \<Rightarrow> region_snapshots secs ks region hr
      | Some _ \<Rightarrow>
          (let (hr', found) = get_host (secs k) k hr;
               (hr'', ss) = region_snapshots secs ks region hr'
           in (hr'', (case found of None \<Rightarrow> ss | Some h \<Rightarrow> h # ss))))"

definition hosts_in_region ::
    "(uuid \<Rightarrow> u64) \<Rightarrow> uuid list \<Rightarrow> string \<Rightarrow> region_registry \<Rightarrow> host_registry \<Rightarrow>
     host_registry \<times> host_snapshot list" where
  "hosts_in_region secs ks region_id rr hr =
     (case regions rr region_id of
        None \<Rightarrow> (hr, [])
      | Some region \<Rightarrow> region_snapshots secs ks region hr)"

definition is_region_available :: "string \<Rightarrow> region_registry \<Rightarrow> bool" where
  "is_region_available region_id rr =
     (case regions rr region_id of None \<Rightarrow> False | Some region \<Rightarrow> rg_enabled region)"

definition host_region :: "uuid \<Rightarrow> region_registry \<Rightarrow> string option" where
  "host_region host_id rr = host_regions rr host_id"

definition list_regions :: "string list \<Rightarrow> region_registry \<Rightarrow> region list" where
  "list_regions rs rr = values_in rs (regions rr)"

definition list_enabled_regions :: "string list \<Rightarrow> region_registry \<Rightarrow> region list" where
  "list_enabled_regions rs rr = filter rg_enabled (values_in rs (regions rr))"

definition set_region_enabled :: "bool \<Rightarrow> string \<Rightarrow> region_registry \<Rightarrow> region_registry \<times> bool" where
  "set_region_enabled b region_id rr =
     (case regions rr region_id of
        None \<Rightarrow> (rr, False)
      | Some region \<Rightarrow>
          (rr\<lparr>regions := (regions rr)(region_id \<mapsto> region\<lparr>rg_enabled := b\<rparr>)\<rparr>, True))"

definition disable_region :: "string \<Rightarrow> region_registry \<Rightarrow> region_registry \<times> bool" where
  "disable_region region_id rr = set_region_enabled False region_id rr"

definition enable_region :: "string \<Rightarrow> region_registry \<Rightarrow> region_registry \<times> bool" where
  "enable_region region_id rr = set_region_enabled True region_id rr"

text \<open>The candidates of a placement: the hosts of the region asked for, or all live hosts; \<open>None\<close>
  when the region asked for is missing or disabled. \<open>ks\<close> is the order of the iteration.\<close>

definition place_sandbox ::
    "datetime \<Rightarrow> (uuid \<Rightarrow> u64) \<Rightarrow> uuid list \<Rightarrow> resource_request \<Rightarrow> string option \<Rightarrow>
     region_registry \<Rightarrow> host_registry \<Rightarrow> host_registry \<times> placement_decision" where
  "place_sandbox now secs ks request region_id rr hr =
     (case region_id of
        Some rid \<Rightarrow>
          if \<not> is_region_available rid rr then (hr, Unplaced NoHosts)
          else (let (hr', hs) = hosts_in_region secs ks rid rr hr in (hr', best_fit_place hs request))
      | None \<Rightarrow>
          (let (hr', hs) = available_hosts now secs ks hr in (hr', best_fit_place hs request)))"

fun place_by :: "placement_strategy_kind \<Rightarrow> host_snapshot list \<Rightarrow> resource_request \<Rightarrow> placement_decision" where
  "place_by BestFit hs request = best_fit_place hs request"
| "place_by FirstFit hs request = first_fit_place hs request"
| "place_by LeastLoaded hs request = least_loaded_place hs request"

definition place_sandbox_with_strategy ::
    "datetime \<Rightarrow> (uuid \<Rightarrow> u64) \<Rightarrow> uuid list \<Rightarrow> resource_request \<Rightarrow> string option \<Rightarrow>
     placement_strategy_kind \<Rightarrow> region_registry \<Rightarrow> host_registry \<Rightarrow>
     host_registry \<times> placement_decision" where
  "place_sandbox_with_strategy now secs ks request region_id strategy rr hr =
     (case region_id of
        Some rid \<Rightarrow>
          if \<not> is_region_available rid rr then (hr, Unplaced NoHosts)
          else (let (hr', hs) = hosts_in_region secs ks rid rr hr in (hr', place_by strategy hs request))
      | None \<Rightarrow>
          (let (hr', hs) = available_hosts now secs ks hr in (hr', place_by strategy hs request)))"

definition seq_outcome :: "'a outcome \<Rightarrow> ('a \<Rightarrow> 'b outcome) \<Rightarrow> 'b outcome" where
  "seq_outcome x f = (case x of Returns v \<Rightarrow> f v | Panics \<Rightarrow> Panics | Blocks \<Rightarrow> Blocks)"

definition region_capacity ::
    "bool \<Rightarrow> (uuid \<Rightarrow> u64) \<Rightarrow> uuid list \<Rightarrow> string \<Rightarrow> region_registry \<Rightarrow> host_registry \<Rightarrow>
     host_registry \<times> (u32 \<times> u32 \<times> u32) option outcome" where
  "region_capacity ovf secs ks region_id rr hr =
     (let (hr', hs) = hosts_in_region secs ks region_id rr hr
      in (hr', seq_outcome (sum_u32 ovf (map hs_total_vcpus hs)) (\<lambda>total_vcpus.
               seq_outcome (sum_u32 ovf (map hs_total_mem_mib hs)) (\<lambda>total_mem.
               Returns (Some (total_vcpus, total_mem, of_nat (length hs)))))))"

definition region_count :: "region_registry \<Rightarrow> nat" where
  "region_count rr = card (dom (regions rr))"

definition region_total_hosts :: "region_registry \<Rightarrow> nat" where
  "region_total_hosts rr = card (dom (host_regions rr))"

definition get_region_info ::
    "bool \<Rightarrow> (uuid \<Rightarrow> u64) \<Rightarrow> uuid list \<Rightarrow> string \<Rightarrow> region_registry \<Rightarrow> host_registry \<Rightarrow>
     host_registry \<times> region_info option outcome" where
  "get_region_info ovf secs ks region_id rr hr =
     (case regions rr region_id of
        None \<Rightarrow> (hr, Returns None)
      | Some region \<Rightarrow>
          (let (hr', hs) = hosts_in_region secs ks region_id rr hr
           in (hr', seq_outcome (sum_u32 ovf (map hs_total_vcpus hs)) (\<lambda>total_vcpus.
                    seq_outcome (sum_u32 ovf (map hs_total_mem_mib hs)) (\<lambda>total_mem.
                    seq_outcome (sum_u32 ovf (map free_vcpus hs)) (\<lambda>free_v.
                    seq_outcome (sum_u32 ovf (map free_mem_mib hs)) (\<lambda>free_mem.
                    Returns (Some \<lparr>ri_id = rg_id region, ri_display_name = rg_display_name region,
                      ri_location = rg_location region, ri_enabled = rg_enabled region,
                      ri_host_count = of_nat (length hs), ri_total_vcpus = total_vcpus,
                      ri_total_mem_mib = total_mem, ri_free_vcpus = free_v,
                      ri_free_mem_mib = free_mem\<rparr>))))))))"

text \<open>\<open>kss\<close> gives the order of the iteration over the hosts of each region.\<close>

fun list_region_info ::
    "bool \<Rightarrow> (uuid \<Rightarrow> u64) \<Rightarrow> (string \<Rightarrow> uuid list) \<Rightarrow> string list \<Rightarrow> region_registry \<Rightarrow> host_registry \<Rightarrow>
     host_registry \<times> region_info list outcome" where
  "list_region_info ovf secs kss [] rr hr = (hr, Returns [])"
| "list_region_info ovf secs kss (r # rs) rr hr =
     (case get_region_info ovf secs (kss r) r rr hr of
        (hr', Returns info) \<Rightarrow>
          (let (hr'', rest) = list_region_info ovf secs kss rs rr hr'
           in (hr'', map_outcome_val (\<lambda>is. case info of None \<Rightarrow> is | Some i \<Rightarrow> i # is) rest))
      | (hr', Panics) \<Rightarrow> (hr', Panics)
      | (hr', Blocks) \<Rightarrow> (hr', Blocks))"

section \<open>What a placement sees\<close>

lemma get_host_snd: "snd (get_host t k hr) = map_option (host_view t k) (hosts hr k)"
  by (simp add: get_host_view split: option.split)

lemma get_host_other: "k \<noteq> k' \<Longrightarrow> hosts (fst (get_host t k hr)) k' = hosts hr k'"
  by (simp add: get_host_view split: option.split)

lemma get_host_dom: "dom (hosts (fst (get_host t k hr))) = dom (hosts hr)"
  by (auto simp: get_host_view split: option.splits)

definition region_view :: "(uuid \<Rightarrow> u64) \<Rightarrow> region \<Rightarrow> host_registry \<Rightarrow> uuid \<rightharpoonup> host_snapshot" where
  "region_view secs region hr k =
     (if rg_hosts region k = None then None else map_option (host_view (secs k) k) (hosts hr k))"

lemma region_snapshots_eq:
  "distinct ks \<Longrightarrow> snd (region_snapshots secs ks region hr) = values_in ks (region_view secs region hr)"
proof (induction ks arbitrary: hr)
  case (Cons k ks)
  show ?case
  proof (cases "rg_hosts region k")
    case None
    then show ?thesis using Cons by (simp add: region_view_def)
  next
    case (Some e)
    let ?hr = "fst (get_host (secs k) k hr)"
    have "values_in ks (region_view secs region ?hr) = values_in ks (region_view secs region hr)"
    proof (rule values_in_cong)
      fix k' assume "k' \<in> set ks"
      with Cons.prems have "k \<noteq> k'" by auto
      then show "region_view secs region ?hr k' = region_view secs region hr k'"
        by (simp add: region_view_def get_host_other)
    qed
    moreover have "snd (get_host (secs k) k hr) = region_view secs region hr k"
      using Some by (simp add: region_view_def get_host_snd)
    ultimately show ?thesis using Some Cons
      by (simp add: split_def Let_def split: option.split)
  qed
qed simp

lemma region_snapshots_inv:
  "registry_inv hr \<Longrightarrow> registry_inv (fst (region_snapshots secs ks region hr))"
proof (induction ks arbitrary: hr)
  case (Cons k ks)
  then show ?case
    using get_host_inv [OF Cons.prems, of "secs k" k]
    by (auto simp: split_def Let_def split: option.split)
qed simp

lemma region_snapshots_empty: "rg_hosts region = Map.empty \<Longrightarrow> region_snapshots secs ks region hr = (hr, [])"
  by (induction ks) simp_all

text \<open>The candidates of a placement, and the placement as best fit over them.\<close>

definition candidates ::
    "datetime \<Rightarrow> (uuid \<Rightarrow> u64) \<Rightarrow> uuid list \<Rightarrow> string option \<Rightarrow> region_registry \<Rightarrow> host_registry \<Rightarrow>
     host_snapshot list" where
  "candidates now secs ks region_id rr hr =
     (case region_id of
        None \<Rightarrow> values_in ks (live_view now secs hr)
      | Some rid \<Rightarrow>
          (case regions rr rid of
             None \<Rightarrow> []
           | Some region \<Rightarrow> if rg_enabled region then values_in ks (region_view secs region hr) else []))"

lemma best_fit_nil: "best_fit_place [] req = Unplaced NoHosts"
  by (simp add: best_fit.no_hosts)

lemma place_by_nil: "place_by s [] req = Unplaced NoHosts"
  by (cases s) (simp_all add: best_fit.no_hosts first_fit.no_hosts least_loaded.no_hosts)

lemma place_with_strategy_candidates:
  "distinct ks \<Longrightarrow>
   snd (place_sandbox_with_strategy now secs ks req region_id s rr hr) =
     place_by s (candidates now secs ks region_id rr hr) req"
  by (auto simp: place_sandbox_with_strategy_def candidates_def is_region_available_def
      hosts_in_region_def place_by_nil available_hosts_eq region_snapshots_eq split_def Let_def
      split: option.split)

lemma place_sandbox_best_fit:
  "place_sandbox now secs ks req region_id rr hr =
   place_sandbox_with_strategy now secs ks req region_id BestFit rr hr"
  by (simp add: place_sandbox_def place_sandbox_with_strategy_def split_def Let_def
      split: option.split)

lemma candidates_member:
  assumes "h \<in> set (candidates now secs ks region_id rr hr)"
  shows "\<exists>k e. k \<in> set ks \<and> hosts hr k = Some e \<and> h = host_view (secs k) k e \<and>
    (case region_id of
       None \<Rightarrow> \<not> timed_out now hr e
     | Some rid \<Rightarrow> \<exists>region. regions rr rid = Some region \<and> rg_enabled region \<and>
         rg_hosts region k \<noteq> None)"
proof (cases region_id)
  case None
  then obtain k where "k \<in> set ks" "live_view now secs hr k = Some h"
    using assms by (auto simp: candidates_def set_values_in)
  then show ?thesis using None by (auto simp: live_view_def split: option.splits if_splits)
next
  case (Some rid)
  with assms obtain region where r: "regions rr rid = Some region" "rg_enabled region"
    "h \<in> set (values_in ks (region_view secs region hr))"
    by (cases "regions rr rid") (auto simp: candidates_def split: if_splits)
  then obtain k where k: "k \<in> set ks" "region_view secs region hr k = Some h"
    by (auto simp: set_values_in)
  from k obtain e where "rg_hosts region k \<noteq> None" "hosts hr k = Some e" "h = host_view (secs k) k e"
    by (auto simp: region_view_def split: if_splits)
  with r k Some show ?thesis by auto
qed

lemma placed_candidate:
  assumes "distinct ks"
    and "snd (place_sandbox_with_strategy now secs ks req region_id s rr hr) = Placed h"
  obtains k e where "hosts hr k = Some e" "h = host_view (secs k) k e" "can_schedule h req"
    "case region_id of None \<Rightarrow> \<not> timed_out now hr e
     | Some rid \<Rightarrow> \<exists>region. regions rr rid = Some region \<and> rg_enabled region \<and> rg_hosts region k \<noteq> None"
proof -
  have "place_by s (candidates now secs ks region_id rr hr) req = Placed h"
    using assms by (simp add: place_with_strategy_candidates)
  then have "h \<in> set (candidates now secs ks region_id rr hr) \<and> can_schedule h req"
    by (cases s) (simp_all add: best_fit.sound first_fit.sound least_loaded.sound)
  then show thesis using that candidates_member by blast
qed

lemma host_view_fits:
  "can_schedule (host_view t k e) req \<longleftrightarrow> snd (breaker_state t (he_breaker e)) \<noteq> Open \<and>
     unat (req_vcpus req) \<le> unat (he_total_vcpus e) - unat (he_used_vcpus e) \<and>
     unat (req_mem_mib req) \<le> unat (he_total_mem_mib e) - unat (he_used_mem_mib e)"
  by (simp add: can_schedule_def host_view_def snapshot_of_def free_vcpus_def free_mem_mib_def
      word_le_nat_alt unat_saturating_sub)

text \<open>
  C19. Every placement, by any strategy, is sound: the host returned is registered, its breaker
  does not report open, its free processors and memory cover the request; it belongs to the
  enabled region asked for or, when no region was asked for, its last heartbeat is recent enough.
\<close>

theorem placement_sound:
  assumes "distinct ks"
    and "snd (place_sandbox_with_strategy now secs ks req region_id s rr hr) = Placed h"
  shows "\<exists>k e. hosts hr k = Some e \<and> h = host_view (secs k) k e \<and>
    snd (breaker_state (secs k) (he_breaker e)) \<noteq> Open \<and>
    unat (req_vcpus req) \<le> unat (he_total_vcpus e) - unat (he_used_vcpus e) \<and>
    unat (req_mem_mib req) \<le> unat (he_total_mem_mib e) - unat (he_used_mem_mib e) \<and>
    (case region_id of
       None \<Rightarrow> \<not> timed_out now hr e
     | Some rid \<Rightarrow> \<exists>region. regions rr rid = Some region \<and> rg_enabled region \<and>
         rg_hosts region k \<noteq> None)"
proof -
  from assms obtain k e where "hosts hr k = Some e" "h = host_view (secs k) k e" "can_schedule h req"
    "case region_id of None \<Rightarrow> \<not> timed_out now hr e
     | Some rid \<Rightarrow> \<exists>region. regions rr rid = Some region \<and> rg_enabled region \<and> rg_hosts region k \<noteq> None"
    by (rule placed_candidate)
  then show ?thesis unfolding host_view_fits by (auto simp: host_view_fits)
qed

text \<open>Two regions, one host in the first.\<close>

definition sample_regions :: region_registry where
  "sample_regions = register_region 0 ''eu'' ''EU'' ''Dublin''
     (register_region 0 ''us'' ''US'' ''Virginia'' new_region_registry)"

definition sample_placed :: "region_registry \<times> host_registry \<times> bool" where
  "sample_placed = register_host 0 7 ''us'' sample_address 8 4096 sample_regions default_host_registry"

lemmas region_eval = sample_placed_def sample_regions_def register_host_def register_region_def
  new_region_registry_def upsert_host_def default_host_registry_def new_host_registry_def
  place_sandbox_with_strategy_def is_region_available_def hosts_in_region_def get_host_def
  breaker_state_def new_breaker_def snapshot_of_def

lemma sample_placed_hosts:
  "hosts (fst (snd sample_placed)) = [7 \<mapsto> \<lparr>he_address = sample_address, he_total_vcpus = 8,
     he_used_vcpus = 0, he_total_mem_mib = 4096, he_used_mem_mib = 0, he_sandbox_count = 0,
     he_last_heartbeat = 0, he_breaker = new_breaker\<rparr>]"
  "heartbeat_timeout_secs (fst (snd sample_placed)) = 30"
  by (simp_all add: region_eval)

theorem placement_sound_witness:
  "\<exists>k e. hosts (fst (snd sample_placed)) k = Some e \<and>
     unat (2 :: u32) \<le> unat (he_total_vcpus e) - unat (he_used_vcpus e)"
proof -
  let ?req = "\<lparr>req_vcpus = 2, req_mem_mib = 1024\<rparr>"
  obtain h where "snd (place_sandbox_with_strategy 0 (\<lambda>_. 0) [7] ?req (Some ''us'') BestFit
      (fst sample_placed) (fst (snd sample_placed))) = Placed h"
    by (simp add: region_eval placement_eval)
  from placement_sound [OF _ this] show ?thesis by auto
qed

text \<open>
  A placement in a region does not look at heartbeats: it gives the same decision for every
  reading of the clock, so a host that stopped reporting is still chosen, while a placement
  without a region drops the host once its heartbeat is older than the time-out.
\<close>

theorem region_placement_ignores_heartbeats:
  assumes "\<And>k e. hosts hr k = Some e \<Longrightarrow> timed_out now hr e"
  shows "place_sandbox now secs ks req (Some rid) rr hr = place_sandbox now' secs ks req (Some rid) rr hr \<and>
    snd (available_hosts now secs ks hr) = [] \<and>
    snd (place_sandbox now secs ks req None rr hr) = Unplaced NoHosts"
proof -
  have "available_hosts now secs ks hr = (hr, [])"
    using assms by (induction ks) (auto split: option.split)
  then show ?thesis by (simp add: place_sandbox_def best_fit_nil)
qed

theorem region_placement_ignores_heartbeats_witness:
  "let req = \<lparr>req_vcpus = 2, req_mem_mib = 1024\<rparr>; late = 100000000000;
       rr = fst sample_placed; hr = fst (snd sample_placed)
   in (\<exists>h. snd (place_sandbox late (\<lambda>_. 0) [7] req (Some ''us'') rr hr) = Placed h) \<and>
      snd (place_sandbox late (\<lambda>_. 0) [7] req None rr hr) = Unplaced NoHosts"
proof -
  let ?req = "\<lparr>req_vcpus = 2, req_mem_mib = 1024\<rparr>"
  have late: "timed_out 100000000000 (fst (snd sample_placed)) e"
    if "hosts (fst (snd sample_placed)) k = Some e" for k e
  proof -
    have "he_last_heartbeat e = 0" "heartbeat_timeout_secs (fst (snd sample_placed)) = 30"
      using that by (auto simp: sample_placed_hosts split: if_splits)
    then show ?thesis by (simp add: timed_out_def num_seconds_def as_u64_def)
  qed
  have placed: "\<exists>h. snd (place_sandbox 0 (\<lambda>_. 0) [7] ?req (Some ''us'') (fst sample_placed)
      (fst (snd sample_placed))) = Placed h"
    by (simp add: place_sandbox_best_fit region_eval placement_eval)
  note facts = region_placement_ignores_heartbeats [OF late, where ks = "[7]" and req = ?req
      and secs = "\<lambda>_. 0" and rid = "''us''" and rr = "fst sample_placed" and now' = 0]
  show ?thesis unfolding Let_def
  proof (rule conjI)
    show "\<exists>h. snd (place_sandbox 100000000000 (\<lambda>_. 0) [7] ?req (Some ''us'') (fst sample_placed)
        (fst (snd sample_placed))) = Placed h"
      using placed by (simp only: facts [THEN conjunct1])
    show "snd (place_sandbox 100000000000 (\<lambda>_. 0) [7] ?req None (fst sample_placed)
        (fst (snd sample_placed))) = Unplaced NoHosts"
      by (rule facts [THEN conjunct2, THEN conjunct2])
  qed
qed

section \<open>Registration\<close>

text \<open>The calls on the two registries as the events of one machine, and what holds throughout: a
  region is stored under its own name, the hosts it lists name it as their region, and the region
  recorded for a host exists.\<close>

datatype region_call =
    RegisterRegion datetime string string string
  | RegisterHost datetime uuid string socket_addr u32 u32
  | RegionRemoveHost uuid
  | SetEnabled bool string
  | OnHosts registry_call

fun region_step :: "region_call \<Rightarrow> region_registry \<times> host_registry \<Rightarrow> region_registry \<times> host_registry" where
  "region_step (RegisterRegion now rid n l) (rr, hr) = (register_region now rid n l rr, hr)"
| "region_step (RegisterHost now h rid a v m) (rr, hr) =
     (let (rr', hr', _) = register_host now h rid a v m rr hr in (rr', hr'))"
| "region_step (RegionRemoveHost h) (rr, hr) =
     (let (rr', hr', _) = region_remove_host h rr hr in (rr', hr'))"
| "region_step (SetEnabled b rid) (rr, hr) =
     (fst (if b then enable_region rid rr else disable_region rid rr), hr)"
| "region_step (OnHosts c) (rr, hr) = (rr, registry_step c hr)"

definition regions_wf :: "region_registry \<Rightarrow> bool" where
  "regions_wf rr \<longleftrightarrow>
     (\<forall>rid region. regions rr rid = Some region \<longrightarrow> rg_id region = rid \<and>
        (\<forall>h e. rg_hosts region h = Some e \<longrightarrow> hre_region_id e = rid)) \<and>
     ran (host_regions rr) \<subseteq> dom (regions rr)"

definition region_machine_inv :: "region_registry \<times> host_registry \<Rightarrow> bool" where
  "region_machine_inv s \<longleftrightarrow> regions_wf (fst s) \<and> registry_inv (snd s)"

lemma ran_update_subset: "ran (m(k := v)) \<subseteq> ran m \<union> set_option v"
  by (auto simp: ran_def)

lemma regions_wf_update:
  assumes "regions_wf rr" "rg_id region = rid"
    and "\<And>h e. rg_hosts region h = Some e \<Longrightarrow> hre_region_id e = rid"
    and "ran hs \<subseteq> insert rid (ran (host_regions rr))"
  shows "regions_wf (rr\<lparr>regions := (regions rr)(rid \<mapsto> region), host_regions := hs\<rparr>)"
  using assms by (auto simp: regions_wf_def)

lemma regions_wf_update':
  assumes "regions_wf rr" "rg_id region = rid"
    and "\<And>h e. rg_hosts region h = Some e \<Longrightarrow> hre_region_id e = rid"
  shows "regions_wf (rr\<lparr>regions := (regions rr)(rid \<mapsto> region)\<rparr>)"
  using assms by (auto simp: regions_wf_def)

lemma regions_wfD:
  assumes "regions_wf rr" "regions rr rid = Some region"
  shows "rg_id region = rid" "rg_hosts region h = Some e \<Longrightarrow> hre_region_id e = rid"
  using assms by (auto simp: regions_wf_def)

lemma register_region_wf: "regions_wf rr \<Longrightarrow> regions_wf (register_region now rid n l rr)"
  unfolding register_region_def by (rule regions_wf_update') simp_all

lemma register_host_wf:
  assumes "regions_wf rr"
  shows "regions_wf (fst (register_host now h rid a v m rr hr))"
proof (cases "regions rr rid")
  case (Some region)
  then show ?thesis using assms
    by (auto simp: register_host_def split: if_splits dest: regions_wfD
        intro!: regions_wf_update subset_trans [OF ran_update_subset])
qed (simp add: register_host_def assms)

lemma region_remove_host_wf:
  assumes "regions_wf rr"
  shows "regions_wf (fst (region_remove_host h rr hr))"
proof (cases "host_regions rr h")
  case (Some rid)
  let ?hs = "(host_regions rr)(h := None)"
  have wf: "regions_wf (rr\<lparr>host_regions := ?hs\<rparr>)"
    using assms ran_update_subset [of "host_regions rr" h None] by (auto simp: regions_wf_def)
  show ?thesis
  proof (cases "regions rr rid")
    case None
    with Some wf show ?thesis by (simp add: region_remove_host_def Let_def)
  next
    case (Some region)
    then have "regions_wf (rr\<lparr>host_regions := ?hs, regions := (regions rr)(rid \<mapsto>
        region\<lparr>rg_hosts := (rg_hosts region)(h := None)\<rparr>)\<rparr>)"
      using wf assms Some by (auto simp: regions_wf_def)
    with \<open>host_regions rr h = Some rid\<close> Some show ?thesis
      by (simp add: region_remove_host_def Let_def)
  qed
qed (simp add: region_remove_host_def assms)

lemma set_region_enabled_wf: "regions_wf rr \<Longrightarrow> regions_wf (fst (set_region_enabled b rid rr))"
  by (auto simp: set_region_enabled_def split: option.split dest: regions_wfD
      intro!: regions_wf_update')

lemma register_host_registry:
  "registry_inv hr \<Longrightarrow> registry_inv (fst (snd (register_host now h rid a v m rr hr)))"
  by (simp add: register_host_def upsert_host_inv split: option.split)

lemma region_remove_host_registry:
  "registry_inv hr \<Longrightarrow> registry_inv (fst (snd (region_remove_host h rr hr)))"
  by (simp add: region_remove_host_def registry_remove_host_inv Let_def split: option.split)

lemma region_step_inv: "region_machine_inv s \<Longrightarrow> region_machine_inv (region_step c s)"
  using register_host_wf register_host_registry region_remove_host_wf region_remove_host_registry
  by (cases s; cases c)
    (auto simp: region_machine_inv_def register_region_wf enable_region_def disable_region_def
      set_region_enabled_wf registry_step_inv split_def Let_def)

interpretation region_machine: invariant_machine region_step region_machine_inv
  by unfold_locales (rule region_step_inv)

lemma new_region_machine_inv: "region_machine_inv (new_region_registry, new_host_registry t)"
  by (simp add: region_machine_inv_def regions_wf_def new_region_registry_def new_host_registry_inv)

text \<open>
  Whatever the sequence of calls on the two registries, from their creation, every region is
  stored under its own identifier, every host entry in it names that region, the region recorded
  for a host exists, and every breaker of the host registry is well formed.
\<close>

theorem region_registry_invariant:
  "region_machine_inv (fold region_step cs (new_region_registry, new_host_registry t))"
  by (rule region_machine.run_inv) (rule new_region_machine_inv)

lemma register_host_known:
  assumes "regions rr rid = Some region"
  shows "\<exists>region'. regions (fst (register_host now h rid a v m rr hr)) =
      (regions rr)(rid \<mapsto> region') \<and> rg_hosts region' h \<noteq> None \<and>
      (\<forall>h'. h' \<noteq> h \<longrightarrow> rg_hosts region' h' = rg_hosts region h') \<and>
      host_regions (fst (register_host now h rid a v m rr hr)) = (host_regions rr)(h \<mapsto> rid) \<and>
      hosts (fst (snd (register_host now h rid a v m rr hr))) = hosts (upsert_host now h a v m hr)"
  using assms by (auto simp: register_host_def intro!: exI [of _ "region\<lparr>rg_hosts :=
      (rg_hosts region)(h \<mapsto> \<lparr>hre_region_id = rid, hre_address = a, hre_registered_at = now\<rparr>)\<rparr>"])

text \<open>
  A host that registers in a second region is not taken out of the first: its recorded region
  is the second, both regions still list it as a candidate, and removing the host takes it out of
  the second only.
\<close>

theorem moved_host_stays_listed:
  assumes "regions rr r1 = Some region1" "regions rr r2 = Some region2" "r1 \<noteq> r2"
    and "register_host now h r1 a v m rr hr = (rr1, hr1, ok1)"
    and "register_host now' h r2 a' v' m' rr1 hr1 = (rr2, hr2, ok2)"
    and "region_remove_host h rr2 hr2 = (rr3, hr3, ok3)"
  shows "host_region h rr2 = Some r2 \<and>
    map hs_host_id (snd (hosts_in_region secs [h] r1 rr2 hr2)) = [h] \<and>
    map hs_host_id (snd (hosts_in_region secs [h] r2 rr2 hr2)) = [h] \<and>
    (\<exists>g1 g2. regions rr3 r1 = Some g1 \<and> rg_hosts g1 h \<noteq> None \<and>
      regions rr3 r2 = Some g2 \<and> rg_hosts g2 h = None) \<and> host_region h rr3 = None"
proof -
  obtain g1 where s1: "regions rr1 = (regions rr)(r1 \<mapsto> g1)" "rg_hosts g1 h \<noteq> None"
    using register_host_known [OF assms(1), of now h a v m hr] assms(4) by auto
  then have "regions rr1 r2 = Some region2" using assms by simp
  from register_host_known [OF this, of now' h a' v' m' hr1] assms(5)
  obtain g2 where s2: "regions rr2 = (regions rr1)(r2 \<mapsto> g2)" "rg_hosts g2 h \<noteq> None"
    "host_regions rr2 h = Some r2" "hosts hr2 = hosts (upsert_host now' h a' v' m' hr1)"
    by auto
  have "hosts hr2 h \<noteq> None" using s2 by (simp add: upsert_host_def)
  then have "map hs_host_id (snd (hosts_in_region secs [h] r rr2 hr2)) = [h]" if "r \<in> {r1, r2}" for r
    using that s1 s2 assms(3)
    by (auto simp: hosts_in_region_def get_host_snd host_view_def snapshot_of_def split_def Let_def)
  moreover have "regions rr3 r1 = Some g1 \<and> host_region h rr3 = None \<and>
      (\<exists>g2. regions rr3 r2 = Some g2 \<and> rg_hosts g2 h = None)"
    using assms(3, 6) s1 s2 by (auto simp: region_remove_host_def host_region_def Let_def)
  ultimately show ?thesis using s1 s2 by (auto simp: host_region_def)
qed

theorem moved_host_stays_listed_witness:
  "\<exists>rr hr. host_region 7 rr = Some ''eu'' \<and>
     map hs_host_id (snd (hosts_in_region (\<lambda>_. 0) [7] ''us'' rr hr)) = [7]"
proof -
  obtain rr1 hr1 ok1 where 1: "sample_placed = (rr1, hr1, ok1)" by (cases sample_placed) auto
  obtain rr2 hr2 ok2 where 2: "register_host 1 7 ''eu'' sample_address 8 4096 rr1 hr1 = (rr2, hr2, ok2)"
    by (cases "register_host 1 7 ''eu'' sample_address 8 4096 rr1 hr1") auto
  obtain rr3 hr3 ok3 where 3: "region_remove_host 7 rr2 hr2 = (rr3, hr3, ok3)"
    by (cases "region_remove_host 7 rr2 hr2") auto
  obtain g1 g2 where "regions sample_regions ''us'' = Some g1" "regions sample_regions ''eu'' = Some g2"
    by (simp add: sample_regions_def register_region_def)
  from moved_host_stays_listed [OF this _ 1 [unfolded sample_placed_def] 2 3, of "\<lambda>_. 0"]
  have "host_region 7 rr2 = Some ''eu'' \<and>
      map hs_host_id (snd (hosts_in_region (\<lambda>_. 0) [7] ''us'' rr2 hr2)) = [7]" by simp
  then show ?thesis by (intro exI)
qed

end
