(* ===== verification/Migration.thy ===== *)
theory Migration
  imports Host_Registry
begin

text \<open>
  Live migration of a sandbox between hosts (\<open>akssora-scheduler/src/migration.rs\<close>): the states of
  a migration, its record, the orchestrator that advances it and rolls it back, and the table of
  connection redirects.

  The orchestrator keeps its records in a \<open>DashMap\<close>. A guard obtained from the map (\<open>get_mut\<close>)
  holds a lock, and the documentation of the map says that a call on it may deadlock while a
  guard is alive. Whether a call for the key \<open>k'\<close> has to wait for a guard on \<open>k\<close> is the parameter
  \<open>waits k k'\<close> of the operations; the field \<open>held\<close> of the orchestrator lists the keys of the guards
  whose owner is itself stuck, so that they are never released. A call that waits for such a guard,
  or for one of its own caller, does not return: its outcome is \<open>Blocks\<close>.
\<close>

section \<open>The states of a migration\<close>

datatype migration_state =
    Pending
  | Draining
  | Snapshotting
  | Transferring
  | Resuming
  | Complete
  | RolledBack
  | Failed

fun is_terminal :: "migration_state \<Rightarrow> bool" where
  "is_terminal s = (s \<in> set [Complete, RolledBack, Failed])"

fun next_states :: "migration_state \<Rightarrow> migration_state list" where
  "next_states Pending = [Draining]"
| "next_states Draining = [Snapshotting, RolledBack]"
| "next_states Snapshotting = [Transferring, RolledBack, Failed]"
| "next_states Transferring = [Resuming, RolledBack, Failed]"
| "next_states Resuming = [Complete, RolledBack, Failed]"
| "next_states Complete = []"
| "next_states RolledBack = []"
| "next_states Failed = []"

fun can_rollback :: "migration_state \<Rightarrow> bool" where
  "can_rollback s = (s \<in> set [Draining, Snapshotting, Transferring, Resuming])"

section \<open>Requests, records and errors\<close>

record migration_request =
  mreq_sandbox_id :: uuid
  mreq_source_host_id :: uuid
  mreq_target_host_id :: "uuid option"
  mreq_template_id :: "string option"
  mreq_timeout_secs :: u64
  mreq_drain_secs :: u64

definition default_migration_timeout_secs :: u64 where
  "default_migration_timeout_secs = 60"

definition default_drain_timeout_secs :: u64 where
  "default_drain_timeout_secs = 5"

record migration_result =
  mres_migration_id :: uuid
  mres_sandbox_id :: uuid
  mres_source_host_id :: uuid
  mres_target_host_id :: uuid
  mres_final_state :: migration_state
  mres_duration_ms :: u64
  mres_message :: string
  mres_error :: "string option"

text \<open>An \<open>Instant\<close> is a reading of the monotonic clock in nanoseconds.\<close>

record migration_record =
  mr_migration_id :: uuid
  mr_sandbox_id :: uuid
  mr_source_host_id :: uuid
  mr_target_host_id :: "uuid option"
  mr_state :: migration_state
  mr_started_at :: int
  mr_created_at :: datetime
  mr_state_history :: "(migration_state \<times> datetime \<times> string option) list"

datatype migration_error =
    InvalidTransition migration_state migration_state
  | SourceHostNotFound uuid
  | TargetHostNotFound uuid
  | TargetInsufficientCapacity uuid
  | SnapshotFailed string
  | TransferFailed string
  | ResumeFailed string
  | DrainTimeout
  | MigrationTimeout
  | RollbackFailed string
  | MigrationIo string

definition new_migration_record ::
    "datetime \<Rightarrow> int \<Rightarrow> uuid \<Rightarrow> migration_request \<Rightarrow> migration_record" where
  "new_migration_record now instant migration_id req =
     \<lparr>mr_migration_id = migration_id, mr_sandbox_id = mreq_sandbox_id req,
      mr_source_host_id = mreq_source_host_id req, mr_target_host_id = mreq_target_host_id req,
      mr_state = Pending, mr_started_at = instant, mr_created_at = now,
      mr_state_history = [(Pending, now, None)]\<rparr>"

definition transition ::
    "datetime \<Rightarrow> migration_state \<Rightarrow> string option \<Rightarrow> migration_record \<Rightarrow>
     migration_record \<times> (migration_error + unit)" where
  "transition now new_state reason r =
     (if new_state \<notin> set (next_states (mr_state r))
      then (r, Inl (InvalidTransition (mr_state r) new_state))
      else (r\<lparr>mr_state := new_state,
              mr_state_history := mr_state_history r @ [(new_state, now, reason)]\<rparr>, Inr ()))"

text \<open>\<open>Instant::elapsed\<close> saturates at zero; the milliseconds are cut down to 64 bits.\<close>

definition elapsed_ms :: "int \<Rightarrow> migration_record \<Rightarrow> u64" where
  "elapsed_ms instant r = as_u64 (max 0 (instant - mr_started_at r) div 1000000)"

section \<open>The orchestrator\<close>

record orchestrator =
  active :: "uuid \<rightharpoonup> migration_record"
  completed :: "uuid \<rightharpoonup> migration_record"
  held :: "uuid list"

definition new_orchestrator :: orchestrator where
  "new_orchestrator = \<lparr>active = Map.empty, completed = Map.empty, held = []\<rparr>"

definition must_wait :: "(uuid \<Rightarrow> uuid \<Rightarrow> bool) \<Rightarrow> uuid list \<Rightarrow> uuid \<Rightarrow> bool" where
  "must_wait waits guards k \<longleftrightarrow> (\<exists>g\<in>set guards. waits g k)"

text \<open>
  \<open>start_migration\<close>. The clock readings are those of the look-up of the source host (\<open>t\<close>) and of
  what follows (\<open>secs\<close>); \<open>ks\<close> is the order in which the hosts are iterated when no target is given.
\<close>

definition choose_target ::
    "datetime \<Rightarrow> (uuid \<Rightarrow> u64) \<Rightarrow> uuid list \<Rightarrow> migration_request \<Rightarrow> host_registry \<Rightarrow>
     host_registry \<times> (migration_error + uuid)" where
  "choose_target now secs ks req hr =
     (case mreq_target_host_id req of
        Some target \<Rightarrow>
          (let (hr', found) = get_host (secs target) target hr
           in (hr', if found = None then Inl (TargetHostNotFound target) else Inr target))
      | None \<Rightarrow>
          (let (hr', hs) = available_hosts now secs ks hr
           in (hr', (case filter (\<lambda>h. hs_host_id h \<noteq> mreq_source_host_id req) hs of
                 [] \<Rightarrow> Inl (TargetInsufficientCapacity 0)
               | h # _ \<Rightarrow> Inr (hs_host_id h)))))"

definition start_migration ::
    "(uuid \<Rightarrow> uuid \<Rightarrow> bool) \<Rightarrow> datetime \<Rightarrow> int \<Rightarrow> u64 \<Rightarrow> (uuid \<Rightarrow> u64) \<Rightarrow> uuid list \<Rightarrow> uuid \<Rightarrow>
     migration_request \<Rightarrow> orchestrator \<Rightarrow> host_registry \<Rightarrow>
     orchestrator \<times> host_registry \<times> (migration_error + uuid) outcome" where
  "start_migration waits now instant t secs ks migration_id req orch hr =
     (let (hr1, source) = get_host t (mreq_source_host_id req) hr
      in if source = None
         then (orch, hr1, Returns (Inl (SourceHostNotFound (mreq_source_host_id req))))
         else
           (let (hr2, target) = choose_target now secs ks req hr1
            in (case target of
                  Inl e \<Rightarrow> (orch, hr2, Returns (Inl e))
                | Inr target_id \<Rightarrow>
                    if must_wait waits (held orch) migration_id then (orch, hr2, Blocks)
                    else
                      (orch\<lparr>active := (active orch)(migration_id \<mapsto>
                         (new_migration_record now instant migration_id req)
                           \<lparr>mr_target_host_id := Some target_id\<rparr>)\<rparr>,
                       hr2, Returns (Inr migration_id)))))"

text \<open>\<open>promote_to_completed\<close> is called with the guards of its caller still alive. When it has to
  wait for one of them, the caller never resumes and never releases them.\<close>

definition promote_to_completed ::
    "(uuid \<Rightarrow> uuid \<Rightarrow> bool) \<Rightarrow> uuid list \<Rightarrow> uuid \<Rightarrow> orchestrator \<Rightarrow> orchestrator \<times> unit outcome" where
  "promote_to_completed waits guards migration_id orch =
     (if must_wait waits (guards @ held orch) migration_id
      then (orch\<lparr>held := guards @ held orch\<rparr>, Blocks)
      else (case active orch migration_id of
              None \<Rightarrow> (orch, Returns ())
            | Some r \<Rightarrow>
                (orch\<lparr>active := (active orch)(migration_id := None),
                      completed := (completed orch)(migration_id \<mapsto> r)\<rparr>, Returns ())))"

definition promote_and_return ::
    "(uuid \<Rightarrow> uuid \<Rightarrow> bool) \<Rightarrow> uuid list \<Rightarrow> uuid \<Rightarrow> migration_state \<Rightarrow> orchestrator \<Rightarrow>
     orchestrator \<times> (migration_error + migration_state) outcome" where
  "promote_and_return waits guards migration_id s orch =
     (let (orch', done) = promote_to_completed waits guards migration_id orch
      in (orch', map_outcome_val (\<lambda>_. Inr s) done))"

definition set_active :: "uuid \<Rightarrow> migration_record \<Rightarrow> orchestrator \<Rightarrow> orchestrator" where
  "set_active migration_id r orch = orch\<lparr>active := (active orch)(migration_id \<mapsto> r)\<rparr>"

text \<open>The sleeps of the steps stand for the work of the hosts; they only hold the guard for a
  while.\<close>

definition advance ::
    "(uuid \<Rightarrow> uuid \<Rightarrow> bool) \<Rightarrow> datetime \<Rightarrow> int \<Rightarrow> uuid \<Rightarrow> orchestrator \<Rightarrow>
     orchestrator \<times> (migration_error + migration_state) outcome" where
  "advance waits now instant migration_id orch =
     (if must_wait waits (held orch) migration_id then (orch, Blocks)
      else (case active orch migration_id of
        None \<Rightarrow> (orch, Returns (Inl (SourceHostNotFound migration_id)))
      | Some r \<Rightarrow>
          (let move = (\<lambda>s reason. set_active migration_id (fst (transition now s (Some reason) r)) orch)
           in if 60000 < elapsed_ms instant r
              then promote_and_return waits [migration_id] migration_id Failed
                     (move Failed ''migration timeout exceeded'')
              else (case mr_state r of
                Pending \<Rightarrow> (move Draining ''draining in-flight connections'', Returns (Inr Draining))
              | Draining \<Rightarrow> (move Snapshotting ''creating VM snapshot on source'',
                             Returns (Inr Snapshotting))
              | Snapshotting \<Rightarrow> (move Transferring ''streaming snapshot bytes to destination'',
                                 Returns (Inr Transferring))
              | Transferring \<Rightarrow> (move Resuming ''booting VM from snapshot on destination'',
                                 Returns (Inr Resuming))
              | Resuming \<Rightarrow> promote_and_return waits [migration_id] migration_id Complete
                             (move Complete ''VM running on destination host'')
              | s \<Rightarrow> (orch, Returns (Inr s))))))"

definition rollback ::
    "(uuid \<Rightarrow> uuid \<Rightarrow> bool) \<Rightarrow> datetime \<Rightarrow> uuid \<Rightarrow> string \<Rightarrow> orchestrator \<Rightarrow>
     orchestrator \<times> (migration_error + migration_state) outcome" where
  "rollback waits now migration_id reason orch =
     (if must_wait waits (held orch) migration_id then (orch, Blocks)
      else (case active orch migration_id of
        None \<Rightarrow> (orch, Returns (Inl (SourceHostNotFound migration_id)))
      | Some r \<Rightarrow>
          if \<not> can_rollback (mr_state r)
          then (orch, Returns (Inl (InvalidTransition (mr_state r) RolledBack)))
          else promote_and_return waits [migration_id] migration_id RolledBack
                 (set_active migration_id
                   (fst (transition now RolledBack (Some (''rolled back: '' @ reason)) r)) orch)))"

definition migration_state_of ::
    "(uuid \<Rightarrow> uuid \<Rightarrow> bool) \<Rightarrow> uuid \<Rightarrow> orchestrator \<Rightarrow> migration_state option outcome" where
  "migration_state_of waits migration_id orch =
     (if must_wait waits (held orch) migration_id then Blocks
      else Returns (case active orch migration_id of
        Some r \<Rightarrow> Some (mr_state r)
      | None \<Rightarrow> map_option mr_state (completed orch migration_id)))"

record migration_record_snapshot =
  ms_migration_id :: uuid
  ms_sandbox_id :: uuid
  ms_source_host_id :: uuid
  ms_target_host_id :: "uuid option"
  ms_state :: migration_state
  ms_elapsed_ms :: u64
  ms_created_at :: datetime
  ms_state_history :: "(migration_state \<times> datetime \<times> string option) list"

definition from_record :: "int \<Rightarrow> migration_record \<Rightarrow> migration_record_snapshot" where
  "from_record instant r =
     \<lparr>ms_migration_id = mr_migration_id r, ms_sandbox_id = mr_sandbox_id r,
      ms_source_host_id = mr_source_host_id r, ms_target_host_id = mr_target_host_id r,
      ms_state = mr_state r, ms_elapsed_ms = elapsed_ms instant r,
      ms_created_at = mr_created_at r, ms_state_history = mr_state_history r\<rparr>"

definition get_record ::
    "(uuid \<Rightarrow> uuid \<Rightarrow> bool) \<Rightarrow> int \<Rightarrow> uuid \<Rightarrow> orchestrator \<Rightarrow> migration_record_snapshot option outcome"
    where
  "get_record waits instant migration_id orch =
     (if must_wait waits (held orch) migration_id then Blocks
      else Returns (case active orch migration_id of
        Some r \<Rightarrow> Some (from_record instant r)
      | None \<Rightarrow> map_option (from_record instant) (completed orch migration_id)))"

text \<open>Iterating over the map, or counting it, takes the lock of every key in it.\<close>

definition active_migrations ::
    "int \<Rightarrow> uuid list \<Rightarrow> orchestrator \<Rightarrow> migration_record_snapshot list outcome" where
  "active_migrations instant ks orch =
     (if held orch \<noteq> [] then Blocks
      else Returns (map (from_record instant) (values_in ks (active orch))))"

definition completed_migrations ::
    "int \<Rightarrow> uuid list \<Rightarrow> orchestrator \<Rightarrow> migration_record_snapshot list" where
  "completed_migrations instant ks orch = map (from_record instant) (values_in ks (completed orch))"

definition active_count :: "orchestrator \<Rightarrow> nat outcome" where
  "active_count orch = (if held orch \<noteq> [] then Blocks else Returns (card (dom (active orch))))"

record drain_host_request =
  dh_host_id :: uuid
  dh_target_host_id :: "uuid option"
  dh_max_concurrent :: nat

definition default_max_concurrent :: nat where
  "default_max_concurrent = 5"

record drain_host_result =
  dr_host_id :: uuid
  dr_total_migrations :: nat
  dr_completed :: nat
  dr_failed :: nat
  dr_rolled_back :: nat

record connection_handoff =
  ch_connection_id :: uuid
  ch_sandbox_id :: uuid
  ch_source_host :: host_snapshot
  ch_target_host :: host_snapshot
  ch_redirect_after :: migration_state

section \<open>The redirect table\<close>

record redirect_table =
  redirects :: "uuid \<rightharpoonup> host_snapshot"

definition new_redirect_table :: redirect_table where
  "new_redirect_table = \<lparr>redirects = Map.empty\<rparr>"

definition register_redirect :: "uuid \<Rightarrow> host_snapshot \<Rightarrow> redirect_table \<Rightarrow> redirect_table" where
  "register_redirect sandbox_id new_host tbl =
     tbl\<lparr>redirects := (redirects tbl)(sandbox_id \<mapsto> new_host)\<rparr>"

definition get_redirect :: "uuid \<Rightarrow> redirect_table \<Rightarrow> host_snapshot option" where
  "get_redirect sandbox_id tbl = redirects tbl sandbox_id"

definition clear_redirect :: "uuid \<Rightarrow> redirect_table \<Rightarrow> redirect_table" where
  "clear_redirect sandbox_id tbl = tbl\<lparr>redirects := (redirects tbl)(sandbox_id := None)\<rparr>"

interpretation redirect_store: keyed_store
  "\<lambda>tbl k. get_redirect k tbl" "\<lambda>(k, h). register_redirect k h" clear_redirect fst snd
  by unfold_locales (auto simp: get_redirect_def register_redirect_def clear_redirect_def)

section \<open>Reachable states\<close>

text \<open>The calls that change the orchestrator, in any order, with any readings of the clocks and any
  host registry; the identifier of a new migration is fresh (\<open>Uuid::new_v4\<close>).\<close>

inductive orchestrator_step ::
    "(uuid \<Rightarrow> uuid \<Rightarrow> bool) \<Rightarrow> orchestrator \<Rightarrow> orchestrator \<Rightarrow> bool" for waits where
  Start: "active orch mid = None \<Longrightarrow> completed orch mid = None \<Longrightarrow>
    orchestrator_step waits orch (fst (start_migration waits now instant t secs ks mid req orch hr))"
| Advance: "orchestrator_step waits orch (fst (advance waits now instant mid orch))"
| Rollback: "orchestrator_step waits orch (fst (rollback waits now mid reason orch))"

inductive reachable :: "(uuid \<Rightarrow> uuid \<Rightarrow> bool) \<Rightarrow> orchestrator \<Rightarrow> bool" for waits where
  Init: "reachable waits new_orchestrator"
| Step: "reachable waits orch \<Longrightarrow> orchestrator_step waits orch orch' \<Longrightarrow> reachable waits orch'"

inductive_cases orchestrator_stepE: "orchestrator_step waits orch orch'"

section \<open>The invariant\<close>

definition legal_history :: "migration_state list \<Rightarrow> bool" where
  "legal_history ss \<longleftrightarrow>
     ss \<noteq> [] \<and> hd ss = Pending \<and> successively (\<lambda>a b. b \<in> set (next_states a)) ss"

definition record_wf :: "migration_record \<Rightarrow> bool" where
  "record_wf r \<longleftrightarrow> legal_history (map fst (mr_state_history r)) \<and>
     last (map fst (mr_state_history r)) = mr_state r \<and> mr_target_host_id r \<noteq> None"

definition records_wf :: "(uuid \<rightharpoonup> migration_record) \<Rightarrow> bool" where
  "records_wf m \<longleftrightarrow> (\<forall>k r. m k = Some r \<longrightarrow> record_wf r \<and> mr_migration_id r = k)"

definition orchestrator_inv :: "orchestrator \<Rightarrow> bool" where
  "orchestrator_inv orch \<longleftrightarrow> records_wf (active orch) \<and> records_wf (completed orch) \<and>
     dom (active orch) \<inter> dom (completed orch) = {}"

lemma new_record_wf:
  "record_wf ((new_migration_record now instant mid req)\<lparr>mr_target_host_id := Some target\<rparr>)"
  by (simp add: record_wf_def legal_history_def new_migration_record_def)

lemma legal_history_snoc:
  "legal_history ss \<Longrightarrow> s \<in> set (next_states (last ss)) \<Longrightarrow> legal_history (ss @ [s])"
  by (simp add: legal_history_def successively_append_iff)

lemma transition_wf: "record_wf r \<Longrightarrow> record_wf (fst (transition now s reason r))"
  using legal_history_snoc [of "map fst (mr_state_history r)" s]
  by (auto simp: record_wf_def transition_def)

lemma transition_id [simp]: "mr_migration_id (fst (transition now s reason r)) = mr_migration_id r"
  by (simp add: transition_def)

lemma transition_state:
  "mr_state (fst (transition now s reason r)) = (if s \<in> set (next_states (mr_state r)) then s else mr_state r)"
  by (simp add: transition_def)

lemma set_active_inv:
  "orchestrator_inv orch \<Longrightarrow> active orch k = Some r0 \<Longrightarrow> record_wf r \<Longrightarrow> mr_migration_id r = k \<Longrightarrow>
   orchestrator_inv (set_active k r orch)"
  by (auto simp: orchestrator_inv_def records_wf_def set_active_def)

lemma held_update_inv [simp]: "orchestrator_inv (orch\<lparr>held := hs\<rparr>) = orchestrator_inv orch"
  by (simp add: orchestrator_inv_def)

lemma promote_inv:
  "orchestrator_inv orch \<Longrightarrow> orchestrator_inv (fst (promote_and_return waits gs k s orch))"
  by (auto simp: promote_and_return_def promote_to_completed_def orchestrator_inv_def records_wf_def
      split: option.split)

lemma move_inv:
  assumes "orchestrator_inv orch" "active orch k = Some r"
  shows "orchestrator_inv (set_active k (fst (transition now s reason r)) orch)"
proof -
  have "record_wf r" "mr_migration_id r = k"
    using assms by (auto simp: orchestrator_inv_def records_wf_def)
  then show ?thesis using assms by (intro set_active_inv) (auto intro: transition_wf)
qed

lemma advance_inv:
  "orchestrator_inv orch \<Longrightarrow> orchestrator_inv (fst (advance waits now instant mid orch))"
  by (auto simp: advance_def Let_def move_inv promote_inv split: option.split migration_state.split)

lemma rollback_inv:
  "orchestrator_inv orch \<Longrightarrow> orchestrator_inv (fst (rollback waits now mid reason orch))"
  by (auto simp: rollback_def move_inv promote_inv split: option.split)

lemma start_migration_result:
  "fst (start_migration waits now instant t secs ks mid req orch hr) = orch \<or>
   (\<exists>target. fst (start_migration waits now instant t secs ks mid req orch hr) =
      orch\<lparr>active := (active orch)(mid \<mapsto>
        (new_migration_record now instant mid req)\<lparr>mr_target_host_id := Some target\<rparr>)\<rparr>)"
  by (auto simp: start_migration_def split_def Let_def split: sum.split)

lemma start_migration_cases:
  obtains "fst (start_migration waits now instant t secs ks mid req orch hr) = orch"
  | target where "fst (start_migration waits now instant t secs ks mid req orch hr) =
      orch\<lparr>active := (active orch)(mid \<mapsto>
        (new_migration_record now instant mid req)\<lparr>mr_target_host_id := Some target\<rparr>)\<rparr>"
  using start_migration_result by blast

lemma start_record_inv:
  assumes "orchestrator_inv orch" "completed orch mid = None" "record_wf r" "mr_migration_id r = mid"
  shows "orchestrator_inv (orch\<lparr>active := (active orch)(mid \<mapsto> r)\<rparr>)"
  using assms by (auto simp: orchestrator_inv_def records_wf_def)

lemma start_migration_inv:
  assumes "orchestrator_inv orch" "completed orch mid = None"
  shows "orchestrator_inv (fst (start_migration waits now instant t secs ks mid req orch hr))"
proof (cases rule: start_migration_cases [of waits now instant t secs ks mid req orch hr])
  case 1
  then show ?thesis using assms by simp
next
  case (2 target)
  have "mr_migration_id ((new_migration_record now instant mid req)
      \<lparr>mr_target_host_id := Some target\<rparr>) = mid"
    by (simp add: new_migration_record_def)
  from start_record_inv [OF assms new_record_wf this] show ?thesis unfolding 2 .
qed

lemma orchestrator_step_inv:
  "orchestrator_step waits orch orch' \<Longrightarrow> orchestrator_inv orch \<Longrightarrow> orchestrator_inv orch'"
  by (induction rule: orchestrator_step.induct) (auto intro: start_migration_inv advance_inv rollback_inv)

lemma reachable_inv:
  assumes "reachable waits orch"
  shows "orchestrator_inv orch"
  using assms
proof (induction rule: reachable.induct)
  case Init
  then show ?case by (simp add: orchestrator_inv_def records_wf_def new_orchestrator_def)
next
  case (Step orch orch')
  then show ?case by (auto intro: orchestrator_step_inv)
qed

text \<open>A host registry with two hosts and a migration started on it.\<close>

definition sample_start ::
    "(uuid \<Rightarrow> uuid \<Rightarrow> bool) \<Rightarrow> orchestrator \<times> host_registry \<times> (migration_error + uuid) outcome" where
  "sample_start waits = start_migration waits 40000000000 0 40 (\<lambda>_. 40) [1, 2] 77
     \<lparr>mreq_sandbox_id = 5, mreq_source_host_id = 1, mreq_target_host_id = Some 2,
      mreq_template_id = None, mreq_timeout_secs = 60, mreq_drain_secs = 5\<rparr>
     new_orchestrator sample_registry"

lemma sample_start_eq:
  "\<exists>r. active (fst (sample_start waits)) 77 = Some r \<and> mr_state r = Pending \<and>
     mr_started_at r = 0 \<and> held (fst (sample_start waits)) = []"
  by (simp add: sample_start_def start_migration_def choose_target_def get_host_view must_wait_def
      sample_registry_def upsert_host_def default_host_registry_def new_host_registry_def
      new_orchestrator_def new_migration_record_def)

text \<open>The states of that migration after each of its first calls of \<open>advance\<close>, none of them late.\<close>

definition sample_history :: "(uuid \<Rightarrow> uuid \<Rightarrow> bool) \<Rightarrow> nat \<Rightarrow> orchestrator" where
  "sample_history waits n = ((\<lambda>orch. fst (advance waits 0 0 77 orch)) ^^ n) (fst (sample_start waits))"

lemma sample_history_reachable: "reachable waits (sample_history waits n)"
proof (induction n)
  case 0
  have "orchestrator_step waits new_orchestrator (fst (sample_start waits))"
    unfolding sample_start_def
    by (rule orchestrator_step.Start) (simp_all add: new_orchestrator_def)
  then show ?case by (auto simp: sample_history_def intro: reachable.intros)
next
  case (Suc n)
  then show ?case
    using reachable.Step [OF _ orchestrator_step.Advance [of waits "sample_history waits n" 0 0 77]]
    by (simp add: sample_history_def)
qed

lemma sample_history_walk:
  "\<exists>r. active (sample_history waits 4) 77 = Some r \<and> mr_state r = Resuming \<and>
     mr_started_at r = 0 \<and> held (sample_history waits 4) = [] \<and>
     map fst (mr_state_history r) = [Pending, Draining, Snapshotting, Transferring, Resuming]"
  by (simp add: sample_history_def numeral_eq_Suc sample_start_def start_migration_def
      choose_target_def get_host_view must_wait_def sample_registry_def upsert_host_def
      default_host_registry_def new_host_registry_def new_orchestrator_def
      new_migration_record_def advance_def elapsed_ms_def as_u64_def set_active_def transition_def)

lemma sample_history_completes:
  "completed (sample_history (\<lambda>_ _. False) 5) 77 \<noteq> None"
proof -
  obtain r where "active (sample_history (\<lambda>_ _. False) 4) 77 = Some r" "mr_state r = Resuming"
    "mr_started_at r = 0" "held (sample_history (\<lambda>_ _. False) 4) = []"
    using sample_history_walk by blast
  moreover have "sample_history (\<lambda>_ _. False) 5 =
      fst (advance (\<lambda>_ _. False) 0 0 77 (sample_history (\<lambda>_ _. False) 4))"
    by (simp add: sample_history_def numeral_eq_Suc)
  ultimately show ?thesis
    by (simp add: advance_def must_wait_def elapsed_ms_def as_u64_def promote_and_return_def
        promote_to_completed_def set_active_def transition_state)
qed

text \<open>
  C12. In every state the orchestrator can reach, the history of every record, active or completed,
  is a path of allowed transitions from \<open>Pending\<close> to the current state, the record names its target
  and is stored under its own identifier, and no migration is both active and completed.
\<close>

theorem migration_histories_legal:
  assumes "reachable waits orch"
  shows "orchestrator_inv orch"
  using assms by (rule reachable_inv)

theorem migration_histories_legal_witness:
  "\<exists>r. active (sample_history (\<lambda>_ _. False) 4) 77 = Some r \<and>
     map fst (mr_state_history r) = [Pending, Draining, Snapshotting, Transferring, Resuming] \<and>
     orchestrator_inv (sample_history (\<lambda>_ _. False) 4) \<and>
     completed (sample_history (\<lambda>_ _. False) 5) 77 \<noteq> None \<and>
     orchestrator_inv (sample_history (\<lambda>_ _. False) 5)"
  using sample_history_walk [of "\<lambda>_ _. False"] sample_history_completes
    migration_histories_legal [OF sample_history_reachable, of "\<lambda>_ _. False" 4]
    migration_histories_legal [OF sample_history_reachable, of "\<lambda>_ _. False" 5] by auto

section \<open>Completion\<close>

lemma promote_blocks:
  assumes "waits k k"
  shows "promote_and_return waits [k] k s orch = (orch\<lparr>held := k # held orch\<rparr>, Blocks)"
  using assms by (simp add: promote_and_return_def promote_to_completed_def must_wait_def)

lemma advance_completed:
  "waits mid mid \<Longrightarrow> completed (fst (advance waits now instant mid orch)) = completed orch"
  by (simp add: advance_def promote_blocks Let_def set_active_def
      split: option.split migration_state.split)

lemma rollback_completed:
  "waits mid mid \<Longrightarrow> completed (fst (rollback waits now mid reason orch)) = completed orch"
  by (simp add: rollback_def promote_blocks set_active_def split: option.split)

lemma start_completed:
  "completed (fst (start_migration waits now instant t secs ks mid req orch hr)) = completed orch"
  by (auto simp: start_migration_def split_def Let_def split: sum.split)

lemma step_completed:
  "orchestrator_step waits orch orch' \<Longrightarrow> (\<And>k. waits k k) \<Longrightarrow> completed orch' = completed orch"
  by (induction rule: orchestrator_step.induct)
    (simp_all add: advance_completed rollback_completed start_completed)

definition settled :: "(migration_error + migration_state) outcome \<Rightarrow> bool" where
  "settled out = (case out of Returns (Inr s) \<Rightarrow> is_terminal s | _ \<Rightarrow> False)"

text \<open>A record that has reached a terminal state is locked for good.\<close>

definition terminal_locked :: "orchestrator \<Rightarrow> bool" where
  "terminal_locked orch \<longleftrightarrow>
     (\<forall>k r. active orch k = Some r \<longrightarrow> is_terminal (mr_state r) \<longrightarrow> k \<in> set (held orch))"

lemma step_terminal_locked:
  assumes "orchestrator_step waits orch orch'" "\<And>k. waits k k" "terminal_locked orch"
  shows "terminal_locked orch'"
  using assms
proof (induction rule: orchestrator_step.induct)
  case (Start orch mid now instant t secs ks req hr)
  show ?case
    by (cases rule: start_migration_cases [of waits now instant t secs ks mid req orch hr])
      (use Start in \<open>auto simp: terminal_locked_def new_migration_record_def\<close>)
next
  case (Advance orch now instant mid)
  then show ?case
    by (auto simp: terminal_locked_def advance_def promote_blocks set_active_def transition_state
        Let_def split: option.split migration_state.split if_splits)
next
  case (Rollback orch now mid reason)
  then show ?case
    by (auto simp: terminal_locked_def rollback_def promote_blocks set_active_def
        split: option.split if_splits)
qed

lemma reachable_locked:
  assumes "reachable waits orch" "\<And>k. waits k k"
  shows "terminal_locked orch \<and> completed orch = Map.empty"
  using assms(1)
proof (induction rule: reachable.induct)
  case Init
  then show ?case by (simp add: terminal_locked_def new_orchestrator_def)
next
  case (Step orch orch')
  then show ?case using step_terminal_locked step_completed assms(2) by metis
qed

lemma never_settles:
  assumes "reachable waits orch" "\<And>k. waits k k"
  shows "completed orch = Map.empty \<and>
    \<not> settled (snd (advance waits now instant mid orch)) \<and>
    \<not> settled (snd (rollback waits now mid reason orch))"
proof -
  note inv = reachable_locked [OF assms]
  have "\<not> settled (snd (advance waits now instant mid orch))"
    using inv assms(2)
    by (auto simp: advance_def settled_def promote_blocks terminal_locked_def must_wait_def Let_def
        split: option.split migration_state.split)
  moreover have "\<not> settled (snd (rollback waits now mid reason orch))"
    using assms(2) by (simp add: rollback_def settled_def promote_blocks split: option.split)
  ultimately show ?thesis using inv by simp
qed

text \<open>
  C13. As the code is written, no migration ever completes, fails or rolls back. Promotion removes
  the record from the map while the guard of the caller still holds its key; where the map makes a
  call for a key wait for a guard on that key, \<open>advance\<close> never returns from its last step nor after
  the time-out, \<open>rollback\<close> never returns success, and the completed migrations stay empty for ever.
\<close>

theorem no_migration_ever_settles:
  assumes "reachable waits orch" "\<And>k. waits k k"
  shows "completed orch = Map.empty \<and>
    \<not> settled (snd (advance waits now instant mid orch)) \<and>
    \<not> settled (snd (rollback waits now mid reason orch))"
  using assms by (rule never_settles)

theorem no_migration_ever_settles_witness:
  "\<exists>r. active (sample_history (=) 4) 77 = Some r \<and> mr_state r = Resuming \<and>
     completed (sample_history (=) 5) = Map.empty \<and>
     \<not> settled (snd (advance (=) 0 0 77 (sample_history (=) 4))) \<and>
     \<not> settled (snd (rollback (=) 0 77 ''stop'' (sample_history (=) 4)))"
  using sample_history_walk [of "(=)"]
    no_migration_ever_settles [OF sample_history_reachable [of "(=)" 4], where mid = 77]
    no_migration_ever_settles [OF sample_history_reachable [of "(=)" 5], where mid = 77]
  by auto

section \<open>The walk of a migration\<close>

definition in_time :: "int \<Rightarrow> migration_record \<Rightarrow> bool" where
  "in_time instant r \<longleftrightarrow> \<not> 60000 < elapsed_ms instant r"

lemma in_time_interval:
  assumes "instant - mr_started_at r < 60001000000"
  shows "in_time instant r"
proof -
  define d where "d = max 0 (instant - mr_started_at r) div 1000000"
  have d: "0 \<le> d" "d \<le> 60000" using assms by (auto simp: d_def)
  then have "unat (as_u64 d) = nat d" by (intro unat_as_u64) auto
  then show ?thesis using d
    by (simp add: in_time_def elapsed_ms_def word_less_nat_alt flip: d_def)
qed

lemma in_time_transition [simp]: "in_time i (fst (transition now s reason r)) = in_time i r"
  by (simp add: in_time_def elapsed_ms_def transition_def)

lemma set_active_simps [simp]:
  "active (set_active k r orch) = (active orch)(k \<mapsto> r)"
  "completed (set_active k r orch) = completed orch"
  "held (set_active k r orch) = held orch"
  by (simp_all add: set_active_def)

text \<open>One step on a record that is in time and not locked.\<close>

lemma advance_moves:
  assumes "active orch k = Some r" "in_time instant r" "held orch = []"
    and "mr_state r \<in> {Pending, Draining, Snapshotting, Transferring}"
  shows "\<exists>r'. advance waits now instant k orch = (set_active k r' orch, Returns (Inr (mr_state r'))) \<and>
    mr_state r' = hd (next_states (mr_state r)) \<and> mr_started_at r' = mr_started_at r \<and>
    map fst (mr_state_history r') = map fst (mr_state_history r) @ [mr_state r']"
  using assms
  by (cases "mr_state r")
    (auto simp: advance_def in_time_def must_wait_def transition_def intro!: exI)

fun advance_all ::
    "(uuid \<Rightarrow> uuid \<Rightarrow> bool) \<Rightarrow> uuid \<Rightarrow> (datetime \<times> int) list \<Rightarrow> orchestrator \<Rightarrow>
     orchestrator \<times> (migration_error + migration_state) outcome list" where
  "advance_all waits k [] orch = (orch, [])"
| "advance_all waits k ((now, instant) # rest) orch =
     (let (orch', out) = advance waits now instant k orch;
          (orch'', outs) = advance_all waits k rest orch'
      in (orch'', out # outs))"

lemma set_active_twice [simp]: "set_active k r' (set_active k r orch) = set_active k r' orch"
  by (simp add: set_active_def)

lemma advance_last:
  assumes "active orch k = Some r" "in_time instant r" "held orch = []" "mr_state r = Resuming"
  shows "snd (advance waits now instant k orch) =
      (if waits k k then Blocks else Returns (Inr Complete)) \<and>
    migration_state_of waits k (fst (advance waits now instant k orch)) =
      (if waits k k then Blocks else Returns (Some Complete))"
  using assms
  by (simp add: advance_def in_time_def must_wait_def promote_and_return_def
      promote_to_completed_def migration_state_of_def transition_state set_active_def Let_def)

text \<open>
  A migration that is pending and never late is taken by four calls of \<open>advance\<close> through
  draining, snapshotting and transferring to resuming, each call returning the state it moved to
  and recording it in the history. The fifth call completes it, provided that the map lets a
  guard and a removal of the same key coexist; otherwise that call and every later query of the
  migration block.
\<close>

theorem migration_walk:
  assumes "active orch k = Some r" "mr_state r = Pending" "held orch = []"
    and "ts = [(n1, i1), (n2, i2), (n3, i3), (n4, i4)]"
    and "\<forall>i\<in>{i1, i2, i3, i4, i5}. i - mr_started_at r < 60001000000"
  shows "let (orch4, outs) = advance_all waits k ts orch; (orch5, out5) = advance waits n5 i5 k orch4
    in outs = map (\<lambda>s. Returns (Inr s)) [Draining, Snapshotting, Transferring, Resuming] \<and>
       (\<exists>r4. active orch4 k = Some r4 \<and> mr_state r4 = Resuming \<and>
         map fst (mr_state_history r4) =
           map fst (mr_state_history r) @ [Draining, Snapshotting, Transferring, Resuming]) \<and>
       out5 = (if waits k k then Blocks else Returns (Inr Complete)) \<and>
       migration_state_of waits k orch5 = (if waits k k then Blocks else Returns (Some Complete))"
proof -
  have t: "in_time i r'" if "i \<in> {i1, i2, i3, i4, i5}" "mr_started_at r' = mr_started_at r" for i r'
    using that assms(5) in_time_interval [of i r'] by auto
  from advance_moves [OF assms(1) t assms(3), of i1 waits n1] assms(2) obtain r1 where
    1: "advance waits n1 i1 k orch = (set_active k r1 orch, Returns (Inr Draining))"
      "mr_state r1 = Draining" "mr_started_at r1 = mr_started_at r"
      "map fst (mr_state_history r1) = map fst (mr_state_history r) @ [Draining]" by auto
  from advance_moves [of "set_active k r1 orch" k r1 i2 waits n2] t [of i2 r1] 1 assms(3) obtain r2 where
    2: "advance waits n2 i2 k (set_active k r1 orch) = (set_active k r2 orch, Returns (Inr Snapshotting))"
      "mr_state r2 = Snapshotting" "mr_started_at r2 = mr_started_at r"
      "map fst (mr_state_history r2) = map fst (mr_state_history r1) @ [Snapshotting]" by auto
  from advance_moves [of "set_active k r2 orch" k r2 i3 waits n3] t [of i3 r2] 2 assms(3) obtain r3 where
    3: "advance waits n3 i3 k (set_active k r2 orch) = (set_active k r3 orch, Returns (Inr Transferring))"
      "mr_state r3 = Transferring" "mr_started_at r3 = mr_started_at r"
      "map fst (mr_state_history r3) = map fst (mr_state_history r2) @ [Transferring]" by auto
  from advance_moves [of "set_active k r3 orch" k r3 i4 waits n4] t [of i4 r3] 3 assms(3) obtain r4 where
    4: "advance waits n4 i4 k (set_active k r3 orch) = (set_active k r4 orch, Returns (Inr Resuming))"
      "mr_state r4 = Resuming" "mr_started_at r4 = mr_started_at r"
      "map fst (mr_state_history r4) = map fst (mr_state_history r3) @ [Resuming]" by auto
  have "advance_all waits k ts orch = (set_active k r4 orch,
      map (\<lambda>s. Returns (Inr s)) [Draining, Snapshotting, Transferring, Resuming])"
    by (simp add: assms(4) 1(1) 2(1) 3(1) 4(1))
  with 1(4) 2(4) 3(4) 4 advance_last [of "set_active k r4 orch" k r4 i5 waits n5] t [of i5 r4] assms(3)
  show ?thesis by (simp add: split_def)
qed

theorem migration_walk_witness:
  "let (orch4, outs) = advance_all (\<lambda>_ _. False) 77 [(0, 1), (0, 2), (0, 3), (0, 4)]
         (fst (sample_start (\<lambda>_ _. False)))
   in outs = [Returns (Inr Draining), Returns (Inr Snapshotting), Returns (Inr Transferring),
        Returns (Inr Resuming)] \<and>
      snd (advance (\<lambda>_ _. False) 0 5 77 orch4) = Returns (Inr Complete)"
proof -
  obtain r where r: "active (fst (sample_start (\<lambda>_ _. False))) 77 = Some r" "mr_state r = Pending"
    "mr_started_at r = 0" "held (fst (sample_start (\<lambda>_ _. False))) = []"
    using sample_start_eq by blast
  from migration_walk [OF r(1,2,4) refl, of 1 2 3 4 5 "\<lambda>_ _. False" 0 0 0 0 0] r(3)
  show ?thesis by (simp add: split_def Let_def)
qed

text \<open>
  A migration that is late while pending or draining is reported as failed, but its record is
  not: neither state may move to \<open>Failed\<close>, and the refusal is ignored, so that the record is put
  away among the completed ones in a state that is not terminal, with its history unchanged.
\<close>

theorem late_migration_not_failed:
  assumes "active orch k = Some r" "mr_state r \<in> {Pending, Draining}"
    and "60000 < elapsed_ms instant r" "\<not> must_wait waits (k # held orch) k"
  shows "snd (advance waits now instant k orch) = Returns (Inr Failed) \<and>
    active (fst (advance waits now instant k orch)) k = None \<and>
    completed (fst (advance waits now instant k orch)) k = Some r \<and> \<not> is_terminal (mr_state r)"
  using assms
  by (auto simp: advance_def must_wait_def promote_and_return_def promote_to_completed_def
      transition_def set_active_def)

theorem late_migration_not_failed_witness:
  "let (orch, out) = advance (\<lambda>_ _. False) 0 60001000000 77 (fst (sample_start (\<lambda>_ _. False)))
   in out = Returns (Inr Failed) \<and>
      migration_state_of (\<lambda>_ _. False) 77 orch = Returns (Some Pending)"
proof -
  obtain r where r: "active (fst (sample_start (\<lambda>_ _. False))) 77 = Some r" "mr_state r = Pending"
    "mr_started_at r = 0"
    using sample_start_eq by blast
  have "60000 < elapsed_ms 60001000000 r"
    using r(3) by (simp add: elapsed_ms_def as_u64_def)
  from late_migration_not_failed [OF r(1) _ this, of "\<lambda>_ _. False" 0] r(2)
  show ?thesis by (simp add: split_def Let_def migration_state_of_def must_wait_def)
qed

section \<open>Starting a migration\<close>

lemma get_host_found: "snd (get_host t k hr) = None \<longleftrightarrow> hosts hr k = None"
  by (simp add: get_host_view split: option.split)

lemma get_host_kept: "hosts (fst (get_host t k hr)) k' = None \<longleftrightarrow> hosts hr k' = None"
  by (simp add: get_host_view split: option.split)

lemma get_host_live:
  "live_view now secs (fst (get_host t k hr)) k' = None \<longleftrightarrow> live_view now secs hr k' = None"
  by (cases "hosts hr k"; cases "hosts hr k'")
    (auto simp: get_host_view live_view_def timed_out_def refreshed_def)

definition live_host :: "datetime \<Rightarrow> host_registry \<Rightarrow> uuid \<Rightarrow> bool" where
  "live_host now hr k = (case hosts hr k of None \<Rightarrow> False | Some e \<Rightarrow> \<not> timed_out now hr e)"

lemma live_view_live: "live_view now secs hr k \<noteq> None \<longleftrightarrow> live_host now hr k"
  by (simp add: live_view_def live_host_def split: option.split)

lemma live_view_id: "live_view now secs hr k = Some h \<Longrightarrow> hs_host_id h = k"
  by (auto simp: live_view_def host_view_def snapshot_of_def split: option.splits if_splits)

lemma values_in_ids: "map hs_host_id (values_in ks (live_view now secs hr)) = filter (live_host now hr) ks"
  by (induction ks) (auto simp: live_view_live [of now secs, symmetric] dest: live_view_id
      split: option.split)

text \<open>The target that is chosen: the one asked for, or the first live host other than the source in
  the order of the iteration.\<close>

lemma filter_map_id: "map f (filter (\<lambda>x. P (f x)) xs) = filter P (map f xs)"
  by (induction xs) simp_all

lemma choose_target_eq:
  assumes "distinct ks"
  shows "snd (choose_target now secs ks req hr) =
    (case mreq_target_host_id req of
       Some k \<Rightarrow> if hosts hr k = None then Inl (TargetHostNotFound k) else Inr k
     | None \<Rightarrow> (case filter (\<lambda>k. k \<noteq> mreq_source_host_id req \<and> live_host now hr k) ks of
          [] \<Rightarrow> Inl (TargetInsufficientCapacity 0) | k # _ \<Rightarrow> Inr k))"
proof (cases "mreq_target_host_id req")
  case (Some k)
  then show ?thesis by (simp add: choose_target_def split_def Let_def get_host_found)
next
  case None
  let ?hs = "filter (\<lambda>h. hs_host_id h \<noteq> mreq_source_host_id req) (values_in ks (live_view now secs hr))"
  have "map hs_host_id ?hs = filter (\<lambda>k. k \<noteq> mreq_source_host_id req \<and> live_host now hr k) ks"
    by (simp add: filter_map_id [where P = "\<lambda>k. k \<noteq> mreq_source_host_id req"] values_in_ids
        conj_commute)
  then show ?thesis using None assms
    by (cases ?hs) (auto simp: choose_target_def split_def Let_def available_hosts_eq
        dest: sym [of "_ # _"])
qed

lemma live_host_after_get: "live_host now (fst (get_host t k hr)) = live_host now hr"
  by (rule ext) (metis get_host_live live_view_live)

text \<open>
  \<open>start_migration\<close> succeeds exactly when the source is registered and the target asked for is
  registered or, when none is asked for, some other host is live; the record it adds is pending and
  names that target. Otherwise it returns the error of the first check that fails and adds nothing.
  Neither the capacity of the target nor, for a target that is asked for, its heartbeat or its being
  different from the source is looked at.
\<close>

theorem start_migration_outcome:
  assumes "distinct ks" "\<not> must_wait waits (held orch) mid"
  shows "let (orch', hr', out) = start_migration waits now instant t secs ks mid req orch hr;
      target = (case mreq_target_host_id req of
           Some k \<Rightarrow> if hosts hr k = None then Inl (TargetHostNotFound k) else Inr k
         | None \<Rightarrow> (case filter (\<lambda>k. k \<noteq> mreq_source_host_id req \<and> live_host now hr k) ks of
             [] \<Rightarrow> Inl (TargetInsufficientCapacity 0) | k # _ \<Rightarrow> Inr k))
    in (case (hosts hr (mreq_source_host_id req), target) of
          (None, _) \<Rightarrow> out = Returns (Inl (SourceHostNotFound (mreq_source_host_id req))) \<and> orch' = orch
        | (Some _, Inl e) \<Rightarrow> out = Returns (Inl e) \<and> orch' = orch
        | (Some _, Inr k) \<Rightarrow> out = Returns (Inr mid) \<and>
            orch' = set_active mid ((new_migration_record now instant mid req)
              \<lparr>mr_target_host_id := Some k\<rparr>) orch)"
proof (cases "hosts hr (mreq_source_host_id req)")
  case None
  then have "snd (get_host t (mreq_source_host_id req) hr) = None" by (simp add: get_host_found)
  then show ?thesis using None by (simp add: start_migration_def split_def Let_def)
next
  case (Some e)
  obtain hr1 src where get: "get_host t (mreq_source_host_id req) hr = (hr1, src)"
    by (cases "get_host t (mreq_source_host_id req) hr")
  obtain hr2 target where choose: "choose_target now secs ks req hr1 = (hr2, target)"
    by (cases "choose_target now secs ks req hr1")
  have src: "src \<noteq> None"
    using Some get get_host_found [of t "mreq_source_host_id req" hr] by simp
  have hr1: "hr1 = fst (get_host t (mreq_source_host_id req) hr)" using get by simp
  have "snd (choose_target now secs ks req hr1) = snd (choose_target now secs ks req hr)"
    by (simp add: choose_target_eq [OF assms(1)] get_host_kept live_host_after_get hr1
        split: option.split)
  then have target: "snd (choose_target now secs ks req hr) = target" using choose by simp
  have "start_migration waits now instant t secs ks mid req orch hr =
      (case target of Inl e \<Rightarrow> (orch, hr2, Returns (Inl e))
       | Inr k \<Rightarrow> (set_active mid ((new_migration_record now instant mid req)
           \<lparr>mr_target_host_id := Some k\<rparr>) orch, hr2, Returns (Inr mid)))"
    using src assms(2)
    by (auto simp: start_migration_def get choose set_active_def Let_def split: sum.split)
  then show ?thesis
    unfolding choose_target_eq [OF assms(1), where secs = secs, symmetric] target using Some
    by (simp split: sum.split)
qed

theorem start_migration_outcome_witness:
  "\<exists>orch. fst (sample_start (=)) = set_active 77 orch new_orchestrator \<and> mr_target_host_id orch = Some 2"
proof -
  have known: "hosts sample_registry 1 \<noteq> None" "hosts sample_registry 2 \<noteq> None"
    by (simp_all add: sample_registry_def upsert_host_def)
  have "\<not> must_wait (=) (held new_orchestrator) 77" by (simp add: must_wait_def new_orchestrator_def)
  from start_migration_outcome [OF _ this, of "[1, 2]" 40000000000 0 40 "\<lambda>_. 40"
      "\<lparr>mreq_sandbox_id = 5, mreq_source_host_id = 1, mreq_target_host_id = Some 2,
       mreq_template_id = None, mreq_timeout_secs = 60, mreq_drain_secs = 5\<rparr>" sample_registry]
  show ?thesis using known
    by (auto simp: split_def Let_def sample_start_def split: option.splits)
qed

text \<open>
  After any sequence of registrations and removals of redirects, a look-up returns the host of
  the last registration of that sandbox unless a removal of it came later.
\<close>

theorem redirect_last_write:
  "get_redirect k (fold (apply_write (\<lambda>(k, h). register_redirect k h) clear_redirect) ws
     new_redirect_table) = last_write fst snd ws k None"
  by (simp add: redirect_store.lookup_run) (simp add: get_redirect_def new_redirect_table_def)

end
