(* ===== verification/Sharding.thy ===== *)
theory Sharding
  imports Placement
begin

text \<open>
  Shards of the scheduler (\<open>akssora-scheduler/src/sharding.rs\<close>): the registry of the shards, the
  consistent-hash ring and the global scheduler that routes a sandbox to a shard.

  The hash function (\<open>DefaultHasher\<close>, whose algorithm the standard library leaves open) is the
  parameter \<open>hash\<close>; the text of a \<open>Uuid\<close> is the parameter \<open>show_uuid\<close>. \<open>binary_search_by_key\<close> may
  return any of several matches, so it is the parameter \<open>bs\<close>; \<open>binary_search_ok\<close> states what the
  standard library promises of it.
\<close>

section \<open>Keys\<close>

datatype shard_key = RegionKey string | TenantKey uuid | HybridKey string uuid

definition region_shard_id :: "string \<Rightarrow> string" where
  "region_shard_id r = ''region:'' @ r"

definition tenant_shard_id :: "(uuid \<Rightarrow> string) \<Rightarrow> uuid \<Rightarrow> string" where
  "tenant_shard_id show_uuid t = ''tenant:'' @ show_uuid t"

fun shard_id :: "(uuid \<Rightarrow> string) \<Rightarrow> shard_key \<Rightarrow> string" where
  "shard_id show_uuid (RegionKey r) = region_shard_id r"
| "shard_id show_uuid (TenantKey t) = tenant_shard_id show_uuid t"
| "shard_id show_uuid (HybridKey r t) = ''region:'' @ r @ '':tenant:'' @ show_uuid t"

section \<open>The registry of shards\<close>

record shard_info =
  si_shard_id :: string
  si_key :: shard_key
  si_scheduler_address :: string
  si_host_count :: u32
  si_sandbox_count :: u32
  si_healthy :: bool

record shard_registry =
  shards :: "string \<rightharpoonup> shard_info"
  default_shard :: "string option"

definition new_shard_registry :: shard_registry where
  "new_shard_registry = \<lparr>shards = Map.empty, default_shard = None\<rparr>"

definition register_shard_info :: "shard_info \<Rightarrow> shard_registry \<Rightarrow> shard_registry" where
  "register_shard_info info sr = sr\<lparr>shards := (shards sr)(si_shard_id info \<mapsto> info)\<rparr>"

definition unregister_shard :: "string \<Rightarrow> shard_registry \<Rightarrow> shard_registry \<times> bool" where
  "unregister_shard sid sr = (sr\<lparr>shards := (shards sr)(sid := None)\<rparr>, shards sr sid \<noteq> None)"

definition resolve_shard :: "(uuid \<Rightarrow> string) \<Rightarrow> shard_key \<Rightarrow> shard_registry \<Rightarrow> shard_info option" where
  "resolve_shard show_uuid key sr =
     (case shards sr (shard_id show_uuid key) of
        Some info \<Rightarrow> Some info
      | None \<Rightarrow>
          (case (case key of HybridKey r _ \<Rightarrow> shards sr (region_shard_id r) | _ \<Rightarrow> None) of
             Some info \<Rightarrow> Some info
           | None \<Rightarrow>
               (case (case key of HybridKey _ t \<Rightarrow> shards sr (tenant_shard_id show_uuid t) | _ \<Rightarrow> None) of
                  Some info \<Rightarrow> Some info
                | None \<Rightarrow>
                    (case default_shard sr of Some d \<Rightarrow> shards sr d | None \<Rightarrow> None))))"

definition set_default_shard :: "string \<Rightarrow> shard_registry \<Rightarrow> shard_registry" where
  "set_default_shard sid sr = sr\<lparr>default_shard := Some sid\<rparr>"

definition list_shards :: "string list \<Rightarrow> shard_registry \<Rightarrow> shard_info list" where
  "list_shards ks sr = values_in ks (shards sr)"

definition registry_shard_count :: "shard_registry \<Rightarrow> nat" where
  "registry_shard_count sr = card (dom (shards sr))"

definition shard_total_sandboxes :: "bool \<Rightarrow> string list \<Rightarrow> shard_registry \<Rightarrow> u64 outcome" where
  "shard_total_sandboxes ovf ks sr =
     sum_u64 ovf (map (\<lambda>s. ucast (si_sandbox_count s)) (list_shards ks sr))"

definition shard_total_hosts :: "bool \<Rightarrow> string list \<Rightarrow> shard_registry \<Rightarrow> u64 outcome" where
  "shard_total_hosts ovf ks sr =
     sum_u64 ovf (map (\<lambda>s. ucast (si_host_count s)) (list_shards ks sr))"

text \<open>\<open>min_by_key\<close> returns the first of several least elements.\<close>

definition least_loaded_shard :: "string list \<Rightarrow> shard_registry \<Rightarrow> shard_info option" where
  "least_loaded_shard ks sr = best_by si_sandbox_count (filter si_healthy (list_shards ks sr))"

interpretation shard_store: keyed_store
  shards register_shard_info "\<lambda>sid sr. fst (unregister_shard sid sr)" si_shard_id "\<lambda>info. info"
  by unfold_locales (auto simp: register_shard_info_def unregister_shard_def)

section \<open>The ring\<close>

record hash_ring =
  ring :: "(u64 \<times> string) list"
  virtual_nodes :: nat

definition new_ring :: "nat \<Rightarrow> hash_ring" where
  "new_ring n = \<lparr>ring = [], virtual_nodes = n\<rparr>"

definition ring_nodes :: "(string \<Rightarrow> u64) \<Rightarrow> string \<Rightarrow> nat \<Rightarrow> (u64 \<times> string) list" where
  "ring_nodes hash sid n = map (\<lambda>i. (hash (sid @ '':'' @ show_nat i), sid)) [0..<n]"

definition add_shard :: "(string \<Rightarrow> u64) \<Rightarrow> string \<Rightarrow> hash_ring \<Rightarrow> hash_ring" where
  "add_shard hash sid hr =
     hr\<lparr>ring := sort_key fst (ring hr @ ring_nodes hash sid (virtual_nodes hr))\<rparr>"

definition remove_shard :: "string \<Rightarrow> hash_ring \<Rightarrow> hash_ring" where
  "remove_shard sid hr = hr\<lparr>ring := filter (\<lambda>n. snd n \<noteq> sid) (ring hr)\<rparr>"

datatype search_result = Found nat | Missing nat

definition get_shard ::
    "(u64 list \<Rightarrow> u64 \<Rightarrow> search_result) \<Rightarrow> (string \<Rightarrow> u64) \<Rightarrow> string \<Rightarrow> hash_ring \<Rightarrow> string option" where
  "get_shard bs hash key hr =
     (if ring hr = [] then None
      else (case bs (map fst (ring hr)) (hash key) of
              Found i \<Rightarrow> Some (snd (ring hr ! i))
            | Missing i \<Rightarrow>
                (let i = (if length (ring hr) \<le> i then 0 else i) in Some (snd (ring hr ! i)))))"

definition ring_shard_count :: "hash_ring \<Rightarrow> nat" where
  "ring_shard_count hr = card (snd ` set (ring hr))"

text \<open>What the documentation of the slice search promises on a sorted slice.\<close>

definition binary_search_ok :: "(u64 list \<Rightarrow> u64 \<Rightarrow> search_result) \<Rightarrow> bool" where
  "binary_search_ok bs \<longleftrightarrow> (\<forall>xs x. sorted xs \<longrightarrow>
     (case bs xs x of
        Found i \<Rightarrow> i < length xs \<and> xs ! i = x
      | Missing i \<Rightarrow> i \<le> length xs \<and> (\<forall>j<i. xs ! j < x) \<and> (\<forall>j<length xs. i \<le> j \<longrightarrow> x < xs ! j)))"

section \<open>The global scheduler\<close>

record global_scheduler =
  gs_registry :: shard_registry
  gs_ring :: hash_ring

definition new_global_scheduler :: "shard_registry \<Rightarrow> global_scheduler" where
  "new_global_scheduler sr = \<lparr>gs_registry = sr, gs_ring = new_ring 150\<rparr>"

definition route ::
    "(uuid \<Rightarrow> string) \<Rightarrow> (u64 list \<Rightarrow> u64 \<Rightarrow> search_result) \<Rightarrow> (string \<Rightarrow> u64) \<Rightarrow> string list \<Rightarrow>
     shard_key \<Rightarrow> uuid \<Rightarrow> global_scheduler \<Rightarrow> shard_info option" where
  "route show_uuid bs hash ks key sandbox_id gs =
     (case resolve_shard show_uuid key (gs_registry gs) of
        Some info \<Rightarrow> Some info
      | None \<Rightarrow>
          (case get_shard bs hash (show_uuid sandbox_id) (gs_ring gs) of
             None \<Rightarrow> None
           | Some sid \<Rightarrow> find (\<lambda>s. si_shard_id s = sid) (list_shards ks (gs_registry gs))))"

definition register_shard :: "(string \<Rightarrow> u64) \<Rightarrow> shard_info \<Rightarrow> global_scheduler \<Rightarrow> global_scheduler" where
  "register_shard hash info gs =
     gs\<lparr>gs_registry := register_shard_info info (gs_registry gs),
        gs_ring := add_shard hash (si_shard_id info) (gs_ring gs)\<rparr>"

record fleet_metrics =
  fm_total_shards :: nat
  fm_healthy_shards :: nat
  fm_unhealthy_shards :: nat
  fm_total_hosts :: u64
  fm_total_sandboxes :: u64
  fm_shards :: "shard_info list"

definition fleet_metrics_of ::
    "bool \<Rightarrow> string list \<Rightarrow> global_scheduler \<Rightarrow> fleet_metrics outcome" where
  "fleet_metrics_of ovf ks gs =
     (let ss = list_shards ks (gs_registry gs);
          healthy = length (filter si_healthy ss)
      in (case sum_u64 ovf (map (\<lambda>s. ucast (si_host_count s)) ss) of
            Returns total_hosts \<Rightarrow>
              (case sum_u64 ovf (map (\<lambda>s. ucast (si_sandbox_count s)) ss) of
                 Returns total_sandboxes \<Rightarrow>
                   Returns \<lparr>fm_total_shards = length ss, fm_healthy_shards = healthy,
                     fm_unhealthy_shards = length ss - healthy, fm_total_hosts = total_hosts,
                     fm_total_sandboxes = total_sandboxes, fm_shards = ss\<rparr>
               | Panics \<Rightarrow> Panics | Blocks \<Rightarrow> Blocks)
          | Panics \<Rightarrow> Panics | Blocks \<Rightarrow> Blocks))"

section \<open>The ring as a function from keys to shards\<close>

definition ring_sorted :: "hash_ring \<Rightarrow> bool" where
  "ring_sorted hr \<longleftrightarrow> sorted (map fst (ring hr))"

datatype ring_call = AddShard string | RemoveShard string

fun ring_step :: "(string \<Rightarrow> u64) \<Rightarrow> ring_call \<Rightarrow> hash_ring \<Rightarrow> hash_ring" where
  "ring_step hash (AddShard sid) hr = add_shard hash sid hr"
| "ring_step hash (RemoveShard sid) hr = remove_shard sid hr"

interpretation ring_machine: invariant_machine "ring_step hash" ring_sorted for hash
proof
  fix hr e
  assume "ring_sorted hr"
  then show "ring_sorted (ring_step hash e hr)"
    by (cases e) (simp_all add: ring_sorted_def add_shard_def remove_shard_def sorted_filter)
qed

text \<open>The first node at or after a hash on the circle.\<close>

definition successor :: "u64 \<Rightarrow> (u64 \<times> string) list \<Rightarrow> u64 \<times> string \<Rightarrow> bool" where
  "successor x ns n \<longleftrightarrow> n \<in> set ns \<and>
     (if \<exists>m\<in>set ns. x \<le> fst m
      then x \<le> fst n \<and> (\<forall>m\<in>set ns. x \<le> fst m \<longrightarrow> fst n \<le> fst m)
      else (\<forall>m\<in>set ns. fst n \<le> fst m))"

lemma successor_hash_unique: "successor x ns n \<Longrightarrow> successor x ns m \<Longrightarrow> fst n = fst m"
  by (auto simp: successor_def intro: antisym split: if_splits)

lemma successor_unique:
  assumes "distinct (map fst ns)" "successor x ns n" "successor x ns m"
  shows "n = m"
  using assms(1) successor_hash_unique [OF assms(2,3)] assms(2,3)
  by (auto simp: successor_def distinct_map inj_on_def)

lemma successor_filter:
  assumes "successor x ns n" "P n"
  shows "successor x (filter P ns) n"
proof (cases "\<exists>m\<in>set ns. x \<le> fst m")
  case True
  then have "x \<le> fst n" using assms by (simp add: successor_def)
  moreover have "n \<in> set (filter P ns)" using assms by (simp add: successor_def)
  ultimately have "\<exists>m\<in>set (filter P ns). x \<le> fst m" by blast
  with True assms show ?thesis by (simp add: successor_def)
next
  case False
  then have "\<not> (\<exists>m\<in>set (filter P ns). x \<le> fst m)" by simp
  with False assms show ?thesis by (simp add: successor_def)
qed

lemma sorted_first: "sorted (map fst ns) \<Longrightarrow> i < length ns \<Longrightarrow> fst (ns ! 0) \<le> fst (ns ! i)"
proof -
  assume "sorted (map fst ns)" "i < length ns"
  moreover from this(2) have "0 < length ns" by linarith
  ultimately show ?thesis using sorted_nth_mono [of "map fst ns" 0 i] by simp
qed

lemma get_shard_node:
  assumes "binary_search_ok bs" "ring_sorted hr" "ring hr \<noteq> []"
  obtains n where "successor (hash key) (ring hr) n" "get_shard bs hash key hr = Some (snd n)"
proof (cases "bs (map fst (ring hr)) (hash key)")
  case (Found i)
  have "case Found i of Found i \<Rightarrow> i < length (ring hr) \<and> fst (ring hr ! i) = hash key | _ \<Rightarrow> True"
    using assms(1,2) Found unfolding binary_search_ok_def ring_sorted_def
    by (auto dest!: spec [of _ "map fst (ring hr)"] spec [of _ "hash key"] split: search_result.splits)
  then have i: "i < length (ring hr)" "fst (ring hr ! i) = hash key" by simp_all
  then have "ring hr ! i \<in> set (ring hr)" "hash key \<le> fst (ring hr ! i)" by simp_all
  then have "\<exists>m\<in>set (ring hr). hash key \<le> fst m" by blast
  then have "successor (hash key) (ring hr) (ring hr ! i)" using i by (simp add: successor_def)
  with Found assms(3) that show ?thesis by (simp add: get_shard_def)
next
  case (Missing i)
  have m: "i \<le> length (ring hr)" "\<forall>j<i. fst (ring hr ! j) < hash key"
    "\<forall>j<length (ring hr). i \<le> j \<longrightarrow> hash key < fst (ring hr ! j)"
    using assms(1,2) Missing unfolding binary_search_ok_def ring_sorted_def
    by (auto dest!: spec [of _ "map fst (ring hr)"] spec [of _ "hash key"])
  let ?i = "if length (ring hr) \<le> i then 0 else i"
  have "successor (hash key) (ring hr) (ring hr ! ?i)"
  proof (cases "length (ring hr) \<le> i")
    case True
    then have "\<not> (\<exists>n\<in>set (ring hr). hash key \<le> fst n)"
      using m(1,2) by (metis in_set_conv_nth le_antisym leD)
    moreover have "\<forall>n\<in>set (ring hr). fst (ring hr ! 0) \<le> fst n"
      using assms(2) sorted_first by (metis in_set_conv_nth ring_sorted_def)
    ultimately show ?thesis using True assms(3) by (simp add: successor_def)
  next
    case False
    have "fst (ring hr ! i) \<le> fst n" if "n \<in> set (ring hr)" "hash key \<le> fst n" for n
    proof -
      from that obtain j where j: "j < length (ring hr)" "n = ring hr ! j"
        by (auto simp: in_set_conv_nth)
      then have "i \<le> j" using m(2) that(2) by (meson leD not_le_imp_less)
      then show ?thesis
        using sorted_nth_mono [of "map fst (ring hr)" i j] assms(2) j by (simp add: ring_sorted_def)
    qed
    moreover have "hash key \<le> fst (ring hr ! i)" using False m(3) by (simp add: less_imp_le)
    ultimately show ?thesis using False by (auto simp: successor_def)
  qed
  with Missing assms(3) that show ?thesis by (simp add: get_shard_def Let_def)
qed

text \<open>A search that meets the contract.\<close>

definition linear_search :: "u64 list \<Rightarrow> u64 \<Rightarrow> search_result" where
  "linear_search xs x =
     (let i = length (takeWhile (\<lambda>y. y < x) xs)
      in if i < length xs \<and> xs ! i = x then Found i else Missing i)"

lemma linear_search_ok: "binary_search_ok linear_search"
  unfolding binary_search_ok_def
proof (intro allI impI)
  fix xs :: "u64 list" and x
  assume "sorted xs"
  let ?i = "length (takeWhile (\<lambda>y. y < x) xs)"
  have le: "?i \<le> length xs" by (rule length_takeWhile_le)
  have below: "\<forall>j<?i. xs ! j < x" by (metis nth_mem set_takeWhileD takeWhile_nth)
  have above: "x < xs ! j" if "?i < length xs \<longrightarrow> xs ! ?i \<noteq> x" "j < length xs" "?i \<le> j" for j
  proof -
    have "\<not> xs ! ?i < x" using that by (intro nth_length_takeWhile) simp
    then have "x < xs ! ?i" using that by auto
    also have "xs ! ?i \<le> xs ! j" using \<open>sorted xs\<close> that by (intro sorted_nth_mono) auto
    finally show ?thesis .
  qed
  show "case linear_search xs x of
      Found i \<Rightarrow> i < length xs \<and> xs ! i = x
    | Missing i \<Rightarrow> i \<le> length xs \<and> (\<forall>j<i. xs ! j < x) \<and> (\<forall>j<length xs. i \<le> j \<longrightarrow> x < xs ! j)"
    using le below above by (auto simp: linear_search_def Let_def)
qed

text \<open>
  C33. After any sequence of additions and removals of shards, a look-up on a ring that is not empty
  returns the shard of the first node at or after the hash of the key, going round to the least
  node when there is none.
\<close>

theorem ring_lookup_is_successor:
  assumes "binary_search_ok bs" "ring (fold (ring_step hash) cs (new_ring v)) \<noteq> []"
  shows "\<exists>n. successor (hash key) (ring (fold (ring_step hash) cs (new_ring v))) n \<and>
    get_shard bs hash key (fold (ring_step hash) cs (new_ring v)) = Some (snd n)"
proof -
  have "ring_sorted (fold (ring_step hash) cs (new_ring v))"
    by (rule ring_machine.run_inv) (simp add: ring_sorted_def new_ring_def)
  from get_shard_node [OF assms(1) this assms(2)] show ?thesis by blast
qed

text \<open>
  C34. Removing a shard moves only the keys that were on it: a key that a ring with distinct hashes
  sends to another shard is sent to the same shard afterwards. Adding a shard and removing it again
  gives back the ring.
\<close>

theorem removal_moves_only_its_keys:
  assumes "binary_search_ok bs" "ring_sorted hr" "distinct (map fst (ring hr))"
  shows "(get_shard bs hash key hr = Some other \<and> other \<noteq> sid \<longrightarrow>
      get_shard bs hash key (remove_shard sid hr) = Some other) \<and>
    (sid \<notin> snd ` set (ring hr) \<longrightarrow> remove_shard sid (add_shard hash sid hr) = hr)"
proof (intro conjI impI)
  assume "sid \<notin> snd ` set (ring hr)"
  then have "filter (\<lambda>n. snd n \<noteq> sid) (ring hr) = ring hr"
    by (auto simp: filter_id_conv)
  moreover have "filter (\<lambda>n. snd n \<noteq> sid) (ring_nodes hash sid n) = []" for n
    by (simp add: ring_nodes_def filter_empty_conv)
  ultimately show "remove_shard sid (add_shard hash sid hr) = hr"
    using assms(2)
    by (simp add: remove_shard_def add_shard_def ring_sorted_def filter_sort sort_key_id_if_sorted)
next
  assume a: "get_shard bs hash key hr = Some other \<and> other \<noteq> sid"
  then have "ring hr \<noteq> []" by (auto simp: get_shard_def)
  then obtain n where n: "successor (hash key) (ring hr) n" "snd n = other"
    using get_shard_node [OF assms(1,2), of hash key] a by (metis option.inject)
  let ?r = "remove_shard sid hr"
  have s: "successor (hash key) (ring ?r) n"
    using n a by (simp add: remove_shard_def successor_filter)
  then have "ring ?r \<noteq> []" by (auto simp: successor_def)
  moreover have "ring_sorted ?r"
    using assms(2) by (simp add: ring_sorted_def remove_shard_def sorted_filter)
  ultimately obtain m where m: "successor (hash key) (ring ?r) m"
    "get_shard bs hash key ?r = Some (snd m)"
    using get_shard_node [OF assms(1), of ?r hash key] by blast
  have "distinct (map fst (ring ?r))"
    using assms(3) by (simp add: remove_shard_def distinct_map_filter)
  from successor_unique [OF this s m(1)] m(2) n(2)
  show "get_shard bs hash key ?r = Some other" by simp
qed

text \<open>A ring with three nodes; the hash of a key is its length.\<close>

definition length_hash :: "string \<Rightarrow> u64" where
  "length_hash key = of_nat (length key)"

definition sample_ring :: hash_ring where
  "sample_ring = \<lparr>ring = [(2, ''a''), (5, ''b''), (9, ''c'')], virtual_nodes = 1\<rparr>"

theorem ring_lookup_is_successor_witness:
  "let hr = fold (ring_step length_hash) [AddShard ''a''] (new_ring 2)
   in \<exists>n. successor 1 (ring hr) n \<and> get_shard linear_search length_hash ''k'' hr = Some (snd n)"
proof -
  have "ring (fold (ring_step length_hash) [AddShard ''a''] (new_ring 2)) \<noteq> []"
    by (simp add: add_shard_def new_ring_def ring_nodes_def upt_rec
        arg_cong [where f = length, THEN trans])
  from ring_lookup_is_successor [OF linear_search_ok this, of "''k''"] show ?thesis
    by (simp add: length_hash_def Let_def)
qed

theorem removal_moves_only_its_keys_witness:
  "get_shard linear_search length_hash ''four'' (remove_shard ''a'' sample_ring) = Some ''b'' \<and>
   remove_shard ''d'' (add_shard length_hash ''d'' sample_ring) = sample_ring"
proof -
  have s: "ring_sorted sample_ring" "distinct (map fst (ring sample_ring))"
    by (simp_all add: ring_sorted_def sample_ring_def)
  have g: "get_shard linear_search length_hash ''four'' sample_ring = Some ''b''"
    by (simp add: get_shard_def linear_search_def length_hash_def sample_ring_def)
  have d: "''d'' \<notin> snd ` set (ring sample_ring)" by (simp add: sample_ring_def)
  show ?thesis
    using removal_moves_only_its_keys [OF linear_search_ok s, of length_hash "''four''" "''b''" "''a''"]
      removal_moves_only_its_keys [OF linear_search_ok s, of length_hash "''four''" "''b''" "''d''"] g d
    by simp
qed

section \<open>Routing\<close>

text \<open>The identifiers under which a key is looked up, most specific first.\<close>

fun candidate_ids :: "(uuid \<Rightarrow> string) \<Rightarrow> shard_key \<Rightarrow> string list" where
  "candidate_ids show_uuid (RegionKey r) = [region_shard_id r]"
| "candidate_ids show_uuid (TenantKey t) = [tenant_shard_id show_uuid t]"
| "candidate_ids show_uuid (HybridKey r t) =
     [shard_id show_uuid (HybridKey r t), region_shard_id r, tenant_shard_id show_uuid t]"

fun first_present :: "('k \<rightharpoonup> 'v) \<Rightarrow> 'k list \<Rightarrow> 'v option" where
  "first_present m [] = None"
| "first_present m (k # ks) = (case m k of Some v \<Rightarrow> Some v | None \<Rightarrow> first_present m ks)"

lemma resolve_shard_first:
  "resolve_shard show_uuid key sr = first_present (shards sr)
     (candidate_ids show_uuid key @ (case default_shard sr of None \<Rightarrow> [] | Some d \<Rightarrow> [d]))"
  by (cases key) (auto simp: resolve_shard_def split: option.split)

lemma shard_writes_default:
  "default_shard (fold (apply_write register_shard_info (\<lambda>sid sr. fst (unregister_shard sid sr))) ws sr) =
     default_shard sr"
proof (induction ws arbitrary: sr)
  case (Cons w ws)
  then show ?case by (cases w) (simp_all add: register_shard_info_def unregister_shard_def)
qed simp

text \<open>
  After any registrations and removals of shards, a key resolves to the shard last registered,
  and not removed since, under the most specific of its identifiers: for a hybrid key the hybrid
  one, then its region, then its tenant; and last of all the default shard.
\<close>

theorem resolve_most_specific:
  "resolve_shard show_uuid key
     (fold (apply_write register_shard_info (\<lambda>sid sr. fst (unregister_shard sid sr))) ws
       (new_shard_registry\<lparr>default_shard := d\<rparr>)) =
   first_present (\<lambda>k. last_write si_shard_id (\<lambda>info. info) ws k None)
     (candidate_ids show_uuid key @ (case d of None \<Rightarrow> [] | Some i \<Rightarrow> [i]))"
proof -
  let ?sr = "fold (apply_write register_shard_info (\<lambda>sid sr. fst (unregister_shard sid sr))) ws
       (new_shard_registry\<lparr>default_shard := d\<rparr>)"
  have "shards ?sr = (\<lambda>k. last_write si_shard_id (\<lambda>info. info) ws k None)"
    by (rule ext) (simp add: shard_store.lookup_run, simp add: new_shard_registry_def)
  then show ?thesis by (simp only: resolve_shard_first shard_writes_default) simp
qed

text \<open>Shards are stored under their own identifiers and, as long as only the global scheduler
  registers them, every node of the ring belongs to a registered shard.\<close>

definition shards_keyed :: "shard_registry \<Rightarrow> bool" where
  "shards_keyed sr \<longleftrightarrow> (\<forall>k info. shards sr k = Some info \<longrightarrow> si_shard_id info = k)"

definition scheduler_wf :: "global_scheduler \<Rightarrow> bool" where
  "scheduler_wf gs \<longleftrightarrow> shards_keyed (gs_registry gs) \<and> ring_sorted (gs_ring gs) \<and>
     virtual_nodes (gs_ring gs) = 150 \<and> snd ` set (ring (gs_ring gs)) = dom (shards (gs_registry gs))"

lemma ring_nodes_ids: "snd ` set (ring_nodes hash sid n) = (if n = 0 then {} else {sid})"
  by (auto simp: ring_nodes_def image_image)

lemma register_shard_wf: "scheduler_wf gs \<Longrightarrow> scheduler_wf (register_shard hash info gs)"
  by (auto simp: scheduler_wf_def register_shard_def register_shard_info_def add_shard_def
      ring_nodes_ids shards_keyed_def ring_sorted_def image_Un)

interpretation global: invariant_machine "register_shard hash" scheduler_wf for hash
  by unfold_locales (rule register_shard_wf)

lemma new_global_scheduler_wf: "scheduler_wf (new_global_scheduler new_shard_registry)"
  by (simp add: scheduler_wf_def new_global_scheduler_def new_shard_registry_def shards_keyed_def
      ring_sorted_def new_ring_def)

lemma find_keyed:
  assumes "shards_keyed sr" "set ks = dom (shards sr)"
  shows "find (\<lambda>s. si_shard_id s = sid) (list_shards ks sr) = shards sr sid"
proof (cases "shards sr sid")
  case None
  then show ?thesis using assms(1)
    by (auto simp: find_None_iff list_shards_def set_values_in shards_keyed_def)
next
  case (Some info)
  then have "info \<in> set (list_shards ks sr)" "si_shard_id info = sid"
    using assms by (auto simp: list_shards_def set_values_in shards_keyed_def)
  then obtain info' where "find (\<lambda>s. si_shard_id s = sid) (list_shards ks sr) = Some info'"
    by (metis (mono_tags, lifting) find_None_iff not_Some_eq)
  moreover from this have "si_shard_id info' = sid" "info' \<in> set (list_shards ks sr)"
    by (auto simp: find_Some_iff)
  then have "shards sr sid = Some info'"
    using assms(1) by (auto simp: list_shards_def set_values_in shards_keyed_def)
  ultimately show ?thesis by simp
qed

lemma register_shard_shards:
  "shards (gs_registry (register_shard hash info gs)) =
     (shards (gs_registry gs))(si_shard_id info \<mapsto> info)"
  by (simp add: register_shard_def register_shard_info_def)

lemma shards_registered:
  "ran (shards (gs_registry (fold (register_shard hash) infos gs))) \<subseteq>
     ran (shards (gs_registry gs)) \<union> set infos"
proof (induction infos arbitrary: gs)
  case (Cons i infos)
  have "ran (shards (gs_registry (register_shard hash i gs))) \<subseteq> insert i (ran (shards (gs_registry gs)))"
    by (auto simp: register_shard_shards ran_def)
  with Cons [of "register_shard hash i gs"] show ?case by auto
qed simp

lemma shards_registered_dom:
  "dom (shards (gs_registry (fold (register_shard hash) infos gs))) =
     dom (shards (gs_registry gs)) \<union> si_shard_id ` set infos"
  by (induction infos arbitrary: gs) (auto simp: register_shard_shards)

lemma resolve_shard_ran: "resolve_shard show_uuid key sr = Some info \<Longrightarrow> info \<in> ran (shards sr)"
proof -
  have "first_present m ks = Some v \<Longrightarrow> v \<in> ran m" for m :: "string \<rightharpoonup> shard_info" and ks v
    by (induction ks) (auto simp: ran_def split: option.splits)
  then show "resolve_shard show_uuid key sr = Some info \<Longrightarrow> info \<in> ran (shards sr)"
    by (simp add: resolve_shard_first)
qed

text \<open>
  Once the global scheduler has registered a shard, every request is routed to a registered
  shard, whatever its key: either the one its key resolves to or the one the ring gives for the
  sandbox. The health of the shard is not looked at.
\<close>

theorem route_total:
  assumes "binary_search_ok bs"
    and "gs = fold (register_shard hash) infos (new_global_scheduler new_shard_registry)"
    and "infos \<noteq> []" "set ks = dom (shards (gs_registry gs))"
  shows "\<exists>info\<in>set infos. route show_uuid bs hash ks key sandbox gs = Some info"
proof -
  have wf: "scheduler_wf gs"
    unfolding assms(2) by (rule global.run_inv) (rule new_global_scheduler_wf)
  have empty: "shards (gs_registry (new_global_scheduler new_shard_registry)) = Map.empty"
    by (simp add: new_global_scheduler_def new_shard_registry_def)
  have from_infos: "ran (shards (gs_registry gs)) \<subseteq> set infos"
    using shards_registered [of hash infos "new_global_scheduler new_shard_registry"]
    by (simp add: assms(2) empty)
  have keyed: "shards_keyed (gs_registry gs)" and sorted: "ring_sorted (gs_ring gs)"
    using wf by (simp_all add: scheduler_wf_def)
  have "dom (shards (gs_registry gs)) \<noteq> {}"
    using assms(3) by (simp add: assms(2) shards_registered_dom empty)
  then have "snd ` set (ring (gs_ring gs)) \<noteq> {}" using wf by (simp add: scheduler_wf_def)
  then have "ring (gs_ring gs) \<noteq> []" by auto
  then obtain n where n: "successor (hash (show_uuid sandbox)) (ring (gs_ring gs)) n"
    "get_shard bs hash (show_uuid sandbox) (gs_ring gs) = Some (snd n)"
    by (rule get_shard_node [OF assms(1) sorted])
  have "snd n \<in> dom (shards (gs_registry gs))"
    using n(1) wf by (auto simp: successor_def scheduler_wf_def)
  then obtain info where info: "shards (gs_registry gs) (snd n) = Some info" by auto
  show ?thesis
  proof (cases "resolve_shard show_uuid key (gs_registry gs)")
    case None
    then show ?thesis
      using n(2) info from_infos ranI [of "shards (gs_registry gs)"] find_keyed [OF keyed assms(4)]
      by (auto simp: route_def)
  next
    case (Some i)
    then show ?thesis using from_infos resolve_shard_ran by (auto simp: route_def)
  qed
qed

definition sample_shard :: "string \<Rightarrow> shard_info" where
  "sample_shard r = \<lparr>si_shard_id = region_shard_id r, si_key = RegionKey r,
     si_scheduler_address = ''127.0.0.1:4000'', si_host_count = 10, si_sandbox_count = 0,
     si_healthy = False\<rparr>"

theorem route_total_witness:
  "route (\<lambda>_. ''u'') linear_search length_hash [region_shard_id ''eu''] (TenantKey 1) 2
     (fold (register_shard length_hash) [sample_shard ''eu''] (new_global_scheduler new_shard_registry)) =
   Some (sample_shard ''eu'')"
proof -
  have "set [region_shard_id ''eu''] = dom (shards (gs_registry (fold (register_shard length_hash)
      [sample_shard ''eu''] (new_global_scheduler new_shard_registry))))"
    by (simp add: register_shard_shards sample_shard_def new_global_scheduler_def new_shard_registry_def)
  from route_total [OF linear_search_ok refl _ this, of "\<lambda>_. ''u''" "TenantKey 1" 2]
  show ?thesis by simp
qed

text \<open>
  A shard that is removed from the registry stays on the ring: a request whose key resolves to
  nothing and whose sandbox the ring sends to it finds no shard, although others are registered.
  The ring keeps the removed shard's nodes whatever is registered afterwards.
\<close>

theorem unregistered_shard_strands_requests:
  assumes "scheduler_wf gs" "set ks = dom (shards (gs_registry gs'))"
    and "gs' = gs\<lparr>gs_registry := fst (unregister_shard sid (gs_registry gs))\<rparr>"
    and "resolve_shard show_uuid key (gs_registry gs') = None"
    and "get_shard bs hash (show_uuid sandbox) (gs_ring gs) = Some sid"
  shows "route show_uuid bs hash ks key sandbox gs' = None \<and>
    set (ring (gs_ring gs)) \<subseteq> set (ring (gs_ring (fold (register_shard hash') infos gs')))"
proof
  have keyed: "shards_keyed (gs_registry gs')"
    using assms(1) by (simp add: assms(3) scheduler_wf_def shards_keyed_def unregister_shard_def)
  have "shards (gs_registry gs') sid = None" by (simp add: assms(3) unregister_shard_def)
  then show "route show_uuid bs hash ks key sandbox gs' = None"
    using assms(4,5) find_keyed [OF keyed assms(2), of sid] by (simp add: assms(3) route_def)
  have "set (ring (gs_ring g)) \<subseteq> set (ring (gs_ring (fold (register_shard hash') infos g)))" for g
  proof (induction infos arbitrary: g)
    case (Cons i infos)
    have "set (ring (gs_ring g)) \<subseteq> set (ring (gs_ring (register_shard hash' i g)))"
      by (auto simp: register_shard_def add_shard_def)
    with Cons [of "register_shard hash' i g"] show ?case by auto
  qed simp
  from this [of gs'] show "set (ring (gs_ring gs)) \<subseteq>
      set (ring (gs_ring (fold (register_shard hash') infos gs')))"
    by (simp add: assms(3))
qed

text \<open>With a constant hash a new shard goes to the end of the ring.\<close>

lemma add_shard_constant:
  assumes "\<forall>n\<in>set (ring hr). fst n = 0"
  shows "add_shard (\<lambda>_. 0) sid hr = hr\<lparr>ring := ring hr @ ring_nodes (\<lambda>_. 0) sid (virtual_nodes hr)\<rparr>"
proof -
  have zero: "sorted (map fst ns)" if "\<forall>n\<in>set ns. fst n = 0" for ns :: "(u64 \<times> string) list"
    using that by (induction ns) auto
  have "\<forall>n\<in>set (ring hr @ ring_nodes (\<lambda>_. 0) sid (virtual_nodes hr)). fst n = 0"
    using assms by (auto simp: ring_nodes_def)
  from zero [OF this] show ?thesis by (simp only: add_shard_def sort_key_id_if_sorted)
qed

theorem unregistered_shard_strands_requests_witness:
  "\<exists>gs. shards (gs_registry gs) (region_shard_id ''us'') \<noteq> None \<and>
     route (\<lambda>_. ''u'') linear_search (\<lambda>_. 0) [region_shard_id ''us''] (TenantKey 1) 2 gs = None"
proof -
  let ?new = "new_global_scheduler new_shard_registry"
  let ?gs = "register_shard (\<lambda>_. 0) (sample_shard ''us'')
      (register_shard (\<lambda>_. 0) (sample_shard ''eu'') ?new)"
  let ?gs' = "?gs\<lparr>gs_registry := fst (unregister_shard (region_shard_id ''eu'') (gs_registry ?gs))\<rparr>"
  have wf: "scheduler_wf ?gs" by (intro register_shard_wf new_global_scheduler_wf)
  have reg: "shards (gs_registry ?gs') = [region_shard_id ''us'' \<mapsto> sample_shard ''us'']"
    by (auto simp: register_shard_shards sample_shard_def new_global_scheduler_def
        new_shard_registry_def unregister_shard_def region_shard_id_def)
  have d: "default_shard (gs_registry ?gs') = None"
    by (simp add: register_shard_def register_shard_info_def new_global_scheduler_def
        new_shard_registry_def unregister_shard_def)
  have dom: "set [region_shard_id ''us''] = dom (shards (gs_registry ?gs'))"
    unfolding reg by simp
  have none: "resolve_shard (\<lambda>_. ''u'') (TenantKey 1) (gs_registry ?gs') = None"
    unfolding resolve_shard_first d reg by (simp add: region_shard_id_def tenant_shard_id_def)
  have "\<exists>rest. ring (gs_ring ?gs) = (0, region_shard_id ''eu'') # rest"
    by (simp add: register_shard_def new_global_scheduler_def new_ring_def add_shard_constant
        ring_nodes_def sample_shard_def upt_conv_Cons)
  then have eu: "get_shard linear_search (\<lambda>_. 0) ((\<lambda>_. ''u'') (2 :: uuid)) (gs_ring ?gs) =
      Some (region_shard_id ''eu'')"
    by (auto simp: get_shard_def linear_search_def)
  have "route (\<lambda>_. ''u'') linear_search (\<lambda>_. 0) [region_shard_id ''us''] (TenantKey 1) 2 ?gs' = None"
    using unregistered_shard_strands_requests [OF wf dom refl none eu] by blast
  then show ?thesis using reg by (intro exI [of _ ?gs'] conjI) simp_all
qed

section \<open>Registering a shard again, and keys that meet\<close>

text \<open>A shard that registers again, as it does to report new counts, gets its nodes once more: the
  nodes are the same, and the ring grows with every report.\<close>

lemma add_shard_ring:
  "length (ring (add_shard hash sid hr)) = length (ring hr) + virtual_nodes hr"
  "set (ring (add_shard hash sid hr)) = set (ring hr) \<union> set (ring_nodes hash sid (virtual_nodes hr))"
  "virtual_nodes (add_shard hash sid hr) = virtual_nodes hr"
  by (simp_all add: add_shard_def ring_nodes_def)

lemma register_shard_ring: "gs_ring (register_shard hash info gs) = add_shard hash (si_shard_id info) (gs_ring gs)"
  by (simp add: register_shard_def)

lemma reregistered_ring:
  assumes "\<forall>info\<in>set infos. si_shard_id info = sid" "infos \<noteq> []"
  shows "length (ring (gs_ring (fold (register_shard hash) infos gs))) =
      length (ring (gs_ring gs)) + length infos * virtual_nodes (gs_ring gs) \<and>
    set (ring (gs_ring (fold (register_shard hash) infos gs))) = set (ring (gs_ring (register_shard hash (hd infos) gs))) \<and>
    shards (gs_registry (fold (register_shard hash) infos gs)) = (shards (gs_registry gs))(sid \<mapsto> last infos)"
  using assms
proof (induction infos rule: rev_induct)
  case (snoc info infos)
  show ?case
  proof (cases "infos = []")
    case True
    with snoc.prems show ?thesis by (simp add: register_shard_ring add_shard_ring register_shard_shards)
  next
    case False
    have nodes: "virtual_nodes (gs_ring (fold (register_shard hash) infos gs)) = virtual_nodes (gs_ring gs)"
      by (induction infos rule: rev_induct) (simp_all add: register_shard_ring add_shard_ring)
    have "si_shard_id (hd infos) = sid" using False snoc.prems(1) by (cases infos) auto
    then show ?thesis using snoc False
      by (auto simp: register_shard_ring add_shard_ring nodes register_shard_shards algebra_simps)
  qed
qed simp

text \<open>Two keys with the same identifier: the texts are joined without regard to what they contain.\<close>

lemma shard_ids_meet:
  "shard_id show_uuid (RegionKey (r @ '':tenant:'' @ show_uuid t)) = shard_id show_uuid (HybridKey r t) \<and>
   RegionKey (r @ '':tenant:'' @ show_uuid t) \<noteq> HybridKey r t"
  by (simp add: region_shard_id_def)

end
