(* ===== verification/Demand.thy ===== *)
theory Demand
  imports Prelude Complex_Main
begin

text \<open>
  Demand for templates and the pre-warming of sandboxes
  (\<open>akssora-scheduler/src/demand_tracker.rs\<close> and \<open>prewarm_policy.rs\<close>).

  An \<open>f64\<close> is a rational number, an infinity or not a number; the rounding of a result is the
  parameter \<open>rnd\<close> (the sign of zero and the overflow to infinity are left out). A \<open>usize\<close> is a
  natural number below \<open>2 ^ 64\<close>.
\<close>

section \<open>Floating point\<close>

datatype f64 = Fin rat | PosInf | NegInf | NaN

definition usize_max :: nat where
  "usize_max = 2 ^ 64 - 1"

fun f64_mul :: "(rat \<Rightarrow> rat) \<Rightarrow> f64 \<Rightarrow> f64 \<Rightarrow> f64" where
  "f64_mul rnd (Fin a) (Fin b) = Fin (rnd (a * b))"
| "f64_mul rnd NaN x = NaN"
| "f64_mul rnd x NaN = NaN"
| "f64_mul rnd PosInf (Fin b) = (if b = 0 then NaN else if 0 < b then PosInf else NegInf)"
| "f64_mul rnd NegInf (Fin b) = (if b = 0 then NaN else if 0 < b then NegInf else PosInf)"
| "f64_mul rnd (Fin a) PosInf = (if a = 0 then NaN else if 0 < a then PosInf else NegInf)"
| "f64_mul rnd (Fin a) NegInf = (if a = 0 then NaN else if 0 < a then NegInf else PosInf)"
| "f64_mul rnd PosInf PosInf = PosInf"
| "f64_mul rnd NegInf NegInf = PosInf"
| "f64_mul rnd PosInf NegInf = NegInf"
| "f64_mul rnd NegInf PosInf = NegInf"

fun f64_add :: "(rat \<Rightarrow> rat) \<Rightarrow> f64 \<Rightarrow> f64 \<Rightarrow> f64" where
  "f64_add rnd (Fin a) (Fin b) = Fin (rnd (a + b))"
| "f64_add rnd NaN x = NaN"
| "f64_add rnd x NaN = NaN"
| "f64_add rnd PosInf NegInf = NaN"
| "f64_add rnd NegInf PosInf = NaN"
| "f64_add rnd PosInf x = PosInf"
| "f64_add rnd NegInf x = NegInf"
| "f64_add rnd x PosInf = PosInf"
| "f64_add rnd x NegInf = NegInf"

text \<open>Division of two finite numbers; the sources divide no others.\<close>

definition f64_div_fin :: "(rat \<Rightarrow> rat) \<Rightarrow> rat \<Rightarrow> rat \<Rightarrow> f64" where
  "f64_div_fin rnd a b =
     (if b \<noteq> 0 then Fin (rnd (a / b)) else if a = 0 then NaN else if 0 < a then PosInf else NegInf)"

fun f64_ceil :: "f64 \<Rightarrow> f64" where
  "f64_ceil (Fin a) = Fin (of_int \<lceil>a\<rceil>)"
| "f64_ceil x = x"

text \<open>\<open>as usize\<close> truncates and saturates; not a number becomes 0.\<close>

fun f64_as_usize :: "f64 \<Rightarrow> nat" where
  "f64_as_usize (Fin a) = min usize_max (nat \<lfloor>a\<rfloor>)"
| "f64_as_usize PosInf = usize_max"
| "f64_as_usize NegInf = 0"
| "f64_as_usize NaN = 0"

fun f64_less :: "f64 \<Rightarrow> f64 \<Rightarrow> bool" where
  "f64_less (Fin a) (Fin b) = (a < b)"
| "f64_less NegInf (Fin b) = True"
| "f64_less (Fin a) PosInf = True"
| "f64_less NegInf PosInf = True"
| "f64_less x y = False"

definition f64_clamp :: "f64 \<Rightarrow> f64 \<Rightarrow> f64 \<Rightarrow> f64" where
  "f64_clamp x lo hi = (if f64_less x lo then lo else if f64_less hi x then hi else x)"

text \<open>\<open>f64::max\<close> against a number.\<close>

definition f64_max :: "f64 \<Rightarrow> f64 \<Rightarrow> f64" where
  "f64_max x y = (if x = NaN \<or> f64_less x y then y else x)"

text \<open>\<open>Ord::clamp\<close> panics when the lower bound is above the upper one.\<close>

definition clamp_usize :: "nat \<Rightarrow> nat \<Rightarrow> nat \<Rightarrow> nat outcome" where
  "clamp_usize x lo hi = (if hi < lo then Panics else Returns (min hi (max lo x)))"

section \<open>The tracker\<close>

record demand_event =
  de_template_id :: string
  de_timestamp :: datetime
  de_host_id :: "uuid option"

record template_demand =
  td_template_id :: string
  td_request_count :: nat
  td_requests_per_minute :: f64
  td_avg_interval_secs :: f64
  td_last_request_at :: "datetime option"
  td_window_start :: "datetime option"

text \<open>The window is in nanoseconds.\<close>

record demand_tracker =
  events :: "string \<rightharpoonup> demand_event list"
  window :: nat
  max_events_per_template :: nat

definition new_demand_tracker :: "nat \<Rightarrow> demand_tracker" where
  "new_demand_tracker w = \<lparr>events = Map.empty, window = w, max_events_per_template = 10000\<rparr>"

definition default_demand_tracker :: demand_tracker where
  "default_demand_tracker = new_demand_tracker 600000000000"

definition with_max_events :: "nat \<Rightarrow> demand_tracker \<Rightarrow> demand_tracker" where
  "with_max_events m tr = tr\<lparr>max_events_per_template := m\<rparr>"

definition evict_if_needed :: "string \<Rightarrow> demand_tracker \<Rightarrow> demand_tracker" where
  "evict_if_needed template_id tr =
     (case events tr template_id of
        None \<Rightarrow> tr
      | Some es \<Rightarrow>
          if max_events_per_template tr < length es
          then tr\<lparr>events := (events tr)(template_id \<mapsto>
                 drop (length es - max_events_per_template tr) es)\<rparr>
          else tr)"

definition record_with_host ::
    "datetime \<Rightarrow> string \<Rightarrow> uuid option \<Rightarrow> demand_tracker \<Rightarrow> demand_tracker" where
  "record_with_host now template_id host_id tr =
     (let event = \<lparr>de_template_id = template_id, de_timestamp = now, de_host_id = host_id\<rparr>;
          es = (case events tr template_id of None \<Rightarrow> [] | Some es \<Rightarrow> es)
      in evict_if_needed template_id (tr\<lparr>events := (events tr)(template_id \<mapsto> es @ [event])\<rparr>))"

definition record_demand :: "datetime \<Rightarrow> string \<Rightarrow> demand_tracker \<Rightarrow> demand_tracker" where
  "record_demand now template_id tr = record_with_host now template_id None tr"

definition events_in_window :: "datetime \<Rightarrow> string \<Rightarrow> demand_tracker \<Rightarrow> demand_event list" where
  "events_in_window now template_id tr =
     (case events tr template_id of
        None \<Rightarrow> []
      | Some es \<Rightarrow> filter (\<lambda>e. now - int (window tr) \<le> de_timestamp e) es)"

text \<open>\<open>Duration::as_secs_f64\<close>.\<close>

definition window_secs :: "(rat \<Rightarrow> rat) \<Rightarrow> demand_tracker \<Rightarrow> rat" where
  "window_secs rnd tr =
     rnd (rnd (of_nat (window tr div 1000000000)) +
          rnd (of_nat (window tr mod 1000000000) / 1000000000))"

definition requests_per_minute :: "(rat \<Rightarrow> rat) \<Rightarrow> nat \<Rightarrow> demand_tracker \<Rightarrow> f64" where
  "requests_per_minute rnd count tr =
     (if 0 < count then f64_div_fin rnd (rnd (of_nat count)) (rnd (window_secs rnd tr / 60)) else Fin 0)"

definition rate_per_minute :: "(rat \<Rightarrow> rat) \<Rightarrow> datetime \<Rightarrow> string \<Rightarrow> demand_tracker \<Rightarrow> f64" where
  "rate_per_minute rnd now template_id tr =
     (let es = events_in_window now template_id tr
      in if es = [] then Fin 0 else requests_per_minute rnd (length es) tr)"

definition demand_for :: "(rat \<Rightarrow> rat) \<Rightarrow> datetime \<Rightarrow> string \<Rightarrow> demand_tracker \<Rightarrow> template_demand" where
  "demand_for rnd now template_id tr =
     (let es = events_in_window now template_id tr; request_count = length es
      in \<lparr>td_template_id = template_id, td_request_count = request_count,
          td_requests_per_minute = requests_per_minute rnd request_count tr,
          td_avg_interval_secs =
            (if 1 < request_count
             then f64_div_fin rnd
               (rnd (of_int (num_seconds (de_timestamp (last es) - de_timestamp (hd es)))))
               (rnd (of_nat (request_count - 1)))
             else Fin (window_secs rnd tr)),
          td_last_request_at = (if es = [] then None else Some (de_timestamp (last es))),
          td_window_start = (if es = [] then None else Some (de_timestamp (hd es)))\<rparr>)"

text \<open>The queries over all templates: \<open>ks\<close> is the order of the iteration, \<open>now t\<close> the reading of the
  clock when it reaches \<open>t\<close>.\<close>

definition all_demands ::
    "(rat \<Rightarrow> rat) \<Rightarrow> (string \<Rightarrow> datetime) \<Rightarrow> string list \<Rightarrow> demand_tracker \<Rightarrow> template_demand list" where
  "all_demands rnd now ks tr = map (\<lambda>t. demand_for rnd (now t) t tr) ks"

definition top_templates ::
    "(rat \<Rightarrow> rat) \<Rightarrow> (string \<Rightarrow> datetime) \<Rightarrow> string list \<Rightarrow> nat \<Rightarrow> demand_tracker \<Rightarrow> template_demand list" where
  "top_templates rnd now ks n tr =
     take n (sort_key (\<lambda>d. - int (td_request_count d)) (all_demands rnd now ks tr))"

definition event_count :: "datetime \<Rightarrow> string \<Rightarrow> demand_tracker \<Rightarrow> nat" where
  "event_count now template_id tr = length (events_in_window now template_id tr)"

definition total_events :: "(string \<Rightarrow> datetime) \<Rightarrow> string list \<Rightarrow> demand_tracker \<Rightarrow> nat" where
  "total_events now ks tr = (\<Sum>t\<leftarrow>ks. length (events_in_window (now t) t tr))"

definition clear_demand :: "demand_tracker \<Rightarrow> demand_tracker" where
  "clear_demand tr = tr\<lparr>events := Map.empty\<rparr>"

section \<open>The pre-warming policies\<close>

record ema_policy =
  ema_alpha :: f64
  ema_buffer_factor :: f64
  ema_min_pool :: nat
  ema_max_pool :: nat

text \<open>The literals 0.3 and 1.5 as the nearest representable numbers (1.5 is one).\<close>

definition new_ema_policy :: "(rat \<Rightarrow> rat) \<Rightarrow> ema_policy" where
  "new_ema_policy rnd =
     \<lparr>ema_alpha = Fin (rnd (3 / 10)), ema_buffer_factor = Fin (3 / 2), ema_min_pool = 1,
      ema_max_pool = 20\<rparr>"

definition ema_with_alpha :: "(rat \<Rightarrow> rat) \<Rightarrow> f64 \<Rightarrow> ema_policy \<Rightarrow> ema_policy" where
  "ema_with_alpha rnd alpha p = p\<lparr>ema_alpha := f64_clamp alpha (Fin (rnd (1 / 100))) (Fin 1)\<rparr>"

definition ema_with_buffer_factor :: "(rat \<Rightarrow> rat) \<Rightarrow> f64 \<Rightarrow> ema_policy \<Rightarrow> ema_policy" where
  "ema_with_buffer_factor rnd factor p =
     p\<lparr>ema_buffer_factor := f64_max factor (Fin (rnd (1 / 10)))\<rparr>"

definition ema_with_min_pool :: "nat \<Rightarrow> ema_policy \<Rightarrow> ema_policy" where
  "ema_with_min_pool m p = p\<lparr>ema_min_pool := m\<rparr>"

definition ema_with_max_pool :: "nat \<Rightarrow> ema_policy \<Rightarrow> ema_policy" where
  "ema_with_max_pool m p = p\<lparr>ema_max_pool := m\<rparr>"

definition pool_size :: "f64 \<Rightarrow> nat \<Rightarrow> nat \<Rightarrow> nat \<Rightarrow> nat outcome" where
  "pool_size raw_desired min_pool max_pool host_capacity =
     map_outcome_val (\<lambda>c. min c host_capacity)
       (clamp_usize (f64_as_usize (f64_ceil raw_desired)) min_pool max_pool)"

definition ema_desired_pool_size ::
    "(rat \<Rightarrow> rat) \<Rightarrow> template_demand \<Rightarrow> nat \<Rightarrow> nat \<Rightarrow> ema_policy \<Rightarrow> ema_policy \<times> nat outcome" where
  "ema_desired_pool_size rnd demand current_pool_size host_capacity p =
     (p, pool_size (f64_mul rnd (td_requests_per_minute demand) (ema_buffer_factor p))
           (ema_min_pool p) (ema_max_pool p) host_capacity)"

record fixed_policy =
  fixed_size :: nat

definition fixed_desired_pool_size ::
    "template_demand \<Rightarrow> nat \<Rightarrow> nat \<Rightarrow> fixed_policy \<Rightarrow> fixed_policy \<times> nat outcome" where
  "fixed_desired_pool_size demand current_pool_size host_capacity p =
     (p, Returns (min (fixed_size p) host_capacity))"

record adaptive_policy =
  ap_alpha :: f64
  ap_buffer_factor :: f64
  ap_min_pool :: nat
  ap_max_pool :: nat
  smoothed_rates :: "string \<rightharpoonup> f64"

definition new_adaptive_policy :: "(rat \<Rightarrow> rat) \<Rightarrow> adaptive_policy" where
  "new_adaptive_policy rnd =
     \<lparr>ap_alpha = Fin (rnd (3 / 10)), ap_buffer_factor = Fin (3 / 2), ap_min_pool = 1,
      ap_max_pool = 20, smoothed_rates = Map.empty\<rparr>"

definition adaptive_with_alpha :: "(rat \<Rightarrow> rat) \<Rightarrow> f64 \<Rightarrow> adaptive_policy \<Rightarrow> adaptive_policy" where
  "adaptive_with_alpha rnd alpha p =
     p\<lparr>ap_alpha := f64_clamp alpha (Fin (rnd (1 / 100))) (Fin 1)\<rparr>"

definition adaptive_with_buffer_factor ::
    "(rat \<Rightarrow> rat) \<Rightarrow> f64 \<Rightarrow> adaptive_policy \<Rightarrow> adaptive_policy" where
  "adaptive_with_buffer_factor rnd factor p =
     p\<lparr>ap_buffer_factor := f64_max factor (Fin (rnd (1 / 10)))\<rparr>"

definition adaptive_with_min_pool :: "nat \<Rightarrow> adaptive_policy \<Rightarrow> adaptive_policy" where
  "adaptive_with_min_pool m p = p\<lparr>ap_min_pool := m\<rparr>"

definition adaptive_with_max_pool :: "nat \<Rightarrow> adaptive_policy \<Rightarrow> adaptive_policy" where
  "adaptive_with_max_pool m p = p\<lparr>ap_max_pool := m\<rparr>"

definition smoothed_rate :: "string \<Rightarrow> adaptive_policy \<Rightarrow> f64" where
  "smoothed_rate template_id p =
     (case smoothed_rates p template_id of None \<Rightarrow> Fin 0 | Some r \<Rightarrow> r)"

definition f64_neg :: "f64 \<Rightarrow> f64" where
  "f64_neg x = (case x of Fin a \<Rightarrow> Fin (- a) | PosInf \<Rightarrow> NegInf | NegInf \<Rightarrow> PosInf | NaN \<Rightarrow> NaN)"

definition adaptive_desired_pool_size ::
    "(rat \<Rightarrow> rat) \<Rightarrow> template_demand \<Rightarrow> nat \<Rightarrow> nat \<Rightarrow> adaptive_policy \<Rightarrow>
     adaptive_policy \<times> nat outcome" where
  "adaptive_desired_pool_size rnd demand current_pool_size host_capacity p =
     (let current_rate = td_requests_per_minute demand;
          previous = (case smoothed_rates p (td_template_id demand) of
             None \<Rightarrow> current_rate | Some r \<Rightarrow> r);
          smoothed = f64_add rnd (f64_mul rnd (ap_alpha p) current_rate)
             (f64_mul rnd (f64_add rnd (Fin 1) (f64_neg (ap_alpha p))) previous)
      in (p\<lparr>smoothed_rates := (smoothed_rates p)(td_template_id demand \<mapsto> smoothed)\<rparr>,
          pool_size (f64_mul rnd smoothed (ap_buffer_factor p)) (ap_min_pool p) (ap_max_pool p)
            host_capacity))"

text \<open>\<open>compute_prewarm_targets\<close>, for any policy.\<close>

fun prewarm_loop ::
    "(template_demand \<Rightarrow> nat \<Rightarrow> nat \<Rightarrow> 'p \<Rightarrow> 'p \<times> nat outcome) \<Rightarrow> nat \<Rightarrow> template_demand list \<Rightarrow>
     (string \<rightharpoonup> nat) \<Rightarrow> 'p \<Rightarrow> 'p \<times> (string \<rightharpoonup> nat) outcome" where
  "prewarm_loop desired cap [] targets p = (p, Returns targets)"
| "prewarm_loop desired cap (d # ds) targets p =
     (case desired d 0 cap p of
        (p', Returns n) \<Rightarrow>
          prewarm_loop desired cap ds
            (if 0 < n then targets(td_template_id d \<mapsto> n) else targets) p'
      | (p', Panics) \<Rightarrow> (p', Panics)
      | (p', Blocks) \<Rightarrow> (p', Blocks))"

definition compute_prewarm_targets ::
    "(rat \<Rightarrow> rat) \<Rightarrow> (string \<Rightarrow> datetime) \<Rightarrow> string list \<Rightarrow>
     (template_demand \<Rightarrow> nat \<Rightarrow> nat \<Rightarrow> 'p \<Rightarrow> 'p \<times> nat outcome) \<Rightarrow> nat \<Rightarrow> demand_tracker \<Rightarrow> 'p \<Rightarrow>
     'p \<times> (string \<rightharpoonup> nat) outcome" where
  "compute_prewarm_targets rnd now ks desired cap tr p =
     prewarm_loop desired cap (all_demands rnd now ks tr) Map.empty p"

section \<open>The tracker keeps the newest events\<close>

text \<open>The log of all calls, and what is kept of it for one template.\<close>

definition log_event :: "datetime \<times> string \<times> uuid option \<Rightarrow> demand_event" where
  "log_event c = (case c of (now, t, h) \<Rightarrow>
     \<lparr>de_template_id = t, de_timestamp = now, de_host_id = h\<rparr>)"

definition run_log ::
    "(datetime \<times> string \<times> uuid option) list \<Rightarrow> demand_tracker \<Rightarrow> demand_tracker" where
  "run_log cs tr = fold (\<lambda>(now, t, h). record_with_host now t h) cs tr"

definition last_n :: "nat \<Rightarrow> 'a list \<Rightarrow> 'a list" where
  "last_n n xs = drop (length xs - n) xs"

lemma last_n_snoc: "last_n n (last_n n xs @ [x]) = last_n n (xs @ [x])"
  by (cases "n \<le> length xs") (auto simp: last_n_def drop_Cons' Suc_diff_le)

definition template_log :: "(datetime \<times> string \<times> uuid option) list \<Rightarrow> string \<Rightarrow> demand_event list" where
  "template_log cs t = filter (\<lambda>e. de_template_id e = t) (map log_event cs)"

lemma record_events:
  "events (record_with_host now t h tr) t' =
     (if t' = t
      then Some (last_n (max_events_per_template tr)
        ((case events tr t of None \<Rightarrow> [] | Some es \<Rightarrow> es) @ [log_event (now, t, h)]))
      else events tr t')"
  by (simp add: record_with_host_def evict_if_needed_def last_n_def log_event_def Let_def)

lemma record_settings [simp]:
  "max_events_per_template (record_with_host now t h tr) = max_events_per_template tr"
  "window (record_with_host now t h tr) = window tr"
  by (simp_all add: record_with_host_def evict_if_needed_def Let_def)

lemma run_log_settings [simp]:
  "max_events_per_template (run_log cs tr) = max_events_per_template tr"
  "window (run_log cs tr) = window tr"
proof (induction cs rule: rev_induct)
  case (snoc c cs)
  { case 1 then show ?case using snoc by (cases c) (simp add: run_log_def) }
  { case 2 then show ?case using snoc by (cases c) (simp add: run_log_def) }
qed (simp_all add: run_log_def)

lemma tracker_events:
  "events (run_log cs (with_max_events m (new_demand_tracker w))) t =
     (if template_log cs t = [] then None else Some (last_n m (template_log cs t)))"
proof (induction cs rule: rev_induct)
  case Nil
  then show ?case
    by (simp add: run_log_def with_max_events_def new_demand_tracker_def template_log_def)
next
  case (snoc c cs)
  obtain now t' h where c: "c = (now, t', h)" by (cases c)
  have m: "max_events_per_template (with_max_events m (new_demand_tracker w)) = m"
    by (simp add: with_max_events_def)
  show ?case
  proof (cases "t' = t")
    case True
    then have "template_log (cs @ [c]) t = template_log cs t @ [log_event c]"
      by (simp add: template_log_def log_event_def c)
    with True snoc c m show ?thesis
      by (auto simp: run_log_def record_events run_log_settings [unfolded run_log_def] last_n_snoc)
  next
    case False
    then have "template_log (cs @ [c]) t = template_log cs t"
      by (simp add: template_log_def log_event_def c)
    with False snoc c show ?thesis by (simp add: run_log_def record_events)
  qed
qed

text \<open>
  C35. After any sequence of recordings the tracker holds, for each template, exactly the last
  events recorded for it, in order, as many as the cap allows; a template that was never recorded
  has no entry.
\<close>

theorem tracker_keeps_newest:
  "events (run_log cs (with_max_events m (new_demand_tracker w))) t =
     (if template_log cs t = [] then None else Some (last_n m (template_log cs t)))"
  by (rule tracker_events)

lemma length_last_n [simp]: "length (last_n n xs) = min n (length xs)"
  by (simp add: last_n_def)

lemma sorted_last_n: "sorted (map f xs) \<Longrightarrow> sorted (map f (last_n n xs))"
  by (simp add: last_n_def drop_map [symmetric] sorted_wrt_drop)

lemma count_last_n:
  assumes "sorted (map f xs)" "\<And>x y. P x \<Longrightarrow> f x \<le> f y \<Longrightarrow> P y"
  shows "length (filter P (last_n m xs)) = min m (length (filter P xs))"
proof -
  have split: "xs = take (length xs - m) xs @ last_n m xs" by (simp add: last_n_def)
  show ?thesis
  proof (cases "\<exists>x\<in>set (take (length xs - m) xs). P x")
    case True
    then obtain x where x: "x \<in> set (take (length xs - m) xs)" "P x" by blast
    have "sorted (map f (take (length xs - m) xs) @ map f (last_n m xs))"
      using assms(1) split by (metis map_append)
    then have "\<forall>y\<in>set (last_n m xs). f x \<le> f y"
      using x(1) by (auto simp: sorted_append)
    then have all: "filter P (last_n m xs) = last_n m xs"
      using x(2) assms(2) by (simp add: filter_id_conv)
    have "length (last_n m xs) \<le> length (filter P xs)"
      using split all by (metis filter_append length_append le_add2)
    moreover have "m \<le> length xs"
      using x(1) by (cases "m \<le> length xs") auto
    ultimately show ?thesis using all by simp
  next
    case False
    then have "filter P (take (length xs - m) xs) = []" by (simp add: filter_empty_conv)
    then have "filter P xs = filter P (last_n m xs)"
      using split by (metis append_Nil filter_append)
    moreover have "length (filter P (last_n m xs)) \<le> m"
      by (rule order_trans [OF length_filter_le]) simp
    ultimately show ?thesis by simp
  qed
qed

text \<open>
  When the clock never went back, the count of the events in the window is the number of calls
  recorded for the template within the window, or the cap when there were more; with the clock at a
  whole window after the last of them it is 0 and so is the rate.
\<close>

theorem event_count_exact:
  assumes "sorted (map fst cs)"
    and "tr = run_log cs (with_max_events m (new_demand_tracker w))"
  shows "event_count now t tr =
      min m (length (filter (\<lambda>(ts, t', h). t' = t \<and> now - int w \<le> ts) cs)) \<and>
    ((\<forall>ts\<in>fst ` set cs. ts < now - int w) \<longrightarrow>
      event_count now t tr = 0 \<and> rate_per_minute rnd now t tr = Fin 0)"
proof -
  let ?P = "\<lambda>e. now - int w \<le> de_timestamp e"
  have "window tr = w" by (simp add: assms(2) with_max_events_def new_demand_tracker_def)
  then have win: "events_in_window now t tr = filter ?P (last_n m (template_log cs t))"
    by (simp add: events_in_window_def assms(2) tracker_events last_n_def)
  have stamp: "de_timestamp (log_event c) = fst c" for c
    by (simp add: log_event_def split: prod.split)
  then have "map de_timestamp (map log_event cs) = map fst cs" by simp
  then have sorted: "sorted (map de_timestamp (template_log cs t))"
    using assms(1) unfolding template_log_def by (intro sorted_filter) (simp only:)
  have "filter ?P (template_log cs t) =
      map log_event (filter (\<lambda>(ts, t', h). t' = t \<and> now - int w \<le> ts) cs)"
    unfolding template_log_def filter_map filter_filter
    by (rule arg_cong [where f = "map log_event"], rule filter_cong)
      (auto simp: log_event_def)
  then have count: "event_count now t tr =
      min m (length (filter (\<lambda>(ts, t', h). t' = t \<and> now - int w \<le> ts) cs))"
    using count_last_n [OF sorted, of ?P m] by (simp add: event_count_def win)
  have "events_in_window now t tr = []" if "\<forall>ts\<in>fst ` set cs. ts < now - int w"
  proof -
    have "filter (\<lambda>(ts, t', h). t' = t \<and> now - int w \<le> ts) cs = []"
      using that by (force simp: filter_empty_conv)
    with count show ?thesis by (simp add: event_count_def)
  qed
  then show ?thesis using count by (auto simp: event_count_def rate_per_minute_def)
qed

theorem event_count_exact_witness:
  "event_count 100 ''py'' (run_log [(10, ''py'', None), (60, ''py'', None), (80, ''js'', None), (90, ''py'', None)]
     (with_max_events 5 (new_demand_tracker 50))) = 2"
  using event_count_exact [of "[(10, ''py'', None), (60, ''py'', None), (80, ''js'', None), (90, ''py'', None)]"
      _ 5 50 100 "''py''", OF _ refl] by simp

section \<open>The contract of a policy\<close>

text \<open>What a caller relies on: the size is within the capacity and, for a policy that smooths
  rates or not, at least the least size of the pool when the capacity allows it.\<close>

locale prewarm_policy =
  fixes desired :: "template_demand \<Rightarrow> nat \<Rightarrow> nat \<Rightarrow> 'p \<Rightarrow> 'p \<times> nat outcome"
    and least :: "'p \<Rightarrow> nat"
    and ok :: "'p \<Rightarrow> bool"
  assumes within: "ok p \<Longrightarrow> \<exists>n. snd (desired d c cap p) = Returns n \<and> n \<le> cap \<and> min (least p) cap \<le> n"
    and keeps: "ok p \<Longrightarrow> ok (fst (desired d c cap p)) \<and> least (fst (desired d c cap p)) = least p"
begin

lemma loop_targets:
  assumes "ok p" "\<forall>t n. targets t = Some n \<longrightarrow> 0 < n \<and> n \<le> cap"
  shows "\<exists>m. snd (prewarm_loop desired cap ds targets p) = Returns m \<and>
    (\<forall>t n. m t = Some n \<longrightarrow> 0 < n \<and> n \<le> cap) \<and> dom targets \<subseteq> dom m \<and>
    dom m \<subseteq> dom targets \<union> td_template_id ` set ds \<and>
    (0 < min (least p) cap \<longrightarrow> td_template_id ` set ds \<subseteq> dom m)"
  using assms
proof (induction ds arbitrary: targets p)
  case (Cons d ds)
  obtain p' out where step: "desired d 0 cap p = (p', out)" by fastforce
  with within [OF Cons.prems(1), of d 0 cap] keeps [OF Cons.prems(1), of d 0 cap]
  obtain n where n: "out = Returns n" "n \<le> cap" "min (least p) cap \<le> n" "ok p'" "least p' = least p"
    by auto
  define T where "T = (if 0 < n then targets(td_template_id d \<mapsto> n) else targets)"
  have T: "\<forall>t k. T t = Some k \<longrightarrow> 0 < k \<and> k \<le> cap" "dom targets \<subseteq> dom T"
    "dom T \<subseteq> insert (td_template_id d) (dom targets)"
    "0 < min (least p) cap \<longrightarrow> td_template_id d \<in> dom T"
    using Cons.prems(2) n(2,3) by (auto simp: T_def)
  from Cons.IH [OF n(4) T(1)] n(5) obtain m where
    m: "snd (prewarm_loop desired cap ds T p') = Returns m"
      "\<forall>t n. m t = Some n \<longrightarrow> 0 < n \<and> n \<le> cap" "dom T \<subseteq> dom m"
      "dom m \<subseteq> dom T \<union> td_template_id ` set ds"
      "0 < min (least p) cap \<longrightarrow> td_template_id ` set ds \<subseteq> dom m"
    by auto
  have "snd (prewarm_loop desired cap (d # ds) targets p) = Returns m"
    using m(1) step n(1) by (simp add: T_def)
  moreover have "dom targets \<subseteq> dom m" using T(2) m(3) by blast
  moreover have "dom m \<subseteq> dom targets \<union> td_template_id ` set (d # ds)"
    using T(3) m(4) by (simp only: list.set image_insert) blast
  moreover have "0 < min (least p) cap \<longrightarrow> td_template_id ` set (d # ds) \<subseteq> dom m"
    using T(4) m(3,5) by (simp only: list.set image_insert) blast
  ultimately show ?case using m(2) by (intro exI [of _ m] conjI)
qed simp

end

lemma pool_size_within:
  assumes "lo \<le> hi"
  shows "\<exists>n. pool_size x lo hi cap = Returns n \<and> n \<le> cap \<and> min lo cap \<le> n"
  using assms by (auto simp: pool_size_def clamp_usize_def)

interpretation fixed: prewarm_policy fixed_desired_pool_size fixed_size "\<lambda>_. True"
  by unfold_locales (auto simp: fixed_desired_pool_size_def)

interpretation ema: prewarm_policy "ema_desired_pool_size rnd" ema_min_pool
  "\<lambda>p. ema_min_pool p \<le> ema_max_pool p" for rnd
  by unfold_locales (auto simp: ema_desired_pool_size_def pool_size_within)

interpretation adaptive: prewarm_policy "adaptive_desired_pool_size rnd" ap_min_pool
  "\<lambda>p. ap_min_pool p \<le> ap_max_pool p" for rnd
  by unfold_locales (auto simp: adaptive_desired_pool_size_def pool_size_within Let_def)

lemma adaptive_targets:
  assumes "0 < ap_min_pool p" "ap_min_pool p \<le> ap_max_pool p" "0 < cap"
    and "iterates ks (events tr)"
  shows "\<exists>m. snd (compute_prewarm_targets rnd now ks (adaptive_desired_pool_size rnd) cap tr p) = Returns m \<and>
    dom m = dom (events tr) \<and> (\<forall>t n. m t = Some n \<longrightarrow> 1 \<le> n \<and> n \<le> cap)"
proof -
  have "td_template_id ` set (all_demands rnd now ks tr) = dom (events tr)"
    using assms(4) by (simp add: all_demands_def demand_for_def image_image iterates_def Let_def)
  then show ?thesis
    using adaptive.loop_targets [of p Map.empty cap rnd "all_demands rnd now ks tr"] assms
    by (fastforce simp: compute_prewarm_targets_def)
qed

text \<open>
  C36. With the adaptive policy, whatever its smoothed rates, the targets name exactly the templates
  that were ever recorded, each with a size from 1 to the capacity: a template whose events have all
  left the window keeps a target, because nothing removes its entry.
\<close>

theorem prewarm_targets_cover_all_templates:
  assumes "0 < ap_min_pool p" "ap_min_pool p \<le> ap_max_pool p" "0 < cap"
    and "iterates ks (events tr)"
  shows "\<exists>m. snd (compute_prewarm_targets rnd now ks (adaptive_desired_pool_size rnd) cap tr p) = Returns m \<and>
    dom m = dom (events tr) \<and> (\<forall>t n. m t = Some n \<longrightarrow> 1 \<le> n \<and> n \<le> cap)"
  using assms by (rule adaptive_targets)

theorem prewarm_targets_cover_all_templates_witness:
  "\<exists>m. snd (compute_prewarm_targets (\<lambda>x. x) (\<lambda>_. 10 ^ 15) [''py'']
      (adaptive_desired_pool_size (\<lambda>x. x)) 20 (record_demand 0 ''py'' default_demand_tracker)
      (new_adaptive_policy (\<lambda>x. x))) = Returns m \<and>
    dom m = {''py''}"
proof -
  have "iterates [''py''] (events (record_demand 0 ''py'' default_demand_tracker))"
    by (auto simp: iterates_def record_demand_def record_events default_demand_tracker_def
        new_demand_tracker_def split: if_splits)
  from prewarm_targets_cover_all_templates [OF _ _ _ this, of "new_adaptive_policy (\<lambda>x. x)" 20
      "\<lambda>x. x" "\<lambda>_. 10 ^ 15"] this
  show ?thesis by (auto simp: new_adaptive_policy_def iterates_def)
qed

end
