(* ===== verification/Scheduler.thy ===== *)
theory Scheduler
  imports Region_Registry Migration Demand
begin

text \<open>
  The scheduler service (\<open>akssora-scheduler/src/main.rs\<close>): its state and one definition per HTTP
  handler. A response is a status and a body, \<open>Inl\<close> for an error response; the error bodies that
  only print an error carry the error itself. Parsing and printing of JSON, and the router, are
  left out here: a request is the call of its handler (the routes are in \<open>Service\<close>).
\<close>

section \<open>State, requests and responses\<close>

record scheduler_state =
  sch_registry :: host_registry
  sch_regions :: region_registry
  sch_demand :: demand_tracker
  sch_prewarm :: adaptive_policy
  sch_orchestrator :: orchestrator
  sch_redirects :: redirect_table

type_synonym ('e, 'a) response = "((nat \<times> 'e) + (nat \<times> 'a)) outcome"

record heartbeat_request =
  hb_host_id :: uuid
  hb_address :: socket_addr
  hb_total_vcpus :: u32
  hb_total_mem_mib :: u32
  hb_used_vcpus :: u32
  hb_used_mem_mib :: u32
  hb_sandbox_count :: u32

record schedule_request =
  sr_vcpus :: u32
  sr_mem_mib :: u32
  sr_template_id :: "string option"
  sr_region :: "string option"

record schedule_response =
  srs_host_id :: uuid
  srs_address :: socket_addr
  srs_free_vcpus :: u32
  srs_free_mem_mib :: u32

record fleet_metrics_response =
  fr_total_hosts :: nat
  fr_total_sandboxes :: u32
  fr_hosts :: "host_snapshot list"

record health_response =
  hr_status :: string
  hr_hosts :: nat

record start_migration_request =
  smr_sandbox_id :: uuid
  smr_source_host_id :: uuid
  smr_target_host_id :: "uuid option"
  smr_template_id :: "string option"
  smr_timeout_secs :: u64
  smr_drain_secs :: u64

definition default_migration_timeout :: u64 where
  "default_migration_timeout = 60"

definition default_drain_secs :: u64 where
  "default_drain_secs = 5"

record prewarm_response =
  pr_targets :: "string \<rightharpoonup> nat"
  pr_total_desired :: nat

section \<open>Handlers\<close>

text \<open>\<open>now1\<close> and \<open>now2\<close> are the readings of the clock in \<open>upsert_host\<close> and in \<open>heartbeat\<close>.\<close>

definition heartbeat_handler ::
    "bool \<Rightarrow> datetime \<Rightarrow> datetime \<Rightarrow> heartbeat_request \<Rightarrow> scheduler_state \<Rightarrow>
     scheduler_state \<times> (unit, bool) response" where
  "heartbeat_handler ovf now1 now2 req st =
     (let reg = upsert_host now1 (hb_host_id req) (hb_address req) (hb_total_vcpus req)
                  (hb_total_mem_mib req) (sch_registry st);
          (reg', out) = heartbeat ovf now2 (hb_host_id req) (hb_used_vcpus req) (hb_used_mem_mib req)
                  (hb_sandbox_count req) reg
      in (st\<lparr>sch_registry := reg'\<rparr>, map_outcome_val (\<lambda>_. Inr (200, True)) out))"

fun show_reason :: "unplaced_reason \<Rightarrow> string" where
  "show_reason NoHosts = ''NoHosts''"
| "show_reason InsufficientResources = ''InsufficientResources''"

definition schedule_handler ::
    "datetime \<Rightarrow> datetime \<Rightarrow> (uuid \<Rightarrow> u64) \<Rightarrow> uuid list \<Rightarrow> schedule_request \<Rightarrow> scheduler_state \<Rightarrow>
     scheduler_state \<times> (string, schedule_response) response" where
  "schedule_handler now_record now secs ks req st =
     (let resource_req = \<lparr>req_vcpus = sr_vcpus req, req_mem_mib = sr_mem_mib req\<rparr>;
          template_id = (case sr_template_id req of None \<Rightarrow> ''default'' | Some t \<Rightarrow> t);
          demand = record_demand now_record template_id (sch_demand st);
          (reg, decision) = (case sr_region req of
             Some region \<Rightarrow>
               place_sandbox now secs ks resource_req (Some region) (sch_regions st) (sch_registry st)
           | None \<Rightarrow>
               (let (reg, hs) = available_hosts now secs ks (sch_registry st)
                in (reg, best_fit_place hs resource_req)))
      in (st\<lparr>sch_demand := demand, sch_registry := reg\<rparr>,
          Returns (case decision of
             Placed host \<Rightarrow> Inr (200, \<lparr>srs_host_id = hs_host_id host, srs_address = hs_address host,
               srs_free_vcpus = free_vcpus host, srs_free_mem_mib = free_mem_mib host\<rparr>)
           | Unplaced reason \<Rightarrow> Inl (503, ''no host available: '' @ show_reason reason))))"

definition fleet_handler ::
    "bool \<Rightarrow> datetime \<Rightarrow> (uuid \<Rightarrow> u64) \<Rightarrow> uuid list \<Rightarrow> scheduler_state \<Rightarrow>
     scheduler_state \<times> (unit, fleet_metrics_response) response" where
  "fleet_handler ovf now secs ks st =
     (case registry_total_sandboxes ovf ks (sch_registry st) of
        Returns sandboxes \<Rightarrow>
          (let (reg, hs) = available_hosts now secs ks (sch_registry st)
           in (st\<lparr>sch_registry := reg\<rparr>,
               Returns (Inr (200, \<lparr>fr_total_hosts = host_count (sch_registry st),
                 fr_total_sandboxes = sandboxes, fr_hosts = hs\<rparr>))))
      | Panics \<Rightarrow> (st, Panics)
      | Blocks \<Rightarrow> (st, Blocks))"

definition host_handler ::
    "u64 \<Rightarrow> uuid \<Rightarrow> scheduler_state \<Rightarrow> scheduler_state \<times> (unit, host_snapshot) response" where
  "host_handler t host_id st =
     (let (reg, found) = get_host t host_id (sch_registry st)
      in (st\<lparr>sch_registry := reg\<rparr>,
          Returns (case found of Some h \<Rightarrow> Inr (200, h) | None \<Rightarrow> Inl (404, ()))))"

definition report_failure_handler :: "u64 \<Rightarrow> uuid \<Rightarrow> scheduler_state \<Rightarrow> scheduler_state \<times> nat" where
  "report_failure_handler t host_id st =
     (st\<lparr>sch_registry := host_record_failure t host_id (sch_registry st)\<rparr>, 200)"

definition decommission_handler :: "uuid \<Rightarrow> scheduler_state \<Rightarrow> scheduler_state \<times> nat" where
  "decommission_handler host_id st =
     (let (reg, removed) = registry_remove_host host_id (sch_registry st)
      in (st\<lparr>sch_registry := reg\<rparr>, if removed then 204 else 404))"

definition health_handler :: "scheduler_state \<Rightarrow> health_response" where
  "health_handler st = \<lparr>hr_status = ''ok'', hr_hosts = host_count (sch_registry st)\<rparr>"

definition demand_handler ::
    "(rat \<Rightarrow> rat) \<Rightarrow> (string \<Rightarrow> datetime) \<Rightarrow> string list \<Rightarrow> scheduler_state \<Rightarrow> template_demand list" where
  "demand_handler rnd now ts st = all_demands rnd now ts (sch_demand st)"

definition demand_top_handler ::
    "(rat \<Rightarrow> rat) \<Rightarrow> (string \<Rightarrow> datetime) \<Rightarrow> string list \<Rightarrow> nat \<Rightarrow> scheduler_state \<Rightarrow> template_demand list"
    where
  "demand_top_handler rnd now ts n st = top_templates rnd now ts n (sch_demand st)"

definition prewarm_handler ::
    "(rat \<Rightarrow> rat) \<Rightarrow> (string \<Rightarrow> datetime) \<Rightarrow> string list \<Rightarrow> scheduler_state \<Rightarrow>
     scheduler_state \<times> (unit, prewarm_response) response" where
  "prewarm_handler rnd now ts st =
     (let (p, out) = compute_prewarm_targets rnd now ts (adaptive_desired_pool_size rnd) 20
            (sch_demand st) (sch_prewarm st)
      in (st\<lparr>sch_prewarm := p\<rparr>,
          map_outcome_val (\<lambda>m. Inr (200, \<lparr>pr_targets = m, pr_total_desired = sum_list (values_in ts m)\<rparr>))
            out))"

text \<open>A record that is looked up after a call on the orchestrator, with the status of its absence.\<close>

definition answer_record ::
    "(uuid \<Rightarrow> uuid \<Rightarrow> bool) \<Rightarrow> int \<Rightarrow> uuid \<Rightarrow> nat \<Rightarrow> nat \<Rightarrow> scheduler_state \<Rightarrow>
     (migration_error option, migration_record_snapshot) response" where
  "answer_record waits instant migration_id found missing st =
     map_outcome_val (\<lambda>r. case r of Some s \<Rightarrow> Inr (found, s) | None \<Rightarrow> Inl (missing, None))
       (get_record waits instant migration_id (sch_orchestrator st))"

definition start_migration_handler ::
    "(uuid \<Rightarrow> uuid \<Rightarrow> bool) \<Rightarrow> datetime \<Rightarrow> int \<Rightarrow> u64 \<Rightarrow> (uuid \<Rightarrow> u64) \<Rightarrow> uuid list \<Rightarrow> uuid \<Rightarrow>
     start_migration_request \<Rightarrow> datetime \<Rightarrow> int \<Rightarrow> int \<Rightarrow> scheduler_state \<Rightarrow>
     scheduler_state \<times> (migration_error option, migration_record_snapshot) response" where
  "start_migration_handler waits now i t secs ks new_id req now' i' i'' st =
     (let migration_req = \<lparr>mreq_sandbox_id = smr_sandbox_id req,
            mreq_source_host_id = smr_source_host_id req, mreq_target_host_id = smr_target_host_id req,
            mreq_template_id = smr_template_id req, mreq_timeout_secs = smr_timeout_secs req,
            mreq_drain_secs = smr_drain_secs req\<rparr>;
          (orch, reg, out) = start_migration waits now i t secs ks new_id migration_req
            (sch_orchestrator st) (sch_registry st);
          st1 = st\<lparr>sch_orchestrator := orch, sch_registry := reg\<rparr>
      in (case out of
            Returns (Inl e) \<Rightarrow> (st1, Returns (Inl (400, Some e)))
          | Returns (Inr migration_id) \<Rightarrow>
              (let (orch', out') = advance waits now' i' migration_id (sch_orchestrator st1);
                   st2 = st1\<lparr>sch_orchestrator := orch'\<rparr>
               in (case out' of
                     Returns _ \<Rightarrow> (st2, answer_record waits i'' migration_id 201 500 st2)
                   | Panics \<Rightarrow> (st2, Panics)
                   | Blocks \<Rightarrow> (st2, Blocks)))
          | Panics \<Rightarrow> (st1, Panics)
          | Blocks \<Rightarrow> (st1, Blocks)))"

text \<open>After a completed migration the sandbox is redirected to the target, if it is known; a look-up
  that blocks ends the call.\<close>

definition redirect_completed ::
    "(uuid \<Rightarrow> uuid \<Rightarrow> bool) \<Rightarrow> int \<Rightarrow> u64 \<Rightarrow> uuid \<Rightarrow> scheduler_state \<Rightarrow> scheduler_state \<times> unit outcome" where
  "redirect_completed waits instant t migration_id st =
     (case get_record waits instant migration_id (sch_orchestrator st) of
        Returns (Some r) \<Rightarrow>
          (case ms_target_host_id r of
             None \<Rightarrow> (st, Returns ())
           | Some target \<Rightarrow>
               (let (reg, found) = get_host t target (sch_registry st);
                    st' = st\<lparr>sch_registry := reg\<rparr>
                in (case found of
                      None \<Rightarrow> (st', Returns ())
                    | Some host \<Rightarrow>
                        (st'\<lparr>sch_redirects := register_redirect (ms_sandbox_id r) host (sch_redirects st')\<rparr>,
                         Returns ()))))
      | Returns None \<Rightarrow> (st, Returns ())
      | Panics \<Rightarrow> (st, Panics)
      | Blocks \<Rightarrow> (st, Blocks))"

definition advance_migration_handler ::
    "(uuid \<Rightarrow> uuid \<Rightarrow> bool) \<Rightarrow> datetime \<Rightarrow> int \<Rightarrow> int \<Rightarrow> u64 \<Rightarrow> int \<Rightarrow> uuid \<Rightarrow> scheduler_state \<Rightarrow>
     scheduler_state \<times> (migration_error option, migration_record_snapshot) response" where
  "advance_migration_handler waits now i i' t i'' migration_id st =
     (let (orch, out) = advance waits now i migration_id (sch_orchestrator st);
          st1 = st\<lparr>sch_orchestrator := orch\<rparr>
      in (case out of
            Returns (Inl e) \<Rightarrow> (st1, Returns (Inl (409, Some e)))
          | Returns (Inr new_state) \<Rightarrow>
              (let (st2, done) = (if new_state = Complete then redirect_completed waits i' t migration_id st1
                                  else (st1, Returns ()))
               in (case done of
                     Returns _ \<Rightarrow> (st2, answer_record waits i'' migration_id 200 404 st2)
                   | Panics \<Rightarrow> (st2, Panics)
                   | Blocks \<Rightarrow> (st2, Blocks)))
          | Panics \<Rightarrow> (st1, Panics)
          | Blocks \<Rightarrow> (st1, Blocks)))"

text \<open>The reason of a rollback is the text under \<open>reason\<close> in the body, if there is one.\<close>

definition rollback_migration_handler ::
    "(uuid \<Rightarrow> uuid \<Rightarrow> bool) \<Rightarrow> datetime \<Rightarrow> int \<Rightarrow> uuid \<Rightarrow> string option \<Rightarrow> scheduler_state \<Rightarrow>
     scheduler_state \<times> (migration_error option, migration_record_snapshot) response" where
  "rollback_migration_handler waits now i migration_id body_reason st =
     (let reason = (case body_reason of Some r \<Rightarrow> r | None \<Rightarrow> ''manual rollback requested'');
          (orch, out) = rollback waits now migration_id reason (sch_orchestrator st);
          st1 = st\<lparr>sch_orchestrator := orch\<rparr>
      in (case out of
            Returns (Inl e) \<Rightarrow> (st1, Returns (Inl (409, Some e)))
          | Returns (Inr _) \<Rightarrow> (st1, answer_record waits i migration_id 200 404 st1)
          | Panics \<Rightarrow> (st1, Panics)
          | Blocks \<Rightarrow> (st1, Blocks)))"

definition list_migrations_handler ::
    "int \<Rightarrow> uuid list \<Rightarrow> scheduler_state \<Rightarrow> migration_record_snapshot list outcome" where
  "list_migrations_handler i ks st = active_migrations i ks (sch_orchestrator st)"

definition get_migration_handler ::
    "(uuid \<Rightarrow> uuid \<Rightarrow> bool) \<Rightarrow> int \<Rightarrow> uuid \<Rightarrow> scheduler_state \<Rightarrow>
     (migration_error option, migration_record_snapshot) response" where
  "get_migration_handler waits i migration_id st = answer_record waits i migration_id 200 404 st"

definition completed_migrations_handler ::
    "int \<Rightarrow> uuid list \<Rightarrow> scheduler_state \<Rightarrow> migration_record_snapshot list" where
  "completed_migrations_handler i ks st = completed_migrations i ks (sch_orchestrator st)"

definition redirect_handler ::
    "datetime \<Rightarrow> uuid \<Rightarrow> scheduler_state \<Rightarrow> (unit, migration_record_snapshot) response" where
  "redirect_handler now sandbox_id st =
     Returns (case get_redirect sandbox_id (sch_redirects st) of
        Some host \<Rightarrow> Inr (200, \<lparr>ms_migration_id = 0, ms_sandbox_id = sandbox_id, ms_source_host_id = 0,
          ms_target_host_id = Some (hs_host_id host), ms_state = Complete, ms_elapsed_ms = 0,
          ms_created_at = now, ms_state_history = []\<rparr>)
      | None \<Rightarrow> Inl (404, ()))"

definition list_regions_handler ::
    "bool \<Rightarrow> (uuid \<Rightarrow> u64) \<Rightarrow> (string \<Rightarrow> uuid list) \<Rightarrow> string list \<Rightarrow> scheduler_state \<Rightarrow>
     scheduler_state \<times> (unit, region_info list) response" where
  "list_regions_handler ovf secs kss rs st =
     (let (reg, out) = list_region_info ovf secs kss rs (sch_regions st) (sch_registry st)
      in (st\<lparr>sch_registry := reg\<rparr>, map_outcome_val (\<lambda>is. Inr (200, is)) out))"

definition get_region_handler ::
    "bool \<Rightarrow> (uuid \<Rightarrow> u64) \<Rightarrow> uuid list \<Rightarrow> string \<Rightarrow> scheduler_state \<Rightarrow>
     scheduler_state \<times> (unit, region_info) response" where
  "get_region_handler ovf secs ks region_id st =
     (let (reg, out) = get_region_info ovf secs ks region_id (sch_regions st) (sch_registry st)
      in (st\<lparr>sch_registry := reg\<rparr>,
          map_outcome_val (\<lambda>i. case i of Some r \<Rightarrow> Inr (200, r) | None \<Rightarrow> Inl (404, ())) out))"

text \<open>The state \<open>main\<close> builds before it serves.\<close>

definition boot_regions :: "datetime \<Rightarrow> region_registry" where
  "boot_regions now =
     register_region now ''ap-south-1'' ''Asia Pacific (Mumbai)'' ''Mumbai, India''
       (register_region now ''eu-west-1'' ''EU West (Ireland)'' ''Dublin, Ireland''
         (register_region now ''us-west-2'' ''US West (Oregon)'' ''Oregon, USA''
           (register_region now ''us-east-1'' ''US East (Virginia)'' ''Virginia, USA''
             new_region_registry)))"

definition boot_state :: "(rat \<Rightarrow> rat) \<Rightarrow> datetime \<Rightarrow> scheduler_state" where
  "boot_state rnd now =
     \<lparr>sch_registry = default_host_registry, sch_regions = boot_regions now,
      sch_demand = default_demand_tracker, sch_prewarm = new_adaptive_policy rnd,
      sch_orchestrator = new_orchestrator, sch_redirects = new_redirect_table\<rparr>"

section \<open>Reachable states\<close>

text \<open>The requests that change the state; the others only read it.\<close>

datatype scheduler_call =
    PostHeartbeat bool datetime datetime heartbeat_request
  | PostSchedule datetime datetime "uuid \<Rightarrow> u64" "uuid list" schedule_request
  | GetFleet bool datetime "uuid \<Rightarrow> u64" "uuid list"
  | GetHostById u64 uuid
  | PostReportFailure u64 uuid
  | DeleteHost uuid
  | GetPrewarm "string \<Rightarrow> datetime" "string list"
  | PostMigration datetime int u64 "uuid \<Rightarrow> u64" "uuid list" uuid start_migration_request datetime int int
  | PostAdvance datetime int int u64 int uuid
  | PostRollback datetime int uuid "string option"
  | GetRegions bool "uuid \<Rightarrow> u64" "string \<Rightarrow> uuid list" "string list"
  | GetRegionById bool "uuid \<Rightarrow> u64" "uuid list" string

fun scheduler_step ::
    "(rat \<Rightarrow> rat) \<Rightarrow> (uuid \<Rightarrow> uuid \<Rightarrow> bool) \<Rightarrow> scheduler_call \<Rightarrow> scheduler_state \<Rightarrow> scheduler_state" where
  "scheduler_step rnd waits (PostHeartbeat ovf now1 now2 req) st = fst (heartbeat_handler ovf now1 now2 req st)"
| "scheduler_step rnd waits (PostSchedule nr now secs ks req) st = fst (schedule_handler nr now secs ks req st)"
| "scheduler_step rnd waits (GetFleet ovf now secs ks) st = fst (fleet_handler ovf now secs ks st)"
| "scheduler_step rnd waits (GetHostById t h) st = fst (host_handler t h st)"
| "scheduler_step rnd waits (PostReportFailure t h) st = fst (report_failure_handler t h st)"
| "scheduler_step rnd waits (DeleteHost h) st = fst (decommission_handler h st)"
| "scheduler_step rnd waits (GetPrewarm now ts) st = fst (prewarm_handler rnd now ts st)"
| "scheduler_step rnd waits (PostMigration now i t secs ks mid req now' i' i'') st =
     fst (start_migration_handler waits now i t secs ks mid req now' i' i'' st)"
| "scheduler_step rnd waits (PostAdvance now i i' t i'' mid) st =
     fst (advance_migration_handler waits now i i' t i'' mid st)"
| "scheduler_step rnd waits (PostRollback now i mid r) st = fst (rollback_migration_handler waits now i mid r st)"
| "scheduler_step rnd waits (GetRegions ovf secs kss rs) st = fst (list_regions_handler ovf secs kss rs st)"
| "scheduler_step rnd waits (GetRegionById ovf secs ks r) st = fst (get_region_handler ovf secs ks r st)"

text \<open>A new migration has a fresh identifier.\<close>

fun fresh_call :: "scheduler_call \<Rightarrow> scheduler_state \<Rightarrow> bool" where
  "fresh_call (PostMigration now i t secs ks mid req now' i' i'') st =
     (active (sch_orchestrator st) mid = None \<and> completed (sch_orchestrator st) mid = None)"
| "fresh_call _ st = True"

inductive scheduler_reachable ::
    "(rat \<Rightarrow> rat) \<Rightarrow> (uuid \<Rightarrow> uuid \<Rightarrow> bool) \<Rightarrow> scheduler_state \<Rightarrow> bool" for rnd waits where
  Boot: "scheduler_reachable rnd waits (boot_state rnd now)"
| Call: "scheduler_reachable rnd waits st \<Longrightarrow> fresh_call c st \<Longrightarrow>
    scheduler_reachable rnd waits (scheduler_step rnd waits c st)"

section \<open>What each component of the state goes through\<close>

text \<open>Each call moves every component by that component's own operations.\<close>

lemma regions_unchanged: "sch_regions (scheduler_step rnd waits c st) = sch_regions st"
  by (cases c)
    (auto simp: heartbeat_handler_def schedule_handler_def fleet_handler_def host_handler_def
      report_failure_handler_def decommission_handler_def prewarm_handler_def
      start_migration_handler_def advance_migration_handler_def rollback_migration_handler_def
      list_regions_handler_def get_region_handler_def redirect_completed_def
      Let_def split: prod.splits outcome.splits sum.splits option.splits if_splits)

lemma hosts_in_region_inv:
  "registry_inv hr \<Longrightarrow> registry_inv (fst (hosts_in_region secs ks r rr hr))"
  by (simp add: hosts_in_region_def region_snapshots_inv split: option.split)

lemma place_sandbox_inv:
  "registry_inv hr \<Longrightarrow> registry_inv (fst (place_sandbox now secs ks req r rr hr))"
  by (simp add: place_sandbox_def hosts_in_region_inv available_hosts_inv split_def Let_def
      split: option.split)

lemma get_region_info_inv:
  "registry_inv hr \<Longrightarrow> registry_inv (fst (get_region_info ovf secs ks r rr hr))"
  by (simp add: get_region_info_def hosts_in_region_inv split_def Let_def split: option.split)

lemma list_region_info_inv:
  "registry_inv hr \<Longrightarrow> registry_inv (fst (list_region_info ovf secs kss rs rr hr))"
proof (induction rs arbitrary: hr)
  case (Cons r rs)
  obtain hr' out where i: "get_region_info ovf secs (kss r) r rr hr = (hr', out)" by fastforce
  then have "registry_inv hr'" using get_region_info_inv [OF Cons.prems, of ovf secs "kss r" r rr] by simp
  with Cons.IH i show ?case by (cases out) (simp_all add: split_def Let_def)
qed simp

lemma choose_target_inv:
  "registry_inv hr \<Longrightarrow> registry_inv (fst (choose_target now secs ks req hr))"
  by (simp add: choose_target_def get_host_inv available_hosts_inv split_def Let_def
      split: option.split)

lemma start_migration_registry_inv:
  assumes "registry_inv hr"
  shows "registry_inv (fst (snd (start_migration waits now i t secs ks mid req orch hr)))"
proof -
  obtain hr1 source where g: "get_host t (mreq_source_host_id req) hr = (hr1, source)" by fastforce
  obtain hr2 target where c: "choose_target now secs ks req hr1 = (hr2, target)" by fastforce
  have "registry_inv hr1" using get_host_inv [OF assms, of t "mreq_source_host_id req"] g by simp
  moreover from this have "registry_inv hr2" using choose_target_inv [of hr1 now secs ks req] c by simp
  ultimately show ?thesis by (simp add: start_migration_def g c split: sum.split)
qed

lemma redirect_completed_registry:
  "registry_inv (sch_registry st) \<Longrightarrow> registry_inv (sch_registry (fst (redirect_completed waits i t mid st)))"
  by (simp add: redirect_completed_def get_host_inv split_def Let_def
      split: option.split outcome.split)

lemma redirect_completed_frame:
  "sch_orchestrator (fst (redirect_completed waits i t mid st)) = sch_orchestrator st"
  "sch_demand (fst (redirect_completed waits i t mid st)) = sch_demand st"
  "sch_prewarm (fst (redirect_completed waits i t mid st)) = sch_prewarm st"
  by (simp_all add: redirect_completed_def split_def Let_def split: option.split outcome.split)

lemma advance_handler_frame:
  "sch_demand (fst (advance_migration_handler waits now i i' t i'' mid st)) = sch_demand st"
  "sch_prewarm (fst (advance_migration_handler waits now i i' t i'' mid st)) = sch_prewarm st"
  "sch_orchestrator (fst (advance_migration_handler waits now i i' t i'' mid st)) =
     fst (advance waits now i mid (sch_orchestrator st))"
  by (simp_all add: advance_migration_handler_def redirect_completed_frame split_def Let_def
      split: outcome.split sum.split)

lemma advance_handler_registry:
  assumes "registry_inv (sch_registry st)"
  shows "registry_inv (sch_registry (fst (advance_migration_handler waits now i i' t i'' mid st)))"
proof -
  have "registry_inv (sch_registry (fst (redirect_completed waits i' t mid
      (st\<lparr>sch_orchestrator := orch\<rparr>))))" for orch
    using assms by (intro redirect_completed_registry) simp
  then show ?thesis using assms
    by (simp add: advance_migration_handler_def split_def Let_def split: outcome.split sum.split)
qed

lemma start_handler_registry:
  assumes "registry_inv (sch_registry st)"
  shows "registry_inv (sch_registry
    (fst (start_migration_handler waits now i t secs ks mid req now' i' i'' st)))"
  using start_migration_registry_inv [OF assms]
  by (simp add: start_migration_handler_def split_def Let_def split: outcome.split sum.split)

lemma registry_step_keeps:
  "registry_inv (sch_registry st) \<Longrightarrow> registry_inv (sch_registry (scheduler_step rnd waits c st))"
proof (cases c)
  case (PostMigration now i t secs ks mid req now' i' i'')
  moreover assume "registry_inv (sch_registry st)"
  ultimately show ?thesis by (simp add: start_handler_registry)
next
  case (PostAdvance now i i' t i'' mid)
  moreover assume "registry_inv (sch_registry st)"
  ultimately show ?thesis by (simp add: advance_handler_registry)
qed (simp_all add: heartbeat_handler_def heartbeat_inv upsert_host_inv schedule_handler_def
    place_sandbox_inv available_hosts_inv fleet_handler_def host_handler_def get_host_inv
    report_failure_handler_def host_record_failure_inv decommission_handler_def
    registry_remove_host_inv prewarm_handler_def rollback_migration_handler_def
    list_regions_handler_def list_region_info_inv get_region_handler_def get_region_info_inv
    split_def Let_def split: option.split outcome.split sum.split)

lemma start_handler_orchestrator:
  "sch_orchestrator (fst (start_migration_handler waits now i t secs ks mid req now' i' i'' st)) \<in>
     (let orch = fst (start_migration waits now i t secs ks mid
            \<lparr>mreq_sandbox_id = smr_sandbox_id req, mreq_source_host_id = smr_source_host_id req,
             mreq_target_host_id = smr_target_host_id req, mreq_template_id = smr_template_id req,
             mreq_timeout_secs = smr_timeout_secs req, mreq_drain_secs = smr_drain_secs req\<rparr>
            (sch_orchestrator st) (sch_registry st))
      in {orch} \<union> {fst (advance waits now' i' mid' orch) |mid'. True})"
  by (auto simp: start_migration_handler_def split_def Let_def split: outcome.split sum.split)

lemma orchestrator_step_keeps:
  assumes "reachable waits (sch_orchestrator st)" "fresh_call c st"
  shows "reachable waits (sch_orchestrator (scheduler_step rnd waits c st))"
proof (cases c)
  case (PostMigration now i t secs ks mid req now' i' i'')
  then have fresh: "active (sch_orchestrator st) mid = None" "completed (sch_orchestrator st) mid = None"
    using assms(2) by simp_all
  have start: "reachable waits (fst (start_migration waits now i t secs ks mid req' (sch_orchestrator st) hr))"
    for req' hr
    by (rule reachable.Step [OF assms(1) orchestrator_step.Start [OF fresh]])
  have "reachable waits (fst (advance waits now' i' mid'
      (fst (start_migration waits now i t secs ks mid req' (sch_orchestrator st) hr))))" for mid' req' hr
    by (rule reachable.Step [OF start orchestrator_step.Advance])
  with start start_handler_orchestrator [of waits now i t secs ks mid req now' i' i'' st]
  show ?thesis unfolding PostMigration Let_def by auto
next
  case (PostAdvance now i i' t i'' mid)
  then show ?thesis
    using reachable.Step [OF assms(1) orchestrator_step.Advance, of now i mid]
    by (simp add: advance_handler_frame)
next
  case (PostRollback now i mid r)
  have "sch_orchestrator (fst (rollback_migration_handler waits now i mid r st)) =
      fst (rollback waits now mid (case r of Some r \<Rightarrow> r | None \<Rightarrow> ''manual rollback requested'')
        (sch_orchestrator st))"
    by (simp add: rollback_migration_handler_def split_def Let_def split: outcome.split sum.split)
  then show ?thesis
    unfolding PostRollback using reachable.Step [OF assms(1) orchestrator_step.Rollback] by simp
qed (use assms in \<open>simp_all add: heartbeat_handler_def schedule_handler_def fleet_handler_def
    host_handler_def report_failure_handler_def decommission_handler_def prewarm_handler_def
    list_regions_handler_def get_region_handler_def split_def Let_def split: outcome.split\<close>)

definition demand_capped :: "demand_tracker \<Rightarrow> bool" where
  "demand_capped tr \<longleftrightarrow> max_events_per_template tr = 10000 \<and>
     (\<forall>t es. events tr t = Some es \<longrightarrow> length es \<le> 10000)"

lemma record_demand_capped: "demand_capped tr \<Longrightarrow> demand_capped (record_demand now t tr)"
  by (auto simp: demand_capped_def record_demand_def record_events split: if_splits)

lemma demand_step_keeps:
  "demand_capped (sch_demand st) \<Longrightarrow> demand_capped (sch_demand (scheduler_step rnd waits c st))"
proof (cases c)
  case (PostMigration now i t secs ks mid req now' i' i'')
  have "sch_demand (fst (start_migration_handler waits now i t secs ks mid req now' i' i'' st)) = sch_demand st"
    by (simp add: start_migration_handler_def split_def Let_def split: outcome.split sum.split)
  moreover assume "demand_capped (sch_demand st)"
  ultimately show ?thesis unfolding PostMigration by simp
qed (simp_all add: heartbeat_handler_def schedule_handler_def fleet_handler_def host_handler_def
    report_failure_handler_def decommission_handler_def prewarm_handler_def advance_handler_frame
    rollback_migration_handler_def list_regions_handler_def get_region_handler_def
    record_demand_capped split_def Let_def split: outcome.split sum.split)

definition default_pools :: "adaptive_policy \<Rightarrow> bool" where
  "default_pools p \<longleftrightarrow> ap_min_pool p = 1 \<and> ap_max_pool p = 20"

lemma prewarm_loop_pools:
  "default_pools p \<Longrightarrow> default_pools (fst (prewarm_loop (adaptive_desired_pool_size rnd) cap ds m p))"
proof (induction ds arbitrary: m p)
  case (Cons d ds)
  obtain p' out where step: "adaptive_desired_pool_size rnd d 0 cap p = (p', out)" by fastforce
  then have "default_pools p'"
    using Cons.prems by (auto simp: adaptive_desired_pool_size_def default_pools_def Let_def)
  with Cons.IH step show ?case by (cases out) simp_all
qed simp

lemma pools_step_keeps:
  "default_pools (sch_prewarm st) \<Longrightarrow> default_pools (sch_prewarm (scheduler_step rnd waits c st))"
proof (cases c)
  case (PostMigration now i t secs ks mid req now' i' i'')
  have "sch_prewarm (fst (start_migration_handler waits now i t secs ks mid req now' i' i'' st)) = sch_prewarm st"
    by (simp add: start_migration_handler_def split_def Let_def split: outcome.split sum.split)
  moreover assume "default_pools (sch_prewarm st)"
  ultimately show ?thesis unfolding PostMigration by simp
qed (simp_all add: heartbeat_handler_def schedule_handler_def fleet_handler_def host_handler_def
    report_failure_handler_def decommission_handler_def prewarm_handler_def advance_handler_frame
    rollback_migration_handler_def list_regions_handler_def get_region_handler_def
    compute_prewarm_targets_def prewarm_loop_pools split_def Let_def split: outcome.split sum.split)

definition scheduler_inv :: "(uuid \<Rightarrow> uuid \<Rightarrow> bool) \<Rightarrow> scheduler_state \<Rightarrow> bool" where
  "scheduler_inv waits st \<longleftrightarrow> registry_inv (sch_registry st) \<and> regions_wf (sch_regions st) \<and>
     (\<forall>r region. regions (sch_regions st) r = Some region \<longrightarrow> rg_hosts region = Map.empty) \<and>
     reachable waits (sch_orchestrator st) \<and> demand_capped (sch_demand st) \<and>
     default_pools (sch_prewarm st)"

lemma boot_regions_wf: "regions_wf (boot_regions now)"
  unfolding boot_regions_def
  by (intro register_region_wf) (simp add: regions_wf_def new_region_registry_def)

lemma boot_inv: "scheduler_inv waits (boot_state rnd now)"
proof -
  have "rg_hosts region = Map.empty" if "regions (boot_regions now) r = Some region" for r region
    using that
    by (auto simp: boot_regions_def register_region_def new_region_registry_def split: if_splits)
  then show ?thesis
    by (simp add: scheduler_inv_def boot_state_def default_host_registry_def new_host_registry_inv
        boot_regions_wf reachable.Init demand_capped_def default_pools_def default_demand_tracker_def
        new_demand_tracker_def new_adaptive_policy_def)
qed

lemma scheduler_step_inv:
  "scheduler_inv waits st \<Longrightarrow> fresh_call c st \<Longrightarrow> scheduler_inv waits (scheduler_step rnd waits c st)"
  by (simp add: scheduler_inv_def regions_unchanged registry_step_keeps orchestrator_step_keeps
      demand_step_keeps pools_step_keeps)

lemma scheduler_reachable_inv: "scheduler_reachable rnd waits st \<Longrightarrow> scheduler_inv waits st"
  by (induction rule: scheduler_reachable.induct) (auto intro: boot_inv scheduler_step_inv)

text \<open>
  C2. Whatever the requests served since the start, in any order: every host's breaker is well
  formed, the regions are consistent, every migration record is a legal walk of the state machine,
  no template has more than 10,000 events, and a \<open>/prewarm\<close> request succeeds with one target from 1
  to 20 for every template ever requested.
\<close>

theorem scheduler_invariant:
  assumes "scheduler_reachable rnd waits st" "iterates ts (events (sch_demand st))"
  shows "registry_inv (sch_registry st) \<and> regions_wf (sch_regions st) \<and>
    orchestrator_inv (sch_orchestrator st) \<and> demand_capped (sch_demand st) \<and>
    (\<exists>r. snd (prewarm_handler rnd now ts st) = Returns (Inr (200, r)) \<and>
      dom (pr_targets r) = dom (events (sch_demand st)) \<and>
      (\<forall>t n. pr_targets r t = Some n \<longrightarrow> 1 \<le> n \<and> n \<le> 20))"
proof -
  have inv: "scheduler_inv waits st" using assms(1) by (rule scheduler_reachable_inv)
  then have "default_pools (sch_prewarm st)" by (simp add: scheduler_inv_def)
  then obtain m where
    "snd (compute_prewarm_targets rnd now ts (adaptive_desired_pool_size rnd) 20 (sch_demand st)
       (sch_prewarm st)) = Returns m"
    "dom m = dom (events (sch_demand st))" "\<forall>t n. m t = Some n \<longrightarrow> 1 \<le> n \<and> n \<le> 20"
    using adaptive_targets [of "sch_prewarm st" 20 ts "sch_demand st" rnd now] assms(2)
    by (auto simp: default_pools_def)
  moreover from this have "snd (prewarm_handler rnd now ts st) =
      Returns (Inr (200, \<lparr>pr_targets = m, pr_total_desired = sum_list (values_in ts m)\<rparr>))"
    by (simp add: prewarm_handler_def split_def Let_def)
  moreover have "orchestrator_inv (sch_orchestrator st)"
    using inv unfolding scheduler_inv_def by (auto intro: reachable_inv)
  ultimately show ?thesis using inv by (simp add: scheduler_inv_def)
qed

text \<open>One request served since the start.\<close>

definition sample_request :: schedule_request where
  "sample_request = \<lparr>sr_vcpus = 2, sr_mem_mib = 512, sr_template_id = Some ''py'', sr_region = None\<rparr>"

theorem scheduler_invariant_witness:
  "\<exists>r. snd (prewarm_handler (\<lambda>x. x) (\<lambda>_. 0) [''py'']
       (fst (schedule_handler 0 0 (\<lambda>_. 0) [] sample_request (boot_state (\<lambda>x. x) 0)))) =
     Returns (Inr (200, r)) \<and> dom (pr_targets r) = {''py''}"
proof -
  let ?st = "fst (schedule_handler 0 0 (\<lambda>_. 0) [] sample_request (boot_state (\<lambda>x. x) 0))"
  have reach: "scheduler_reachable (\<lambda>x. x) (=) ?st"
    using scheduler_reachable.Call [OF scheduler_reachable.Boot, of "PostSchedule 0 0 (\<lambda>_. 0) [] sample_request"]
    by simp
  have dom: "dom (events (sch_demand ?st)) = {''py''}"
    by (auto simp: schedule_handler_def sample_request_def boot_state_def record_demand_def
        record_events default_demand_tracker_def new_demand_tracker_def split_def Let_def
        split: if_splits)
  then have "iterates [''py''] (events (sch_demand ?st))" by (simp add: iterates_def)
  from scheduler_invariant [OF reach this, of "\<lambda>_. 0"] dom show ?thesis by auto
qed

section \<open>Scheduling\<close>

text \<open>
  C16. In every state the service can reach, a request for a region is refused: no request
  registers a host in a region, so that every region stays without hosts however many hosts report
  their heartbeats.
\<close>

theorem region_requests_refused:
  assumes "scheduler_reachable rnd waits st" "sr_region req = Some r"
  shows "snd (schedule_handler now_record now secs ks req st) =
    Returns (Inl (503, ''no host available: NoHosts''))"
proof -
  have "rg_hosts region = Map.empty" if "regions (sch_regions st) r = Some region" for region
    using scheduler_reachable_inv [OF assms(1)] that by (simp add: scheduler_inv_def)
  then have "hosts_in_region secs ks r (sch_regions st) (sch_registry st) = (sch_registry st, [])"
    by (auto simp: hosts_in_region_def region_snapshots_empty split: option.split)
  then have "snd (place_sandbox now secs ks q (Some r) (sch_regions st) (sch_registry st)) = Unplaced NoHosts" for q
    by (simp add: place_sandbox_def best_fit_nil)
  then show ?thesis using assms(2) by (simp add: schedule_handler_def split_def Let_def)
qed

theorem region_requests_refused_witness:
  "snd (schedule_handler 0 0 (\<lambda>_. 0) [1] (sample_request\<lparr>sr_region := Some ''us-east-1''\<rparr>)
     (fst (heartbeat_handler True 0 0
       \<lparr>hb_host_id = 1, hb_address = sample_address, hb_total_vcpus = 8, hb_total_mem_mib = 4096,
        hb_used_vcpus = 0, hb_used_mem_mib = 0, hb_sandbox_count = 0\<rparr> (boot_state (\<lambda>x. x) 0)))) =
   Returns (Inl (503, ''no host available: NoHosts''))"
proof -
  let ?hb = "\<lparr>hb_host_id = 1, hb_address = sample_address, hb_total_vcpus = 8, hb_total_mem_mib = 4096,
        hb_used_vcpus = 0, hb_used_mem_mib = 0, hb_sandbox_count = 0\<rparr>"
  have "scheduler_reachable (\<lambda>x. x) (=) (fst (heartbeat_handler True 0 0 ?hb (boot_state (\<lambda>x. x) 0)))"
    using scheduler_reachable.Call [OF scheduler_reachable.Boot, of "PostHeartbeat True 0 0 ?hb"] by simp
  from region_requests_refused [OF this, of "sample_request\<lparr>sr_region := Some ''us-east-1''\<rparr>"]
  show ?thesis by simp
qed

text \<open>The decision of a request without a region, and its response.\<close>

lemma schedule_response_eq:
  assumes "distinct ks" "sr_region req = None"
  shows "snd (schedule_handler now_record now secs ks req st) =
    Returns (case best_fit_place (values_in ks (live_view now secs (sch_registry st)))
          \<lparr>req_vcpus = sr_vcpus req, req_mem_mib = sr_mem_mib req\<rparr> of
        Placed host \<Rightarrow> Inr (200, \<lparr>srs_host_id = hs_host_id host, srs_address = hs_address host,
          srs_free_vcpus = free_vcpus host, srs_free_mem_mib = free_mem_mib host\<rparr>)
      | Unplaced reason \<Rightarrow> Inl (503, ''no host available: '' @ show_reason reason))"
  using assms by (simp add: schedule_handler_def available_hosts_eq split_def Let_def)

lemma best_fit_placed_least:
  assumes "best_fit_place hs req = Placed h" "h' \<in> set hs" "can_schedule h' req"
  shows "free_vcpus h \<le> free_vcpus h'"
proof -
  have best: "best_by free_vcpus (filter (\<lambda>h. can_schedule h req \<and> free_vcpus h \<noteq> - 1) hs) = Some h"
    using assms(1) by (simp add: best_fit_place_eq decide_simps)
  then obtain ys zs where s: "hs = ys @ h # zs" "can_schedule h req \<and> free_vcpus h \<noteq> - 1"
    "\<forall>y\<in>set ys. can_schedule y req \<and> free_vcpus y \<noteq> - 1 \<longrightarrow> free_vcpus h < free_vcpus y"
    "\<forall>z\<in>set zs. can_schedule z req \<and> free_vcpus z \<noteq> - 1 \<longrightarrow> free_vcpus h \<le> free_vcpus z"
    using best_by_filter [OF best] by blast
  show ?thesis
  proof (cases "free_vcpus h' = - 1")
    case False
    then show ?thesis using assms(2,3) s by (auto simp: less_imp_le)
  qed simp
qed

text \<open>
  C1. A request without a region is answered 200 with a registered host whose heartbeat is recent,
  whose breaker is not open and whose free capacity covers the request, with the address and the
  free capacity of that host and the fewest free processors among all such hosts; it is answered
  503 only when no such host exists, the hosts with the greatest possible count of free processors
  aside.
\<close>

theorem schedule_sound_and_complete:
  assumes "iterates ks (hosts (sch_registry st))" "sr_region req = None"
  shows "let fits = (\<lambda>k e. hosts (sch_registry st) k = Some e \<and> \<not> timed_out now (sch_registry st) e \<and>
           can_schedule (host_view (secs k) k e)
             \<lparr>req_vcpus = sr_vcpus req, req_mem_mib = sr_mem_mib req\<rparr>)
    in (case snd (schedule_handler now_record now secs ks req st) of
          Returns (Inr (status, r)) \<Rightarrow> status = 200 \<and>
            (\<exists>e. fits (srs_host_id r) e \<and> srs_address r = he_address e \<and>
              srs_free_vcpus r = saturating_sub (he_total_vcpus e) (he_used_vcpus e) \<and>
              srs_free_mem_mib r = saturating_sub (he_total_mem_mib e) (he_used_mem_mib e) \<and>
              (\<forall>k' e'. fits k' e' \<longrightarrow>
                srs_free_vcpus r \<le> saturating_sub (he_total_vcpus e') (he_used_vcpus e')))
        | Returns (Inl (status, _)) \<Rightarrow> status = 503 \<and>
            (\<forall>k e. fits k e \<longrightarrow> saturating_sub (he_total_vcpus e) (he_used_vcpus e) = - 1)
        | _ \<Rightarrow> False)"
proof -
  let ?reg = "sch_registry st" and ?q = "\<lparr>req_vcpus = sr_vcpus req, req_mem_mib = sr_mem_mib req\<rparr>"
  let ?hs = "values_in ks (live_view now secs ?reg)"
  have d: "distinct ks" using assms(1) by (simp add: iterates_def)
  have live: "h \<in> set ?hs \<longleftrightarrow> (\<exists>k e. hosts ?reg k = Some e \<and> \<not> timed_out now ?reg e \<and> h = host_view (secs k) k e)"
    for h
    using assms(1) by (force simp: set_values_in live_view_def iterates_def split: option.splits if_splits)
  have view: "hs_host_id (host_view t k e) = k" "hs_address (host_view t k e) = he_address e"
    "free_vcpus (host_view t k e) = saturating_sub (he_total_vcpus e) (he_used_vcpus e)"
    "free_mem_mib (host_view t k e) = saturating_sub (he_total_mem_mib e) (he_used_mem_mib e)" for t k e
    by (simp_all add: host_view_def snapshot_of_def free_vcpus_def free_mem_mib_def)
  show ?thesis
  proof (cases "best_fit_place ?hs ?q")
    case (Placed h)
    then obtain k e where h: "hosts ?reg k = Some e" "\<not> timed_out now ?reg e" "h = host_view (secs k) k e"
      "can_schedule h ?q"
      using best_fit.sound [OF Placed] live by blast
    have "\<forall>k' e'. hosts ?reg k' = Some e' \<and> \<not> timed_out now ?reg e' \<and>
        can_schedule (host_view (secs k') k' e') ?q \<longrightarrow>
        saturating_sub (he_total_vcpus e) (he_used_vcpus e) \<le>
          saturating_sub (he_total_vcpus e') (he_used_vcpus e')"
      using best_fit_placed_least [OF Placed] live view h(3) by metis
    with h Placed show ?thesis
      by (simp add: schedule_response_eq [OF d assms(2)] view)
  next
    case (Unplaced r)
    have full: "saturating_sub (he_total_vcpus e) (he_used_vcpus e) = - 1"
      if "hosts ?reg k = Some e \<and> \<not> timed_out now ?reg e \<and> can_schedule (host_view (secs k) k e) ?q" for k e
    proof (rule ccontr)
      assume "saturating_sub (he_total_vcpus e) (he_used_vcpus e) \<noteq> - 1"
      then have seen: "free_vcpus (host_view (secs k) k e) \<noteq> - 1" by (simp add: view)
      have "host_view (secs k) k e \<in> set ?hs" using live that by blast
      from best_fit.complete [OF this _ seen, of ?q] that Unplaced show False by simp
    qed
    show ?thesis unfolding schedule_response_eq [OF d assms(2)] Unplaced using full by simp blast
  qed
qed

text \<open>A service with one host that has reported a heartbeat.\<close>

definition one_host_state :: scheduler_state where
  "one_host_state = (boot_state (\<lambda>x. x) 0)\<lparr>sch_registry :=
     upsert_host 0 1 sample_address 8 4096 default_host_registry\<rparr>"

lemma one_host:
  "hosts (sch_registry one_host_state) = [1 \<mapsto> \<lparr>he_address = sample_address, he_total_vcpus = 8,
     he_used_vcpus = 0, he_total_mem_mib = 4096, he_used_mem_mib = 0, he_sandbox_count = 0,
     he_last_heartbeat = 0, he_breaker = new_breaker\<rparr>]"
  "heartbeat_timeout_secs (sch_registry one_host_state) = 30"
  by (simp_all add: one_host_state_def upsert_host_def default_host_registry_def new_host_registry_def)

theorem schedule_sound_and_complete_witness:
  "case snd (schedule_handler 0 0 (\<lambda>_. 0) [1] sample_request one_host_state) of
     Returns (Inr (status, r)) \<Rightarrow> status = 200 \<and> srs_host_id r = 1 | _ \<Rightarrow> False"
proof -
  have it: "iterates [1] (hosts (sch_registry one_host_state))"
    by (simp add: iterates_def one_host)
  have none: "sr_region sample_request = None" by (simp add: sample_request_def)
  have fits: "can_schedule (host_view 0 1 \<lparr>he_address = sample_address, he_total_vcpus = 8,
     he_used_vcpus = 0, he_total_mem_mib = 4096, he_used_mem_mib = 0, he_sandbox_count = 0,
     he_last_heartbeat = 0, he_breaker = new_breaker\<rparr>)
     \<lparr>req_vcpus = sr_vcpus sample_request, req_mem_mib = sr_mem_mib sample_request\<rparr>"
    by (simp add: host_view_fits sample_request_def breaker_state_def new_breaker_def)
  have live: "\<not> timed_out 0 (sch_registry one_host_state) \<lparr>he_address = sample_address, he_total_vcpus = 8,
     he_used_vcpus = 0, he_total_mem_mib = 4096, he_used_mem_mib = 0, he_sandbox_count = 0,
     he_last_heartbeat = 0, he_breaker = new_breaker\<rparr>"
    by (simp add: timed_out_def num_seconds_def as_u64_def)
  show ?thesis
    using schedule_sound_and_complete [OF it none, of 0 "\<lambda>_. 0" 0] fits live
    by (auto simp: Let_def one_host saturating_sub_def split: outcome.splits sum.splits if_splits)
qed

lemma record_failures:
  assumes "registry_inv hr" "hosts hr h = Some e"
  shows "\<exists>e'. hosts (fold (\<lambda>t. host_record_failure t h) ts hr) h = Some e' \<and>
    he_breaker e' = fold (\<lambda>t. record_failure t) ts (he_breaker e)"
  using assms(2)
proof (induction ts arbitrary: hr e)
  case (Cons t ts)
  then have "hosts (host_record_failure t h hr) h = Some (e\<lparr>he_breaker := record_failure t (he_breaker e)\<rparr>)"
    by (simp add: host_record_failure_def)
  from Cons.IH [OF this] show ?case by simp
qed simp

lemma five_failures_open:
  assumes "breaker_inv b"
  shows "abs_of (fold (\<lambda>t. record_failure t) [t1, t2, t3, t4, t5] b) = AOpen t5"
proof -
  have "fold (\<lambda>t. record_failure t) ts b = fold breaker_step (map CallFailure ts) b" for ts b
    by (induction ts arbitrary: b) simp_all
  moreover have "abs_of (fold breaker_step es b) = fold abs_step es (abs_of b)" for es
    using abs_of_step assms by (rule breaker.run_simulation)
  moreover have "fold abs_step (map CallFailure [t1, t2, t3, t4, t5]) a = AOpen t5" for a
    by (cases a) auto
  ultimately show ?thesis by metis
qed

lemma open_reported:
  assumes "abs_of b = AOpen t" "unat now - unat t < 30"
  shows "snd (breaker_state now b) = Open"
proof -
  have "breaker_word b = 1" "opened_at b = t" using assms(1) by (auto simp: abs_of_def split: if_splits)
  then show ?thesis using assms(2) by (simp add: breaker_state_def open_time_up)
qed

lemma scheduled_host:
  assumes "distinct ks" "snd (schedule_handler now_record now secs ks req st) = Returns (Inr (status, r))"
  shows "\<exists>e. hosts (sch_registry st) (srs_host_id r) = Some e \<and>
    snd (breaker_state (secs (srs_host_id r)) (he_breaker e)) \<noteq> Open"
proof -
  let ?q = "\<lparr>req_vcpus = sr_vcpus req, req_mem_mib = sr_mem_mib req\<rparr>"
  have "snd (schedule_handler now_record now secs ks req st) =
      Returns (case snd (place_sandbox now secs ks ?q (sr_region req) (sch_regions st) (sch_registry st)) of
        Placed host \<Rightarrow> Inr (200, \<lparr>srs_host_id = hs_host_id host, srs_address = hs_address host,
          srs_free_vcpus = free_vcpus host, srs_free_mem_mib = free_mem_mib host\<rparr>)
      | Unplaced reason \<Rightarrow> Inl (503, ''no host available: '' @ show_reason reason))"
    by (simp add: schedule_handler_def place_sandbox_def split_def Let_def split: option.split)
  with assms(2) obtain h where h: "snd (place_sandbox now secs ks ?q (sr_region req) (sch_regions st)
      (sch_registry st)) = Placed h" "srs_host_id r = hs_host_id h"
    by (auto split: placement_decision.splits)
  from placed_candidate [OF assms(1) h(1) [unfolded place_sandbox_best_fit]]
  obtain k e where e: "hosts (sch_registry st) k = Some e" "h = host_view (secs k) k e"
    "can_schedule h ?q" by metis
  then have "hs_host_id h = k" by (simp add: host_view_def snapshot_of_def)
  then show ?thesis using e h(2) by (auto simp: host_view_fits)
qed

text \<open>
  C15. A host whose requests failed five times running is not chosen, by any request with or without
  a region, while the clock the breaker reads is less than 30 seconds past the last report, whatever
  state its breaker was in before. (A heartbeat in between counts as a success and would start the
  count again.)
\<close>

theorem failing_host_not_scheduled:
  assumes "scheduler_reachable rnd waits st" "distinct ks"
    and "st' = fold (\<lambda>t st. fst (report_failure_handler t h st)) [t1, t2, t3, t4, t5] st"
    and "unat (secs h) - unat t5 < 30"
    and "snd (schedule_handler now_record now secs ks req st') = Returns (Inr (status, r))"
  shows "srs_host_id r \<noteq> h"
proof
  assume r: "srs_host_id r = h"
  from scheduled_host [OF assms(2,5)] r obtain e where
    e: "hosts (sch_registry st') h = Some e" "snd (breaker_state (secs h) (he_breaker e)) \<noteq> Open" by auto
  have inv: "registry_inv (sch_registry st)"
    using scheduler_reachable_inv [OF assms(1)] by (simp add: scheduler_inv_def)
  have st': "sch_registry st' = fold (\<lambda>t. host_record_failure t h) [t1, t2, t3, t4, t5] (sch_registry st)"
    by (simp add: assms(3) report_failure_handler_def)
  show False
  proof (cases "hosts (sch_registry st) h")
    case None
    then have "hosts (sch_registry st') h = None" by (simp add: st' host_record_failure_def)
    with e show False by simp
  next
    case (Some e0)
    from record_failures [OF inv Some, of "[t1, t2, t3, t4, t5]"] e(1)
    have "he_breaker e = fold (\<lambda>t. record_failure t) [t1, t2, t3, t4, t5] (he_breaker e0)"
      unfolding st' by auto
    moreover have "breaker_inv (he_breaker e0)" using inv Some by (simp add: registry_inv_def)
    ultimately have "abs_of (he_breaker e) = AOpen t5" using five_failures_open by simp
    from open_reported [OF this assms(4)] e(2) show False by simp
  qed
qed

definition sample_heartbeat :: "uuid \<Rightarrow> heartbeat_request" where
  "sample_heartbeat k = \<lparr>hb_host_id = k, hb_address = sample_address, hb_total_vcpus = 8,
     hb_total_mem_mib = 4096, hb_used_vcpus = 0, hb_used_mem_mib = 0, hb_sandbox_count = 0\<rparr>"

definition two_host_state :: scheduler_state where
  "two_host_state = fst (heartbeat_handler True 0 0 (sample_heartbeat 2)
     (fst (heartbeat_handler True 0 0 (sample_heartbeat 1) (boot_state (\<lambda>x. x) 0))))"

lemma two_host_reachable: "scheduler_reachable (\<lambda>x. x) (=) two_host_state"
proof -
  have "scheduler_reachable (\<lambda>x. x) (=)
      (fst (heartbeat_handler True 0 0 (sample_heartbeat 1) (boot_state (\<lambda>x. x) 0)))"
    using scheduler_reachable.Call [OF scheduler_reachable.Boot, of "PostHeartbeat True 0 0 (sample_heartbeat 1)"]
    by simp
  from scheduler_reachable.Call [OF this, of "PostHeartbeat True 0 0 (sample_heartbeat 2)"]
  show ?thesis by (simp add: two_host_state_def)
qed

definition sample_entry :: "circuit_breaker \<Rightarrow> host_entry" where
  "sample_entry b = \<lparr>he_address = sample_address, he_total_vcpus = 8, he_used_vcpus = 0,
     he_total_mem_mib = 4096, he_used_mem_mib = 0, he_sandbox_count = 0, he_last_heartbeat = 0,
     he_breaker = b\<rparr>"

lemma two_hosts:
  "sch_registry two_host_state = \<lparr>hosts = [1 \<mapsto> sample_entry new_breaker, 2 \<mapsto> sample_entry new_breaker],
     heartbeat_timeout_secs = 30\<rparr>"
  by (simp add: two_host_state_def heartbeat_handler_def heartbeat_def upsert_host_def boot_state_def
      default_host_registry_def new_host_registry_def sample_heartbeat_def sample_entry_def
      record_success_def new_breaker_def sub_u32_def split_def Let_def)

theorem failing_host_not_scheduled_witness:
  "\<exists>r. snd (schedule_handler 0 0 (\<lambda>_. 29) [1, 2] sample_request
       (fold (\<lambda>t st. fst (report_failure_handler t 1 st)) [0, 0, 0, 0, 0] two_host_state)) =
     Returns (Inr (200, r)) \<and> srs_host_id r \<noteq> 1"
proof -
  let ?st = "fold (\<lambda>t st. fst (report_failure_handler t 1 st)) [0, 0, 0, 0, 0] two_host_state"
  have reg: "sch_registry ?st = \<lparr>hosts = [2 \<mapsto> sample_entry new_breaker,
      1 \<mapsto> sample_entry \<lparr>failures = 5, successes = 0, opened_at = 0, breaker_word = 1\<rparr>],
      heartbeat_timeout_secs = 30\<rparr>"
    by (simp add: report_failure_handler_def two_hosts host_record_failure_def record_failure_def
        new_breaker_def trip_def sample_entry_def FAILURE_THRESHOLD_def fun_upd_twist Let_def
        word_le_nat_alt)
  have live: "values_in [1, 2] (live_view 0 (\<lambda>_. 29) (sch_registry ?st)) =
      [host_view 29 1 (sample_entry \<lparr>failures = 5, successes = 0, opened_at = 0, breaker_word = 1\<rparr>),
       host_view 29 2 (sample_entry new_breaker)]"
    unfolding reg by (simp add: live_view_def timed_out_def sample_entry_def num_seconds_def as_u64_def)
  have none: "sr_region sample_request = None" by (simp add: sample_request_def)
  let ?q = "\<lparr>req_vcpus = sr_vcpus sample_request, req_mem_mib = sr_mem_mib sample_request\<rparr>"
  have c1: "\<not> can_schedule (host_view 29 1 (sample_entry
      \<lparr>failures = 5, successes = 0, opened_at = 0, breaker_word = 1\<rparr>)) ?q"
    by (simp add: host_view_fits sample_entry_def breaker_state_def OPEN_DURATION_SECS_def)
  have c2: "can_schedule (host_view 29 2 (sample_entry new_breaker)) ?q"
    by (simp add: host_view_fits sample_entry_def breaker_state_def new_breaker_def sample_request_def)
  have free: "free_vcpus (host_view 29 2 (sample_entry new_breaker)) = 8"
    by (simp add: free_vcpus_def host_view_def snapshot_of_def sample_entry_def)
  have d: "distinct [1 :: uuid, 2]" by simp
  have "\<exists>r. snd (schedule_handler 0 0 (\<lambda>_. 29) [1, 2] sample_request ?st) = Returns (Inr (200, r))"
    unfolding schedule_response_eq [OF d none] live
    by (simp add: best_fit_place_def c1 c2 free decide_def word_less_nat_alt
        unsigned_minus_1_eq_mask mask_eq_exp_minus_1)
  then obtain r where "snd (schedule_handler 0 0 (\<lambda>_. 29) [1, 2] sample_request ?st) = Returns (Inr (200, r))"
    by blast
  moreover from failing_host_not_scheduled [OF two_host_reachable _ refl _ this] have "srs_host_id r \<noteq> 1"
    by simp
  ultimately show ?thesis by blast
qed

section \<open>Redirects\<close>

lemma get_record_cases:
  "get_record waits i mid orch \<noteq> Panics" by (simp add: get_record_def)

lemma no_redirect_step:
  assumes "reachable waits (sch_orchestrator st)" "\<And>k. waits k k"
  shows "sch_redirects (scheduler_step rnd waits c st) = sch_redirects st"
proof (cases c)
  case (PostMigration now i t secs ks mid req now' i' i'')
  have "sch_redirects (fst (start_migration_handler waits now i t secs ks mid req now' i' i'' st)) =
      sch_redirects st"
    by (simp add: start_migration_handler_def split_def Let_def split: outcome.split sum.split)
  then show ?thesis unfolding PostMigration by simp
next
  case (PostAdvance now i i' t i'' mid)
  have "snd (advance waits now i mid (sch_orchestrator st)) \<noteq> Returns (Inr Complete)"
    using never_settles [OF assms, of now i mid] by (auto simp: settled_def)
  then show ?thesis unfolding PostAdvance
    by (auto simp: advance_migration_handler_def split_def Let_def split: outcome.split sum.split)
qed (simp_all add: heartbeat_handler_def schedule_handler_def fleet_handler_def host_handler_def
    report_failure_handler_def decommission_handler_def prewarm_handler_def
    rollback_migration_handler_def list_regions_handler_def get_region_handler_def
    split_def Let_def split: outcome.split sum.split)

lemma no_redirects:
  assumes "scheduler_reachable rnd waits st" "\<And>k. waits k k"
  shows "redirects (sch_redirects st) = Map.empty"
  using assms(1)
proof (induction rule: scheduler_reachable.induct)
  case (Boot now)
  then show ?case by (simp add: boot_state_def new_redirect_table_def)
next
  case (Call st c)
  then show ?case
    using no_redirect_step [of waits st rnd c] scheduler_reachable_inv [OF Call(1)] assms(2)
    by (simp add: scheduler_inv_def)
qed

text \<open>
  As the code is written, no sandbox is ever redirected: where the map makes a call for a key
  wait for a guard on that key, \<open>/redirects\<close> answers 404 for every sandbox in every state the
  service can reach, and the list of completed migrations is empty.
\<close>

theorem redirects_never_found:
  assumes "scheduler_reachable rnd waits st" "\<And>k. waits k k"
  shows "redirect_handler now sandbox st = Returns (Inl (404, ())) \<and>
    completed_migrations_handler i ks st = []"
proof -
  have "completed (sch_orchestrator st) = Map.empty"
    using reachable_locked [of waits "sch_orchestrator st"] scheduler_reachable_inv [OF assms(1)] assms(2)
    by (simp add: scheduler_inv_def)
  moreover have "values_in ks Map.empty = []" by (induction ks) simp_all
  ultimately show ?thesis
    using no_redirects [OF assms]
    by (simp add: redirect_handler_def get_redirect_def completed_migrations_handler_def
        completed_migrations_def)
qed

theorem redirects_never_found_witness:
  "redirect_handler 0 5 (fst (advance_migration_handler (=) 0 0 0 0 0 3 (boot_state (\<lambda>x. x) 0))) =
   Returns (Inl (404, ()))"
proof -
  have "scheduler_reachable (\<lambda>x. x) (=)
      (fst (advance_migration_handler (=) 0 0 0 0 0 3 (boot_state (\<lambda>x. x) 0)))"
    using scheduler_reachable.Call [OF scheduler_reachable.Boot, of "PostAdvance 0 0 0 0 0 3"] by simp
  from redirects_never_found [OF this] show ?thesis by simp
qed

end
