(* ===== verification/Egress.thy ===== *)
theory Egress
  imports Prelude
begin

text \<open>
  Outbound traffic of a sandbox (\<open>akssora-core/src/egress_proxy.rs\<close>): the allow-list and its check,
  patterns of hosts and address ranges, the configuration of the proxy, network policies and their
  stores. A string is a list of characters; the addresses are printed and parsed as the standard
  library does. Where an arithmetic overflow can occur the argument \<open>ovf\<close> says that the build checks
  for it.
\<close>

section \<open>Text of addresses and numbers\<close>

definition digit_val :: "char \<Rightarrow> nat" where
  "digit_val c = of_char c - 48"

definition is_digit :: "char \<Rightarrow> bool" where
  "is_digit c \<longleftrightarrow> 48 \<le> (of_char c :: nat) \<and> (of_char c :: nat) \<le> 57"

definition digits_val :: "string \<Rightarrow> nat" where
  "digits_val s = foldl (\<lambda>n c. 10 * n + digit_val c) 0 s"

text \<open>\<open>str::parse::<u32>\<close>: an optional plus, then digits, below \<open>2 ^ 32\<close>.\<close>

definition parse_u32 :: "string \<Rightarrow> u32 option" where
  "parse_u32 s =
     (let ds = (case s of c # cs \<Rightarrow> if c = CHR ''+'' then cs else s | [] \<Rightarrow> s)
      in if ds \<noteq> [] \<and> list_all is_digit ds \<and> digits_val ds < 2 ^ 32
         then Some (of_nat (digits_val ds)) else None)"

text \<open>An octet of an IPv4 address: one to three digits, no leading zero, at most 255.\<close>

definition parse_octet :: "string \<Rightarrow> nat option" where
  "parse_octet s =
     (if s \<noteq> [] \<and> length s \<le> 3 \<and> list_all is_digit s \<and> (hd s = CHR ''0'' \<longrightarrow> length s = 1) \<and>
         digits_val s < 256
      then Some (digits_val s) else None)"

definition ipv4 :: "nat \<Rightarrow> nat \<Rightarrow> nat \<Rightarrow> nat \<Rightarrow> u32" where
  "ipv4 a b c d = of_nat (((a * 256 + b) * 256 + c) * 256 + d)"

definition parse_ipv4 :: "string \<Rightarrow> u32 option" where
  "parse_ipv4 s =
     (case map parse_octet (split_on CHR ''.'' s) of
        [Some a, Some b, Some c, Some d] \<Rightarrow> Some (ipv4 a b c d)
      | _ \<Rightarrow> None)"

definition octet :: "nat \<Rightarrow> u32 \<Rightarrow> nat" where
  "octet i a = unat a div 256 ^ (3 - i) mod 256"

definition show_ipv4 :: "u32 \<Rightarrow> string" where
  "show_ipv4 a = join_with ''.'' (map (\<lambda>i. show_nat (octet i a)) [0, 1, 2, 3])"

text \<open>The \<open>Display\<close> of an IPv6 address: segments in hexadecimal, the first longest run of two or
  more zero segments as \<open>::\<close>, an address mapped from IPv4 in its own form.\<close>

definition hex_char :: "nat \<Rightarrow> char" where
  "hex_char d = char_of (if d < 10 then 48 + d else 87 + d)"

fun show_hex :: "nat \<Rightarrow> string" where
  "show_hex n = (if n < 16 then [hex_char n] else show_hex (n div 16) @ [hex_char (n mod 16)])"

declare show_hex.simps [simp del]

definition segments :: "uuid \<Rightarrow> nat list" where
  "segments a = map (\<lambda>i. unat a div 65536 ^ (7 - i) mod 65536) [0..<8]"

definition zero_run :: "nat list \<Rightarrow> nat \<Rightarrow> nat" where
  "zero_run ss i = length (takeWhile (\<lambda>x. x = 0) (drop i ss))"

definition longest_zeros :: "nat list \<Rightarrow> nat \<times> nat" where
  "longest_zeros ss =
     foldl (\<lambda>(i, n) j. if n < zero_run ss j then (j, zero_run ss j) else (i, n)) (0, 0)
       [0..<length ss]"

definition show_ipv6 :: "uuid \<Rightarrow> string" where
  "show_ipv6 a =
     (let ss = segments a; (i, n) = longest_zeros ss
      in if take 5 ss = replicate 5 0 \<and> ss ! 5 = 65535
         then ''::ffff:'' @ show_ipv4 (of_nat (unat a mod 2 ^ 32))
         else if 1 < n
         then join_with '':'' (map show_hex (take i ss)) @ ''::'' @
              join_with '':'' (map show_hex (drop (i + n) ss))
         else join_with '':'' (map show_hex ss))"

fun show_ip :: "ip_addr \<Rightarrow> string" where
  "show_ip (V4 a) = show_ipv4 a"
| "show_ip (V6 a) = show_ipv6 a"

section \<open>Allow-lists\<close>

datatype protocol = Tcp | Udp | Http | Https

record egress_target =
  et_host :: string
  et_port :: "u16 option"
  et_protocol :: "protocol option"

definition target_domain_port :: "string \<Rightarrow> u16 \<Rightarrow> egress_target" where
  "target_domain_port d p = \<lparr>et_host = d, et_port = Some p, et_protocol = None\<rparr>"

definition target_https :: "string \<Rightarrow> egress_target" where
  "target_https d = \<lparr>et_host = d, et_port = Some 443, et_protocol = Some Https\<rparr>"

definition target_http :: "string \<Rightarrow> egress_target" where
  "target_http d = \<lparr>et_host = d, et_port = Some 80, et_protocol = Some Http\<rparr>"

definition target_ip :: "u32 \<Rightarrow> egress_target" where
  "target_ip a = \<lparr>et_host = show_ipv4 a, et_port = None, et_protocol = None\<rparr>"

definition target_cidr :: "string \<Rightarrow> egress_target" where
  "target_cidr r = \<lparr>et_host = r, et_port = None, et_protocol = None\<rparr>"

definition target_all :: egress_target where
  "target_all = \<lparr>et_host = ''*'', et_port = None, et_protocol = None\<rparr>"

definition show_target :: "egress_target \<Rightarrow> string" where
  "show_target t =
     (case et_port t of Some p \<Rightarrow> et_host t @ '':'' @ show_nat (unat p) | None \<Rightarrow> et_host t)"

record egress_allowlist =
  al_targets :: "egress_target list"
  al_dns_allowed :: bool
  al_max_connections :: u32
  al_max_bandwidth_bps :: u64
  al_dns_servers :: "socket_addr list"

definition deny_all_list :: egress_allowlist where
  "deny_all_list = \<lparr>al_targets = [], al_dns_allowed = False, al_max_connections = 0,
     al_max_bandwidth_bps = 0, al_dns_servers = []\<rparr>"

definition dns_only :: "socket_addr list \<Rightarrow> egress_allowlist" where
  "dns_only servers = \<lparr>al_targets = [], al_dns_allowed = True, al_max_connections = 10,
     al_max_bandwidth_bps = 0, al_dns_servers = servers\<rparr>"

definition with_target :: "egress_target \<Rightarrow> egress_allowlist \<Rightarrow> egress_allowlist" where
  "with_target t al = al\<lparr>al_targets := al_targets al @ [t]\<rparr>"

definition with_targets :: "egress_target list \<Rightarrow> egress_allowlist \<Rightarrow> egress_allowlist" where
  "with_targets ts al = al\<lparr>al_targets := al_targets al @ ts\<rparr>"

definition with_dns :: "socket_addr list \<Rightarrow> egress_allowlist \<Rightarrow> egress_allowlist" where
  "with_dns servers al = al\<lparr>al_dns_allowed := True, al_dns_servers := servers\<rparr>"

definition with_max_connections :: "u32 \<Rightarrow> egress_allowlist \<Rightarrow> egress_allowlist" where
  "with_max_connections n al = al\<lparr>al_max_connections := n\<rparr>"

definition with_max_bandwidth :: "u64 \<Rightarrow> egress_allowlist \<Rightarrow> egress_allowlist" where
  "with_max_bandwidth n al = al\<lparr>al_max_bandwidth_bps := n\<rparr>"

definition allowlist_is_empty :: "egress_allowlist \<Rightarrow> bool" where
  "allowlist_is_empty al \<longleftrightarrow> al_targets al = []"

definition target_count :: "egress_allowlist \<Rightarrow> nat" where
  "target_count al = length (al_targets al)"

datatype egress_decision =
    Allowed
  | DeniedNoMatch
  | DeniedWrongPort
  | DeniedProtocol
  | DeniedConnectionLimit
  | DeniedDns

fun is_allowed :: "egress_decision \<Rightarrow> bool" where
  "is_allowed Allowed = True"
| "is_allowed _ = False"

section \<open>The check\<close>

definition parse_cidr :: "string \<Rightarrow> (u32 \<times> u32) option" where
  "parse_cidr cidr =
     (case split_on CHR ''/'' cidr of
        [n, p] \<Rightarrow>
          (case parse_ipv4 n of
             None \<Rightarrow> None
           | Some network \<Rightarrow>
               (case parse_u32 p of None \<Rightarrow> None | Some plen \<Rightarrow> Some (network, plen)))
      | _ \<Rightarrow> None)"

text \<open>\<open>u32::MAX << (32 - prefix)\<close>: with a prefix above 32 the subtraction overflows; unchecked, it
  wraps and the shift uses the low five bits of the result.\<close>

definition cidr_contains :: "bool \<Rightarrow> u32 \<Rightarrow> u32 \<Rightarrow> u32 \<Rightarrow> bool outcome" where
  "cidr_contains ovf network plen ip =
     (if plen = 0 then Returns (network AND 0 = ip AND 0)
      else if ovf \<and> 32 < plen then Panics
      else (let mask = push_bit (unat (32 - plen) mod 32) (- 1)
            in Returns (network AND mask = ip AND mask)))"

definition ends_with :: "string \<Rightarrow> string \<Rightarrow> bool" where
  "ends_with s t \<longleftrightarrow> suffix t s"

definition matches_host_or_cidr :: "bool \<Rightarrow> string \<Rightarrow> string \<Rightarrow> bool outcome" where
  "matches_host_or_cidr ovf host pattern =
     (if host = pattern then Returns True
      else if (case pattern of
                 CHR ''*'' # CHR ''.'' # domain \<Rightarrow>
                   host = domain \<or> ends_with host (CHR ''.'' # domain) \<or> ends_with host domain
               | _ \<Rightarrow> False)
      then Returns True
      else if CHR ''/'' \<in> set pattern
      then (case (parse_ipv4 host, parse_cidr pattern) of
              (Some ip, Some (network, plen)) \<Rightarrow> cidr_contains ovf network plen ip
            | _ \<Rightarrow> Returns False)
      else Returns False)"

fun dns_server_allowed :: "bool \<Rightarrow> string \<Rightarrow> u16 \<Rightarrow> socket_addr list \<Rightarrow> bool outcome" where
  "dns_server_allowed ovf host port [] = Returns False"
| "dns_server_allowed ovf host port (a # as) =
     (case matches_host_or_cidr ovf host (show_ip (sa_ip a)) of
        Returns m \<Rightarrow> if m \<and> port = sa_port a then Returns True else dns_server_allowed ovf host port as
      | Panics \<Rightarrow> Panics
      | Blocks \<Rightarrow> Blocks)"

definition port_matches :: "u16 option \<Rightarrow> u16 \<Rightarrow> bool" where
  "port_matches p port = (case p of None \<Rightarrow> True | Some q \<Rightarrow> q = port)"

fun check_targets :: "bool \<Rightarrow> string \<Rightarrow> u16 \<Rightarrow> egress_target list \<Rightarrow> bool \<Rightarrow> egress_decision outcome" where
  "check_targets ovf host port [] host_matched =
     Returns (if host_matched then DeniedWrongPort else DeniedNoMatch)"
| "check_targets ovf host port (t # ts) host_matched =
     (if et_host t = ''*'' then
        (if port_matches (et_port t) port then Returns Allowed
         else check_targets ovf host port ts host_matched)
      else (case matches_host_or_cidr ovf host (et_host t) of
              Returns m \<Rightarrow>
                if m then
                  (case et_port t of
                     Some p \<Rightarrow> if p = port then Returns Allowed else check_targets ovf host port ts True
                   | None \<Rightarrow> Returns Allowed)
                else check_targets ovf host port ts host_matched
            | Panics \<Rightarrow> Panics
            | Blocks \<Rightarrow> Blocks))"

definition check_egress ::
    "bool \<Rightarrow> egress_allowlist \<Rightarrow> string \<Rightarrow> u16 \<Rightarrow> bool \<Rightarrow> u32 \<Rightarrow> egress_decision outcome" where
  "check_egress ovf al host port is_dns active_connections =
     (if is_dns then
        (if \<not> al_dns_allowed al then Returns DeniedDns
         else (case dns_server_allowed ovf host port (al_dns_servers al) of
                 Returns ok \<Rightarrow>
                   if \<not> ok \<and> al_dns_servers al \<noteq> [] then Returns DeniedDns else Returns Allowed
               | Panics \<Rightarrow> Panics
               | Blocks \<Rightarrow> Blocks))
      else if 0 < al_max_connections al \<and> al_max_connections al \<le> active_connections
      then Returns DeniedConnectionLimit
      else if al_targets al = [] then Returns DeniedNoMatch
      else check_targets ovf host port (al_targets al) False)"

section \<open>The configuration of the proxy\<close>

text \<open>Durations in seconds.\<close>

record egress_proxy_config =
  pc_sandbox_id :: uuid
  pc_allowlist :: egress_allowlist
  pc_listen_addr :: socket_addr
  pc_audit_logging :: bool
  pc_max_audit_body_size :: nat
  pc_connect_timeout :: u64
  pc_idle_timeout :: u64

definition hex_val :: "char \<Rightarrow> nat option" where
  "hex_val c =
     (let n = (of_char c :: nat)
      in if 48 \<le> n \<and> n \<le> 57 then Some (n - 48)
         else if 97 \<le> n \<and> n \<le> 102 then Some (n - 87)
         else if 65 \<le> n \<and> n \<le> 70 then Some (n - 55)
         else None)"

text \<open>\<open>u8::from_str_radix(s, 16)\<close> of a string of one or two characters.\<close>

fun parse_hex_u8 :: "string \<Rightarrow> nat option" where
  "parse_hex_u8 [c] = hex_val c"
| "parse_hex_u8 [c, d] =
     (case hex_val d of
        None \<Rightarrow> None
      | Some y \<Rightarrow> if c = CHR ''+'' then Some y
                  else (case hex_val c of None \<Rightarrow> None | Some x \<Rightarrow> Some (16 * x + y)))"
| "parse_hex_u8 _ = None"

fun chunks2 :: "'a list \<Rightarrow> 'a list list" where
  "chunks2 (x # y # zs) = [x, y] # chunks2 zs"
| "chunks2 [x] = [[x]]"
| "chunks2 [] = []"

text \<open>The text of the identifier is the parameter \<open>show_uuid\<close>; slicing off its first eight characters
  panics when it is shorter.\<close>

definition proxy_listen_addr :: "nat list \<Rightarrow> socket_addr" where
  "proxy_listen_addr octets =
     (if 2 \<le> length octets
      then \<lparr>sa_ip = V4 (ipv4 172 16 (octets ! 0 mod 16) (octets ! 1 mod 254 + 1)), sa_port = 3128\<rparr>
      else \<lparr>sa_ip = V4 (ipv4 172 16 0 1), sa_port = 3128\<rparr>)"

definition new_proxy_config ::
    "(uuid \<Rightarrow> string) \<Rightarrow> uuid \<Rightarrow> egress_allowlist \<Rightarrow> egress_proxy_config outcome" where
  "new_proxy_config show_uuid sandbox_id al =
     (if length (show_uuid sandbox_id) < 8 then Panics
      else (let short_id = take 8 (show_uuid sandbox_id);
                octets = List.map_filter parse_hex_u8 (chunks2 short_id)
            in Returns \<lparr>pc_sandbox_id = sandbox_id, pc_allowlist = al,
                 pc_listen_addr = proxy_listen_addr octets, pc_audit_logging = True,
                 pc_max_audit_body_size = 1024, pc_connect_timeout = 10, pc_idle_timeout = 300\<rparr>))"

definition with_audit_logging :: "bool \<Rightarrow> egress_proxy_config \<Rightarrow> egress_proxy_config" where
  "with_audit_logging b c = c\<lparr>pc_audit_logging := b\<rparr>"

definition with_connect_timeout :: "u64 \<Rightarrow> egress_proxy_config \<Rightarrow> egress_proxy_config" where
  "with_connect_timeout t c = c\<lparr>pc_connect_timeout := t\<rparr>"

record egress_audit_entry =
  ae_timestamp :: datetime
  ae_sandbox_id :: uuid
  ae_target_host :: string
  ae_target_port :: u16
  ae_decision :: egress_decision
  ae_bytes_forwarded :: u64
  ae_duration_ms :: u64

section \<open>The manager of the proxies\<close>

record egress_manager =
  configs :: "uuid \<rightharpoonup> egress_proxy_config"

datatype egress_error = SandboxNotFound uuid | PolicyNotFound uuid | UpdateFailed string

definition new_egress_manager :: egress_manager where
  "new_egress_manager = \<lparr>configs = Map.empty\<rparr>"

definition register_proxy :: "egress_proxy_config \<Rightarrow> egress_manager \<Rightarrow> egress_manager" where
  "register_proxy c em = em\<lparr>configs := (configs em)(pc_sandbox_id c \<mapsto> c)\<rparr>"

definition unregister_proxy :: "uuid \<Rightarrow> egress_manager \<Rightarrow> egress_manager \<times> egress_proxy_config option" where
  "unregister_proxy k em = (em\<lparr>configs := (configs em)(k := None)\<rparr>, configs em k)"

definition update_allowlist ::
    "uuid \<Rightarrow> egress_allowlist \<Rightarrow> egress_manager \<Rightarrow> egress_manager \<times> (egress_error + unit)" where
  "update_allowlist k al em =
     (case configs em k of
        Some c \<Rightarrow> (em\<lparr>configs := (configs em)(k \<mapsto> c\<lparr>pc_allowlist := al\<rparr>)\<rparr>, Inr ())
      | None \<Rightarrow> (em, Inl (SandboxNotFound k)))"

definition get_proxy_config :: "uuid \<Rightarrow> egress_manager \<Rightarrow> egress_proxy_config option" where
  "get_proxy_config k em = configs em k"

definition manager_check_egress ::
    "bool \<Rightarrow> uuid \<Rightarrow> string \<Rightarrow> u16 \<Rightarrow> bool \<Rightarrow> u32 \<Rightarrow> egress_manager \<Rightarrow> egress_decision outcome" where
  "manager_check_egress ovf k host port is_dns active_connections em =
     (case configs em k of
        Some c \<Rightarrow> check_egress ovf (pc_allowlist c) host port is_dns active_connections
      | None \<Rightarrow> Returns DeniedNoMatch)"

definition list_proxies :: "uuid list \<Rightarrow> egress_manager \<Rightarrow> uuid list" where
  "list_proxies ks em = filter (\<lambda>k. configs em k \<noteq> None) ks"

definition proxy_count :: "egress_manager \<Rightarrow> nat" where
  "proxy_count em = card (dom (configs em))"

interpretation proxy_store: keyed_store
  configs register_proxy "\<lambda>k em. fst (unregister_proxy k em)" pc_sandbox_id "\<lambda>c. c"
  by unfold_locales (auto simp: register_proxy_def unregister_proxy_def)

section \<open>Network policies\<close>

datatype network_policy_mode = AllowAll | DenyAll | Custom

record header_injection =
  hi_name :: string
  hi_value :: string

record egress_rule =
  er_host_pattern :: string
  er_port :: "u16 option"
  er_inject_headers :: "header_injection list"
  er_forward_url :: "string option"
  er_mirror :: bool

record network_policy =
  np_sandbox_id :: uuid
  np_mode :: network_policy_mode
  np_rules :: "egress_rule list"
  np_allowlist :: egress_allowlist
  np_updated_at :: datetime

definition policy_deny_all :: "datetime \<Rightarrow> uuid \<Rightarrow> network_policy" where
  "policy_deny_all now k = \<lparr>np_sandbox_id = k, np_mode = DenyAll, np_rules = [],
     np_allowlist = deny_all_list, np_updated_at = now\<rparr>"

definition policy_allow_all :: "datetime \<Rightarrow> uuid \<Rightarrow> network_policy" where
  "policy_allow_all now k = \<lparr>np_sandbox_id = k, np_mode = AllowAll, np_rules = [],
     np_allowlist = with_target target_all deny_all_list, np_updated_at = now\<rparr>"

definition policy_custom :: "datetime \<Rightarrow> uuid \<Rightarrow> egress_rule list \<Rightarrow> network_policy" where
  "policy_custom now k rules = \<lparr>np_sandbox_id = k, np_mode = Custom, np_rules = rules,
     np_allowlist = deny_all_list, np_updated_at = now\<rparr>"

definition default_policy :: "datetime \<Rightarrow> network_policy" where
  "default_policy now = policy_deny_all now 0"

datatype policy_decision = PolicyAllowed "egress_rule option" | PolicyDenied

fun first_rule :: "bool \<Rightarrow> string \<Rightarrow> u16 \<Rightarrow> egress_rule list \<Rightarrow> egress_rule option outcome" where
  "first_rule ovf host port [] = Returns None"
| "first_rule ovf host port (r # rs) =
     (case matches_host_or_cidr ovf host (er_host_pattern r) of
        Returns m \<Rightarrow> if m \<and> port_matches (er_port r) port then Returns (Some r)
                     else first_rule ovf host port rs
      | Panics \<Rightarrow> Panics
      | Blocks \<Rightarrow> Blocks)"

definition check_target :: "bool \<Rightarrow> string \<Rightarrow> u16 \<Rightarrow> network_policy \<Rightarrow> policy_decision outcome" where
  "check_target ovf host port p =
     (case np_mode p of
        AllowAll \<Rightarrow> Returns (PolicyAllowed None)
      | DenyAll \<Rightarrow> Returns PolicyDenied
      | Custom \<Rightarrow>
          (case first_rule ovf host port (np_rules p) of
             Returns (Some r) \<Rightarrow> Returns (PolicyAllowed (Some r))
           | Returns None \<Rightarrow>
               map_outcome_val (\<lambda>d. if is_allowed d then PolicyAllowed None else PolicyDenied)
                 (check_egress ovf (np_allowlist p) host port False 0)
           | Panics \<Rightarrow> Panics
           | Blocks \<Rightarrow> Blocks))"

record policy_store =
  policies :: "uuid \<rightharpoonup> network_policy"

definition new_policy_store :: policy_store where
  "new_policy_store = \<lparr>policies = Map.empty\<rparr>"

definition get_policy :: "uuid \<Rightarrow> policy_store \<Rightarrow> network_policy option" where
  "get_policy k ps = policies ps k"

definition update_policy :: "network_policy \<Rightarrow> policy_store \<Rightarrow> policy_store" where
  "update_policy p ps = ps\<lparr>policies := (policies ps)(np_sandbox_id p \<mapsto> p)\<rparr>"

definition remove_policy :: "uuid \<Rightarrow> policy_store \<Rightarrow> policy_store \<times> network_policy option" where
  "remove_policy k ps = (ps\<lparr>policies := (policies ps)(k := None)\<rparr>, policies ps k)"

definition list_policies :: "uuid list \<Rightarrow> policy_store \<Rightarrow> uuid list" where
  "list_policies ks ps = filter (\<lambda>k. policies ps k \<noteq> None) ks"

definition policy_count :: "policy_store \<Rightarrow> nat" where
  "policy_count ps = card (dom (policies ps))"

interpretation policy_records: keyed_store
  "\<lambda>ps k. get_policy k ps" update_policy "\<lambda>k ps. fst (remove_policy k ps)" np_sandbox_id "\<lambda>p. p"
  by unfold_locales (auto simp: get_policy_def update_policy_def remove_policy_def)

text \<open>The firewall rules that force the traffic of a sandbox through the proxy, line by line.\<close>

definition generate_proxy_egress_rules ::
    "(uuid \<Rightarrow> string) \<Rightarrow> uuid \<Rightarrow> string \<Rightarrow> socket_addr \<Rightarrow> string outcome" where
  "generate_proxy_egress_rules show_uuid sandbox_id tap_device proxy_addr =
     (if length (show_uuid sandbox_id) < 8 then Panics
      else (let table_name = ''akssora_egress_'' @ take 8 (show_uuid sandbox_id);
                proxy_ip = show_ip (sa_ip proxy_addr);
                proxy_port = show_nat (unat (sa_port proxy_addr))
            in Returns (join_with [CHR 0x0A]
              [''table inet '' @ table_name @ '' {'',
               ''    chain egress {'',
               ''        type filter hook output priority mangle; policy drop;'',
               [],
               ''        # Allow loopback'',
               ''        oifname '' @ [CHR 0x22] @ ''lo'' @ [CHR 0x22] @ '' accept'',
               [],
               ''        # Allow traffic TO the proxy (for sandbox-internal proxy routing)'',
               ''        ip daddr '' @ proxy_ip @ '' tcp dport '' @ proxy_port @ '' accept'',
               [],
               ''        # Allow DNS if going through the proxy'',
               ''        # (DNS queries to the proxy are allowed; direct DNS is blocked)'',
               [],
               ''        # Allow established connections back from the proxy'',
               ''        ct state established,related accept'',
               [],
               ''        # Drop all other outbound traffic from the sandbox'',
               ''        iifname '' @ [CHR 0x22] @ tap_device @ [CHR 0x22] @ '' drop'',
               ''    }'',
               ''}''])))"

section \<open>Printing and parsing addresses\<close>

lemma digit_char_code: "d < 10 \<Longrightarrow> (of_char (digit_char d) :: nat) = 48 + d"
  by (simp add: digit_char_def)

lemma digits_val_snoc: "digits_val (s @ [c]) = 10 * digits_val s + digit_val c"
  by (simp add: digits_val_def)

lemma show_nat_digits: "list_all is_digit (show_nat n) \<and> digits_val (show_nat n) = n \<and> show_nat n \<noteq> []"
proof (induction n rule: show_nat.induct)
  case (1 n)
  show ?case
  proof (cases "n < 10")
    case True
    then show ?thesis
      by (simp add: show_nat.simps [of n] digits_val_def digit_val_def is_digit_def digit_char_code)
  next
    case False
    moreover have "n mod 10 < 10" by simp
    ultimately show ?thesis using 1
      by (simp add: show_nat.simps [of n] digits_val_snoc digit_val_def is_digit_def digit_char_code)
  qed
qed

lemma show_nat_head: "hd (show_nat n) = CHR ''0'' \<Longrightarrow> n = 0"
proof (induction n rule: show_nat.induct)
  case (1 n)
  show ?case
  proof (cases "n < 10")
    case True
    then have "digit_char n = CHR ''0''" using 1(2) by (simp add: show_nat.simps [of n])
    then have "(of_char (digit_char n) :: nat) = 48" by simp
    with True show ?thesis by (simp add: digit_char_code)
  next
    case False
    then have "hd (show_nat (n div 10)) = CHR ''0''"
      using 1(2) show_nat_digits [of "n div 10"] by (simp add: show_nat.simps [of n])
    with 1(1) False have "n div 10 = 0" by simp
    with False show ?thesis by simp
  qed
qed

lemma show_nat_length: "n < 1000 \<Longrightarrow> length (show_nat n) \<le> 3"
  by (simp add: show_nat.simps [of n] show_nat.simps [of "n div 10"] show_nat.simps [of "n div 10 div 10"])

lemma parse_show_octet: "n < 256 \<Longrightarrow> parse_octet (show_nat n) = Some n"
  using show_nat_digits [of n] show_nat_head [of n] show_nat_length [of n]
  by (auto simp: parse_octet_def show_nat.simps [of 0])

lemma show_nat_no_dot: "CHR ''.'' \<notin> set (show_nat n)"
  using show_nat_digits [of n] by (auto simp: list_all_iff is_digit_def)

lemma octet_less: "octet i a < 256"
  by (simp add: octet_def)

lemma ipv4_octets: "ipv4 (octet 0 a) (octet 1 a) (octet 2 a) (octet 3 a) = a"
proof -
  define n where "n = unat a"
  have "n < 2 ^ 32" using unsigned_less [of a] by (simp add: n_def)
  then have d: "n div 16777216 mod 256 = n div 16777216" by simp
  have "n div 16777216 = n div 65536 div 256" "n div 65536 = n div 256 div 256"
    by (simp_all flip: div_mult2_eq)
  then have "((n div 16777216 * 256 + n div 65536 mod 256) * 256 + n div 256 mod 256) * 256 + n mod 256 = n"
    by (simp only: div_mult_mod_eq)
  then show ?thesis using d by (simp add: ipv4_def octet_def n_def)
qed

lemma parse_show_ipv4: "parse_ipv4 (show_ipv4 a) = Some a"
proof -
  have "split_on CHR ''.'' (show_ipv4 a) = map (\<lambda>i. show_nat (octet i a)) [0, 1, 2, 3]"
    by (simp add: show_ipv4_def split_on_sep split_on_free show_nat_no_dot)
  then show ?thesis
    by (simp add: parse_ipv4_def parse_show_octet octet_less ipv4_octets [unfolded One_nat_def])
qed

lemma show_digits_val:
  "list_all is_digit s \<Longrightarrow> s \<noteq> [] \<Longrightarrow> (hd s = CHR ''0'' \<longrightarrow> length s = 1) \<Longrightarrow> show_nat (digits_val s) = s"
proof (induction s rule: rev_induct)
  case Nil
  then show ?case by simp
next
  case (snoc c s)
  define d where "d = digit_val c"
  have "48 \<le> (of_char c :: nat)" "(of_char c :: nat) \<le> 57" using snoc.prems by (simp_all add: is_digit_def)
  then have d: "d < 10" "digit_char d = c" by (auto simp: d_def digit_val_def digit_char_def)
  show ?case
  proof (cases "s = []")
    case True
    then show ?thesis using d by (simp add: digits_val_def d_def show_nat.simps [of "digit_val c"])
  next
    case False
    then have "hd s \<noteq> CHR ''0''" using snoc.prems(3) by (cases s) auto
    then have IH: "show_nat (digits_val s) = s" using snoc.IH snoc.prems(1) False by simp
    have "digits_val s \<noteq> 0"
    proof
      assume "digits_val s = 0"
      then have "s = [CHR ''0'']" using IH by (auto simp: show_nat.simps [of 0] digit_char_def char_of_eq_iff)
      with \<open>hd s \<noteq> CHR ''0''\<close> show False by simp
    qed
    then show ?thesis using d IH
      by (simp add: digits_val_snoc flip: d_def) (simp add: show_nat.simps [of "10 * digits_val s + d"])
  qed
qed

lemma parse_octet_iff: "parse_octet s = Some n \<longleftrightarrow> n < 256 \<and> s = show_nat n"
  using show_digits_val [of s] by (auto simp: parse_show_octet) (auto simp: parse_octet_def split: if_splits)

lemma join_split_on: "join_with [c] (split_on c s) = s"
proof (induction s)
  case Nil
  then show ?case by simp
next
  case (Cons x xs)
  have "split_on c xs \<noteq> []" by (cases xs) (auto split: list.splits)
  then obtain p ps where "split_on c xs = p # ps" by (cases "split_on c xs") auto
  with Cons show ?case by (cases ps) auto
qed

lemma octet_ipv4:
  assumes "w < 256" "x < 256" "y < 256" "z < 256"
  shows "map (\<lambda>i. octet i (ipv4 w x y z)) [0, 1, 2, 3] = [w, x, y, z]"
proof -
  define q1 where "q1 = x + 256 * w"
  define q2 where "q2 = y + 256 * q1"
  have "unat (ipv4 w x y z) = ((w * 256 + x) * 256 + y) * 256 + z"
    using assms by (simp only: ipv4_def unat_of_nat take_bit_eq_mod) simp
  then have "unat (ipv4 w x y z) = z + 256 * q2" by (simp add: q1_def q2_def)
  moreover have "n div 65536 = n div 256 div 256" "n div 16777216 = n div 256 div 256 div 256" for n :: nat
    by (simp_all flip: div_mult2_eq)
  moreover have "q2 div 256 = q1" "q2 mod 256 = y" using assms by (simp_all add: q2_def)
  moreover have "q1 div 256 = w" "q1 mod 256 = x" "w mod 256 = w" using assms by (simp_all add: q1_def)
  ultimately show ?thesis using assms by (simp add: octet_def)
qed

lemma parse_ipv4_iff: "parse_ipv4 s = Some a \<longleftrightarrow> s = show_ipv4 a"
proof
  assume "parse_ipv4 s = Some a"
  then obtain w x y z where "map parse_octet (split_on CHR ''.'' s) = [Some w, Some x, Some y, Some z]"
    and a: "a = ipv4 w x y z"
    by (auto simp: parse_ipv4_def split: list.splits option.splits)
  then obtain p q r t where sp: "split_on CHR ''.'' s = [p, q, r, t]" and
    o: "parse_octet p = Some w" "parse_octet q = Some x" "parse_octet r = Some y" "parse_octet t = Some z"
    by (auto simp: map_eq_Cons_conv)
  have l: "w < 256" "x < 256" "y < 256" "z < 256" using o by (simp_all add: parse_octet_iff)
  have "show_ipv4 a = join_with ''.'' (map show_nat (map (\<lambda>i. octet i a) [0, 1, 2, 3]))"
    by (simp add: show_ipv4_def)
  also have "map show_nat (map (\<lambda>i. octet i a) [0, 1, 2, 3]) = split_on CHR ''.'' s"
    using o unfolding a octet_ipv4 [OF l] sp by (simp add: parse_octet_iff)
  finally show "s = show_ipv4 a" by (simp only: join_split_on)
qed (simp add: parse_show_ipv4)

lemma show_ipv4_inject [simp]: "show_ipv4 a = show_ipv4 b \<longleftrightarrow> a = b"
  by (metis parse_show_ipv4 option.inject)

text \<open>The text of an address, of either kind, holds no slash and no star.\<close>

definition addr_char :: "char \<Rightarrow> bool" where
  "addr_char c \<longleftrightarrow> c \<noteq> CHR ''/'' \<and> c \<noteq> CHR ''*''"

lemma list_all_join_with: "list_all P sep \<Longrightarrow> (\<And>s. s \<in> set ss \<Longrightarrow> list_all P s) \<Longrightarrow> list_all P (join_with sep ss)"
  by (induction sep ss rule: join_with.induct) auto

lemma show_nat_addr: "list_all addr_char (show_nat n)"
  using show_nat_digits [of n] by (auto simp: list_all_iff is_digit_def addr_char_def)

lemma show_hex_addr: "list_all addr_char (show_hex n)"
proof (induction n rule: show_hex.induct)
  case (1 n)
  have "addr_char (hex_char d)" if "d < 16" for d
  proof -
    have "(of_char (hex_char d) :: nat) = (if d < 10 then 48 + d else 87 + d)"
      using that by (simp add: hex_char_def)
    moreover have "(of_char c :: nat) = 47 \<or> (of_char c :: nat) = 42" if "\<not> addr_char c" for c
      using that by (auto simp: addr_char_def)
    ultimately show ?thesis by (cases "addr_char (hex_char d)") (force split: if_splits)+
  qed
  then show ?case using 1 by (simp add: show_hex.simps [of n])
qed

lemma show_ipv4_addr: "list_all addr_char (show_ipv4 a)"
  unfolding show_ipv4_def by (rule list_all_join_with) (auto simp: show_nat_addr addr_char_def)

lemma show_ip_addr: "list_all addr_char (show_ip i)"
proof (cases i)
  case (V4 a)
  then show ?thesis by (simp add: show_ipv4_addr)
next
  case (V6 a)
  have "list_all addr_char (join_with '':'' (map show_hex ns))" for ns
    by (rule list_all_join_with) (auto simp: show_hex_addr addr_char_def)
  then show ?thesis using V6
    by (auto simp: show_ipv6_def Let_def show_ipv4_addr split: prod.split) (simp_all add: addr_char_def)
qed

text \<open>
  The text of an IPv4 address is read back as that address, and a target made from an address
  admits that address on every port.
\<close>

theorem ipv4_roundtrip:
  "parse_ipv4 (show_ipv4 a) = Some a \<and>
   check_egress ovf (with_target (target_ip a) deny_all_list) (show_ipv4 a) port False n = Returns Allowed"
  by (simp add: parse_show_ipv4 check_egress_def with_target_def target_ip_def deny_all_list_def
      matches_host_or_cidr_def port_matches_def)

section \<open>Address ranges\<close>

lemma and_high_mask:
  fixes x y :: u32
  shows "x AND push_bit s (- 1) = y AND push_bit s (- 1) \<longleftrightarrow> drop_bit s x = drop_bit s y"
proof
  assume eq: "x AND push_bit s (- 1) = y AND push_bit s (- 1)"
  show "drop_bit s x = drop_bit s y"
  proof (rule bit_eqI)
    fix n
    assume "possible_bit TYPE(u32) n"
    show "bit (drop_bit s x) n = bit (drop_bit s y) n"
      using arg_cong [OF eq, of "\<lambda>w. bit w (s + n)"]
      by (auto simp: bit_simps dest: bit_imp_le_length)
  qed
next
  assume eq: "drop_bit s x = drop_bit s y"
  show "x AND push_bit s (- 1) = y AND push_bit s (- 1)"
  proof (rule bit_eqI)
    fix n
    show "bit (x AND push_bit s (- 1)) n = bit (y AND push_bit s (- 1)) n"
      using arg_cong [OF eq, of "\<lambda>w. bit w (n - s)"]
      by (auto simp: bit_simps dest: bit_imp_le_length)
  qed
qed

lemma unat_u32: "unat (x :: u32) < 4294967296"
  using unsigned_less [of x] by simp

lemma shift_amount:
  fixes p :: u32
  shows "unat (32 - p) mod 32 = (32 - unat p mod 32) mod 32"
proof (cases "p \<le> 32")
  case True
  then have "unat (32 - p) = 32 - unat p" "unat p \<le> 32"
    by (simp_all add: unat_sub word_le_nat_alt)
  then show ?thesis by (cases "unat p = 32") simp_all
next
  case False
  then have "\<not> unat p \<le> 32" by (simp add: word_le_nat_alt)
  then have "unat (32 - p) = 4294967328 - unat p" using unat_u32 [of p]
    by (simp add: unat_sub_if_size word_size)
  moreover have "unat p < 4294967296" using unat_u32 [of p] by simp
  moreover have "(4294967328 - n) mod 32 = (32 - n mod 32) mod 32" if "n < 4294967296" for n :: nat
  proof -
    define q where "q = n div 32"
    have n: "n = 32 * q + n mod 32" "n mod 32 < 32" by (simp_all add: q_def)
    then have e: "4294967328 - n = (32 - n mod 32) + (134217728 - q) * 32" using that by linarith
    show ?thesis unfolding e by (rule mod_mult_self1)
  qed
  ultimately show ?thesis by simp
qed

lemma drop_bit_eq_iff:
  fixes x y :: u32
  shows "drop_bit s x = drop_bit s y \<longleftrightarrow> unat x div 2 ^ s = unat y div 2 ^ s"
proof -
  have "unat (drop_bit s z) = unat z div 2 ^ s" for z :: u32
    by (subst unat_drop_bit_eq) (simp only: drop_bit_eq_div)
  then show ?thesis by (simp only: word_unat_eq_iff)
qed

text \<open>
  An address is in a range exactly when it has the same leading bits as the network, as many as
  the prefix says, when the prefix is at most 32. A longer prefix, which nothing rejects, panics in
  a build with overflow checks; in one without, it counts modulo 32, so that for instance a prefix
  of 33 admits half of all addresses.
\<close>

theorem cidr_contains_leading_bits:
  "cidr_contains ovf network plen ip =
     (if ovf \<and> 32 < plen then Panics
      else (let bits = (if plen = 0 then 0 else if unat plen mod 32 = 0 then 32 else unat plen mod 32)
            in Returns (unat network div 2 ^ (32 - bits) = unat ip div 2 ^ (32 - bits))))"
proof (cases "plen = 0")
  case True
  have "unat x div 4294967296 = 0" for x :: u32 using unat_u32 [of x] by simp
  with True show ?thesis by (simp add: cidr_contains_def)
next
  case False
  have "(32 - unat plen mod 32) mod 32 = 32 - (if unat plen mod 32 = 0 then 32 else unat plen mod 32)"
    by simp
  moreover have "cidr_contains ovf network plen ip =
      (if ovf \<and> 32 < plen then Panics
       else Returns (unat network div 2 ^ ((32 - unat plen mod 32) mod 32) =
         unat ip div 2 ^ ((32 - unat plen mod 32) mod 32)))"
    unfolding cidr_contains_def Let_def and_high_mask drop_bit_eq_iff shift_amount
    using False by (simp only: if_False)
  ultimately show ?thesis using False by (simp only: if_False Let_def)
qed

section \<open>What the check admits\<close>

lemma parse_cidr_iff:
  "parse_cidr s = Some (network, plen) \<longleftrightarrow> (\<exists>t. s = show_ipv4 network @ ''/'' @ t \<and> parse_u32 t = Some plen)"
proof
  assume c: "parse_cidr s = Some (network, plen)"
  then obtain n t where sp: "split_on CHR ''/'' s = [n, t]" and "parse_ipv4 n = Some network"
    and t: "parse_u32 t = Some plen"
    by (auto simp: parse_cidr_def split: list.splits option.splits)
  then have "s = join_with ''/'' [show_ipv4 network, t]"
    using join_split_on [of "CHR ''/''" s] by (simp add: parse_ipv4_iff)
  with t show "\<exists>t. s = show_ipv4 network @ ''/'' @ t \<and> parse_u32 t = Some plen" by simp
next
  assume "\<exists>t. s = show_ipv4 network @ ''/'' @ t \<and> parse_u32 t = Some plen"
  then obtain t where s: "s = show_ipv4 network @ ''/'' @ t" and t: "parse_u32 t = Some plen" by blast
  have "CHR ''/'' \<notin> set (show_ipv4 network)"
    using show_ipv4_addr [of network] by (auto simp: list_all_iff addr_char_def)
  moreover have "CHR ''/'' \<notin> set t"
    using t by (cases t) (auto simp: parse_u32_def Let_def list_all_iff is_digit_def split: if_splits)
  ultimately have "split_on CHR ''/'' s = [show_ipv4 network, t]"
    using s by (simp add: split_on_sep split_on_free)
  then show "parse_cidr s = Some (network, plen)" using t by (simp add: parse_cidr_def parse_show_ipv4)
qed

lemma parse_cidr_wildcard: "parse_cidr (CHR ''*'' # s) = None"
proof -
  have star: "parse_octet (CHR ''*'' # s) = None" for s
    by (simp add: parse_octet_def is_digit_def)
  have "parse_ipv4 (CHR ''*'' # s) = None" for s
    by (auto simp: parse_ipv4_def star split: list.split)
  then show ?thesis by (auto simp: parse_cidr_def split: list.split)
qed

text \<open>
  The meaning of a pattern, said without the operations: it is the host itself; or \<open>*.d\<close> for a
  \<open>d\<close> the host ends with; or the text of a network, a slash and a number, for a host that is the text
  of an address with the leading bits of the network, as many as the number says. A number above 32
  counts modulo 32 where the build lets the subtraction wrap; where it checks, the pattern stops
  every match with an address that differs from it.
\<close>

definition net_bits :: "u32 \<Rightarrow> nat" where
  "net_bits plen = (if plen = 0 then 0 else if unat plen mod 32 = 0 then 32 else unat plen mod 32)"

definition same_network :: "nat \<Rightarrow> u32 \<Rightarrow> u32 \<Rightarrow> bool" where
  "same_network bits a b \<longleftrightarrow> unat a div 2 ^ (32 - bits) = unat b div 2 ^ (32 - bits)"

definition range_text :: "string \<Rightarrow> u32 \<Rightarrow> u32 \<Rightarrow> bool" where
  "range_text pattern network plen \<longleftrightarrow>
     (\<exists>t. pattern = show_ipv4 network @ ''/'' @ t \<and> parse_u32 t = Some plen)"

definition host_admitted :: "string \<Rightarrow> string \<Rightarrow> bool" where
  "host_admitted host pattern \<longleftrightarrow>
     host = pattern \<or>
     (\<exists>d. pattern = ''*.'' @ d \<and> suffix d host) \<or>
     (\<exists>ip network plen. host = show_ipv4 ip \<and> range_text pattern network plen \<and>
        same_network (net_bits plen) network ip)"

definition range_overflows :: "string \<Rightarrow> string \<Rightarrow> bool" where
  "range_overflows host pattern \<longleftrightarrow>
     host \<noteq> pattern \<and> (\<exists>ip network plen. host = show_ipv4 ip \<and> range_text pattern network plen \<and> 32 < plen)"

lemma range_text_iff: "range_text pattern network plen \<longleftrightarrow> parse_cidr pattern = Some (network, plen)"
  by (simp add: range_text_def parse_cidr_iff)

lemma host_not_range:
  assumes "range_text host network plen" shows "parse_ipv4 host = None"
proof (rule ccontr)
  assume "parse_ipv4 host \<noteq> None"
  then obtain a where "host = show_ipv4 a" by (auto simp: parse_ipv4_iff)
  then show False
    using assms show_ipv4_addr [of a] by (auto simp: range_text_def addr_char_def)
qed

lemma cidr_contains_same:
  "cidr_contains ovf network plen ip =
     (if ovf \<and> 32 < plen then Panics else Returns (same_network (net_bits plen) network ip))"
  by (simp only: cidr_contains_leading_bits same_network_def net_bits_def Let_def)

lemma matches_wildcard:
  "matches_host_or_cidr ovf host (''*.'' @ d) = Returns (host = ''*.'' @ d \<or> suffix d host)"
proof -
  have "suffix (CHR ''.'' # d) host \<Longrightarrow> suffix d host"
    by (auto simp: suffix_def intro: exI [of _ "_ @ [CHR ''.'']"])
  then show ?thesis
    by (auto simp: matches_host_or_cidr_def parse_cidr_wildcard ends_with_def split: option.split)
qed

lemma matches_range:
  assumes "range_text pattern network plen"
  shows "matches_host_or_cidr ovf host pattern =
    (if host = pattern then Returns True
     else case parse_ipv4 host of Some ip \<Rightarrow> cidr_contains ovf network plen ip | None \<Rightarrow> Returns False)"
proof -
  have "CHR ''/'' \<in> set pattern" using assms by (auto simp: range_text_def)
  moreover have "pattern \<noteq> CHR ''*'' # p" for p
    using assms by (auto simp: range_text_iff parse_cidr_wildcard)
  then have "(case pattern of CHR ''*'' # CHR ''.'' # domain \<Rightarrow>
      host = domain \<or> ends_with host (CHR ''.'' # domain) \<or> ends_with host domain | _ \<Rightarrow> False) = False"
    by (auto split: list.split char.split bool.split)
  ultimately show ?thesis
    using assms by (simp add: matches_host_or_cidr_def range_text_iff split: option.split)
qed

lemma matches_other:
  assumes "\<nexists>d. pattern = ''*.'' @ d" "\<nexists>network plen. range_text pattern network plen"
  shows "matches_host_or_cidr ovf host pattern = Returns (host = pattern)"
proof -
  have "parse_cidr pattern = None"
    using assms(2) by (cases "parse_cidr pattern") (auto simp: range_text_iff)
  moreover have "(case pattern of CHR ''*'' # CHR ''.'' # domain \<Rightarrow>
      host = domain \<or> ends_with host (CHR ''.'' # domain) \<or> ends_with host domain | _ \<Rightarrow> False) = False"
    using assms(1) by (auto split: list.split char.split bool.split)
  ultimately show ?thesis by (simp add: matches_host_or_cidr_def split: option.split)
qed

lemma wildcard_not_range: "\<not> range_text (''*.'' @ d) network plen"
  by (simp add: range_text_iff parse_cidr_wildcard)

lemma matches_exact:
  "matches_host_or_cidr ovf host pattern =
     (if ovf \<and> range_overflows host pattern then Panics else Returns (host_admitted host pattern))"
proof -
  consider (wild) d where "pattern = ''*.'' @ d" | (range) network plen where "range_text pattern network plen"
    | (other) "\<nexists>d. pattern = ''*.'' @ d" "\<nexists>network plen. range_text pattern network plen" by blast
  then show ?thesis
  proof cases
    case wild
    then show ?thesis using matches_wildcard [of ovf host d] wildcard_not_range [of d]
      by (auto simp: range_overflows_def host_admitted_def)
  next
    case range
    have u: "range_text pattern n p \<longleftrightarrow> n = network \<and> p = plen" for n p
      using range by (auto simp: range_text_iff)
    have w: "pattern \<noteq> CHR ''*'' # CHR ''.'' # d" for d using range wildcard_not_range [of d] by auto
    show ?thesis
    proof (cases "parse_ipv4 host")
      case None
      then have "host \<noteq> show_ipv4 a" for a by (auto simp: parse_show_ipv4)
      then show ?thesis using None
        by (auto simp: matches_range [OF range] range_overflows_def host_admitted_def w)
    next
      case (Some ip)
      then have "host = show_ipv4 ip" "host \<noteq> pattern"
        using host_not_range [of host network plen] range by (auto simp: parse_ipv4_iff parse_show_ipv4)
      then show ?thesis
        by (auto simp: matches_range [OF range] cidr_contains_same range_overflows_def host_admitted_def u w
            parse_show_ipv4)
    qed
  next
    case other
    then show ?thesis using matches_other [OF other]
      by (auto simp: range_overflows_def host_admitted_def)
  qed
qed

lemma matches_address: "matches_host_or_cidr ovf host (show_ip i) = Returns (host = show_ip i)"
  using show_ip_addr [of i]
  by (intro matches_other) (auto simp: range_text_def addr_char_def)

lemma dns_server_allowed_eq:
  "dns_server_allowed ovf host port as =
     Returns (\<exists>a\<in>set as. host = show_ip (sa_ip a) \<and> port = sa_port a)"
  by (induction as) (auto simp: matches_address)

definition host_listed :: "string \<Rightarrow> egress_target \<Rightarrow> bool" where
  "host_listed host t \<longleftrightarrow> et_host t \<noteq> ''*'' \<and> host_admitted host (et_host t)"

definition target_admits :: "string \<Rightarrow> u16 \<Rightarrow> egress_target \<Rightarrow> bool" where
  "target_admits host port t \<longleftrightarrow>
     (et_host t = ''*'' \<or> host_admitted host (et_host t)) \<and> (\<forall>p. et_port t = Some p \<longrightarrow> p = port)"

text \<open>An overflowing range stands in the list before any target that admits the connection.\<close>

definition overflow_first :: "string \<Rightarrow> u16 \<Rightarrow> egress_target list \<Rightarrow> bool" where
  "overflow_first host port ts \<longleftrightarrow>
     (\<exists>i<length ts. range_overflows host (et_host (ts ! i)) \<and> (\<forall>j<i. \<not> target_admits host port (ts ! j)))"

lemma star_no_overflow: "\<not> range_overflows host ''*''"
  using parse_cidr_wildcard [of "[]"] by (simp add: range_overflows_def range_text_iff)

lemma overflow_first_Cons:
  "overflow_first host port (t # ts) \<longleftrightarrow>
     range_overflows host (et_host t) \<or> \<not> target_admits host port t \<and> overflow_first host port ts"
  unfolding overflow_first_def by (simp add: Ex_less_Suc2 All_less_Suc2) blast

lemma check_targets_eq:
  "check_targets ovf host port ts hm =
     (if ovf \<and> overflow_first host port ts then Panics
      else Returns (if \<exists>t\<in>set ts. target_admits host port t then Allowed
              else if hm \<or> (\<exists>t\<in>set ts. host_listed host t)
              then DeniedWrongPort else DeniedNoMatch))"
proof (induction ts arbitrary: hm)
  case Nil
  then show ?case by (simp add: overflow_first_def)
next
  case (Cons t ts)
  have port: "port_matches q port \<longleftrightarrow> (\<forall>p. q = Some p \<longrightarrow> p = port)" for q
    by (simp add: port_matches_def split: option.split)
  have t: "target_admits host port t \<longleftrightarrow>
      (et_host t = ''*'' \<or> host_admitted host (et_host t)) \<and> (\<forall>p. et_port t = Some p \<longrightarrow> p = port)"
    "host_listed host t \<longleftrightarrow> et_host t \<noteq> ''*'' \<and> host_admitted host (et_host t)"
    by (simp_all only: target_admits_def host_listed_def)
  show ?case
  proof (cases "et_host t = ''*''")
    case True
    then show ?thesis using Cons
      by (cases "et_port t"; cases "overflow_first host port ts"; cases ovf)
        (simp_all add: t overflow_first_Cons star_no_overflow port)
  next
    case False
    then show ?thesis using Cons
      by (cases "range_overflows host (et_host t)"; cases "host_admitted host (et_host t)"; cases "et_port t";
          cases "overflow_first host port ts"; cases ovf)
        (simp_all add: matches_exact t overflow_first_Cons)
  qed
qed

text \<open>
  C5. The check is a default deny, in a build with checks for overflow and in one without. A DNS query
  is admitted exactly when DNS is allowed and, if servers are listed, its host and port are the address
  and port of one of them. Any other connection is first refused when there is a limit and as many are
  open; then it is admitted exactly when some target admits its host and its port. A target admits a
  host that is its text, that ends with \<open>d\<close> when its text is \<open>*.d\<close>, or whose address has the leading
  bits of its network, and \<open>*\<close> admits all. What is not admitted is told why: a host that is listed with
  other ports only, or no match. The one exception is a target whose range has a prefix above 32: a
  build that checks for overflow panics there, when the host is an address and no target before it
  admits the connection. The protocol of a target plays no part and \<open>DeniedProtocol\<close> is never returned.
\<close>

theorem check_egress_decision:
  "check_egress ovf al host port is_dns n =
     (if is_dns then Returns
         (if al_dns_allowed al \<and> (al_dns_servers al = [] \<or>
             (\<exists>a\<in>set (al_dns_servers al). host = show_ip (sa_ip a) \<and> port = sa_port a))
          then Allowed else DeniedDns)
      else if 0 < al_max_connections al \<and> al_max_connections al \<le> n then Returns DeniedConnectionLimit
      else if ovf \<and> overflow_first host port (al_targets al) then Panics
      else Returns
         (if \<exists>t\<in>set (al_targets al). target_admits host port t then Allowed
          else if \<exists>t\<in>set (al_targets al). host_listed host t then DeniedWrongPort
          else DeniedNoMatch))"
  by (auto simp: check_egress_def dns_server_allowed_eq check_targets_eq overflow_first_def)

section \<open>Wildcards\<close>

text \<open>What a pattern \<open>*.d\<close> is meant to admit: the domain itself and the names below it.\<close>

definition in_domain :: "string \<Rightarrow> string \<Rightarrow> bool" where
  "in_domain host d \<longleftrightarrow> host = d \<or> ends_with host (CHR ''.'' # d)"

text \<open>
  The pattern \<open>*.d\<close> admits every host whose name ends with \<open>d\<close>, not only \<open>d\<close> and the names below
  it: for every domain \<open>d\<close> and every character \<open>c\<close> other than a dot the name \<open>c\<close> followed by \<open>d\<close> is
  admitted although it lies outside the domain.
\<close>

theorem wildcard_admits_foreign_hosts:
  "matches_host_or_cidr ovf host (''*.'' @ d) = Returns (host = ''*.'' @ d \<or> ends_with host d) \<and>
   (in_domain host d \<longrightarrow> matches_host_or_cidr ovf host (''*.'' @ d) = Returns True) \<and>
   (c \<noteq> CHR ''.'' \<longrightarrow> matches_host_or_cidr ovf (c # d) (''*.'' @ d) = Returns True \<and> \<not> in_domain (c # d) d)"
proof -
  have suf: "ends_with s (CHR ''.'' # d) \<Longrightarrow> ends_with s d" for s
    by (auto simp: ends_with_def suffix_def intro: exI [of _ "_ @ [CHR ''.'']"])
  have "\<not> in_domain (c # d) d" if "c \<noteq> CHR ''.''"
    using that by (auto simp: in_domain_def ends_with_def suffix_Cons dest: suffix_length_le)
  moreover have "ends_with (c # d) d" by (simp add: ends_with_def suffix_Cons)
  ultimately show ?thesis using suf
    unfolding matches_wildcard in_domain_def by (auto simp: ends_with_def)
qed

theorem wildcard_admits_foreign_hosts_witness:
  "check_egress True (with_target (target_domain_port ''*.example.com'' 443) deny_all_list)
     ''evilexample.com'' 443 False 0 = Returns Allowed"
proof -
  have "ends_with ''evilexample.com'' ''example.com''"
    by (simp add: ends_with_def suffix_def)
  then have "matches_host_or_cidr True ''evilexample.com'' (''*.'' @ ''example.com'') = Returns True"
    using wildcard_admits_foreign_hosts [of True "''evilexample.com''" "''example.com''"] by simp
  then show ?thesis
    by (simp add: check_egress_def with_target_def target_domain_port_def deny_all_list_def)
qed

end
