(* ===== verification/Seccomp.thy ===== *)
theory Seccomp
  imports Prelude
begin

text \<open>
  The system-call filter of the guest agent (\<open>akssora-guest-agent/src/seccomp.rs\<close>): the program it
  builds for the kernel's packet-filter machine and the call that installs it. The machine is the
  kernel's: it is the parameter \<open>run\<close>, and \<open>bpf_machine\<close> states what its documentation says of the
  three instructions the program uses.
\<close>

section \<open>Instructions\<close>

record sock_filter =
  sf_code :: u16
  sf_jt :: u8
  sf_jf :: u8
  sf_k :: u32

record sock_fprog =
  fp_len :: u16
  fp_filter :: "sock_filter list"

definition BPF_LD :: u16 where "BPF_LD = 0x00"
definition BPF_W :: u16 where "BPF_W = 0x00"
definition BPF_ABS :: u16 where "BPF_ABS = 0x20"
definition BPF_JMP :: u16 where "BPF_JMP = 0x05"
definition BPF_JEQ :: u16 where "BPF_JEQ = 0x10"
definition BPF_RET :: u16 where "BPF_RET = 0x06"
definition BPF_K :: u16 where "BPF_K = 0x00"

definition SECCOMP_RET_ALLOW :: u32 where "SECCOMP_RET_ALLOW = 0x7fff0000"
definition SECCOMP_RET_KILL_PROCESS :: u32 where "SECCOMP_RET_KILL_PROCESS = 0"

definition ALLOWED_SYSCALLS :: "u32 list" where
  "ALLOWED_SYSCALLS =
     [0, 1, 2, 3, 9, 10, 11, 12, 13, 14, 15, 20, 21, 35, 39, 41, 42, 49, 50, 56, 57, 58, 59, 60, 61,
      62, 63, 72, 73, 78, 79, 80, 82, 83, 84, 87, 89, 96, 202, 206, 207, 208, 209, 210, 217, 228,
      230, 231, 232, 233, 257, 262, 288, 292, 293, 302, 318, 332, 318, 291, 288, 41, 49, 50, 51, 52,
      53, 54, 55, 72, 16, 293, 74, 275, 22, 281, 282]"

section \<open>The program\<close>

definition load_nr :: sock_filter where
  "load_nr = \<lparr>sf_code = BPF_LD OR BPF_W OR BPF_ABS, sf_jt = 0, sf_jf = 0, sf_k = 0\<rparr>"

definition jump_eq :: "u8 \<Rightarrow> u32 \<Rightarrow> sock_filter" where
  "jump_eq jt nr = \<lparr>sf_code = BPF_JMP OR BPF_JEQ OR BPF_K, sf_jt = jt, sf_jf = 0, sf_k = nr\<rparr>"

definition ret_k :: "u32 \<Rightarrow> sock_filter" where
  "ret_k k = \<lparr>sf_code = BPF_RET OR BPF_K, sf_jt = 0, sf_jf = 0, sf_k = k\<rparr>"

text \<open>The loop over the allowed calls: a comparison and a return for each; the last one jumps by
  one.\<close>

fun filter_loop :: "u32 list \<Rightarrow> sock_filter list" where
  "filter_loop [] = []"
| "filter_loop (nr # nrs) =
     jump_eq (if nrs = [] then 1 else 2) nr # ret_k SECCOMP_RET_ALLOW # filter_loop nrs"

definition build_bpf_filter :: sock_fprog where
  "build_bpf_filter =
     (let prog = load_nr # filter_loop ALLOWED_SYSCALLS @ [ret_k SECCOMP_RET_KILL_PROCESS]
      in \<lparr>fp_len = of_nat (length prog), fp_filter = prog\<rparr>)"

text \<open>
  Installing it: the results of the two calls of \<open>prctl\<close>, and the text of the last error of the
  system after each, are arguments; the flag says that the filter has been installed before.
\<close>

definition apply_seccomp_filter ::
    "int \<Rightarrow> string \<Rightarrow> (sock_fprog \<Rightarrow> int) \<Rightarrow> string \<Rightarrow> bool \<Rightarrow> bool \<times> (string + sock_fprog option)" where
  "apply_seccomp_filter no_new_privs err1 set_seccomp err2 applied =
     (if applied then (applied, Inr None)
      else if no_new_privs \<noteq> 0
      then (applied, Inl (''prctl(PR_SET_NO_NEW_PRIVS) failed: '' @ err1))
      else (let prog = build_bpf_filter
            in if set_seccomp prog \<noteq> 0
               then (applied, Inl (''prctl(PR_SET_SECCOMP) failed: '' @ err2))
               else (True, Inr (Some prog))))"

section \<open>The machine\<close>

text \<open>\<open>run prog nr pc a\<close> is the verdict on the call \<open>nr\<close> from instruction \<open>pc\<close> with accumulator \<open>a\<close>.\<close>

definition bpf_machine :: "(sock_filter list \<Rightarrow> u32 \<Rightarrow> nat \<Rightarrow> u32 \<Rightarrow> u32) \<Rightarrow> bool" where
  "bpf_machine run \<longleftrightarrow> (\<forall>prog nr pc a. pc < length prog \<longrightarrow>
     (sf_code (prog ! pc) = BPF_LD OR BPF_W OR BPF_ABS \<and> sf_k (prog ! pc) = 0 \<longrightarrow>
        run prog nr pc a = run prog nr (pc + 1) nr) \<and>
     (sf_code (prog ! pc) = BPF_JMP OR BPF_JEQ OR BPF_K \<longrightarrow>
        run prog nr pc a =
          run prog nr (pc + 1 + unat (if a = sf_k (prog ! pc) then sf_jt (prog ! pc) else sf_jf (prog ! pc))) a) \<and>
     (sf_code (prog ! pc) = BPF_RET OR BPF_K \<longrightarrow> run prog nr pc a = sf_k (prog ! pc)))"

lemmas bpf_codes = BPF_LD_def BPF_W_def BPF_ABS_def BPF_JMP_def BPF_JEQ_def BPF_RET_def BPF_K_def

lemma bpf_steps:
  assumes "bpf_machine run" "pc < length prog"
  shows "prog ! pc = load_nr \<Longrightarrow> run prog nr pc a = run prog nr (pc + 1) nr"
    and "prog ! pc = jump_eq jt k \<Longrightarrow>
      run prog nr pc a = run prog nr (pc + 1 + (if a = k then unat jt else 0)) a"
    and "prog ! pc = ret_k k \<Longrightarrow> run prog nr pc a = k"
  using assms by (auto simp: bpf_machine_def load_nr_def jump_eq_def ret_k_def bpf_codes)

text \<open>A filter over any list of at least two calls: the comparison with the first one is the only one
  that is ever made, and both its outcomes lead to a return that allows the call.\<close>

lemma filter_allows:
  assumes "bpf_machine run" "2 \<le> length nrs"
    and "prog = load_nr # filter_loop nrs @ [ret_k SECCOMP_RET_KILL_PROCESS]"
  shows "run prog nr 0 a = SECCOMP_RET_ALLOW"
proof -
  obtain x y zs where nrs: "nrs = x # y # zs"
    using assms(2) by (auto simp: numeral_2_eq_2 Suc_le_length_iff)
  have at: "prog ! 0 = load_nr" "prog ! 1 = jump_eq 2 x" "prog ! 2 = ret_k SECCOMP_RET_ALLOW"
    "prog ! 4 = ret_k SECCOMP_RET_ALLOW" "4 < length prog"
    by (simp_all add: assms(3) nrs)
  have "prog \<noteq> []" using at(5) by auto
  then have "run prog nr 0 a = run prog nr 1 nr" using bpf_steps(1) [OF assms(1), of 0 prog] at by simp
  also have "\<dots> = run prog nr (2 + (if nr = x then 2 else 0)) nr"
  proof -
    have "1 < length prog" using at(5) by simp
    note bpf_steps(2) [OF assms(1) this at(2), of nr nr]
    moreover have "1 + 1 + (if nr = x then unat (2 :: u8) else 0) = 2 + (if nr = x then 2 else 0)"
      by simp
    ultimately show ?thesis by (simp only:)
  qed
  also have "\<dots> = SECCOMP_RET_ALLOW"
    using bpf_steps(3) [OF assms(1), of 2 prog] bpf_steps(3) [OF assms(1), of 4 prog] at
    by (cases "nr = x") (simp_all add: numeral_eq_Suc)
  finally show ?thesis .
qed

text \<open>
  C37. The filter that is installed allows every system call, whether it is on the list or not: the
  first comparison falls through to the return that follows it, so no call ever reaches the verdict
  that kills the process.
\<close>

theorem seccomp_filter_allows_everything:
  assumes "bpf_machine run"
    and "apply_seccomp_filter no_new_privs err1 set_seccomp err2 applied = (applied', Inr (Some prog))"
  shows "run (fp_filter prog) nr 0 0 = SECCOMP_RET_ALLOW \<and> SECCOMP_RET_ALLOW \<noteq> SECCOMP_RET_KILL_PROCESS"
proof -
  have "prog = build_bpf_filter" using assms(2)
    by (auto simp: apply_seccomp_filter_def Let_def split: if_splits)
  then have p: "fp_filter prog = load_nr # filter_loop ALLOWED_SYSCALLS @ [ret_k SECCOMP_RET_KILL_PROCESS]"
    by (simp add: build_bpf_filter_def Let_def del: filter_loop.simps)
  have "2 \<le> length ALLOWED_SYSCALLS" by (simp add: ALLOWED_SYSCALLS_def)
  from filter_allows [OF assms(1) this p] show ?thesis
    by (simp add: SECCOMP_RET_ALLOW_def SECCOMP_RET_KILL_PROCESS_def)
qed

text \<open>A machine that meets the contract; other instructions, and running off the end, kill.\<close>

function bpf_run :: "sock_filter list \<Rightarrow> u32 \<Rightarrow> nat \<Rightarrow> u32 \<Rightarrow> u32" where
  "bpf_run prog nr pc a =
     (if length prog \<le> pc then SECCOMP_RET_KILL_PROCESS
      else (let i = prog ! pc
            in if sf_code i = BPF_LD OR BPF_W OR BPF_ABS then bpf_run prog nr (pc + 1) nr
               else if sf_code i = BPF_JMP OR BPF_JEQ OR BPF_K
               then bpf_run prog nr (pc + 1 + unat (if a = sf_k i then sf_jt i else sf_jf i)) a
               else if sf_code i = BPF_RET OR BPF_K then sf_k i
               else SECCOMP_RET_KILL_PROCESS))"
  by pat_completeness auto
termination
  by (relation "measure (\<lambda>(prog, nr, pc, a). length prog - pc)") auto

declare bpf_run.simps [simp del]

lemma bpf_run_machine: "bpf_machine bpf_run"
  unfolding bpf_machine_def
  by (intro allI impI conjI) (simp_all add: bpf_run.simps [of _ _ _ a for a] bpf_codes Let_def)

theorem seccomp_filter_allows_everything_witness:
  "bpf_run (fp_filter build_bpf_filter) 101 0 0 = SECCOMP_RET_ALLOW \<and> 101 \<notin> set ALLOWED_SYSCALLS"
proof -
  have "apply_seccomp_filter 0 [] (\<lambda>_. 0) [] False = (True, Inr (Some build_bpf_filter))"
    by (simp add: apply_seccomp_filter_def Let_def)
  from seccomp_filter_allows_everything [OF bpf_run_machine this, of 101]
  show ?thesis by (simp add: ALLOWED_SYSCALLS_def)
qed

end
