(* ===== verification/Snapshot_Sharing.thy ===== *)
theory Snapshot_Sharing
  imports Prelude
begin

text \<open>
  Sharing of snapshots between accounts (\<open>akssora-core/src/snapshot_sharing.rs\<close>): the store of the
  snapshots, the grants and the index of what was shared with an account.
\<close>

section \<open>Data\<close>

datatype snapshot_visibility = Private | OrgShared

record snapshot_meta =
  sn_id :: uuid
  sn_owner_account_id :: uuid
  sn_source_sandbox_id :: uuid
  sn_name :: string
  sn_description :: string
  sn_visibility :: snapshot_visibility
  sn_created_at :: datetime
  sn_updated_at :: datetime
  sn_shared_with :: "uuid list"

record share_grant =
  sg_snapshot_id :: uuid
  sg_granted_account_id :: uuid
  sg_granted_by :: uuid
  sg_granted_at :: datetime

record sharing_store =
  snapshots :: "uuid \<rightharpoonup> snapshot_meta"
  grants :: "uuid \<times> uuid \<rightharpoonup> share_grant"
  shared_with_account :: "uuid \<rightharpoonup> uuid list"

datatype share_error = SnapshotNotFound | NotOwner | CannotShareWithSelf

section \<open>Operations\<close>

definition new_sharing_store :: sharing_store where
  "new_sharing_store = \<lparr>snapshots = Map.empty, grants = Map.empty, shared_with_account = Map.empty\<rparr>"

definition register_snapshot ::
    "datetime \<Rightarrow> datetime \<Rightarrow> uuid \<Rightarrow> uuid \<Rightarrow> uuid \<Rightarrow> string \<Rightarrow> string \<Rightarrow> sharing_store \<Rightarrow>
     sharing_store \<times> snapshot_meta" where
  "register_snapshot now1 now2 sid owner source name description ss =
     (let meta = \<lparr>sn_id = sid, sn_owner_account_id = owner, sn_source_sandbox_id = source,
            sn_name = name, sn_description = description, sn_visibility = Private,
            sn_created_at = now1, sn_updated_at = now2, sn_shared_with = []\<rparr>
      in (ss\<lparr>snapshots := (snapshots ss)(sid \<mapsto> meta)\<rparr>, meta))"

definition get_snapshot :: "uuid \<Rightarrow> sharing_store \<Rightarrow> snapshot_meta option" where
  "get_snapshot sid ss = snapshots ss sid"

definition share_with_org ::
    "datetime \<Rightarrow> uuid \<Rightarrow> uuid \<Rightarrow> sharing_store \<Rightarrow> sharing_store \<times> (share_error + snapshot_meta)" where
  "share_with_org now sid owner ss =
     (case snapshots ss sid of
        None \<Rightarrow> (ss, Inl SnapshotNotFound)
      | Some meta \<Rightarrow>
          if sn_owner_account_id meta \<noteq> owner then (ss, Inl NotOwner)
          else (let meta' = meta\<lparr>sn_visibility := OrgShared, sn_updated_at := now\<rparr>
                in (ss\<lparr>snapshots := (snapshots ss)(sid \<mapsto> meta')\<rparr>, Inr meta')))"

definition share_with_account ::
    "datetime \<Rightarrow> datetime \<Rightarrow> uuid \<Rightarrow> uuid \<Rightarrow> uuid \<Rightarrow> sharing_store \<Rightarrow>
     sharing_store \<times> (share_error + share_grant)" where
  "share_with_account now1 now2 sid owner granted ss =
     (case snapshots ss sid of
        None \<Rightarrow> (ss, Inl SnapshotNotFound)
      | Some meta \<Rightarrow>
          if sn_owner_account_id meta \<noteq> owner then (ss, Inl NotOwner)
          else if owner = granted then (ss, Inl CannotShareWithSelf)
          else
            (let grant = \<lparr>sg_snapshot_id = sid, sg_granted_account_id = granted, sg_granted_by = owner,
                   sg_granted_at = now1\<rparr>;
                 meta' = (if granted \<in> set (sn_shared_with meta) then meta
                   else meta\<lparr>sn_shared_with := sn_shared_with meta @ [granted], sn_updated_at := now2\<rparr>);
                 index = (case shared_with_account ss granted of None \<Rightarrow> [] | Some l \<Rightarrow> l)
             in (ss\<lparr>grants := (grants ss)((sid, granted) \<mapsto> grant),
                    snapshots := (snapshots ss)(sid \<mapsto> meta'),
                    shared_with_account := (shared_with_account ss)(granted \<mapsto> index @ [sid])\<rparr>,
                 Inr grant)))"

definition owner_or_org :: "uuid \<Rightarrow> snapshot_meta \<Rightarrow> bool" where
  "owner_or_org account meta \<longleftrightarrow> sn_owner_account_id meta = account \<or>
     sn_visibility meta = OrgShared \<and> sn_owner_account_id meta = account"

definition can_access :: "uuid \<Rightarrow> uuid \<Rightarrow> sharing_store \<Rightarrow> bool" where
  "can_access sid account ss =
     (case snapshots ss sid of
        None \<Rightarrow> False
      | Some meta \<Rightarrow> owner_or_org account meta \<or> grants ss (sid, account) \<noteq> None)"

definition list_visible :: "uuid list \<Rightarrow> uuid \<Rightarrow> sharing_store \<Rightarrow> snapshot_meta list" where
  "list_visible ks account ss =
     filter (\<lambda>meta. owner_or_org account meta \<or> account \<in> set (sn_shared_with meta))
       (values_in ks (snapshots ss))"

definition list_shared_with :: "uuid list \<Rightarrow> uuid \<Rightarrow> sharing_store \<Rightarrow> snapshot_meta list" where
  "list_shared_with ks account ss =
     filter (\<lambda>meta. account \<in> set (sn_shared_with meta)) (values_in ks (snapshots ss))"

definition drop_grant :: "uuid \<Rightarrow> uuid \<Rightarrow> sharing_store \<Rightarrow> sharing_store" where
  "drop_grant sid account ss =
     (let ss' = ss\<lparr>grants := (grants ss)((sid, account) := None)\<rparr>
      in (case shared_with_account ss' account of
            None \<Rightarrow> ss'
          | Some l \<Rightarrow> ss'\<lparr>shared_with_account :=
              (shared_with_account ss')(account \<mapsto> filter (\<lambda>s. s \<noteq> sid) l)\<rparr>))"

definition remove_snapshot :: "uuid \<Rightarrow> sharing_store \<Rightarrow> sharing_store \<times> snapshot_meta option" where
  "remove_snapshot sid ss =
     (case snapshots ss sid of
        None \<Rightarrow> (ss, None)
      | Some meta \<Rightarrow>
          (fold (drop_grant sid) (sn_shared_with meta)
             (ss\<lparr>snapshots := (snapshots ss)(sid := None)\<rparr>), Some meta))"

definition snapshot_count :: "sharing_store \<Rightarrow> nat" where
  "snapshot_count ss = card (dom (snapshots ss))"

section \<open>Histories\<close>

datatype sharing_call =
    Register datetime datetime uuid uuid uuid string string
  | ShareOrg datetime uuid uuid
  | ShareAccount datetime datetime uuid uuid uuid
  | Remove uuid

fun sharing_step :: "sharing_call \<Rightarrow> sharing_store \<Rightarrow> sharing_store" where
  "sharing_step (Register n1 n2 sid owner src name desc) ss =
     fst (register_snapshot n1 n2 sid owner src name desc ss)"
| "sharing_step (ShareOrg n sid owner) ss = fst (share_with_org n sid owner ss)"
| "sharing_step (ShareAccount n1 n2 sid owner granted) ss = fst (share_with_account n1 n2 sid owner granted ss)"
| "sharing_step (Remove sid) ss = fst (remove_snapshot sid ss)"

text \<open>Calls in which no identifier is registered while it is in use.\<close>

inductive sharing_reachable :: "sharing_store \<Rightarrow> bool" where
  Start: "sharing_reachable new_sharing_store"
| Step: "sharing_reachable ss \<Longrightarrow>
    (\<And>n1 n2 sid owner src name desc. c = Register n1 n2 sid owner src name desc \<Longrightarrow> snapshots ss sid = None) \<Longrightarrow>
    sharing_reachable (sharing_step c ss)"

text \<open>The grants and the lists in the snapshots say the same.\<close>

definition grants_agree :: "sharing_store \<Rightarrow> bool" where
  "grants_agree ss \<longleftrightarrow> (\<forall>sid a. grants ss (sid, a) \<noteq> None \<longleftrightarrow>
     (\<exists>m. snapshots ss sid = Some m \<and> a \<in> set (sn_shared_with m))) \<and>
     (\<forall>sid m. snapshots ss sid = Some m \<longrightarrow> sn_id m = sid \<and> sn_owner_account_id m \<notin> set (sn_shared_with m))"

lemma drop_grant_fields:
  "snapshots (drop_grant sid a ss) = snapshots ss"
  "grants (drop_grant sid a ss) = (grants ss)((sid, a) := None)"
  by (simp_all add: drop_grant_def Let_def split: option.split)

lemma drop_grants_fields:
  "snapshots (fold (drop_grant sid) as ss) = snapshots ss"
  "grants (fold (drop_grant sid) as ss) =
     (\<lambda>k. if fst k = sid \<and> snd k \<in> set as then None else grants ss k)"
  by (induction as arbitrary: ss) (auto simp: drop_grant_fields fun_eq_iff)

lemma remove_snapshot_agree:
  assumes "grants_agree ss"
  shows "grants_agree (fst (remove_snapshot sid ss))"
proof (cases "snapshots ss sid")
  case None
  then show ?thesis using assms by (simp add: remove_snapshot_def)
next
  case (Some m)
  have "grants ss (sid, a) = None" if "a \<notin> set (sn_shared_with m)" for a
    using assms Some that unfolding grants_agree_def by (metis option.inject)
  with Some assms show ?thesis
    by (auto simp: remove_snapshot_def grants_agree_def drop_grants_fields)
qed

lemma share_with_account_agree:
  "grants_agree ss \<Longrightarrow> grants_agree (fst (share_with_account n1 n2 sid owner granted ss))"
  by (cases "snapshots ss sid") (auto simp: share_with_account_def grants_agree_def Let_def)

lemma share_with_org_agree: "grants_agree ss \<Longrightarrow> grants_agree (fst (share_with_org n sid owner ss))"
  by (cases "snapshots ss sid") (auto simp: share_with_org_def grants_agree_def Let_def)

lemma register_agree:
  "grants_agree ss \<Longrightarrow> snapshots ss sid = None \<Longrightarrow>
   grants_agree (fst (register_snapshot n1 n2 sid owner src name desc ss))"
  by (auto simp: register_snapshot_def grants_agree_def Let_def)

lemma reachable_agree: "sharing_reachable ss \<Longrightarrow> grants_agree ss"
proof (induction rule: sharing_reachable.induct)
  case Start
  then show ?case by (simp add: grants_agree_def new_sharing_store_def)
next
  case (Step ss c)
  then show ?case
    by (cases c) (auto intro: register_agree share_with_org_agree share_with_account_agree
        remove_snapshot_agree)
qed

text \<open>
  C6. As long as no identifier in use is registered again, an account may open a snapshot exactly
  when it owns it or its owner shared it with that account and the snapshot was not removed since;
  the list of the visible snapshots holds exactly those it may open; and only the owner can share,
  with anyone but itself.
\<close>

theorem access_exact:
  assumes "sharing_reachable ss" "iterates ks (snapshots ss)"
  shows "(can_access sid a ss \<longleftrightarrow> (\<exists>m. snapshots ss sid = Some m \<and>
       (sn_owner_account_id m = a \<or> a \<in> set (sn_shared_with m)))) \<and>
     (can_access sid a ss \<longleftrightarrow> sid \<in> sn_id ` set (list_visible ks a ss)) \<and>
     (let (ss', r) = share_with_account n1 n2 sid owner granted ss
      in (\<exists>g. r = Inr g) = (\<exists>m. snapshots ss sid = Some m \<and> sn_owner_account_id m = owner \<and> owner \<noteq> granted) \<and>
         (\<forall>s b. can_access s b ss' \<longleftrightarrow> can_access s b ss \<or> (\<exists>g. r = Inr g) \<and> s = sid \<and> b = granted))"
proof -
  have agree: "grants_agree ss" using assms(1) by (rule reachable_agree)
  have 1: "can_access sid a ss \<longleftrightarrow> (\<exists>m. snapshots ss sid = Some m \<and>
       (sn_owner_account_id m = a \<or> a \<in> set (sn_shared_with m)))"
    using agree by (auto simp: can_access_def owner_or_org_def grants_agree_def split: option.split)
  have ids: "m \<in> ran (snapshots ss) \<Longrightarrow> snapshots ss (sn_id m) = Some m" for m
    using agree by (auto simp: grants_agree_def ran_def)
  have "sid \<in> sn_id ` set (list_visible ks a ss) \<longleftrightarrow> (\<exists>m. snapshots ss sid = Some m \<and>
       (sn_owner_account_id m = a \<or> a \<in> set (sn_shared_with m)))"
    using agree ids iterates_values [OF assms(2)]
    by (auto simp: list_visible_def owner_or_org_def grants_agree_def image_iff intro: ranI)
  moreover have "let (ss', r) = share_with_account n1 n2 sid owner granted ss
      in (\<exists>g. r = Inr g) = (\<exists>m. snapshots ss sid = Some m \<and> sn_owner_account_id m = owner \<and> owner \<noteq> granted) \<and>
         (\<forall>s b. can_access s b ss' \<longleftrightarrow> can_access s b ss \<or> (\<exists>g. r = Inr g) \<and> s = sid \<and> b = granted)"
    by (cases "snapshots ss sid")
      (auto simp: share_with_account_def can_access_def owner_or_org_def Let_def split: option.splits)
  ultimately show ?thesis using 1 by blast
qed

text \<open>An account, its snapshot, and a friend.\<close>

definition sample_sharing :: sharing_store where
  "sample_sharing = fst (share_with_account 2 3 7 1 2 (fst (register_snapshot 0 0 7 1 9 ''s'' [] new_sharing_store)))"

lemma sample_sharing_reachable: "sharing_reachable sample_sharing"
proof -
  have "sharing_reachable (sharing_step (Register 0 0 7 1 9 ''s'' []) new_sharing_store)"
    by (rule Step [OF Start]) (simp add: new_sharing_store_def)
  from Step [OF this, of "ShareAccount 2 3 7 1 2"] show ?thesis by (simp add: sample_sharing_def)
qed

theorem access_exact_witness:
  "can_access 7 2 sample_sharing \<and> \<not> can_access 7 3 sample_sharing"
proof -
  have s: "\<exists>m. snapshots sample_sharing = [7 \<mapsto> m] \<and> sn_owner_account_id m = 1 \<and> sn_shared_with m = [2]"
    by (rule exI [of _ "the (snapshots sample_sharing 7)"])
      (simp add: sample_sharing_def share_with_account_def register_snapshot_def new_sharing_store_def Let_def)
  then have "iterates [7] (snapshots sample_sharing)" by (auto simp: iterates_def split: if_splits)
  from access_exact [OF sample_sharing_reachable this, of 7 2]
    access_exact [OF sample_sharing_reachable this, of 7 3] s
  show ?thesis by auto
qed

text \<open>
  Registering an identifier that is in use, for another owner, keeps the grants of the former
  owner: an account it had shared with may open the new owner's snapshot, though the snapshot's own
  list and the list of the visible snapshots do not show it; and removing the snapshot does not
  revoke the grant. Sharing with the organisation, on the other hand, gives access to nobody.
\<close>

theorem stale_grants_and_org:
  assumes "grants ss (sid, a) \<noteq> None" "owner \<noteq> a"
    and "ss' = fst (register_snapshot n1 n2 sid owner src name desc ss)"
  shows "can_access sid a ss' \<and> a \<notin> set (sn_shared_with (the (snapshots ss' sid))) \<and>
     grants (fst (remove_snapshot sid ss')) (sid, a) \<noteq> None \<and>
     (\<forall>n o' s b. can_access s b (fst (share_with_org n sid o' ss')) = can_access s b ss')"
proof -
  have "can_access s b (fst (share_with_org n sid o' ss')) = can_access s b ss'" for n o' s b
    by (auto simp: share_with_org_def can_access_def owner_or_org_def Let_def split: option.split)
  then show ?thesis using assms(1)
    by (auto simp: assms(3) register_snapshot_def can_access_def remove_snapshot_def Let_def)
qed

theorem stale_grants_and_org_witness:
  "can_access 7 2 (fst (register_snapshot 5 5 7 4 9 ''other'' [] sample_sharing))"
proof -
  have "grants sample_sharing (7, 2) \<noteq> None"
    by (simp add: sample_sharing_def share_with_account_def register_snapshot_def new_sharing_store_def Let_def)
  from stale_grants_and_org [OF this _ refl, of 4] show ?thesis by simp
qed

end
