(* ===== verification/Protocol.thy ===== *)
theory Protocol
  imports Prelude "HOL-Library.Finite_Map"
begin

text \<open>
  The protocol between the host and the guest agent (\<open>akssora-core/src/protocol.rs\<close>, with the error
  type of \<open>error.rs\<close>): messages, frames of a four-byte length and a body, and the four functions
  that read and write them. A connection is what is still to be read from it and what was written to
  it. \<open>serde_json\<close> is not part of the repository: encoders and decoders are parameters.
\<close>

section \<open>Messages\<close>

type_synonym bytes = "u8 list"
type_synonym i32 = "32 word"

datatype guest_request =
    Exec (req_cmd: string)
  | OpenShell
  | Input bytes
  | CloseShell
  | WriteFileChunk (req_path: string) (req_offset: u64) (req_data: bytes) (req_is_last: bool)
  | ReadFile string (req_chunk_size: "u32 option")
  | SetEnv (req_vars: "(string, string) fmap")
  | ExposePort (req_guest_port: u16)

datatype guest_response =
    Stdout bytes
  | Stderr bytes
  | Exit i32
  | Output bytes
  | ShellClosed
  | FileWriteAck (resp_path: string) (resp_bytes_written: u64)
  | ReadFileChunk string (resp_offset: u64) (resp_data: bytes) (resp_is_last: bool)
  | FileError string (resp_message: string)
  | EnvSet (resp_count: u64)
  | PortExposed u16 (resp_relay_port: u16)

section \<open>Errors\<close>

text \<open>An input or output error: the end of the stream, or another one with its text. Errors of other
  libraries are their text.\<close>

datatype io_error = UnexpectedEof | IoFailed string

datatype (plugins only: size) core_error =
    Io io_error
  | ReadLengthPrefix io_error
  | ReadBody nat io_error
  | WriteResponse io_error
  | WriteRequest io_error
  | Serialization string
  | ProcessSpawn string io_error
  | SpawnFailed string io_error
  | StdoutNotPiped
  | StderrNotPiped
  | BootConfig string
  | RootfsConfig string
  | MachineConfig string
  | VsockConfig string
  | StartMicroVM string
  | BootFailed string
  | CloseFailed string
  | KillFailed string
  | VsockBind io_error
  | VsockConnect io_error
  | PtySpawn io_error
  | PtyOpen i32
  | PtyClone io_error
  | PtyRead io_error
  | PtyWrite io_error
  | PtyTask string
  | PtyPartialWrite nat nat
  | PtyWait io_error
  | GuestAgent string
  | KillMicroVM io_error
  | WaitMicroVM io_error
  | BodyTooLarge nat
  | FirecrackerConnect io_error
  | FirecrackerHandshake string
  | RequestBuild string
  | FirecrackerRequest string
  | FirecrackerApi u16
  | ResponseTooLarge
  | SessionNotFound uuid
  | LockProcess string
  | ShellNotOpen
  | ShellSend string
  | GuestFileError string string
  | PathTraversal string
  | TemplateBuild string
  | TemplateNotFound string
  | Database string
  | PauseMicroVM string
  | ResumeMicroVM string
  | SnapshotCreate string
  | SnapshotLoad string
  | PoolError string

section \<open>Connections\<close>

text \<open>
  \<open>st_in\<close> is what the peer sends before its end, and \<open>st_end\<close> how a read past it fails. \<open>st_out\<close> is
  what was written; \<open>st_room\<close>, when set, is how much more can be written before a write fails with
  \<open>st_werr\<close>; \<open>st_flush\<close> is an error that flushing reports.
\<close>

record stream =
  st_in :: bytes
  st_end :: io_error
  st_out :: bytes
  st_room :: "nat option"
  st_werr :: io_error
  st_flush :: "io_error option"

text \<open>\<open>read_exact\<close> consumes all there is when there is too little.\<close>

definition read_exact :: "nat \<Rightarrow> stream \<Rightarrow> stream \<times> (io_error + bytes)" where
  "read_exact n s =
     (if n \<le> length (st_in s) then (s\<lparr>st_in := drop n (st_in s)\<rparr>, Inr (take n (st_in s)))
      else (s\<lparr>st_in := []\<rparr>, Inl (st_end s)))"

definition write_all :: "bytes \<Rightarrow> stream \<Rightarrow> stream \<times> io_error option" where
  "write_all bs s =
     (case st_room s of
        None \<Rightarrow> (s\<lparr>st_out := st_out s @ bs\<rparr>, None)
      | Some room \<Rightarrow>
          if length bs \<le> room
          then (s\<lparr>st_out := st_out s @ bs, st_room := Some (room - length bs)\<rparr>, None)
          else (s\<lparr>st_out := st_out s @ take room bs, st_room := Some 0\<rparr>, Some (st_werr s)))"

text \<open>\<open>u32::to_be_bytes\<close> and \<open>u32::from_be_bytes\<close>.\<close>

definition to_be_bytes :: "u32 \<Rightarrow> bytes" where
  "to_be_bytes w = map (\<lambda>i. ucast (drop_bit (8 * (3 - i)) w)) [0, 1, 2, 3]"

definition from_be_bytes :: "bytes \<Rightarrow> u32" where
  "from_be_bytes bs = foldl (\<lambda>w b. push_bit 8 w OR ucast b) 0 bs"

section \<open>Frames\<close>

definition MAX_FRAME_SIZE :: nat where
  "MAX_FRAME_SIZE = 10 * 1024 * 1024"

definition read_frame :: "(bytes \<Rightarrow> string + 'm) \<Rightarrow> stream \<Rightarrow> stream \<times> (core_error + 'm option)" where
  "read_frame dec s =
     (case read_exact 4 s of
        (s1, Inl UnexpectedEof) \<Rightarrow> (s1, Inr None)
      | (s1, Inl error) \<Rightarrow> (s1, Inl (ReadLengthPrefix error))
      | (s1, Inr len_buf) \<Rightarrow>
          (let len = unat (from_be_bytes len_buf)
           in if MAX_FRAME_SIZE < len then (s1, Inl (BodyTooLarge len))
              else (case read_exact len s1 of
                      (s2, Inl error) \<Rightarrow> (s2, Inl (ReadBody len error))
                    | (s2, Inr body) \<Rightarrow>
                        (s2, (case dec body of
                                Inl text \<Rightarrow> Inl (Serialization text)
                              | Inr m \<Rightarrow> Inr (Some m))))))"

text \<open>\<open>wrap\<close> names the side in the error.\<close>

definition write_frame ::
    "(io_error \<Rightarrow> core_error) \<Rightarrow> ('m \<Rightarrow> string + bytes) \<Rightarrow> 'm \<Rightarrow> stream \<Rightarrow> stream \<times> (core_error + unit)" where
  "write_frame wrap enc m s =
     (case enc m of
        Inl text \<Rightarrow> (s, Inl (Serialization text))
      | Inr json \<Rightarrow>
          if 2 ^ 32 \<le> length json then (s, Inl ResponseTooLarge)
          else (case write_all (to_be_bytes (of_nat (length json))) s of
                  (s1, Some error) \<Rightarrow> (s1, Inl (wrap error))
                | (s1, None) \<Rightarrow>
                    (case write_all json s1 of
                       (s2, Some error) \<Rightarrow> (s2, Inl (wrap error))
                     | (s2, None) \<Rightarrow>
                         (case st_flush s2 of
                            Some error \<Rightarrow> (s2, Inl (wrap error))
                          | None \<Rightarrow> (s2, Inr ())))))"

definition read_request ::
    "(bytes \<Rightarrow> string + guest_request) \<Rightarrow> stream \<Rightarrow> stream \<times> (core_error + guest_request option)" where
  "read_request dec s = read_frame dec s"

definition write_request ::
    "(guest_request \<Rightarrow> string + bytes) \<Rightarrow> guest_request \<Rightarrow> stream \<Rightarrow> stream \<times> (core_error + unit)" where
  "write_request enc m s = write_frame WriteRequest enc m s"

definition read_response ::
    "(bytes \<Rightarrow> string + guest_response) \<Rightarrow> stream \<Rightarrow> stream \<times> (core_error + guest_response option)" where
  "read_response dec s = read_frame dec s"

definition write_response ::
    "(guest_response \<Rightarrow> string + bytes) \<Rightarrow> guest_response \<Rightarrow> stream \<Rightarrow> stream \<times> (core_error + unit)" where
  "write_response enc m s = write_frame WriteResponse enc m s"


section \<open>Bytes of a length\<close>

lemma length_to_be_bytes [simp]: "length (to_be_bytes w) = 4"
  by (simp add: to_be_bytes_def)

lemma from_to_be_bytes [simp]: "from_be_bytes (to_be_bytes w) = w"
proof (rule bit_word_eqI)
  fix n assume n: "n < LENGTH(32)"
  show "bit (from_be_bytes (to_be_bytes w)) n = bit w n"
  proof -
    consider "n < 8" | "8 \<le> n" "n < 16" | "16 \<le> n" "n < 24" | "24 \<le> n" by linarith
    then show ?thesis
      using n by cases (simp_all add: from_be_bytes_def to_be_bytes_def bit_simps, auto)
  qed
qed

section \<open>Interface: a channel of messages\<close>

text \<open>Sending a list of messages, and receiving until the peer's end, an error or a bound.\<close>

fun send_all ::
    "('m \<Rightarrow> stream \<Rightarrow> stream \<times> (core_error + unit)) \<Rightarrow> 'm list \<Rightarrow> stream \<Rightarrow> stream \<times> (core_error + unit)" where
  "send_all put [] s = (s, Inr ())"
| "send_all put (m # ms) s =
     (case put m s of (s1, Inl error) \<Rightarrow> (s1, Inl error) | (s1, Inr _) \<Rightarrow> send_all put ms s1)"

datatype ending = Ended | FailedWith core_error | More

fun recv_all ::
    "(stream \<Rightarrow> stream \<times> (core_error + 'm option)) \<Rightarrow> nat \<Rightarrow> stream \<Rightarrow> 'm list \<times> ending" where
  "recv_all get 0 s = ([], More)"
| "recv_all get (Suc n) s =
     (case get s of
        (s1, Inl error) \<Rightarrow> ([], FailedWith error)
      | (s1, Inr None) \<Rightarrow> ([], Ended)
      | (s1, Inr (Some m)) \<Rightarrow> (let (ms, e) = recv_all get n s1 in (m # ms, e)))"

definition writable :: "stream \<Rightarrow> bool" where
  "writable s \<longleftrightarrow> st_room s = None \<and> st_flush s = None"

text \<open>
  The contract between the two ends: what a good message adds to the output, and that the reader
  takes exactly that from its input.
\<close>

locale message_channel =
  fixes put :: "'m \<Rightarrow> stream \<Rightarrow> stream \<times> (core_error + unit)"
    and get :: "stream \<Rightarrow> stream \<times> (core_error + 'm option)"
    and bytes_of :: "'m \<Rightarrow> bytes"
    and good :: "'m \<Rightarrow> bool"
  assumes put_good: "good m \<Longrightarrow> writable s \<Longrightarrow> put m s = (s\<lparr>st_out := st_out s @ bytes_of m\<rparr>, Inr ())"
    and get_good: "good m \<Longrightarrow> st_in s = bytes_of m @ rest \<Longrightarrow> get s = (s\<lparr>st_in := rest\<rparr>, Inr (Some m))"
    and get_end: "st_in s = [] \<Longrightarrow> st_end s = UnexpectedEof \<Longrightarrow> get s = (s, Inr None)"
begin

lemma send_all_good:
  "\<forall>m\<in>set ms. good m \<Longrightarrow> writable s \<Longrightarrow>
   send_all put ms s = (s\<lparr>st_out := st_out s @ concat (map bytes_of ms)\<rparr>, Inr ())"
proof (induction ms arbitrary: s)
  case Nil
  then show ?case by simp
next
  case (Cons m ms)
  have "writable (s\<lparr>st_out := st_out s @ bytes_of m\<rparr>)" using Cons.prems(2) by (simp add: writable_def)
  from Cons.IH [OF _ this] Cons.prems show ?case by (simp add: put_good)
qed

lemma recv_all_append:
  "\<forall>m\<in>set ms. good m \<Longrightarrow> st_in s = concat (map bytes_of ms) @ rest \<Longrightarrow>
   recv_all get (length ms + n) s =
     (let (ms', e) = recv_all get n (s\<lparr>st_in := rest\<rparr>) in (ms @ ms', e))"
proof (induction ms arbitrary: s)
  case Nil
  then have "s\<lparr>st_in := rest\<rparr> = s" by simp
  then show ?case by (simp add: split_def)
next
  case (Cons m ms)
  from Cons.prems have "get s = (s\<lparr>st_in := concat (map bytes_of ms) @ rest\<rparr>, Inr (Some m))"
    by (intro get_good) simp_all
  with Cons show ?case by (simp add: split_def Let_def)
qed

lemma recv_all_good:
  assumes "\<forall>m\<in>set ms. good m" "st_in s = concat (map bytes_of ms)" "st_end s = UnexpectedEof"
  shows "recv_all get (Suc (length ms)) s = (ms, Ended)"
proof -
  have "recv_all get (length ms + 1) s = (let (ms', e) = recv_all get 1 (s\<lparr>st_in := []\<rparr>) in (ms @ ms', e))"
    using assms by (intro recv_all_append) simp_all
  moreover have "get (s\<lparr>st_in := []\<rparr>) = (s\<lparr>st_in := []\<rparr>, Inr None)" using assms(3) by (intro get_end) simp_all
  ultimately show ?thesis by simp
qed

end

section \<open>The frames make a channel\<close>

definition json_of :: "('m \<Rightarrow> string + bytes) \<Rightarrow> 'm \<Rightarrow> bytes" where
  "json_of enc m = (case enc m of Inl _ \<Rightarrow> [] | Inr json \<Rightarrow> json)"

definition frame :: "('m \<Rightarrow> string + bytes) \<Rightarrow> 'm \<Rightarrow> bytes" where
  "frame enc m = to_be_bytes (of_nat (length (json_of enc m))) @ json_of enc m"

text \<open>A message that can be encoded, fits in a frame and is read back by the decoder.\<close>

definition codec_ok :: "('m \<Rightarrow> string + bytes) \<Rightarrow> (bytes \<Rightarrow> string + 'm) \<Rightarrow> 'm \<Rightarrow> bool" where
  "codec_ok enc dec m \<longleftrightarrow> enc m = Inr (json_of enc m) \<and> length (json_of enc m) \<le> MAX_FRAME_SIZE \<and>
     dec (json_of enc m) = Inr m"

lemma unat_frame_length: "n \<le> MAX_FRAME_SIZE \<Longrightarrow> unat (of_nat n :: u32) = n"
  by (simp add: MAX_FRAME_SIZE_def unat_of_nat)

lemma write_all_writable: "writable s \<Longrightarrow> write_all bs s = (s\<lparr>st_out := st_out s @ bs\<rparr>, None)"
  by (simp add: write_all_def writable_def)

lemma write_frame_good:
  assumes "writable s" "enc m = Inr json" "length json < 2 ^ 32"
  shows "write_frame wrap enc m s =
    (s\<lparr>st_out := st_out s @ to_be_bytes (of_nat (length json)) @ json\<rparr>, Inr ())"
proof -
  have "writable (s\<lparr>st_out := x\<rparr>)" for x using assms(1) by (simp add: writable_def)
  with assms show ?thesis by (simp add: write_frame_def write_all_writable writable_def)
qed

lemma read_prefix:
  assumes "st_in s = to_be_bytes w @ rest"
  shows "read_exact 4 s = (s\<lparr>st_in := rest\<rparr>, Inr (to_be_bytes w))"
  using assms by (simp add: read_exact_def)

lemma read_frame_good:
  assumes "codec_ok enc dec m" "st_in s = frame enc m @ rest"
  shows "read_frame dec s = (s\<lparr>st_in := rest\<rparr>, Inr (Some m))"
  using assms read_prefix [of s _ "json_of enc m @ rest"]
  by (simp add: codec_ok_def frame_def read_frame_def Let_def unat_frame_length read_exact_def)

lemma read_frame_end: "st_in s = [] \<Longrightarrow> st_end s = UnexpectedEof \<Longrightarrow> read_frame dec s = (s, Inr None)"
  by (simp add: read_frame_def read_exact_def)

lemma write_frame_codec:
  assumes "codec_ok enc dec m" "writable s"
  shows "write_frame wrap enc m s = (s\<lparr>st_out := st_out s @ frame enc m\<rparr>, Inr ())"
  using assms write_frame_good [OF assms(2), of enc m "json_of enc m" wrap]
  by (simp add: codec_ok_def frame_def MAX_FRAME_SIZE_def)

interpretation requests: message_channel "write_request enc" "read_request dec" "frame enc" "codec_ok enc dec"
  for enc :: "guest_request \<Rightarrow> string + bytes" and dec
  by unfold_locales
    (simp_all add: write_request_def read_request_def write_frame_codec read_frame_good read_frame_end)

interpretation responses: message_channel "write_response enc" "read_response dec" "frame enc" "codec_ok enc dec"
  for enc :: "guest_response \<Rightarrow> string + bytes" and dec
  by unfold_locales
    (simp_all add: write_response_def read_response_def write_frame_codec read_frame_good read_frame_end)

text \<open>A frame cut short, and one longer than the reader takes.\<close>

lemma read_frame_cut:
  assumes ok: "codec_ok enc dec m" and k: "k < length (frame enc m)"
    and s: "st_in s = take k (frame enc m)" "st_end s = UnexpectedEof"
  shows "recv_all (read_frame dec) (Suc n) s =
    ([], if k < 4 then Ended else FailedWith (ReadBody (length (json_of enc m)) UnexpectedEof))"
proof (cases "k < 4")
  case True
  with s show ?thesis by (simp add: read_frame_def read_exact_def frame_def)
next
  case False
  let ?j = "json_of enc m"
  have "st_in s = to_be_bytes (of_nat (length ?j)) @ take (k - 4) ?j" "k - 4 < length ?j"
    using s(1) False k by (simp_all add: frame_def)
  with read_prefix [OF this(1)] ok s(2) False show ?thesis
    by (simp add: read_frame_def Let_def codec_ok_def unat_frame_length) (simp add: read_exact_def)
qed

lemma read_frame_oversized:
  assumes "st_in s = to_be_bytes (of_nat n) @ rest" "MAX_FRAME_SIZE < n" "n < 2 ^ 32"
  shows "read_frame dec s = (s\<lparr>st_in := rest\<rparr>, Inl (BodyTooLarge n))"
  using assms(2,3) read_prefix [OF assms(1)] by (simp add: read_frame_def Let_def unat_of_nat)

section \<open>The protocol\<close>

text \<open>
  C9. Whatever requests the host writes, and whatever responses the guest writes, the other end
  reads exactly these messages in this order and then the end of the stream, provided that each
  message's encoding fits in a frame and the decoder reads it back.
\<close>

theorem protocol_roundtrip:
  assumes "\<forall>m\<in>set rqs. codec_ok enc dec m" "\<forall>m\<in>set rsps. codec_ok enc' dec' m"
    and "writable s" "st_out s = []" "s' = fst (send_all (write_request enc) rqs s)"
      "s'' = fst (send_all (write_response enc') rsps s)"
    and "st_in r = st_out s'" "st_end r = UnexpectedEof"
    and "st_in r' = st_out s''" "st_end r' = UnexpectedEof"
  shows "snd (send_all (write_request enc) rqs s) = Inr () \<and>
    recv_all (read_request dec) (Suc (length rqs)) r = (rqs, Ended) \<and>
    snd (send_all (write_response enc') rsps s) = Inr () \<and>
    recv_all (read_response dec') (Suc (length rsps)) r' = (rsps, Ended)"
  using requests.send_all_good [OF assms(1,3)] requests.recv_all_good [OF assms(1), of r]
    responses.send_all_good [OF assms(2,3)] responses.recv_all_good [OF assms(2), of r'] assms(4-)
  by simp

definition sample_enc :: "guest_request \<Rightarrow> string + bytes" where
  "sample_enc m = (case m of Input bs \<Rightarrow> Inr (0 # bs) | CloseShell \<Rightarrow> Inr [1] | _ \<Rightarrow> Inl ''?'')"

definition sample_dec :: "bytes \<Rightarrow> string + guest_request" where
  "sample_dec bs = (case bs of [] \<Rightarrow> Inl ''EOF'' | b # bs \<Rightarrow> Inr (if b = 0 then Input bs else CloseShell))"

definition sample_stream :: stream where
  "sample_stream = \<lparr>st_in = [], st_end = UnexpectedEof, st_out = [], st_room = None,
     st_werr = UnexpectedEof, st_flush = None\<rparr>"

lemma sample_codec: "codec_ok sample_enc sample_dec (Input [7])" "codec_ok sample_enc sample_dec CloseShell"
  by (simp_all add: codec_ok_def sample_enc_def sample_dec_def json_of_def MAX_FRAME_SIZE_def)

theorem protocol_roundtrip_witness:
  "recv_all (read_request sample_dec) 3 (sample_stream\<lparr>st_in := [0, 0, 0, 2, 0, 7, 0, 0, 0, 1, 1]\<rparr>) =
     ([Input [7], CloseShell], Ended)"
proof -
  let ?s = "fst (send_all (write_request sample_enc) [Input [7], CloseShell] sample_stream)"
  have out: "st_out ?s = [0, 0, 0, 2, 0, 7, 0, 0, 0, 1, 1]"
    by (simp add: write_request_def write_frame_def sample_enc_def write_all_def sample_stream_def
        to_be_bytes_def)
  show ?thesis
    using protocol_roundtrip [of "[Input [7], CloseShell]" sample_enc sample_dec "[]" undefined undefined
        sample_stream ?s sample_stream "sample_stream\<lparr>st_in := [0, 0, 0, 2, 0, 7, 0, 0, 0, 1, 1]\<rparr>"
        sample_stream] sample_codec out
    by (simp add: writable_def sample_stream_def eval_nat_numeral)
qed

text \<open>
  What the reader makes of damaged input. A stream that ends inside a frame gives all messages
  before it; then, if the end comes within the four bytes of the length, it looks like an orderly
  end, otherwise it is an error. And a message whose encoding is longer than the reader's limit is
  written without an error all the same, and makes the reader fail.
\<close>

theorem damaged_frames:
  assumes "\<forall>m'\<in>set ms. codec_ok enc dec m'" "codec_ok enc dec m" "k < length (frame enc m)"
    and "st_in r = concat (map (frame enc) ms) @ take k (frame enc m)" "st_end r = UnexpectedEof"
    and "MAX_FRAME_SIZE < length json" "length json < 2 ^ 32" "enc big = Inr json"
    and "writable s" "st_in r' = st_out s'" "st_out s = []" "s' = fst (write_request enc big s)"
  shows "recv_all (read_request dec) (length ms + 1) r = (ms,
      if k < 4 then Ended else FailedWith (ReadBody (length (json_of enc m)) UnexpectedEof)) \<and>
    snd (write_request enc big s) = Inr () \<and>
    snd (read_request dec r') = Inl (BodyTooLarge (length json))"
proof -
  have "recv_all (read_request dec) (Suc 0) (r\<lparr>st_in := take k (frame enc m)\<rparr>) =
      ([], if k < 4 then Ended else FailedWith (ReadBody (length (json_of enc m)) UnexpectedEof))"
    unfolding read_request_def using assms(2,3,5) by (intro read_frame_cut) simp_all
  moreover have "write_request enc big s =
      (s\<lparr>st_out := to_be_bytes (of_nat (length json)) @ json\<rparr>, Inr ())"
    using write_frame_good [of s enc big json WriteRequest] assms(7-9) assms(11) by (simp add: write_request_def)
  moreover from this have "read_request dec r' = (r'\<lparr>st_in := json\<rparr>, Inl (BodyTooLarge (length json)))"
    unfolding read_request_def using assms(6,7,10,12) by (intro read_frame_oversized) simp_all
  ultimately show ?thesis
    using requests.recv_all_append [OF assms(1,4), of 1] by simp
qed

definition sample_big_enc :: "guest_request \<Rightarrow> string + bytes" where
  "sample_big_enc m = (if m = OpenShell then Inr (replicate (Suc MAX_FRAME_SIZE) 0) else sample_enc m)"

theorem damaged_frames_witness:
  "recv_all (read_request sample_dec) 2 (sample_stream\<lparr>st_in := [0, 0, 0, 1, 1, 0, 0]\<rparr>) = ([CloseShell], Ended) \<and>
   snd (write_request sample_big_enc OpenShell sample_stream) = Inr ()"
proof -
  let ?s = "fst (write_request sample_big_enc OpenShell sample_stream)"
  have c: "codec_ok sample_big_enc sample_dec (Input [7])" "codec_ok sample_big_enc sample_dec CloseShell"
    using sample_codec by (simp_all add: codec_ok_def sample_big_enc_def json_of_def)
  have f: "frame sample_big_enc CloseShell = [0, 0, 0, 1, 1]" "frame sample_big_enc (Input [7]) = [0, 0, 0, 2, 0, 7]"
    by (simp_all add: frame_def json_of_def sample_big_enc_def sample_enc_def to_be_bytes_def)
  have big: "Suc MAX_FRAME_SIZE < 2 ^ 32" by (simp add: MAX_FRAME_SIZE_def)
  show ?thesis
    using damaged_frames [of "[CloseShell]" sample_big_enc sample_dec "Input [7]" 2
        "sample_stream\<lparr>st_in := [0, 0, 0, 1, 1, 0, 0]\<rparr>" "replicate (Suc MAX_FRAME_SIZE) 0" OpenShell
        sample_stream "sample_stream\<lparr>st_in := st_out ?s\<rparr>" ?s] c f big
    by (simp add: writable_def sample_stream_def sample_big_enc_def numeral_2_eq_2)
qed

end
