(* ===== verification/Guest_Files.thy ===== *)
theory Guest_Files
  imports Protocol
begin

text \<open>
  The file operations of the guest agent (\<open>akssora-guest-agent/src/files.rs\<close>): validation of paths,
  and the handlers that store a chunk of an upload and send a file in chunks. The files are a map
  from path texts to contents; what else the operating system answers is the record \<open>guest_os\<close>,
  so that every error path can be taken.
\<close>

section \<open>Paths\<close>

datatype component = Prefix string | RootDir | CurDir | ParentDir | Normal string

text \<open>\<open>Path::components\<close> on Unix: repeated separators and \<open>.\<close> are skipped, a \<open>.\<close> at the start of a
  relative path is kept.\<close>

definition is_absolute :: "string \<Rightarrow> bool" where
  "is_absolute s \<longleftrightarrow> s \<noteq> [] \<and> hd s = CHR ''/''"

definition part_component :: "string \<Rightarrow> component" where
  "part_component p = (if p = ''..'' then ParentDir else Normal p)"

definition components :: "string \<Rightarrow> component list" where
  "components s =
     (let parts = filter (\<lambda>p. p \<noteq> []) (split_on CHR ''/'' s);
          named = map part_component (filter (\<lambda>p. p \<noteq> ''.'') parts)
      in if is_absolute s then RootDir # named
         else if parts \<noteq> [] \<and> hd parts = ''.'' then CurDir # named
         else named)"

fun component_text :: "component \<Rightarrow> string" where
  "component_text (Prefix p) = p"
| "component_text RootDir = ''/''"
| "component_text CurDir = ''.''"
| "component_text ParentDir = ''..''"
| "component_text (Normal p) = p"

text \<open>\<open>PathBuf::push\<close> on Unix, and a path collected from components.\<close>

definition push_path :: "string \<Rightarrow> string \<Rightarrow> string" where
  "push_path buf p =
     (if is_absolute p then p
      else if buf \<noteq> [] \<and> last buf \<noteq> CHR ''/'' then buf @ ''/'' @ p
      else buf @ p)"

definition path_of :: "component list \<Rightarrow> string" where
  "path_of cs = foldl (\<lambda>buf c. push_path buf (component_text c)) [] cs"

text \<open>\<open>Path::parent\<close>, on the components.\<close>

definition parent_of :: "component list \<Rightarrow> component list option" where
  "parent_of cs =
     (if cs = [] then None
      else (case last cs of RootDir \<Rightarrow> None | Prefix _ \<Rightarrow> None | _ \<Rightarrow> Some (butlast cs)))"

lemma parent_of_shorter [termination_simp]: "parent_of cs = Some ds \<Longrightarrow> length ds < length cs"
  by (cases cs) (auto simp: parent_of_def split: component.splits)

section \<open>The operating system of the guest\<close>

text \<open>
  The answers of the system to a call on a path (and on an offset or data): the canonical form of a
  path, whether it exists, and for the file operations an error text, if it fails. A write may
  store a part before it fails, and what fails in the background, after the call has taken the data,
  gives no error that anybody looks at. \<open>os_len\<close> is the length the metadata of an open file reports, given
  its contents; \<open>os_read\<close> an error, or how much a read at an offset returns at most.
\<close>

record guest_os =
  os_canonical :: "string \<Rightarrow> string option"
  os_exists :: "string \<Rightarrow> bool"
  os_mkdir :: "string \<Rightarrow> string option"
  os_open :: "string \<Rightarrow> string option"
  os_seek :: "u64 \<Rightarrow> string option"
  os_write :: "bytes \<Rightarrow> (nat \<times> string option) option"
  os_len :: "string \<Rightarrow> bytes \<Rightarrow> nat option"
  os_read :: "nat \<Rightarrow> string + nat"

section \<open>Validation of a path\<close>

text \<open>The loop over the components; \<open>None\<close> where the source returns the error that the path escapes.\<close>

fun normalize_path :: "component list \<Rightarrow> component list \<Rightarrow> component list option" where
  "normalize_path [] acc = Some acc"
| "normalize_path (Prefix p # cs) acc = normalize_path cs (acc @ [Prefix p])"
| "normalize_path (RootDir # cs) acc = normalize_path cs [RootDir]"
| "normalize_path (CurDir # cs) acc = normalize_path cs acc"
| "normalize_path (ParentDir # cs) acc =
     (if acc = [] then None
      else if last acc = RootDir then None
      else normalize_path cs (butlast acc))"
| "normalize_path (Normal c # cs) acc = normalize_path cs (acc @ [Normal c])"

text \<open>The loop over the ancestors of a path that does not exist: the canonical form of the first one
  that leads out of the base.\<close>

definition leaves :: "guest_os \<Rightarrow> string \<Rightarrow> component list \<Rightarrow> string option" where
  "leaves os canonical_base cs =
     (case os_canonical os (path_of cs) of
        None \<Rightarrow> None
      | Some c \<Rightarrow> if prefix (components canonical_base) (components c) then None else Some c)"

fun bad_ancestor :: "guest_os \<Rightarrow> string \<Rightarrow> string \<Rightarrow> component list \<Rightarrow> string option" where
  "bad_ancestor os base canonical_base cs =
     (case parent_of cs of
        None \<Rightarrow> None
      | Some dir \<Rightarrow>
          (case (if prefix (components base) dir \<and> os_exists os (path_of dir)
                 then leaves os canonical_base dir else None) of
             Some c \<Rightarrow> Some c
           | None \<Rightarrow> bad_ancestor os base canonical_base dir))"

declare bad_ancestor.simps [simp del]

definition quoted :: "string \<Rightarrow> string" where
  "quoted s = ''`'' @ s @ ''`''"

definition resolve_and_validate_path ::
    "guest_os \<Rightarrow> string \<Rightarrow> string option \<Rightarrow> string + component list" where
  "resolve_and_validate_path os raw_path base_dir =
     (if CHR 0x00 \<in> set raw_path then Inl ''path contains null byte''
      else
        (let base = (case base_dir of None \<Rightarrow> ''/'' | Some b \<Rightarrow> b)
         in if is_absolute raw_path \<and> components base \<noteq> [RootDir] \<and>
               \<not> prefix (components base) (components raw_path)
            then Inl (''path traversal detected: '' @ quoted raw_path @ '' is outside sandbox root '' @
                   quoted base)
            else
              (let combined = (if is_absolute raw_path then raw_path else push_path base raw_path)
               in case normalize_path (components combined) [] of
                    None \<Rightarrow> Inl (''path traversal detected: '' @ quoted raw_path @ '' escapes sandbox root'')
                  | Some normalized \<Rightarrow>
                      if \<not> prefix (components base) normalized
                      then Inl (''path traversal detected: '' @ quoted (path_of normalized) @
                             '' is outside sandbox root '' @ quoted base)
                      else
                        (case os_canonical os base of
                           None \<Rightarrow> Inr normalized
                         | Some canonical_base \<Rightarrow>
                             if os_exists os (path_of normalized)
                             then (case leaves os canonical_base normalized of
                                     Some c \<Rightarrow> Inl (''path traversal detected: target '' @ quoted c @
                                       '' escapes base '' @ quoted canonical_base)
                                   | None \<Rightarrow> Inr normalized)
                             else (case bad_ancestor os base canonical_base normalized of
                                     Some c \<Rightarrow> Inl (''path traversal detected: ancestor '' @ quoted c @
                                       '' escapes base '' @ quoted canonical_base)
                                   | None \<Rightarrow> Inr normalized)))))"

section \<open>Errors of the agent\<close>

datatype (plugins only: size) guest_error =
    GuestVsockBind string
  | GuestProtocol core_error
  | GuestSpawnFailed string io_error
  | GuestStdoutNotPiped
  | GuestStderrNotPiped
  | GuestChildIo io_error
  | GuestWriteResponse core_error
  | GuestPtyOpen i32
  | GuestPtyClone io_error
  | GuestPtySpawn io_error
  | GuestPtyFcntl i32
  | GuestPtyRead io_error
  | GuestPtyWrite io_error
  | GuestPtyWait io_error
  | GuestAsyncFd io_error

type_synonym encoder = "guest_response \<Rightarrow> string + bytes"

definition respond :: "encoder \<Rightarrow> guest_response \<Rightarrow> stream \<Rightarrow> stream \<times> (guest_error + unit)" where
  "respond enc m s =
     (case write_response enc m s of
        (s', Inl error) \<Rightarrow> (s', Inl (GuestWriteResponse error))
      | (s', Inr _) \<Rightarrow> (s', Inr ()))"

section \<open>A chunk of an upload\<close>

type_synonym file_map = "string \<rightharpoonup> bytes"

text \<open>What writing at an offset makes of the contents: a gap is filled with zeros.\<close>

definition write_at :: "nat \<Rightarrow> bytes \<Rightarrow> bytes \<Rightarrow> bytes" where
  "write_at off data old =
     (if data = [] then old
      else take off old @ replicate (off - length old) 0 @ data @ drop (off + length data) old)"

text \<open>The result of the flush is not looked at, so a failure in the background is acknowledged like a success.
  The sum that stands in for the length cannot overflow: a seek is refused from \<open>2 ^ 63\<close> on, and the data
  came in one frame.\<close>

definition handle_write_file_chunk ::
    "guest_os \<Rightarrow> encoder \<Rightarrow> string \<Rightarrow> u64 \<Rightarrow> bytes \<Rightarrow> bool \<Rightarrow> stream \<times> file_map \<Rightarrow>
     (stream \<times> file_map) \<times> (guest_error + unit)" where
  "handle_write_file_chunk os enc path offset data is_last st =
     (let s = fst st; files = snd st;
          answer = (\<lambda>files m. (let (s', r) = respond enc m s in ((s', files), r)));
          fail = (\<lambda>files text. answer files (FileError path text))
      in case resolve_and_validate_path os path None of
           Inl err_msg \<Rightarrow> fail files err_msg
         | Inr resolved \<Rightarrow>
             (case (case parent_of resolved of
                      None \<Rightarrow> None
                    | Some parent \<Rightarrow> if path_of parent = [] then None else os_mkdir os (path_of parent)) of
                Some e \<Rightarrow> fail files (''failed to create parent directory: '' @ e)
              | None \<Rightarrow>
                  (case os_open os (path_of resolved) of
                     Some e \<Rightarrow> fail files (''failed to open file for writing: '' @ e)
                   | None \<Rightarrow>
                       (let old = (case files (path_of resolved) of None \<Rightarrow> [] | Some c \<Rightarrow> c);
                            opened = (if offset = 0 \<and> is_last \<and> data = [] then [] else old);
                            stored = (\<lambda>c. files(path_of resolved \<mapsto> c))
                        in case (if 0 < offset then os_seek os offset else None) of
                             Some e \<Rightarrow> fail (stored opened) (''failed to seek in file: '' @ e)
                           | None \<Rightarrow>
                               (case (if data = [] then None else os_write os data) of
                                  Some (k, Some e) \<Rightarrow>
                                    fail (stored (write_at (unat offset) (take k data) opened))
                                      (''failed to write chunk to file: '' @ e)
                                | failed \<Rightarrow>
                                    (let written = (case failed of None \<Rightarrow> data | Some (k, _) \<Rightarrow> take k data);
                                         new = write_at (unat offset) written opened
                                     in if is_last
                                        then answer (stored new) (FileWriteAck path
                                          (case os_len os (path_of resolved) new of
                                             Some n \<Rightarrow> of_nat n
                                           | None \<Rightarrow> offset + of_nat (length data)))
                                        else ((s, stored new), Inr ())))))))"

section \<open>Sending a file\<close>

text \<open>The size of one read: at most the buffer, what is left, and what the system returns; nothing
  only at the end of the file or into an empty buffer.\<close>

definition read_size :: "nat \<Rightarrow> nat \<Rightarrow> nat \<Rightarrow> nat" where
  "read_size most buffer left =
     (if buffer = 0 \<or> left = 0 then 0 else max 1 (min most (min buffer left)))"

lemma read_size_le: "read_size most buffer left \<le> left"
  by (auto simp: read_size_def)

function read_loop ::
    "guest_os \<Rightarrow> encoder \<Rightarrow> string \<Rightarrow> nat \<Rightarrow> nat \<Rightarrow> nat \<Rightarrow> bytes \<Rightarrow> stream \<Rightarrow> stream \<times> (guest_error + unit)" where
  "read_loop os enc path buffer total_len offset left s =
     (case os_read os offset of
        Inl e \<Rightarrow> respond enc (FileError path (''failed to read file '' @ quoted path @ '': '' @ e)) s
      | Inr most \<Rightarrow>
          (let n = read_size most buffer (length left); is_last = (n = 0 \<or> total_len \<le> offset + n)
           in case respond enc (ReadFileChunk path (of_nat offset) (take n left) is_last) s of
                (s', Inl error) \<Rightarrow> (s', Inl error)
              | (s', Inr _) \<Rightarrow>
                  if is_last then (s', Inr ())
                  else read_loop os enc path buffer total_len (offset + n) (drop n left) s'))"
  by pat_completeness auto
termination
  by (relation "measure (\<lambda>(_, _, _, _, _, _, left, _). length left)")
    (auto simp: read_size_def split: if_splits)

declare read_loop.simps [simp del]

definition handle_read_file ::
    "guest_os \<Rightarrow> encoder \<Rightarrow> string \<Rightarrow> u32 option \<Rightarrow> stream \<times> file_map \<Rightarrow>
     (stream \<times> file_map) \<times> (guest_error + unit)" where
  "handle_read_file os enc path chunk_size st =
     (let s = fst st; files = snd st;
          keep = (\<lambda>(s', r). ((s', files), r))
      in keep (case resolve_and_validate_path os path None of
           Inl err_msg \<Rightarrow> respond enc (FileError path err_msg) s
         | Inr resolved \<Rightarrow>
             (case (os_open os (path_of resolved), files (path_of resolved)) of
                (Some e, _) \<Rightarrow>
                  respond enc (FileError path (''failed to open file '' @ quoted path @ '': '' @ e)) s
              | (None, None) \<Rightarrow>
                  respond enc (FileError path (''failed to open file '' @ quoted path @
                    '': No such file or directory (os error 2)'')) s
              | (None, Some c) \<Rightarrow>
                  (let buffer_size = (case chunk_size of None \<Rightarrow> 64 * 1024 | Some k \<Rightarrow> unat k);
                       total_len = (case os_len os (path_of resolved) c of None \<Rightarrow> 0 | Some n \<Rightarrow> n)
                   in if total_len = 0
                      then respond enc (ReadFileChunk path 0 [] True) s
                      else read_loop os enc path buffer_size total_len 0 c s))))"


section \<open>Paths and their text\<close>

definition clean_name :: "string \<Rightarrow> bool" where
  "clean_name n \<longleftrightarrow> n \<noteq> [] \<and> CHR ''/'' \<notin> set n \<and> n \<noteq> ''.'' \<and> n \<noteq> ''..''"

lemma split_on_append_sep: "split_on c (s @ c # t) = split_on c s @ split_on c t"
proof (induction s)
  case Nil
  then show ?case by simp
next
  case (Cons x s)
  moreover have "split_on c s \<noteq> []" by (cases s) (auto split: list.split)
  ultimately show ?case by (auto simp: neq_Nil_conv)
qed

lemma split_on_parts: "p \<in> set (split_on c s) \<Longrightarrow> c \<notin> set p"
  by (induction s arbitrary: p) (auto split: list.splits if_splits)

lemma components_absolute:
  "is_absolute s \<Longrightarrow> components s = RootDir # map part_component
     (filter (\<lambda>p. p \<noteq> ''.'') (filter (\<lambda>p. p \<noteq> []) (split_on CHR ''/'' s)))"
  by (simp add: components_def Let_def)

lemma component_kinds:
  assumes "c \<in> set (components s)"
  shows "c = RootDir \<or> c = CurDir \<or> c = ParentDir \<or> (\<exists>n. c = Normal n \<and> clean_name n)"
proof -
  have "part_component p = ParentDir \<or> (\<exists>n. part_component p = Normal n \<and> clean_name n)"
    if "p \<in> set (split_on CHR ''/'' s)" "p \<noteq> []" "p \<noteq> ''.''" for p
    using split_on_parts [OF that(1)] that(2-) by (auto simp: part_component_def clean_name_def)
  with assms show ?thesis by (fastforce simp: components_def Let_def split: if_splits)
qed

lemma components_push:
  assumes "is_absolute buf" "clean_name n"
  shows "components (push_path buf n) = components buf @ [Normal n]"
proof -
  have n: "split_on CHR ''/'' n = [n]" "n \<noteq> []" "n \<noteq> ''.''" "part_component n = Normal n"
      "\<not> is_absolute n"
    using assms(2) by (cases n; auto simp: clean_name_def split_on_free part_component_def is_absolute_def)+
  have abs: "is_absolute (push_path buf n)"
    using assms(1) n(5) by (auto simp: push_path_def is_absolute_def)
  show ?thesis
  proof (cases "last buf = CHR ''/''")
    case True
    obtain b where b: "buf = b @ ''/''"
      using True assms(1) by (metis append_butlast_last_id is_absolute_def)
    then have "push_path buf n = b @ CHR ''/'' # n" using n(5) by (simp add: push_path_def)
    with abs assms(1) n b show ?thesis
      by (simp add: components_absolute split_on_append_sep)
  next
    case False
    then have "push_path buf n = buf @ CHR ''/'' # n"
      using n(5) assms(1) by (simp add: push_path_def is_absolute_def)
    with abs assms(1) n show ?thesis by (simp add: components_absolute split_on_append_sep)
  qed
qed

lemma path_of_snoc: "path_of (cs @ [c]) = push_path (path_of cs) (component_text c)"
  by (simp add: path_of_def)

lemma push_path_absolute: "is_absolute b \<Longrightarrow> is_absolute (push_path b p)"
  by (auto simp: push_path_def is_absolute_def)

text \<open>A clean rooted path is recovered from its text: distinct paths have distinct texts.\<close>

lemma components_path_of:
  "\<forall>n\<in>set ns. clean_name n \<Longrightarrow>
   components (path_of (RootDir # map Normal ns)) = RootDir # map Normal ns \<and>
   is_absolute (path_of (RootDir # map Normal ns))"
proof (induction ns rule: rev_induct)
  case Nil
  then show ?case by (simp add: path_of_def push_path_def components_def is_absolute_def)
next
  case (snoc n ns)
  then show ?case
    using path_of_snoc [of "RootDir # map Normal ns" "Normal n"]
    by (simp add: components_push push_path_absolute)
qed

section \<open>What validation accepts\<close>

text \<open>How far a component list leads below where it starts.\<close>

fun depth :: "component list \<Rightarrow> int" where
  "depth [] = 0"
| "depth (Normal _ # cs) = 1 + depth cs"
| "depth (ParentDir # cs) = depth cs - 1"
| "depth (_ # cs) = depth cs"

definition stays_below :: "component list \<Rightarrow> bool" where
  "stays_below cs \<longleftrightarrow> (\<forall>i\<le>length cs. 0 \<le> depth (take i cs))"

fun walk :: "component list \<Rightarrow> string list \<Rightarrow> string list option" where
  "walk [] ns = Some ns"
| "walk (Normal n # cs) ns = walk cs (ns @ [n])"
| "walk (_ # cs) ns = (if ns = [] then None else walk cs (butlast ns))"

definition steps :: "component list \<Rightarrow> bool" where
  "steps cs \<longleftrightarrow> (\<forall>c\<in>set cs. c = ParentDir \<or> (\<exists>n. c = Normal n \<and> clean_name n))"

lemma steps_Cons: "steps (c # cs) \<longleftrightarrow> (c = ParentDir \<or> (\<exists>n. c = Normal n \<and> clean_name n)) \<and> steps cs"
  by (auto simp: steps_def)

lemma normalize_walk:
  "steps cs \<Longrightarrow> normalize_path cs (RootDir # map Normal ns) =
     map_option (\<lambda>ms. RootDir # map Normal ms) (walk cs ns)"
proof (induction cs arbitrary: ns)
  case Nil
  then show ?case by simp
next
  case (Cons c cs)
  then consider "c = ParentDir" | n where "c = Normal n" by (auto simp: steps_Cons)
  then show ?case
  proof cases
    case 1
    then show ?thesis using Cons
      by (cases ns rule: rev_cases) (simp_all add: steps_Cons butlast_append)
  next
    case 2
    then show ?thesis using Cons.IH [of "ns @ [n]"] Cons.prems by (simp add: steps_Cons)
  qed
qed

lemma all_le_Suc: "(\<forall>i\<le>Suc n. P i) \<longleftrightarrow> P 0 \<and> (\<forall>i\<le>n. P (Suc i))"
  by (metis Suc_le_mono le0 not0_implies_Suc)

lemma walk_defined:
  "steps cs \<Longrightarrow> walk cs ns \<noteq> None \<longleftrightarrow> (\<forall>i\<le>length cs. 0 \<le> int (length ns) + depth (take i cs))"
proof (induction cs arbitrary: ns)
  case Nil
  then show ?case by simp
next
  case (Cons c cs)
  then consider "c = ParentDir" | n where "c = Normal n" by (auto simp: steps_Cons)
  then show ?case
  proof cases
    case 1
    then show ?thesis
      using Cons.IH [of "butlast ns"] Cons.prems
      by (cases ns rule: rev_cases) (auto simp: steps_Cons all_le_Suc algebra_simps)
  next
    case 2
    then show ?thesis using Cons.IH [of "ns @ [n]"] Cons.prems
      by (simp add: steps_Cons all_le_Suc algebra_simps)
  qed
qed

lemma walk_clean: "steps cs \<Longrightarrow> walk cs ns = Some ms \<Longrightarrow> \<forall>n\<in>set ns. clean_name n \<Longrightarrow> \<forall>n\<in>set ms. clean_name n"
  by (induction cs ns rule: walk.induct)
    (auto simp: steps_Cons split: if_splits dest: in_set_butlastD)

lemma absolute_components:
  assumes "is_absolute s"
  obtains cs where "components s = RootDir # cs" "steps cs"
proof -
  let ?cs = "map part_component (filter (\<lambda>p. p \<noteq> ''.'') (filter (\<lambda>p. p \<noteq> []) (split_on CHR ''/'' s)))"
  have "components s = RootDir # ?cs" by (rule components_absolute [OF assms])
  moreover have "steps ?cs"
    using split_on_parts [of _ "CHR ''/''" s] by (auto simp: steps_def part_component_def clean_name_def)
  ultimately show thesis by (rule that)
qed

lemma normalize_absolute:
  assumes "is_absolute s"
  shows "normalize_path (components s) [] = map_option (\<lambda>ns. RootDir # map Normal ns) (walk (tl (components s)) []) \<and>
    (walk (tl (components s)) [] \<noteq> None \<longleftrightarrow> stays_below (tl (components s)))"
proof -
  obtain cs where "components s = RootDir # cs" "steps cs" using assms by (rule absolute_components)
  then show ?thesis
    using normalize_walk [of cs "[]"] walk_defined [of cs "[]"] by (simp add: stays_below_def)
qed


lemma parent_of_snoc:
  "parent_of (RootDir # map Normal ns @ [Normal n]) = Some (RootDir # map Normal ns)"
  "parent_of [RootDir] = None"
  by (simp_all add: parent_of_def butlast_append)

lemma prefix_rooted_snoc:
  "prefix dir (RootDir # map Normal (ns @ [n])) \<longleftrightarrow>
   dir = RootDir # map Normal (ns @ [n]) \<or> prefix dir (RootDir # map Normal ns)"
  using prefix_snoc [of dir "RootDir # map Normal ns" "Normal n"] by simp

lemma no_bad_ancestor:
  "bad_ancestor os base cb (RootDir # map Normal ns) = None \<Longrightarrow>
   strict_prefix dir (RootDir # map Normal ns) \<Longrightarrow> dir \<noteq> [] \<Longrightarrow> prefix (components base) dir \<Longrightarrow>
   os_exists os (path_of dir) \<Longrightarrow> leaves os cb dir = None"
proof (induction ns rule: rev_induct)
  case Nil
  then show ?case by (auto simp: strict_prefix_def prefix_Cons)
next
  case (snoc n ns)
  let ?up = "RootDir # map Normal ns"
  have step: "bad_ancestor os base cb ?up = None"
    "prefix (components base) ?up \<and> os_exists os (path_of ?up) \<longrightarrow> leaves os cb ?up = None"
    using snoc.prems(1)
    by (auto simp: bad_ancestor.simps [of os base cb "RootDir # map Normal ns @ [Normal n]"]
        parent_of_snoc split: option.splits if_splits)
  have "prefix dir ?up" using snoc.prems(2) unfolding strict_prefix_def prefix_rooted_snoc by blast
  then show ?case
    using snoc.IH [OF step(1)] snoc.prems(3-) step(2) by (cases "dir = ?up") (auto simp: strict_prefix_def)
qed

lemma normalized_form:
  assumes "is_absolute s" "normalize_path (components s) [] = Some cs"
  shows "\<exists>ns. cs = RootDir # map Normal ns \<and> (\<forall>n\<in>set ns. clean_name n)"
proof -
  obtain rest where rest: "components s = RootDir # rest" "steps rest"
    using assms(1) by (rule absolute_components)
  from assms(2) normalize_walk [OF this(2), of "[]"] this(1)
  obtain ns where "walk rest [] = Some ns" "cs = RootDir # map Normal ns"
    by (cases "walk rest []") auto
  then show ?thesis using walk_clean [OF rest(2)] by auto
qed

lemma resolved_form:
  assumes "resolve_and_validate_path os raw (Some base) = Inr cs" "is_absolute base"
  shows "\<exists>ns. cs = RootDir # map Normal ns \<and> (\<forall>n\<in>set ns. clean_name n)"
proof -
  let ?s = "if is_absolute raw then raw else push_path base raw"
  have "is_absolute ?s" using assms(2) by (simp add: push_path_absolute)
  moreover have "normalize_path (components ?s) [] = Some cs"
    using assms(1) by (simp add: resolve_and_validate_path_def Let_def split: if_splits option.splits)
  ultimately show ?thesis by (rule normalized_form)
qed

lemma components_root [simp]: "components ''/'' = [RootDir]"
  by (simp add: components_def is_absolute_def)

lemma resolve_default: "resolve_and_validate_path os raw None = resolve_and_validate_path os raw (Some ''/'')"
  by (simp add: resolve_and_validate_path_def)

lemma leaves_root:
  assumes "\<forall>p c. os_canonical os p = Some c \<longrightarrow> is_absolute c"
  shows "leaves os ''/'' dir = None"
proof (cases "os_canonical os (path_of dir)")
  case None
  then show ?thesis by (simp add: leaves_def)
next
  case (Some c)
  with assms have "is_absolute c" by blast
  then obtain cs where "components c = RootDir # cs" by (rule absolute_components)
  with Some show ?thesis by (simp add: leaves_def)
qed

lemma bad_ancestor_root:
  assumes "\<forall>p c. os_canonical os p = Some c \<longrightarrow> is_absolute c"
  shows "bad_ancestor os base ''/'' cs = None"
proof (induction cs rule: length_induct)
  case (1 cs)
  then show ?case
    using leaves_root [OF assms] parent_of_shorter [of cs]
    by (auto simp: bad_ancestor.simps [of os base _ cs] split: option.split)
qed

text \<open>
  C7. A path that validation returns is rooted, has no \<open>.\<close>, \<open>..\<close> or empty component, is the one its
  text denotes, and lies under the base; if the base has a canonical form, then the target or, when
  it does not exist, no existing directory between it and the base leads out of the base through
  links. Without a base, as the agent calls it, exactly those texts are accepted that hold no null
  byte and at no component lead above the root.
\<close>

theorem resolve_confines:
  assumes "is_absolute base" "resolve_and_validate_path os raw (Some base) = Inr cs"
    and "\<And>p c. os' p = Some c \<Longrightarrow> is_absolute c" "os' ''/'' \<in> {None, Some ''/''}"
  shows "(\<exists>ns. cs = RootDir # map Normal ns \<and> (\<forall>n\<in>set ns. clean_name n)) \<and>
    components (path_of cs) = cs \<and> prefix (components base) cs \<and>
    (\<forall>cb. os_canonical os base = Some cb \<longrightarrow>
      (if os_exists os (path_of cs) then leaves os cb cs = None
       else \<forall>dir. strict_prefix dir cs \<and> dir \<noteq> [] \<and> prefix (components base) dir \<and>
         os_exists os (path_of dir) \<longrightarrow> leaves os cb dir = None)) \<and>
    ((\<exists>cs'. resolve_and_validate_path (os\<lparr>os_canonical := os'\<rparr>) raw' None = Inr cs') \<longleftrightarrow>
      CHR 0x00 \<notin> set raw' \<and>
      stays_below (tl (components (if is_absolute raw' then raw' else ''/'' @ raw'))))"
proof -
  obtain ns where ns: "cs = RootDir # map Normal ns" "\<forall>n\<in>set ns. clean_name n"
    using resolved_form [OF assms(2,1)] by auto
  have "components (path_of cs) = cs" using components_path_of [OF ns(2)] ns(1) by simp
  moreover have "prefix (components base) cs" and canon:
    "os_canonical os base = Some cb \<Longrightarrow>
      (if os_exists os (path_of cs) then leaves os cb cs = None else bad_ancestor os base cb cs = None)" for cb
    using assms(2)
    by (auto simp: resolve_and_validate_path_def Let_def split: if_splits option.splits)
  moreover have "(\<exists>cs'. resolve_and_validate_path (os\<lparr>os_canonical := os'\<rparr>) raw' None = Inr cs') \<longleftrightarrow>
      CHR 0x00 \<notin> set raw' \<and>
      stays_below (tl (components (if is_absolute raw' then raw' else ''/'' @ raw')))"
  proof -
    let ?s = "if is_absolute raw' then raw' else ''/'' @ raw'"
    let ?os = "os\<lparr>os_canonical := os'\<rparr>"
    have s: "\<not> is_absolute raw' \<Longrightarrow> push_path ''/'' raw' = CHR ''/'' # raw'" "is_absolute ?s"
      by (simp_all add: push_path_def is_absolute_def)
    note n = normalize_absolute [OF s(2)]
    have "\<forall>p c. os_canonical ?os p = Some c \<longrightarrow> is_absolute c" using assms(3) by simp
    note root = leaves_root [OF this] bad_ancestor_root [OF this]
    show ?thesis
    proof (cases "walk (tl (components ?s)) []")
      case None
      with n have "normalize_path (components ?s) [] = None" "\<not> stays_below (tl (components ?s))"
        by simp_all
      then show ?thesis
        by (cases "is_absolute raw'") (simp_all add: resolve_and_validate_path_def s(1))
    next
      case (Some ns)
      with n have m: "normalize_path (components ?s) [] = Some (RootDir # map Normal ns)"
        "stays_below (tl (components ?s))" by simp_all
      have "os' ''/'' = None \<or> os' ''/'' = Some ''/''" using assms(4) by auto
      with m show ?thesis
        by (elim disjE; cases "is_absolute raw'") (simp_all add: resolve_and_validate_path_def s(1) root Let_def)
    qed
  qed
  ultimately show ?thesis using ns no_bad_ancestor [of os base _ ns] by (auto split: if_splits)
qed

text \<open>A system without failures and without links.\<close>

definition plain_os :: "(string \<Rightarrow> bool) \<Rightarrow> (nat \<Rightarrow> nat) \<Rightarrow> guest_os" where
  "plain_os exs most = \<lparr>os_canonical = Some, os_exists = exs, os_mkdir = (\<lambda>_. None), os_open = (\<lambda>_. None),
     os_seek = (\<lambda>_. None), os_write = (\<lambda>_. None), os_len = (\<lambda>_ c. Some (length c)),
     os_read = (\<lambda>off. Inr (most off))\<rparr>"

theorem resolve_confines_witness:
  "resolve_and_validate_path (plain_os (\<lambda>_. True) id) ''a/../b'' (Some ''/box'') =
     Inr [RootDir, Normal ''box'', Normal ''b''] \<and>
   components (path_of [RootDir, Normal ''box'', Normal ''b'']) = [RootDir, Normal ''box'', Normal ''b''] \<and>
   \<not> stays_below (tl (components ''/../b''))"
proof -
  let ?os = "plain_os (\<lambda>_. True) id"
  have r: "resolve_and_validate_path ?os ''a/../b'' (Some ''/box'') = Inr [RootDir, Normal ''box'', Normal ''b'']"
    by (simp add: resolve_and_validate_path_def plain_os_def is_absolute_def push_path_def components_def
        part_component_def leaves_def path_of_def)
  have "is_absolute ''/box''" by (simp add: is_absolute_def)
  note c = resolve_confines [OF this r, of "\<lambda>_. None" "''../b''"]
  have "\<not> (\<exists>cs'. resolve_and_validate_path (?os\<lparr>os_canonical := \<lambda>_. None\<rparr>) ''../b'' None = Inr cs')"
    by (simp add: resolve_and_validate_path_def plain_os_def is_absolute_def push_path_def components_def
        part_component_def)
  with r c show ?thesis by (simp add: is_absolute_def)
qed


section \<open>What the handlers do on a working system\<close>

lemma respond_good:
  "codec_ok enc dec m \<Longrightarrow> writable s \<Longrightarrow> respond enc m s = (s\<lparr>st_out := st_out s @ frame enc m\<rparr>, Inr ())"
  using responses.put_good [of enc dec m s] by (simp add: respond_def)

text \<open>A path that validates as the text \<open>p\<close> and on which no call of the system fails.\<close>

definition accepts :: "guest_os \<Rightarrow> string \<Rightarrow> string \<Rightarrow> bool" where
  "accepts os path p \<longleftrightarrow> (\<exists>cs. resolve_and_validate_path os path None = Inr cs \<and> p = path_of cs) \<and>
     os_mkdir os = (\<lambda>_. None) \<and> os_open os p = None \<and> os_seek os = (\<lambda>_. None) \<and>
     os_write os = (\<lambda>_. None) \<and> (\<forall>c. os_len os p c = Some (length c)) \<and> (\<forall>o'. \<exists>m. os_read os o' = Inr m)"

definition contents :: "file_map \<Rightarrow> string \<Rightarrow> bytes" where
  "contents files p = (case files p of None \<Rightarrow> [] | Some c \<Rightarrow> c)"

lemma chunk_stored:
  assumes "accepts os path p"
    and "new = write_at (unat offset) data
      (if offset = 0 \<and> is_last \<and> data = [] then [] else contents files p)"
    and "is_last \<Longrightarrow> codec_ok enc dec (FileWriteAck path (of_nat (length new)))" "writable s"
  shows "handle_write_file_chunk os enc path offset data is_last (s, files) =
    ((if is_last then s\<lparr>st_out := st_out s @ frame enc (FileWriteAck path (of_nat (length new)))\<rparr> else s,
      files(p \<mapsto> new)), Inr ())"
proof -
  obtain cs where cs: "resolve_and_validate_path os path None = Inr cs" "p = path_of cs"
    using assms(1) by (auto simp: accepts_def)
  have "os_mkdir os = (\<lambda>_. None)" "os_open os p = None" "os_seek os = (\<lambda>_. None)"
    "os_write os = (\<lambda>_. None)" "\<And>c. os_len os p c = Some (length c)"
    using assms(1) by (auto simp: accepts_def)
  moreover from respond_good [OF assms(3,4)]
  have "is_last \<Longrightarrow> respond enc (FileWriteAck path (of_nat (length new))) s =
    (s\<lparr>st_out := st_out s @ frame enc (FileWriteAck path (of_nat (length new)))\<rparr>, Inr ())" .
  ultimately show ?thesis
  proof -
    note os = \<open>os_mkdir os = (\<lambda>_. None)\<close> \<open>os_open os p = None\<close> \<open>os_seek os = (\<lambda>_. None)\<close>
      \<open>os_write os = (\<lambda>_. None)\<close> \<open>\<And>c. os_len os p c = Some (length c)\<close>
    have "handle_write_file_chunk os enc path offset data is_last (s, files) =
      (if is_last then (let (s', r) = respond enc (FileWriteAck path (of_nat (length new))) s
         in ((s', files(p \<mapsto> new)), r)) else ((s, files(p \<mapsto> new)), Inr ()))"
      using cs os unfolding assms(2)
      by (simp add: handle_write_file_chunk_def Let_def flip: contents_def split: option.split)
    with \<open>is_last \<Longrightarrow> respond _ _ s = _\<close> show ?thesis by simp
  qed
qed

text \<open>A chunk of which the system stores only a part, with an error that comes after the call, is
  acknowledged all the same.\<close>

lemma late_error_acknowledged:
  assumes "resolve_and_validate_path os path None = Inr cs" "p = path_of cs" "os_mkdir os = (\<lambda>_. None)"
    "os_open os p = None" "os_seek os = (\<lambda>_. None)" "\<And>c. os_len os p c = Some (length c)"
    and "os_write os data = Some (k, None)" "data \<noteq> []" "new = write_at (unat offset) (take k data) (contents files p)"
  shows "handle_write_file_chunk os enc path offset data True (s, files) =
    (let (s', r) = respond enc (FileWriteAck path (of_nat (length new))) s in ((s', files(p \<mapsto> new)), r))"
  using assms(1-8) unfolding assms(9)
  by (simp add: handle_write_file_chunk_def Let_def flip: contents_def split: option.split)

text \<open>The responses to a download: chunks, only the last one marked as the last.\<close>

inductive chunk_stream :: "guest_response list \<Rightarrow> bytes \<Rightarrow> bool" where
  Last: "chunk_stream [ReadFileChunk path off d True] d"
| Next: "chunk_stream rs c \<Longrightarrow> chunk_stream (ReadFileChunk path off d False # rs) (d @ c)"

inductive_cases chunk_stream_elim: "chunk_stream rs c"

lemma read_loop_stream:
  assumes "0 < buffer" "\<forall>o'. \<exists>m. os_read os o' = Inr m"
    and "\<forall>o' d l. length d \<le> buffer \<longrightarrow> codec_ok enc dec (ReadFileChunk path o' d l)"
  shows "left \<noteq> [] \<Longrightarrow> total_len = offset + length left \<Longrightarrow> writable s \<Longrightarrow>
    \<exists>rs. read_loop os enc path buffer total_len offset left s =
        (s\<lparr>st_out := st_out s @ concat (map (frame enc) rs)\<rparr>, Inr ()) \<and>
      chunk_stream rs left \<and> (\<forall>r\<in>set rs. codec_ok enc dec r)"
proof (induction left arbitrary: offset s rule: length_induct)
  case (1 left)
  obtain most where most: "os_read os offset = Inr most" using assms(2) by blast
  define n where "n = read_size most buffer (length left)"
  let ?r = "ReadFileChunk path (of_nat offset) (take n left)"
  have n: "0 < n" "n \<le> length left" "length (take n left) \<le> buffer"
    using 1(2) assms(1) by (auto simp: n_def read_size_def Suc_le_eq)
  have ok: "codec_ok enc dec (?r l)" for l using assms(3) n(3) by blast
  have sent: "respond enc (?r l) s = (s\<lparr>st_out := st_out s @ frame enc (?r l)\<rparr>, Inr ())" for l
    using ok 1(4) by (rule respond_good)
  have unfolded: "read_loop os enc path buffer total_len offset left s =
      (if n = length left then (s\<lparr>st_out := st_out s @ frame enc (?r True)\<rparr>, Inr ())
       else read_loop os enc path buffer total_len (offset + n) (drop n left)
         (s\<lparr>st_out := st_out s @ frame enc (?r False)\<rparr>))"
    using n 1(3) by (subst read_loop.simps) (simp add: most sent Let_def flip: n_def)
  show ?case
  proof (cases "n = length left")
    case True
    then have "chunk_stream [?r True] left" using chunk_stream.Last [of path _ "take n left"] by simp
    with True ok show ?thesis by (intro exI [of _ "[?r True]"]) (simp add: unfolded)
  next
    case False
    let ?s = "s\<lparr>st_out := st_out s @ frame enc (?r False)\<rparr>"
    have "writable ?s" using 1(4) by (simp add: writable_def)
    moreover have "length (drop n left) < length left" "drop n left \<noteq> []"
      "total_len = offset + n + length (drop n left)" using n 1(3) False by auto
    ultimately obtain rs where rs: "read_loop os enc path buffer total_len (offset + n) (drop n left) ?s =
        (?s\<lparr>st_out := st_out ?s @ concat (map (frame enc) rs)\<rparr>, Inr ())"
      "chunk_stream rs (drop n left)" "\<forall>r\<in>set rs. codec_ok enc dec r"
      using 1(1) by blast
    have "chunk_stream (?r False # rs) left"
      using chunk_stream.Next [OF rs(2), of path "of_nat offset" "take n left"] by simp
    with rs ok False show ?thesis by (intro exI [of _ "?r False # rs"]) (simp add: unfolded)
  qed
qed

lemma read_file_stream:
  assumes "accepts os path p" "files p = Some c" "0 < unat csize" "writable s"
    and "\<forall>o' d l. length d \<le> unat csize \<longrightarrow> codec_ok enc dec (ReadFileChunk path o' d l)"
  shows "\<exists>rs. handle_read_file os enc path (Some csize) (s, files) =
        ((s\<lparr>st_out := st_out s @ concat (map (frame enc) rs)\<rparr>, files), Inr ()) \<and>
      chunk_stream rs c \<and> (\<forall>r\<in>set rs. codec_ok enc dec r)"
proof -
  obtain cs where cs: "resolve_and_validate_path os path None = Inr cs" "p = path_of cs"
    "os_open os p = None" "os_len os p c = Some (length c)" "\<forall>o'. \<exists>m. os_read os o' = Inr m"
    using assms(1) by (auto simp: accepts_def)
  show ?thesis
  proof (cases "c = []")
    case True
    have "respond enc (ReadFileChunk path 0 [] True) s =
        (s\<lparr>st_out := st_out s @ frame enc (ReadFileChunk path 0 [] True)\<rparr>, Inr ())"
      using assms(4,5) by (intro respond_good [of enc dec]) simp_all
    then show ?thesis using cs True assms(2,5) chunk_stream.Last [of path 0 "[]"]
      by (intro exI [of _ "[ReadFileChunk path 0 [] True]"]) (simp add: handle_read_file_def)
  next
    case False
    then show ?thesis
      using read_loop_stream [OF assms(3) cs(5) assms(5) False, of "length c" 0 s] cs assms(2,4)
      by (auto simp: handle_read_file_def)
  qed
qed

end
