(* ===== verification/Guest_Shell.thy ===== *)
theory Guest_Shell
  imports Guest_Files
begin

text \<open>
  An interactive shell in the guest (\<open>akssora-guest-agent/src/pty_session.rs\<close>): the set-up of the
  terminal and of the shell's process, the loop that waits for the terminal, for a request of the
  host or for the end of the shell, and the loop that writes input to the terminal. What the system
  answers, and which of the three becomes ready next, are lists of events.
\<close>

section \<open>Set-up\<close>

record command =
  cmd_program :: string
  cmd_args :: "string list"
  cmd_env :: "(string \<times> string) list"

record shell_setup =
  su_openpty :: "i32 option"
  su_clone_stdin :: "io_error option"
  su_clone_stdout :: "io_error option"
  su_spawn :: "command \<Rightarrow> io_error option"
  su_getfl :: "i32 option"
  su_setfl :: "i32 option"
  su_asyncfd :: "io_error option"

definition text_bytes :: "string \<Rightarrow> bytes" where
  "text_bytes s = map of_char s"

definition prompt_rc :: string where
  "prompt_rc = ''export PS1='' @ [CHR 0x27, CHR 0x5C] @ ''['' @ [CHR 0x5C] @ ''033[1;36m'' @ [CHR 0x5C] @
     '']akssora>'' @ [CHR 0x5C] @ ''['' @ [CHR 0x5C] @ ''033[0m'' @ [CHR 0x5C] @ ''] '' @
     [CHR 0x27, CHR 0x0A] @ ''export PROMPT_COMMAND='' @ [CHR 0x27, CHR 0x27, CHR 0x0A]"

text \<open>Creating a file that is only appended to, and \<open>std::fs::write\<close>, both with errors ignored.\<close>

definition touch_file :: "guest_os \<Rightarrow> string \<Rightarrow> file_map \<Rightarrow> file_map" where
  "touch_file os p files =
     (if os_open os p = None \<and> files p = None then files(p \<mapsto> []) else files)"

definition put_file :: "guest_os \<Rightarrow> string \<Rightarrow> string \<Rightarrow> file_map \<Rightarrow> file_map" where
  "put_file os p text files =
     (case os_open os p of
        Some _ \<Rightarrow> files
      | None \<Rightarrow>
          (case os_write os (text_bytes text) of
             None \<Rightarrow> files(p \<mapsto> text_bytes text)
           | Some (k, _) \<Rightarrow> files(p \<mapsto> take k (text_bytes text))))"

definition shell_files :: "guest_os \<Rightarrow> file_map \<Rightarrow> file_map" where
  "shell_files os =
     put_file os ''/etc/hostname'' (''akssora'' @ [CHR 0x0A]) \<circ>
     put_file os ''/etc/profile.d/akssora.sh'' prompt_rc \<circ>
     put_file os ''/root/.profile'' prompt_rc \<circ>
     put_file os ''/root/.bashrc'' prompt_rc \<circ>
     touch_file os ''/root/.bash_history'' \<circ>
     touch_file os ''/root/.python_history''"

definition shell_command :: "guest_os \<Rightarrow> command" where
  "shell_command os = \<lparr>cmd_program = (if os_exists os ''/bin/bash'' then ''/bin/bash'' else ''/bin/sh''),
     cmd_args = [''-l''],
     cmd_env = [(''TERM'', ''xterm-256color''), (''HOME'', ''/root''), (''USER'', ''root''),
       (''PS1'', [CHR 0x1B] @ ''[1;36makssora>'' @ [CHR 0x1B] @ ''[0m ''), (''PROMPT_COMMAND'', ''''),
       (''PATH'', ''/usr/local/sbin:/usr/local/bin:/usr/sbin:/usr/bin:/sbin:/bin'')]\<rparr>"

definition set_up :: "guest_os \<Rightarrow> shell_setup \<Rightarrow> file_map \<Rightarrow> file_map \<times> (guest_error + unit)" where
  "set_up os su files =
     (case su_openpty su of Some e \<Rightarrow> (files, Inl (GuestPtyOpen e)) | None \<Rightarrow>
     (case su_clone_stdin su of Some e \<Rightarrow> (files, Inl (GuestPtyClone e)) | None \<Rightarrow>
     (case su_clone_stdout su of Some e \<Rightarrow> (files, Inl (GuestPtyClone e)) | None \<Rightarrow>
     (let files' = shell_files os files
      in case su_spawn su (shell_command os) of Some e \<Rightarrow> (files', Inl (GuestPtySpawn e)) | None \<Rightarrow>
        (case su_getfl su of Some e \<Rightarrow> (files', Inl (GuestPtyFcntl e)) | None \<Rightarrow>
        (case su_setfl su of Some e \<Rightarrow> (files', Inl (GuestPtyFcntl e)) | None \<Rightarrow>
        (case su_asyncfd su of Some e \<Rightarrow> (files', Inl (GuestAsyncFd e)) | None \<Rightarrow>
          (files', Inr ()))))))))"

section \<open>Input to the terminal\<close>

datatype write_result = Wrote nat | WriteFailed io_error | WriteBlocked | NotWritable io_error

text \<open>\<open>None\<close> when the terminal takes no more; otherwise what it received, the answers left over and
  the result.\<close>

fun write_to_master ::
    "write_result list \<Rightarrow> bytes \<Rightarrow> bytes \<Rightarrow> (bytes \<times> write_result list \<times> (guest_error + unit)) option" where
  "write_to_master ws [] tty = Some (tty, ws, Inr ())"
| "write_to_master [] (b # bs) tty = None"
| "write_to_master (Wrote n # ws) (b # bs) tty =
     write_to_master ws (drop n (b # bs)) (tty @ take n (b # bs))"
| "write_to_master (WriteFailed e # ws) (b # bs) tty = Some (tty, ws, Inl (GuestPtyWrite e))"
| "write_to_master (WriteBlocked # ws) (b # bs) tty = write_to_master ws (b # bs) tty"
| "write_to_master (NotWritable e # ws) (b # bs) tty = Some (tty, ws, Inl (GuestAsyncFd e))"

section \<open>The loop\<close>

datatype term_read = TermData bytes | TermErrno i32 io_error | TermBlocked | NotReadable io_error

text \<open>
  The branch that is ready first. When it is not the request, the pending read of a request is
  dropped; the number is how many bytes it had already taken from the connection.
\<close>

datatype shell_event = TermReady nat term_read | RequestReady | ShellDone nat "io_error + unit"

definition EIO :: i32 where "EIO = 5"

definition lose :: "nat \<Rightarrow> stream \<Rightarrow> stream" where
  "lose k s = s\<lparr>st_in := drop k (st_in s)\<rparr>"

text \<open>The end of the loop by \<open>break\<close>: the shell is killed and the host is told.\<close>

definition close_session :: "encoder \<Rightarrow> stream \<Rightarrow> stream" where
  "close_session enc s = fst (write_response enc ShellClosed s)"

type_synonym decoder = "bytes \<Rightarrow> string + guest_request"

fun shell_loop ::
    "encoder \<Rightarrow> decoder \<Rightarrow> shell_event list \<Rightarrow> write_result list \<Rightarrow> stream \<times> bytes \<Rightarrow>
     ((stream \<times> bytes) \<times> (guest_error + unit)) option" where
  "shell_loop enc dec [] ws st = None"
| "shell_loop enc dec (TermReady k r # es) ws (s, tty) =
     (let s = lose k s
      in case r of
           NotReadable e \<Rightarrow> Some ((s, tty), Inl (GuestAsyncFd e))
         | TermBlocked \<Rightarrow> shell_loop enc dec es ws (s, tty)
         | TermErrno errno e \<Rightarrow>
             if errno = EIO then Some ((close_session enc s, tty), Inr ())
             else Some ((s, tty), Inl (GuestPtyRead e))
         | TermData bs \<Rightarrow>
             if bs = [] then Some ((close_session enc s, tty), Inr ())
             else (case respond enc (Output bs) s of
                     (s', Inl e) \<Rightarrow> Some ((s', tty), Inl e)
                   | (s', Inr _) \<Rightarrow> shell_loop enc dec es ws (s', tty)))"
| "shell_loop enc dec (RequestReady # es) ws (s, tty) =
     (case read_request dec s of
        (s', Inl e) \<Rightarrow> Some ((s', tty), Inl (GuestProtocol e))
      | (s', Inr None) \<Rightarrow> Some ((close_session enc s', tty), Inr ())
      | (s', Inr (Some rq)) \<Rightarrow>
          (case rq of
             Input bs \<Rightarrow>
               (case write_to_master ws bs tty of
                  None \<Rightarrow> None
                | Some (tty', ws', Inl e) \<Rightarrow> Some ((s', tty'), Inl e)
                | Some (tty', ws', Inr _) \<Rightarrow> shell_loop enc dec es ws' (s', tty'))
           | CloseShell \<Rightarrow> Some ((close_session enc s', tty), Inr ())
           | _ \<Rightarrow> shell_loop enc dec es ws (s', tty)))"
| "shell_loop enc dec (ShellDone k status # es) ws (s, tty) =
     (let s = lose k s
      in case status of
           Inl e \<Rightarrow> Some ((s, tty), Inl (GuestPtyWait e))
         | Inr _ \<Rightarrow> Some ((close_session enc s, tty), Inr ()))"

text \<open>A session: what it leaves in the stream, the terminal and the files.\<close>

definition run_session ::
    "guest_os \<Rightarrow> encoder \<Rightarrow> decoder \<Rightarrow> shell_setup \<Rightarrow> shell_event list \<Rightarrow> write_result list \<Rightarrow>
     stream \<times> file_map \<Rightarrow> ((stream \<times> bytes \<times> file_map) \<times> (guest_error + unit)) option" where
  "run_session os enc dec su es ws st =
     (case set_up os su (snd st) of
        (files, Inl e) \<Rightarrow> Some ((fst st, [], files), Inl e)
      | (files, Inr _) \<Rightarrow>
          map_option (\<lambda>((s, tty), r). ((s, tty, files), r)) (shell_loop enc dec es ws (fst st, [])))"

section \<open>Input and output of a session\<close>

text \<open>What reaches the terminal from a list of requests, and what the host should see of the events.\<close>

fun inputs_of :: "guest_request list \<Rightarrow> bytes" where
  "inputs_of [] = []"
| "inputs_of (Input bs # rqs) = bs @ inputs_of rqs"
| "inputs_of (_ # rqs) = inputs_of rqs"

fun outputs_of :: "shell_event list \<Rightarrow> guest_response list" where
  "outputs_of [] = []"
| "outputs_of (TermReady _ (TermData bs) # es) = Output bs # outputs_of es"
| "outputs_of (_ # es) = outputs_of es"

text \<open>Events without failures in which no byte of a request is lost, one per request.\<close>

fun smooth :: "shell_event \<Rightarrow> bool" where
  "smooth (TermReady k (TermData bs)) = (k = 0 \<and> bs \<noteq> [])"
| "smooth (TermReady k TermBlocked) = (k = 0)"
| "smooth RequestReady = True"
| "smooth _ = False"

fun full_writes :: "write_result list \<Rightarrow> bytes \<Rightarrow> bool" where
  "full_writes ws [] = True"
| "full_writes [] _ = False"
| "full_writes (Wrote n # ws) bs = full_writes ws (drop n bs)"
| "full_writes (WriteBlocked # ws) bs = full_writes ws bs"
| "full_writes _ _ = False"

lemma lose_zero [simp]: "lose 0 s = s"
  by (simp add: lose_def)


definition enough :: "write_result list \<Rightarrow> nat \<Rightarrow> bool" where
  "enough ws k \<longleftrightarrow> (\<forall>w\<in>set ws. w = WriteBlocked \<or> (\<exists>n>0. w = Wrote n)) \<and>
     k \<le> length (filter (\<lambda>w. w \<noteq> WriteBlocked) ws)"

lemma write_to_master_all:
  "enough ws (length bs + k) \<Longrightarrow>
   \<exists>ws'. write_to_master ws bs tty = Some (tty @ bs, ws', Inr ()) \<and> enough ws' k"
proof (induction ws arbitrary: bs tty)
  case Nil
  then show ?case by (simp add: enough_def)
next
  case (Cons w ws)
  show ?case
  proof (cases bs)
    case Nil
    with Cons.prems show ?thesis by simp
  next
    case (Cons b bs')
    show ?thesis
    proof (cases "w = WriteBlocked")
      case True
      with Cons.prems have "enough ws (length bs + k)" by (simp add: enough_def)
      from Cons.IH [OF this] True Cons show ?thesis by simp
    next
      case False
      with Cons.prems obtain n where n: "w = Wrote n" "0 < n" by (auto simp: enough_def)
      have "length (drop n bs) + k \<le> length bs - 1 + k" using n(2) by simp
      with Cons.prems n Cons have "enough ws (length (drop n bs) + k)" by (simp add: enough_def)
      from Cons.IH [OF this, of "tty @ take n bs"] n Cons show ?thesis by simp
    qed
  qed
qed

definition not_close :: "guest_request \<Rightarrow> bool" where
  "not_close rq \<longleftrightarrow> rq \<noteq> CloseShell"

lemma writable_out [simp]: "writable (s\<lparr>st_out := x\<rparr>) = writable s" "writable (s\<lparr>st_in := y\<rparr>) = writable s"
  by (simp_all add: writable_def)

lemma request_step:
  assumes "codec_ok encr dec rq" "st_in s = frame encr rq @ rest"
  shows "read_request dec s = (s\<lparr>st_in := rest\<rparr>, Inr (Some rq))"
  using requests.get_good [OF assms] .

lemma shell_loop_smooth:
  "\<forall>r\<in>set (outputs_of es). codec_ok enc dec' r \<Longrightarrow> list_all smooth es \<Longrightarrow> length (filter (\<lambda>e. e = RequestReady) es) = length rqs \<Longrightarrow>
    \<forall>rq\<in>set rqs. codec_ok encr dec rq \<and> not_close rq \<Longrightarrow> enough ws (length (inputs_of rqs) + k) \<Longrightarrow>
    writable s \<Longrightarrow> st_in s = concat (map (frame encr) rqs) @ rest \<Longrightarrow>
    \<exists>ws'. enough ws' k \<and> shell_loop enc dec (es @ es') ws (s, tty) =
      shell_loop enc dec es' ws' (s\<lparr>st_in := rest, st_out := st_out s @
        concat (map (frame enc) (outputs_of es))\<rparr>, tty @ inputs_of rqs)"
proof (induction es arbitrary: rqs ws s tty)
  case Nil
  then show ?case by auto
next
  case (Cons e es)
  consider bs where "e = TermReady 0 (TermData bs)" "bs \<noteq> []" | "e = TermReady 0 TermBlocked"
    | "e = RequestReady"
    using Cons.prems(2) by (cases e rule: smooth.cases) auto
  then show ?case
  proof cases
    case (1 bs)
    let ?s = "s\<lparr>st_out := st_out s @ frame enc (Output bs)\<rparr>"
    have "respond enc (Output bs) s = (?s, Inr ())"
      using Cons.prems(1,6) 1 by (intro respond_good [of enc dec']) simp_all
    with Cons.IH [of rqs ws ?s tty] Cons.prems 1 show ?thesis by simp
  next
    case 2
    with Cons.IH [of rqs ws s tty] Cons.prems show ?thesis by simp
  next
    case 3
    with Cons.prems(3) obtain rq rqs' where rqs: "rqs = rq # rqs'" by (cases rqs) auto
    let ?s = "s\<lparr>st_in := concat (map (frame encr) rqs') @ rest\<rparr>"
    have read: "read_request dec s = (?s, Inr (Some rq))"
      using Cons.prems rqs by (intro request_step [of encr]) simp_all
    show ?thesis
    proof (cases "\<exists>bs. rq = Input bs")
      case True
      then obtain bs where rq: "rq = Input bs" by blast
      have "enough ws (length bs + (length (inputs_of rqs') + k))"
        using Cons.prems(5) rqs rq by (simp add: ac_simps)
      from write_to_master_all [OF this] obtain ws' where
        "write_to_master ws bs tty = Some (tty @ bs, ws', Inr ())" "enough ws' (length (inputs_of rqs') + k)"
        by blast
      with Cons.IH [of rqs' ws' ?s "tty @ bs"] Cons.prems rqs rq 3 read show ?thesis by simp
    next
      case False
      then have "inputs_of rqs = inputs_of rqs'" using rqs by (cases rq) auto
      moreover have "shell_loop enc dec ((e # es) @ es') ws (s, tty) = shell_loop enc dec (es @ es') ws (?s, tty)"
        using False Cons.prems(4) rqs 3 read by (cases rq) (auto simp: not_close_def)
      ultimately show ?thesis using Cons.IH [of rqs' ws ?s tty] Cons.prems rqs 3 by simp
    qed
  qed
qed

text \<open>
  C27. A session in which no byte of a request is lost is transparent: all input of the host's
  requests reaches the terminal, in order and whole, however it is split into writes and mixed with
  output; requests other than input change nothing; the host receives all output in order and, after
  it closes the shell, the message that it is closed.
\<close>

theorem shell_session_transparent:
  assumes "\<forall>r\<in>set (outputs_of es). codec_ok enc dec' r" "codec_ok enc dec' ShellClosed" "list_all smooth es"
    and "length (filter (\<lambda>e. e = RequestReady) es) = length rqs"
    and "\<forall>rq\<in>set rqs. codec_ok encr dec rq \<and> not_close rq" "codec_ok encr dec CloseShell"
    and "enough ws (length (inputs_of rqs))" "writable s"
    and "st_in s = concat (map (frame encr) (rqs @ [CloseShell])) @ rest"
  shows "shell_loop enc dec (es @ [RequestReady]) ws (s, tty) =
    Some ((s\<lparr>st_in := rest, st_out := st_out s @
        concat (map (frame enc) (outputs_of es @ [ShellClosed]))\<rparr>, tty @ inputs_of rqs), Inr ())"
proof -
  let ?s = "s\<lparr>st_in := frame encr CloseShell @ rest, st_out := st_out s @
        concat (map (frame enc) (outputs_of es))\<rparr>"
  have "enough ws (length (inputs_of rqs) + 0)"
    "st_in s = concat (map (frame encr) rqs) @ (frame encr CloseShell @ rest)"
    using assms(7,9) by simp_all
  from shell_loop_smooth [OF assms(1,3-5) this(1) assms(8) this(2), of "[RequestReady]" tty]
  obtain ws' where "shell_loop enc dec (es @ [RequestReady]) ws (s, tty) =
      shell_loop enc dec [RequestReady] ws' (?s, tty @ inputs_of rqs)" by blast
  moreover have "read_request dec ?s = (?s\<lparr>st_in := rest\<rparr>, Inr (Some CloseShell))"
    using assms(6) by (intro request_step [of encr]) simp_all
  moreover have "write_response enc ShellClosed (?s\<lparr>st_in := rest\<rparr>) =
      (?s\<lparr>st_in := rest, st_out := st_out ?s @ frame enc ShellClosed\<rparr>, Inr ())"
    using responses.put_good [OF assms(2), of "?s\<lparr>st_in := rest\<rparr>"] assms(8) by simp
  ultimately show ?thesis by (simp add: close_session_def)
qed


text \<open>An example: encodings of some requests and responses.\<close>

definition sample_rq_enc :: "guest_request \<Rightarrow> string + bytes" where
  "sample_rq_enc m = (case m of Input bs \<Rightarrow> Inr (123 # 34 # 34 # 34 # bs) | _ \<Rightarrow> Inr [34])"

definition sample_rq_dec :: decoder where
  "sample_rq_dec bs = (case bs of [] \<Rightarrow> Inl ''EOF'' | b # bs \<Rightarrow> if b = 123 then Inr (Input (drop 3 bs)) else Inr CloseShell)"

lemma sample_rq_codec:
  "codec_ok sample_rq_enc sample_rq_dec (Input [108, 115])" "codec_ok sample_rq_enc sample_rq_dec CloseShell"
  by (simp_all add: codec_ok_def sample_rq_enc_def sample_rq_dec_def json_of_def MAX_FRAME_SIZE_def)

definition sample_rsp_enc :: encoder where
  "sample_rsp_enc m = (case m of Output bs \<Rightarrow> Inr (123 # bs) | _ \<Rightarrow> Inr [34])"

definition sample_rsp_dec :: "bytes \<Rightarrow> string + guest_response" where
  "sample_rsp_dec bs = (case bs of [] \<Rightarrow> Inl ''EOF'' | b # bs \<Rightarrow> if b = 123 then Inr (Output bs) else Inr ShellClosed)"

lemma sample_rsp_codec:
  "codec_ok sample_rsp_enc sample_rsp_dec (Output [36])" "codec_ok sample_rsp_enc sample_rsp_dec ShellClosed"
  by (simp_all add: codec_ok_def sample_rsp_enc_def sample_rsp_dec_def json_of_def MAX_FRAME_SIZE_def)

theorem shell_session_transparent_witness:
  "\<exists>s. shell_loop sample_rsp_enc sample_rq_dec
      ([TermReady 0 (TermData [36]), RequestReady] @ [RequestReady]) [Wrote 1, Wrote 1]
      (sample_stream\<lparr>st_in := concat (map (frame sample_rq_enc) ([Input [108, 115]] @ [CloseShell])) @ []\<rparr>, []) =
    Some ((s, [] @ [108, 115]), Inr ())"
proof -
  have "enough [Wrote 1, Wrote 1] (length (inputs_of [Input [108, 115]]))" by (simp add: enough_def)
  then show ?thesis
    using shell_session_transparent [of "[TermReady 0 (TermData [36]), RequestReady]" sample_rsp_enc
        sample_rsp_dec "[Input [108, 115]]" sample_rq_enc sample_rq_dec "[Wrote 1, Wrote 1]"
        "sample_stream\<lparr>st_in := concat (map (frame sample_rq_enc) ([Input [108, 115]] @ [CloseShell])) @ []\<rparr>"
        "[]" "[]"] sample_rsp_codec sample_rq_codec
    by (simp add: not_close_def writable_def sample_stream_def)
qed

text \<open>The first four bytes of a body, read as a length.\<close>

lemma body_as_length:
  assumes "4 \<le> length json" "hd json \<noteq> 0"
  obtains n where "unat (from_be_bytes (take 4 json)) = n" "MAX_FRAME_SIZE < n"
proof -
  obtain b0 b1 b2 b3 bs where json: "json = b0 # b1 # b2 # b3 # bs"
    using assms(1) by (auto simp: Suc_le_length_iff numeral_eq_Suc)
  let ?w = "from_be_bytes [b0, b1, b2, b3]"
  have "drop_bit 24 ?w = ucast b0"
  proof (rule bit_word_eqI)
    fix n assume "n < LENGTH(32)"
    then show "bit (drop_bit 24 ?w) n = bit (ucast b0 :: u32) n"
      by (auto simp: from_be_bytes_def bit_simps dest: bit_imp_le_length)
  qed
  then have "unat (drop_bit 24 ?w) = unat (ucast b0 :: u32)" by simp
  moreover have "unat (ucast b0 :: u32) = unat b0"
    using unsigned_less [of b0, where 'a = nat] by (simp add: unsigned_ucast_eq take_bit_nat_eq_self_iff)
  moreover have "0 < unat b0" using assms(2) json by (simp add: unat_gt_0)
  moreover have "unat (drop_bit 24 ?w) = unat ?w div 2 ^ 24" unfolding unat_drop_bit_eq by (rule drop_bit_eq_div)
  ultimately have "0 < unat ?w div 2 ^ 24" by (simp only:)
  then have "2 ^ 24 \<le> unat ?w" by (simp add: div_greater_zero_iff)
  moreover have "take 4 json = [b0, b1, b2, b3]" by (simp add: json)
  ultimately show thesis by (intro that [OF refl]) (simp add: MAX_FRAME_SIZE_def)
qed

text \<open>
  A request that the host sends while the terminal has output can be lost, and the session with
  it: when the pending read of the request has taken the four bytes of the length and output becomes
  ready, these bytes are dropped; the next read takes the body's first bytes for a length and fails
  as too large, whatever non-empty text the body is. The session then ends with an error: the
  request is not carried out and the host is not told that the shell is closed.
\<close>

theorem cancelled_read_breaks_session:
  assumes "enc' rq = Inr json" "4 \<le> length json" "hd json \<noteq> 0" "codec_ok enc dec' (Output bs)" "bs \<noteq> []"
    and "writable s" "st_in s = to_be_bytes (of_nat (length json)) @ json @ rest"
  shows "\<exists>n. shell_loop enc dec (TermReady 4 (TermData bs) # RequestReady # es) ws (s, tty) =
    Some ((s\<lparr>st_in := drop 4 (json @ rest), st_out := st_out s @ frame enc (Output bs)\<rparr>, tty),
      Inl (GuestProtocol (BodyTooLarge n)))"
proof -
  obtain n where n: "unat (from_be_bytes (take 4 json)) = n" "MAX_FRAME_SIZE < n"
    using assms(2,3) by (rule body_as_length)
  let ?s = "s\<lparr>st_in := json @ rest, st_out := st_out s @ frame enc (Output bs)\<rparr>"
  have "lose 4 s = s\<lparr>st_in := json @ rest\<rparr>" using assms(7) by (simp add: lose_def)
  moreover have "respond enc (Output bs) (s\<lparr>st_in := json @ rest\<rparr>) = (?s, Inr ())"
    using respond_good [OF assms(4), of "s\<lparr>st_in := json @ rest\<rparr>"] assms(6) by simp
  moreover have "read_request dec ?s = (?s\<lparr>st_in := drop 4 (json @ rest)\<rparr>, Inl (BodyTooLarge n))"
    using n assms(2) by (simp add: read_request_def read_frame_def read_exact_def Let_def)
  ultimately show ?thesis using assms(5) by (intro exI [of _ n]) simp
qed

theorem cancelled_read_breaks_session_witness:
  "\<exists>n s. shell_loop sample_rsp_enc sample_rq_dec [TermReady 4 (TermData [36]), RequestReady] []
      (sample_stream\<lparr>st_in := [0, 0, 0, 6, 123, 34, 34, 34, 108, 115]\<rparr>, []) =
    Some ((s, []), Inl (GuestProtocol (BodyTooLarge n)))"
proof -
  have "to_be_bytes (of_nat (length [123 :: u8, 34, 34, 34, 108, 115])) = [0, 0, 0, 6]"
    by (simp add: to_be_bytes_def)
  then show ?thesis
    using cancelled_read_breaks_session [of sample_rq_enc "Input [108, 115]" "[123, 34, 34, 34, 108, 115]"
        sample_rsp_enc sample_rsp_dec "[36]"
        "sample_stream\<lparr>st_in := [0, 0, 0, 6, 123, 34, 34, 34, 108, 115]\<rparr>" "[]" sample_rq_dec "[]" "[]" "[]"]
      sample_rsp_codec
    by (simp add: sample_rq_enc_def writable_def sample_stream_def) blast
qed

end
