(* ===== verification/Guest_Agent.thy ===== *)
theory Guest_Agent
  imports Guest_Shell Seccomp
begin

text \<open>
  The guest agent (\<open>akssora-guest-agent/src/main.rs\<close>, with \<open>env.rs\<close>): the environment that requests
  inject, the execution of a command, the request that exposes a port, the loop over the requests of
  a connection and the loop over connections. For each request a \<open>world\<close> holds what the system
  answers while it is handled.
\<close>

section \<open>Injected environment\<close>

type_synonym env = "(string, string) fmap"

record exec_command =
  ec_program :: string
  ec_args :: "string list"
  ec_env :: env

definition set_env_vars :: "env \<Rightarrow> env \<Rightarrow> env \<times> nat" where
  "set_env_vars vars env = (let env' = fmadd env vars in (env', fcard (fmdom env')))"

definition get_injected_env :: "env \<Rightarrow> env" where
  "get_injected_env env = env"

definition apply_to_command :: "env \<Rightarrow> exec_command \<Rightarrow> exec_command" where
  "apply_to_command env cmd = cmd\<lparr>ec_env := fmadd (ec_env cmd) env\<rparr>"

definition apply_to_tokio_command :: "env \<Rightarrow> exec_command \<Rightarrow> exec_command" where
  "apply_to_tokio_command env cmd = cmd\<lparr>ec_env := fmadd (ec_env cmd) env\<rparr>"

definition clear_env :: "env \<Rightarrow> env" where
  "clear_env env = fmempty"

section \<open>Running a command\<close>

text \<open>What happens next to the child: a read of one of its pipes returns, or the wait for it. A read
  returns nothing at the end of the pipe; the status has no code when a signal ended the child.\<close>

datatype exec_event =
    OutRead "io_error + bytes"
  | ErrRead "io_error + bytes"
  | Waited "io_error + i32 option"

definition exit_response ::
    "encoder \<Rightarrow> io_error + i32 option \<Rightarrow> stream \<Rightarrow> stream \<times> (guest_error + unit)" where
  "exit_response enc status s =
     (case status of
        Inl e \<Rightarrow> (s, Inl (GuestChildIo e))
      | Inr code \<Rightarrow> respond enc (Exit (case code of None \<Rightarrow> - 1 | Some c \<Rightarrow> c)) s)"

fun exec_wait :: "encoder \<Rightarrow> exec_event list \<Rightarrow> stream \<Rightarrow> (stream \<times> (guest_error + unit)) option" where
  "exec_wait enc [] s = None"
| "exec_wait enc (Waited status # es) s = Some (exit_response enc status s)"
| "exec_wait enc (_ # es) s = exec_wait enc es s"

text \<open>The loop; an event of a pipe that is no longer polled is passed over. \<open>None\<close>: it still waits.\<close>

fun exec_loop ::
    "encoder \<Rightarrow> exec_event list \<Rightarrow> bool \<Rightarrow> bool \<Rightarrow> stream \<Rightarrow> (stream \<times> (guest_error + unit)) option" where
  "exec_loop enc [] out_open err_open s = None"
| "exec_loop enc (OutRead r # es) out_open err_open s =
     (if \<not> out_open then exec_loop enc es out_open err_open s
      else (case r of
              Inl e \<Rightarrow> Some (s, Inl (GuestChildIo e))
            | Inr bs \<Rightarrow>
                if bs = [] then exec_loop enc es False err_open s
                else (case respond enc (Stdout bs) s of
                        (s', Inl e) \<Rightarrow> Some (s', Inl e)
                      | (s', Inr _) \<Rightarrow>
                          if \<not> out_open \<and> \<not> err_open then exec_wait enc es s'
                          else exec_loop enc es out_open err_open s')))"
| "exec_loop enc (ErrRead r # es) out_open err_open s =
     (if \<not> err_open then exec_loop enc es out_open err_open s
      else (case r of
              Inl e \<Rightarrow> Some (s, Inl (GuestChildIo e))
            | Inr bs \<Rightarrow>
                if bs = [] then exec_loop enc es out_open False s
                else (case respond enc (Stderr bs) s of
                        (s', Inl e) \<Rightarrow> Some (s', Inl e)
                      | (s', Inr _) \<Rightarrow>
                          if \<not> out_open \<and> \<not> err_open then exec_wait enc es s'
                          else exec_loop enc es out_open err_open s')))"
| "exec_loop enc (Waited status # es) out_open err_open s = Some (exit_response enc status s)"

record spawned =
  sp_stdout_piped :: bool
  sp_stderr_piped :: bool
  sp_events :: "exec_event list"

definition exec_command_of :: "string \<Rightarrow> env \<Rightarrow> exec_command" where
  "exec_command_of cmd env =
     apply_to_tokio_command env \<lparr>ec_program = ''sh'', ec_args = [''-c'', cmd], ec_env = fmempty\<rparr>"

definition handle_exec ::
    "encoder \<Rightarrow> (exec_command \<Rightarrow> io_error + spawned) \<Rightarrow> env \<Rightarrow> string \<Rightarrow> stream \<Rightarrow>
     (stream \<times> (guest_error + unit)) option" where
  "handle_exec enc spawn env cmd s =
     (case spawn (exec_command_of cmd env) of
        Inl e \<Rightarrow> Some (s, Inl (GuestSpawnFailed cmd e))
      | Inr child \<Rightarrow>
          if \<not> sp_stdout_piped child then Some (s, Inl GuestStdoutNotPiped)
          else if \<not> sp_stderr_piped child then Some (s, Inl GuestStderrNotPiped)
          else exec_loop enc (sp_events child) True True s)"

section \<open>The agent\<close>

record agent =
  ag_files :: file_map
  ag_env :: env
  ag_listening :: "u16 list"
  ag_term :: bytes

record world =
  w_os :: guest_os
  w_spawn :: "exec_command \<Rightarrow> io_error + spawned"
  w_setup :: shell_setup
  w_shell :: "shell_event list"
  w_writes :: "write_result list"
  w_bind :: "u16 \<Rightarrow> io_error + u16"
  w_local_addr :: "io_error option"

text \<open>Exposing a port: the listener is bound, its address is read and answered, and the listener is
  dropped at the end of the handler. The text of the address always parses.\<close>

definition handle_expose_port ::
    "encoder \<Rightarrow> world \<Rightarrow> u16 \<Rightarrow> stream \<Rightarrow> agent \<Rightarrow> (stream \<times> agent) \<times> (guest_error + unit)" where
  "handle_expose_port enc w guest_port s ag =
     (case w_bind w guest_port of
        Inl e \<Rightarrow> ((s, ag), Inl (GuestChildIo e))
      | Inr actual \<Rightarrow>
          (let bound = ag\<lparr>ag_listening := actual # ag_listening ag\<rparr>;
               dropped = bound\<lparr>ag_listening := remove1 actual (ag_listening bound)\<rparr>
           in case w_local_addr w of
                Some e \<Rightarrow> ((s, dropped), Inl (GuestChildIo e))
              | None \<Rightarrow>
                  (let (s', r) = respond enc (PortExposed guest_port actual) s
                   in ((s', dropped), r))))"

definition handle_request ::
    "encoder \<Rightarrow> decoder \<Rightarrow> world \<Rightarrow> guest_request \<Rightarrow> stream \<times> agent \<Rightarrow>
     ((stream \<times> agent) \<times> (guest_error + unit)) option" where
  "handle_request enc dec w rq st =
     (let s = fst st; ag = snd st;
          with_files = (\<lambda>((s', files), r). Some ((s', ag\<lparr>ag_files := files\<rparr>), r))
      in case rq of
           Exec cmd \<Rightarrow> map_option (\<lambda>(s', r). ((s', ag), r)) (handle_exec enc (w_spawn w) (ag_env ag) cmd s)
         | OpenShell \<Rightarrow>
             map_option (\<lambda>((s', tty, files), r). ((s', ag\<lparr>ag_files := files, ag_term := ag_term ag @ tty\<rparr>), r))
               (run_session (w_os w) enc dec (w_setup w) (w_shell w) (w_writes w) (s, ag_files ag))
         | WriteFileChunk path offset data is_last \<Rightarrow>
             with_files (handle_write_file_chunk (w_os w) enc path offset data is_last (s, ag_files ag))
         | ReadFile path chunk_size \<Rightarrow>
             with_files (handle_read_file (w_os w) enc path chunk_size (s, ag_files ag))
         | SetEnv vars \<Rightarrow>
             (let (env, count) = set_env_vars vars (ag_env ag);
                  (s', r) = respond enc (EnvSet (of_nat count)) s
              in Some ((s', ag\<lparr>ag_env := env\<rparr>), r))
         | ExposePort guest_port \<Rightarrow> Some (handle_expose_port enc w guest_port s ag)
         | Input _ \<Rightarrow> Some ((s, ag), Inr ())
         | CloseShell \<Rightarrow> Some ((s, ag), Inr ()))"

text \<open>The requests of a connection, one world for each; \<open>None\<close> when it has not ended after these.\<close>

fun handle_connection ::
    "encoder \<Rightarrow> decoder \<Rightarrow> world list \<Rightarrow> stream \<times> agent \<Rightarrow>
     ((stream \<times> agent) \<times> (guest_error + unit)) option" where
  "handle_connection enc dec [] st = None"
| "handle_connection enc dec (w # ws) (s, ag) =
     (case read_request dec s of
        (s', Inl error) \<Rightarrow> Some ((s', ag), Inl (GuestProtocol error))
      | (s', Inr None) \<Rightarrow> Some ((s', ag), Inr ())
      | (s', Inr (Some request)) \<Rightarrow>
          (case handle_request enc dec w request (s', ag) of
             None \<Rightarrow> None
           | Some (st', Inl error) \<Rightarrow> Some (st', Inl error)
           | Some (st', Inr _) \<Rightarrow> handle_connection enc dec ws st'))"

section \<open>Starting up and accepting connections\<close>

text \<open>The steps of the start in their order. The failure of any of them is ignored.\<close>

datatype boot_action =
    MakeDirs string
  | TouchFile string
  | MountFs string string
  | SetHostName string
  | WriteFile string string

definition boot_actions :: "boot_action list" where
  "boot_actions =
     map MakeDirs [''/proc'', ''/sys'', ''/dev'', ''/dev/pts'', ''/dev/shm'', ''/tmp'', ''/root'', ''/home''] @
     [TouchFile ''/root/.python_history'', TouchFile ''/root/.bash_history'',
      MountFs ''proc'' ''/proc'', MountFs ''sysfs'' ''/sys'', MountFs ''devtmpfs'' ''/dev'',
      MakeDirs ''/dev/pts'', MountFs ''devpts'' ''/dev/pts'', SetHostName ''akssora'',
      WriteFile ''/etc/hostname'' (''akssora'' @ [CHR 0x0A]),
      WriteFile ''/etc/hosts'' (''127.0.0.1 localhost akssora'' @ [CHR 0x0A] @ ''::1 localhost akssora'' @ [CHR 0x0A]),
      MakeDirs ''/etc/profile.d'', WriteFile ''/root/.bashrc'' prompt_rc, WriteFile ''/root/.profile'' prompt_rc,
      WriteFile ''/etc/profile.d/akssora.sh'' prompt_rc]"

fun boot_effect :: "guest_os \<Rightarrow> boot_action \<Rightarrow> file_map \<Rightarrow> file_map" where
  "boot_effect os (TouchFile p) = touch_file os p"
| "boot_effect os (WriteFile p text) = put_file os p text"
| "boot_effect os _ = id"

text \<open>A mount hides what was made below its directory; \<open>ok\<close> tells which steps succeed.\<close>

fun boot_dirs :: "(boot_action \<Rightarrow> bool) \<Rightarrow> boot_action \<Rightarrow> string list \<Rightarrow> string list" where
  "boot_dirs ok (MakeDirs p) dirs = (if ok (MakeDirs p) then List.insert p dirs else dirs)"
| "boot_dirs ok (MountFs fs p) dirs = (if ok (MountFs fs p) then filter (\<lambda>d. \<not> prefix (p @ ''/'') d) dirs else dirs)"
| "boot_dirs ok _ dirs = dirs"

definition boot_files :: "guest_os \<Rightarrow> file_map \<Rightarrow> file_map" where
  "boot_files os =
     put_file os ''/etc/profile.d/akssora.sh'' prompt_rc \<circ>
     put_file os ''/root/.profile'' prompt_rc \<circ>
     put_file os ''/root/.bashrc'' prompt_rc \<circ>
     put_file os ''/etc/hosts'' (''127.0.0.1 localhost akssora'' @ [CHR 0x0A] @
       ''::1 localhost akssora'' @ [CHR 0x0A]) \<circ>
     put_file os ''/etc/hostname'' (''akssora'' @ [CHR 0x0A]) \<circ>
     touch_file os ''/root/.bash_history'' \<circ>
     touch_file os ''/root/.python_history''"

datatype accepted = AcceptFailed | Accepted stream "world list"

text \<open>One connection is handled to its end before the next is accepted. The result has the streams of
  the connections that ended, and whether the agent is still in one.\<close>

fun accept_loop :: "encoder \<Rightarrow> decoder \<Rightarrow> accepted list \<Rightarrow> agent \<Rightarrow> agent \<times> stream list \<times> bool" where
  "accept_loop enc dec [] ag = (ag, [], False)"
| "accept_loop enc dec (AcceptFailed # cs) ag = accept_loop enc dec cs ag"
| "accept_loop enc dec (Accepted s ws # cs) ag =
     (case handle_connection enc dec ws (s, ag) of
        None \<Rightarrow> (ag, [], True)
      | Some ((s', ag'), _) \<Rightarrow>
          (let (ag'', ss, busy) = accept_loop enc dec cs ag' in (ag'', s' # ss, busy)))"

text \<open>The entry point: a filter that cannot be installed is only logged.\<close>

definition agent_main ::
    "encoder \<Rightarrow> decoder \<Rightarrow> guest_os \<Rightarrow> int \<times> string \<times> (sock_fprog \<Rightarrow> int) \<times> string \<Rightarrow> string option \<Rightarrow>
     accepted list \<Rightarrow> file_map \<Rightarrow> bool \<times> (guest_error + agent \<times> stream list \<times> bool)" where
  "agent_main enc dec os prctl bind conns files =
     (let (no_new_privs, err1, set_seccomp, err2) = prctl;
          ag = \<lparr>ag_files = boot_files os files, ag_env = fmempty, ag_listening = [], ag_term = []\<rparr>;
          (applied, _) = apply_seccomp_filter no_new_privs err1 set_seccomp err2 False
      in (applied, (case bind of
                      Some e \<Rightarrow> Inl (GuestVsockBind e)
                    | None \<Rightarrow> Inr (accept_loop enc dec conns ag))))"


section \<open>What the start leaves\<close>

lemma boot_files_run: "boot_files os files = fold (boot_effect os) boot_actions files"
  by (simp add: boot_files_def boot_actions_def)

text \<open>The directory for shared memory is made before \<open>/dev\<close> is mounted and not again after it.\<close>

lemma shared_memory_hidden:
  "set (fold (boot_dirs (\<lambda>_. True)) boot_actions []) =
     {''/proc'', ''/sys'', ''/dev'', ''/dev/pts'', ''/tmp'', ''/root'', ''/home'', ''/etc/profile.d''}"
  by code_simp

section \<open>Output of a command\<close>

fun event_response :: "exec_event \<Rightarrow> guest_response list" where
  "event_response (OutRead (Inr bs)) = (if bs = [] then [] else [Stdout bs])"
| "event_response (ErrRead (Inr bs)) = (if bs = [] then [] else [Stderr bs])"
| "event_response _ = []"

definition exec_responses :: "exec_event list \<Rightarrow> guest_response list" where
  "exec_responses es = concat (map event_response es)"

lemma exec_responses_simps [simp]:
  "exec_responses [] = []" "exec_responses (e # es) = event_response e @ exec_responses es"
  by (simp_all add: exec_responses_def)

text \<open>What the child wrote to its standard output, as far as events read it.\<close>

fun out_bytes :: "exec_event list \<Rightarrow> bytes" where
  "out_bytes [] = []"
| "out_bytes (OutRead (Inr bs) # es) = bs @ out_bytes es"
| "out_bytes (_ # es) = out_bytes es"

fun stdout_of :: "guest_response list \<Rightarrow> bytes" where
  "stdout_of [] = []"
| "stdout_of (Stdout bs # rs) = bs @ stdout_of rs"
| "stdout_of (_ # rs) = stdout_of rs"

text \<open>Reads that succeed, none from a pipe after its end.\<close>

fun reads_ok :: "bool \<Rightarrow> bool \<Rightarrow> exec_event list \<Rightarrow> bool" where
  "reads_ok out_open err_open [] = True"
| "reads_ok out_open err_open (OutRead (Inr bs) # es) = (out_open \<and> reads_ok (bs \<noteq> []) err_open es)"
| "reads_ok out_open err_open (ErrRead (Inr bs) # es) = (err_open \<and> reads_ok out_open (bs \<noteq> []) es)"
| "reads_ok out_open err_open (_ # es) = False"

lemma out_bytes_append: "out_bytes (es @ es') = out_bytes es @ out_bytes es'"
  by (induction es rule: out_bytes.induct) simp_all

lemma stdout_of_append: "stdout_of (rs @ rs') = stdout_of rs @ stdout_of rs'"
  by (induction rs rule: stdout_of.induct) simp_all

lemma stdout_exec_responses: "reads_ok a b es \<Longrightarrow> stdout_of (exec_responses es) = out_bytes es"
proof (induction es arbitrary: a b)
  case Nil
  then show ?case by simp
next
  case (Cons e es)
  consider bs where "e = OutRead (Inr bs)" | bs where "e = ErrRead (Inr bs)"
    using Cons.prems by (cases "(a, b, e # es)" rule: reads_ok.cases) auto
  then show ?case
    using Cons by cases auto
qed

lemma exec_loop_prefix:
  "reads_ok a b es \<Longrightarrow> \<forall>r\<in>set (exec_responses es). codec_ok enc dec r \<Longrightarrow> writable s \<Longrightarrow>
   \<exists>a' b'. exec_loop enc (es @ es') a b s =
     exec_loop enc es' a' b' (s\<lparr>st_out := st_out s @ concat (map (frame enc) (exec_responses es))\<rparr>)"
proof (induction es arbitrary: a b s)
  case Nil
  then show ?case by auto
next
  case (Cons e es)
  have tl: "\<forall>r\<in>set (exec_responses es). codec_ok enc dec r" using Cons.prems(2) by simp
  consider bs where "e = OutRead (Inr bs)" | bs where "e = ErrRead (Inr bs)"
    using Cons.prems(1) by (cases "(a, b, e # es)" rule: reads_ok.cases) auto
  then show ?case
  proof cases
    case (1 bs)
    let ?s = "if bs = [] then s else s\<lparr>st_out := st_out s @ frame enc (Stdout bs)\<rparr>"
    have "bs \<noteq> [] \<Longrightarrow> respond enc (Stdout bs) s = (?s, Inr ())"
      using Cons.prems(2,3) respond_good [of enc dec "Stdout bs" s] by (simp add: 1)
    then have "exec_loop enc ((e # es) @ es') a b s = exec_loop enc (es @ es') (bs \<noteq> []) b ?s"
      using Cons.prems(1) 1 by auto
    moreover have "reads_ok (bs \<noteq> []) b es" "writable ?s" using Cons.prems 1 by simp_all
    ultimately show ?thesis using Cons.IH [OF _ tl, of "bs \<noteq> []" b ?s] 1 by (cases "bs = []") simp_all
  next
    case (2 bs)
    let ?s = "if bs = [] then s else s\<lparr>st_out := st_out s @ frame enc (Stderr bs)\<rparr>"
    have "bs \<noteq> [] \<Longrightarrow> respond enc (Stderr bs) s = (?s, Inr ())"
      using Cons.prems(2,3) respond_good [of enc dec "Stderr bs" s] by (simp add: 2)
    then have "exec_loop enc ((e # es) @ es') a b s = exec_loop enc (es @ es') a (bs \<noteq> []) ?s"
      using Cons.prems(1) 2 by auto
    moreover have "reads_ok a (bs \<noteq> []) es" "writable ?s" using Cons.prems 2 by simp_all
    ultimately show ?thesis using Cons.IH [OF _ tl, of a "bs \<noteq> []" ?s] 2 by (cases "bs = []") simp_all
  qed
qed

lemma handle_exec_run:
  assumes "spawn (exec_command_of cmd env) =
      Inr \<lparr>sp_stdout_piped = True, sp_stderr_piped = True, sp_events = es @ Waited (Inr code) # later\<rparr>"
    and "reads_ok True True es" "\<forall>r\<in>set (exec_responses es). codec_ok enc dec r"
    and "codec_ok enc dec (Exit (case code of None \<Rightarrow> - 1 | Some c \<Rightarrow> c))" "writable s"
  shows "handle_exec enc spawn env cmd s =
    Some (s\<lparr>st_out := st_out s @ concat (map (frame enc)
      (exec_responses es @ [Exit (case code of None \<Rightarrow> - 1 | Some c \<Rightarrow> c)]))\<rparr>, Inr ())"
proof -
  let ?s = "s\<lparr>st_out := st_out s @ concat (map (frame enc) (exec_responses es))\<rparr>"
  have "respond enc (Exit (case code of None \<Rightarrow> - 1 | Some c \<Rightarrow> c)) ?s =
      (?s\<lparr>st_out := st_out ?s @ frame enc (Exit (case code of None \<Rightarrow> - 1 | Some c \<Rightarrow> c))\<rparr>, Inr ())"
    using respond_good [OF assms(4), of ?s] assms(5) by simp
  with exec_loop_prefix [OF assms(2,3,5), of "Waited (Inr code) # later"] assms(1) show ?thesis
    by (auto simp: handle_exec_def exit_response_def)
qed

text \<open>
  The answer to an Exec request: what was read from the pipes, in the order it was read, and one
  exit status at the end. What reaches the host of the standard output is all that was read before
  the wait for the child returned; the loop ends with the child even if its pipes still hold data,
  so whatever would be read later is never sent.
\<close>

theorem exec_answer:
  assumes "spawn (exec_command_of cmd env) =
      Inr \<lparr>sp_stdout_piped = True, sp_stderr_piped = True, sp_events = es @ Waited (Inr code) # later\<rparr>"
    and "reads_ok True True es" "\<forall>r\<in>set (exec_responses es). codec_ok enc dec r"
    and "codec_ok enc dec (Exit (case code of None \<Rightarrow> - 1 | Some c \<Rightarrow> c))" "writable s"
  shows "\<exists>rs. handle_exec enc spawn env cmd s =
      Some (s\<lparr>st_out := st_out s @ concat (map (frame enc) (rs @ [Exit (case code of None \<Rightarrow> - 1 | Some c \<Rightarrow> c)]))\<rparr>,
        Inr ()) \<and>
    stdout_of rs @ out_bytes later = out_bytes (es @ later) \<and> (\<forall>r\<in>set rs. \<exists>bs. r = Stdout bs \<or> r = Stderr bs)"
proof (intro exI [of _ "exec_responses es"] conjI)
  show "handle_exec enc spawn env cmd s =
      Some (s\<lparr>st_out := st_out s @ concat (map (frame enc)
        (exec_responses es @ [Exit (case code of None \<Rightarrow> - 1 | Some c \<Rightarrow> c)]))\<rparr>, Inr ())"
    using assms by (rule handle_exec_run)
  show "stdout_of (exec_responses es) @ out_bytes later = out_bytes (es @ later)"
    using assms(2) by (simp add: stdout_exec_responses out_bytes_append)
  have "r \<in> set (event_response e) \<Longrightarrow> \<exists>bs. r = Stdout bs \<or> r = Stderr bs" for r e
    by (cases e rule: event_response.cases) (auto split: if_splits)
  then show "\<forall>r\<in>set (exec_responses es). \<exists>bs. r = Stdout bs \<or> r = Stderr bs"
    by (auto simp: exec_responses_def)
qed

definition sample_exec_enc :: encoder where
  "sample_exec_enc m = (case m of Stdout bs \<Rightarrow> Inr (1 # bs) | _ \<Rightarrow> Inr [0])"

definition sample_exec_dec :: "bytes \<Rightarrow> string + guest_response" where
  "sample_exec_dec bs = (case bs of [] \<Rightarrow> Inl ''EOF'' | b # bs \<Rightarrow> Inr (if b = 1 then Stdout bs else Exit 0))"

theorem exec_answer_witness:
  "\<exists>rs. handle_exec sample_exec_enc
      (\<lambda>_. Inr \<lparr>sp_stdout_piped = True, sp_stderr_piped = True,
        sp_events = [OutRead (Inr [104])] @ Waited (Inr (Some 0)) # [OutRead (Inr [105])]\<rparr>)
      fmempty ''x'' sample_stream =
      Some (sample_stream\<lparr>st_out := concat (map (frame sample_exec_enc) (rs @ [Exit 0]))\<rparr>, Inr ()) \<and>
    stdout_of rs @ [105] = [104, 105]"
proof -
  show ?thesis
    using exec_answer [of "\<lambda>_. Inr \<lparr>sp_stdout_piped = True, sp_stderr_piped = True,
        sp_events = [OutRead (Inr [104])] @ Waited (Inr (Some 0)) # [OutRead (Inr [105])]\<rparr>" "''x''" fmempty
        "[OutRead (Inr [104])]" "Some 0" "[OutRead (Inr [105])]" sample_exec_enc sample_exec_dec sample_stream]
    by (auto simp: codec_ok_def sample_exec_enc_def sample_exec_dec_def json_of_def MAX_FRAME_SIZE_def
        writable_def sample_stream_def)
qed


section \<open>A connection comes to an end\<close>

text \<open>No handler adds to what is to be read; a request that is read takes at least its length off it.\<close>

lemma write_all_in: "st_in (fst (write_all bs s)) = st_in s"
  by (simp add: write_all_def split: option.split)

lemma write_frame_in: "st_in (fst (write_frame wrap enc m s)) = st_in s"
proof -
  have "st_in s1 = st_in s" if "write_all bs s = (s1, e)" for bs s s1 e
    using write_all_in [of bs s] that by simp
  then show ?thesis
    by (auto simp: write_frame_def split: sum.split prod.split option.split)
qed

lemma respond_in: "respond enc m s = (s', r) \<Longrightarrow> st_in s' = st_in s"
  using write_frame_in [of WriteResponse enc m s]
  by (auto simp: respond_def write_response_def split: prod.splits sum.splits)

lemma close_session_in: "st_in (close_session enc s) = st_in s"
  using write_frame_in [of WriteResponse enc ShellClosed s]
  by (simp add: close_session_def write_response_def)

lemma read_exact_in:
  "read_exact n s = (s', r) \<Longrightarrow> length (st_in s') \<le> length (st_in s) \<and>
     (\<forall>bs. r = Inr bs \<longrightarrow> length (st_in s') + n = length (st_in s))"
  by (auto simp: read_exact_def split: if_splits)

lemma read_request_in:
  assumes "read_request dec s = (s', r)"
  shows "length (st_in s') \<le> length (st_in s)"
    and "r = Inr (Some rq) \<Longrightarrow> length (st_in s') + 4 \<le> length (st_in s)"
  using assms by (auto simp: read_request_def read_frame_def Let_def dest!: read_exact_in
      split: prod.splits sum.splits io_error.splits if_splits)

lemma chunk_in:
  "handle_write_file_chunk os enc path offset data is_last (s, files) = ((s', files'), r) \<Longrightarrow> st_in s' = st_in s"
  by (auto simp: handle_write_file_chunk_def Let_def dest: respond_in
      split: sum.splits option.splits if_splits prod.splits)

lemma read_loop_in:
  "read_loop os enc path buffer total_len offset left s = (s', r) \<Longrightarrow> st_in s' = st_in s"
proof (induction left arbitrary: offset s rule: length_induct)
  case (1 left)
  show ?case
  proof (cases "os_read os offset")
    case (Inl e)
    with 1(2) show ?thesis by (subst (asm) read_loop.simps) (auto dest: respond_in)
  next
    case (Inr most)
    define n where "n = read_size most buffer (length left)"
    obtain s1 x where sent: "respond enc (ReadFileChunk path (of_nat offset) (take n left)
        (n = 0 \<or> total_len \<le> offset + n)) s = (s1, x)" by fastforce
    have "n \<noteq> 0 \<Longrightarrow> length (drop n left) < length left"
      by (auto simp: n_def read_size_def split: if_splits)
    then have ih: "n \<noteq> 0 \<Longrightarrow> read_loop os enc path buffer total_len (offset + n) (drop n left) s1 = (s', r) \<Longrightarrow>
        st_in s' = st_in s1"
      using 1(1) by blast
    show ?thesis
      using 1(2) Inr sent respond_in [OF sent] ih
      by (subst (asm) read_loop.simps) (auto simp: Let_def simp flip: n_def split: sum.splits if_splits)
  qed
qed

lemma read_file_in:
  "handle_read_file os enc path chunk_size (s, files) = ((s', files'), r) \<Longrightarrow> st_in s' = st_in s"
  by (auto simp: handle_read_file_def Let_def dest: respond_in read_loop_in
      split: sum.splits option.splits if_splits prod.splits)

lemma exec_wait_in: "exec_wait enc es s = Some (s', r) \<Longrightarrow> st_in s' = st_in s"
  by (induction enc es s rule: exec_wait.induct)
    (auto simp: exit_response_def dest: respond_in split: sum.splits)

lemma exec_loop_in: "exec_loop enc es a b s = Some (s', r) \<Longrightarrow> st_in s' = st_in s"
proof (induction enc es a b s rule: exec_loop.induct)
  case (4 enc status es a b s)
  then show ?case by (auto simp: exit_response_def dest: respond_in split: sum.splits)
qed (auto dest: respond_in exec_wait_in split: if_splits sum.splits prod.splits)

lemma shell_loop_in:
  "shell_loop enc dec es ws st = Some ((s', tty'), r) \<Longrightarrow> length (st_in s') \<le> length (st_in (fst st))"
proof (induction enc dec es ws st rule: shell_loop.induct)
  case (2 enc dec k r' es ws s tty)
  have l: "length (st_in (lose k s)) \<le> length (st_in s)" by (simp add: lose_def)
  show ?case
  proof (cases "\<exists>bs. r' = TermData bs \<and> bs \<noteq> []")
    case True
    then obtain bs where bs: "r' = TermData bs" "bs \<noteq> []" by blast
    obtain s1 x where sent: "respond enc (Output bs) (lose k s) = (s1, x)" by fastforce
    show ?thesis
    proof (cases x)
      case (Inl e)
      with 2 bs l sent respond_in [OF sent] show ?thesis by simp
    next
      case (Inr u)
      then have sent': "(s1, Inr ()) = respond enc (Output bs) (lose k s)" using sent by simp
      have "shell_loop enc dec es ws (s1, tty) = Some ((s', tty'), r)"
        using "2.prems" bs sent' [symmetric] by simp
      then have "length (st_in s') \<le> length (st_in s1)" using "2.IH" bs sent' by fastforce
      with l respond_in [OF sent] show ?thesis by simp
    qed
  next
    case False
    with 2 l show ?thesis by (cases r') (auto simp: close_session_in Let_def split: if_splits)
  qed
next
  case (3 enc dec es ws s tty)
  obtain s1 x where "read_request dec s = (s1, x)" by fastforce
  with 3 read_request_in(1) [OF this] show ?case
    by (fastforce simp: close_session_in split: sum.splits option.splits guest_request.splits prod.splits)
next
  case (4 enc dec k status es ws s tty)
  then show ?case by (auto simp: Let_def lose_def close_session_in split: sum.splits)
qed simp

lemma run_session_in:
  "run_session os enc dec su es ws (s, files) = Some ((s', tty, files'), r) \<Longrightarrow>
   length (st_in s') \<le> length (st_in s)"
  using shell_loop_in [of enc dec es ws "(s, [])"]
  by (auto simp: run_session_def split: prod.splits sum.splits)

lemma expose_port_in: "handle_expose_port enc w p s ag = ((s', ag'), r) \<Longrightarrow> st_in s' = st_in s"
  by (auto simp: handle_expose_port_def Let_def dest: respond_in split: sum.splits option.splits prod.splits)

lemma handle_request_in:
  assumes "handle_request enc dec w rq (s, ag) = Some ((s', ag'), r)"
  shows "length (st_in s') \<le> length (st_in s)"
proof (cases rq)
  case (Exec cmd)
  with assms have "handle_exec enc (w_spawn w) (ag_env ag) cmd s = Some (s', r)"
    by (auto simp: handle_request_def)
  then show ?thesis by (auto simp: handle_exec_def dest!: exec_loop_in split: sum.splits if_splits)
next
  case OpenShell
  with assms show ?thesis by (auto simp: handle_request_def dest: run_session_in)
next
  case (WriteFileChunk path offset data is_last)
  with assms show ?thesis
    by (auto simp: handle_request_def Let_def dest!: chunk_in split: prod.splits)
next
  case (ReadFile path chunk_size)
  with assms show ?thesis
    by (auto simp: handle_request_def Let_def dest!: read_file_in split: prod.splits)
next
  case (SetEnv vars)
  with assms show ?thesis by (auto simp: handle_request_def Let_def dest: respond_in split: prod.splits)
next
  case (ExposePort p)
  with assms show ?thesis by (auto simp: handle_request_def dest: expose_port_in)
qed (use assms in \<open>auto simp: handle_request_def\<close>)

text \<open>
  C29. The loop over the requests of a connection ends: whatever bytes the host sends, after at most
  one request for each four bytes and one more step the connection is closed, provided that no
  handler waits for ever.
\<close>

theorem connection_ends:
  assumes "\<forall>w\<in>set ws. \<forall>rq st. handle_request enc dec w rq st \<noteq> None" "length (st_in s) < 4 * length ws"
  shows "\<exists>st r. handle_connection enc dec ws (s, ag) = Some (st, r)"
  using assms
proof (induction ws arbitrary: s ag)
  case Nil
  then show ?case by simp
next
  case (Cons w ws)
  obtain s1 x where x: "read_request dec s = (s1, x)" by fastforce
  show ?case
  proof (cases "\<exists>rq. x = Inr (Some rq)")
    case False
    then show ?thesis using x by (auto split: sum.split option.split)
  next
    case True
    then obtain rq where rq: "x = Inr (Some rq)" by blast
    have "length (st_in s1) + 4 \<le> length (st_in s)" using read_request_in(2) [OF x] rq by blast
    moreover obtain s2 ag2 r where h: "handle_request enc dec w rq (s1, ag) = Some ((s2, ag2), r)"
      using Cons.prems(1) by (metis list.set_intros(1) not_None_eq prod.exhaust)
    moreover have "length (st_in s2) \<le> length (st_in s1)" by (rule handle_request_in [OF h])
    ultimately have "length (st_in s2) < 4 * length ws" using Cons.prems(2) by simp
    with Cons.IH [of s2 ag2] Cons.prems(1) x rq h show ?thesis by (cases r) simp_all
  qed
qed

text \<open>A world in which nothing waits: the child ends at once, and so does the shell.\<close>

definition sample_world :: world where
  "sample_world = \<lparr>w_os = plain_os (\<lambda>_. True) id,
     w_spawn = (\<lambda>_. Inr \<lparr>sp_stdout_piped = True, sp_stderr_piped = True, sp_events = [Waited (Inr (Some 0))]\<rparr>),
     w_setup = \<lparr>su_openpty = None, su_clone_stdin = None, su_clone_stdout = None, su_spawn = (\<lambda>_. None),
       su_getfl = None, su_setfl = None, su_asyncfd = None\<rparr>,
     w_shell = [ShellDone 0 (Inr ())], w_writes = [], w_bind = Inr, w_local_addr = None\<rparr>"

lemma sample_world_answers: "handle_request enc dec sample_world rq st \<noteq> None"
  by (cases rq; cases st)
    (auto simp: handle_request_def sample_world_def handle_exec_def run_session_def set_up_def Let_def
      split: prod.split)

definition sample_agent :: agent where
  "sample_agent = \<lparr>ag_files = [''/f'' \<mapsto> [9, 9, 9]], ag_env = fmempty, ag_listening = [], ag_term = []\<rparr>"

theorem connection_ends_witness:
  "\<exists>st r. handle_connection sample_rsp_enc sample_rq_dec [sample_world, sample_world, sample_world]
     (sample_stream\<lparr>st_in := [0, 0, 0, 1, 34, 0, 0, 0]\<rparr>, sample_agent) = Some (st, r)"
  by (rule connection_ends) (auto simp: sample_world_answers)

section \<open>Further facts of the agent\<close>

text \<open>The listener of an exposed port does not outlive the handler, although the host is told the port.\<close>

lemma exposed_port_closed:
  assumes "w_bind w p = Inr q" "w_local_addr w = None" "codec_ok enc dec (PortExposed p q)" "writable s"
  shows "handle_expose_port enc w p s ag =
    ((s\<lparr>st_out := st_out s @ frame enc (PortExposed p q)\<rparr>, ag), Inr ())"
  using assms respond_good [OF assms(3,4)] by (simp add: handle_expose_port_def Let_def)

text \<open>A connection that does not end keeps every later one from being accepted.\<close>

lemma busy_agent_accepts_nothing:
  "handle_connection enc dec ws (s, ag) = None \<Longrightarrow>
   accept_loop enc dec (Accepted s ws # cs) ag = (ag, [], True)"
  by simp

text \<open>Of the variables injected, the last value for a name counts; the count is that of all names.\<close>

lemma injected_environment:
  "fmlookup (fst (set_env_vars vars env)) k =
     (case fmlookup vars k of None \<Rightarrow> fmlookup env k | Some v \<Rightarrow> Some v)"
  "snd (set_env_vars vars env) = card (dom (fmlookup env) \<union> dom (fmlookup vars))"
  "fmlookup (ec_env (exec_command_of cmd env)) = fmlookup env"
proof -
  show "fmlookup (fst (set_env_vars vars env)) k =
     (case fmlookup vars k of None \<Rightarrow> fmlookup env k | Some v \<Rightarrow> Some v)"
    by (auto simp: set_env_vars_def fmlookup_add fmlookup_dom_iff split: option.split)
  have "fset (fmdom (fmadd env vars)) = dom (fmlookup env) \<union> dom (fmlookup vars)"
    by (auto simp: fmlookup_dom'_iff fmlookup_dom_iff)
  then show "snd (set_env_vars vars env) = card (dom (fmlookup env) \<union> dom (fmlookup vars))"
    by (simp add: set_env_vars_def fcard.rep_eq)
  show "fmlookup (ec_env (exec_command_of cmd env)) = fmlookup env"
    by (simp add: exec_command_of_def apply_to_tokio_command_def)
qed

end
