(* ===== verification/File_Transfer.thy ===== *)
theory File_Transfer
  imports Guest_Agent
begin

text \<open>
  Uploads and downloads on the host (\<open>akssora-core/src/files.rs\<close>) and their composition with the agent:
  what the host's requests make of the guest's files, and what the host gets from its answers. The
  host's end of a connection is a stream whose input is what the agent wrote to its own end.
\<close>

section \<open>Uploads\<close>

definition DEFAULT_FILE_CHUNK_SIZE :: nat where
  "DEFAULT_FILE_CHUNK_SIZE = 64 * 1024"

text \<open>\<open>slice::chunks\<close>.\<close>

function chunks :: "nat \<Rightarrow> 'a list \<Rightarrow> 'a list list" where
  "chunks n xs = (if xs = [] \<or> n = 0 then [] else take n xs # chunks n (drop n xs))"
  by pat_completeness auto
termination
  by (relation "measure (\<lambda>(n, xs). length xs)") auto

declare chunks.simps [simp del]

text \<open>The response to the last chunk. \<open>dbg\<close> is the \<open>Debug\<close> text of a response.\<close>

type_synonym rq_encoder = "guest_request \<Rightarrow> string + bytes"
type_synonym rsp_decoder = "bytes \<Rightarrow> string + guest_response"

definition upload_answer ::
    "(guest_response \<Rightarrow> string) \<Rightarrow> string \<Rightarrow> core_error + guest_response option \<Rightarrow> core_error + u64" where
  "upload_answer dbg path r =
     (case r of
        Inl error \<Rightarrow> Inl error
      | Inr None \<Rightarrow> Inl (GuestAgent ''connection closed during file write'')
      | Inr (Some m) \<Rightarrow>
          (case m of
             FileWriteAck _ bytes_written \<Rightarrow> Inr bytes_written
           | FileError _ message \<Rightarrow> Inl (GuestFileError path message)
           | other \<Rightarrow> Inl (GuestAgent (''unexpected response to WriteFileChunk: '' @ dbg other))))"

fun write_chunk_loop ::
    "rq_encoder \<Rightarrow> rsp_decoder \<Rightarrow> (guest_response \<Rightarrow> string) \<Rightarrow> string \<Rightarrow> nat \<Rightarrow> nat \<Rightarrow> u64 \<Rightarrow> bytes list \<Rightarrow>
     stream \<Rightarrow> stream \<times> (core_error + u64)" where
  "write_chunk_loop enc dec dbg path len offset total_written [] s = (s, Inr total_written)"
| "write_chunk_loop enc dec dbg path len offset total_written (chunk # cs) s =
     (let is_last = (len \<le> offset + length chunk)
      in case write_request enc (WriteFileChunk path (of_nat offset) chunk is_last) s of
           (s1, Inl error) \<Rightarrow> (s1, Inl error)
         | (s1, Inr _) \<Rightarrow>
             if is_last
             then (case read_response dec s1 of
                     (s2, r) \<Rightarrow>
                       (case upload_answer dbg path r of
                          Inl error \<Rightarrow> (s2, Inl error)
                        | Inr n \<Rightarrow> write_chunk_loop enc dec dbg path len (offset + length chunk) n cs s2))
             else write_chunk_loop enc dec dbg path len (offset + length chunk) total_written cs s1)"

definition write_file_chunks ::
    "rq_encoder \<Rightarrow> rsp_decoder \<Rightarrow> (guest_response \<Rightarrow> string) \<Rightarrow> string \<Rightarrow> bytes \<Rightarrow> stream \<Rightarrow>
     stream \<times> (core_error + u64)" where
  "write_file_chunks enc dec dbg path data s =
     (if data = []
      then (case write_request enc (WriteFileChunk path 0 [] True) s of
              (s1, Inl error) \<Rightarrow> (s1, Inl error)
            | (s1, Inr _) \<Rightarrow>
                (case read_response dec s1 of (s2, r) \<Rightarrow> (s2, upload_answer dbg path r)))
      else write_chunk_loop enc dec dbg path (length data) 0 0 (chunks DEFAULT_FILE_CHUNK_SIZE data) s)"

section \<open>Downloads\<close>

lemma read_response_shorter:
  assumes "read_response dec s = (s', Inr (Some m))"
  shows "length (st_in s') < length (st_in s)"
  using assms by (auto simp: read_response_def read_frame_def Let_def dest!: read_exact_in
      split: prod.splits sum.splits io_error.splits if_splits)

text \<open>The loop over the responses; the end of the connection ends it like the last chunk does.\<close>

function collect_chunks ::
    "rsp_decoder \<Rightarrow> (guest_response \<Rightarrow> string) \<Rightarrow> string \<Rightarrow> bytes \<Rightarrow> stream \<Rightarrow> stream \<times> (core_error + bytes)" where
  "collect_chunks dec dbg path file_data s =
     (case read_response dec s of
        (s1, Inl error) \<Rightarrow> (s1, Inl error)
      | (s1, Inr None) \<Rightarrow> (s1, Inr file_data)
      | (s1, Inr (Some m)) \<Rightarrow>
          (case m of
             ReadFileChunk _ _ data is_last \<Rightarrow>
               if is_last then (s1, Inr (file_data @ data))
               else collect_chunks dec dbg path (file_data @ data) s1
           | FileError _ message \<Rightarrow> (s1, Inl (GuestFileError path message))
           | other \<Rightarrow> (s1, Inl (GuestAgent (''unexpected response to ReadFile: '' @ dbg other)))))"
  by pat_completeness auto
termination
  by (relation "measure (\<lambda>(_, _, _, _, s). length (st_in s))") (auto intro: read_response_shorter dest: sym)

declare collect_chunks.simps [simp del]

definition read_file_chunks ::
    "rq_encoder \<Rightarrow> rsp_decoder \<Rightarrow> (guest_response \<Rightarrow> string) \<Rightarrow> string \<Rightarrow> stream \<Rightarrow> stream \<times> (core_error + bytes)" where
  "read_file_chunks enc dec dbg path s =
     (case write_request enc (ReadFile path (Some (of_nat DEFAULT_FILE_CHUNK_SIZE))) s of
        (s1, Inl error) \<Rightarrow> (s1, Inl error)
      | (s1, Inr _) \<Rightarrow> collect_chunks dec dbg path [] s1)"


section \<open>The requests of an upload\<close>

fun chunk_requests :: "string \<Rightarrow> nat \<Rightarrow> nat \<Rightarrow> bytes list \<Rightarrow> guest_request list" where
  "chunk_requests path len offset [] = []"
| "chunk_requests path len offset (c # cs) =
     WriteFileChunk path (of_nat offset) c (len \<le> offset + length c) #
     chunk_requests path len (offset + length c) cs"

definition upload_requests :: "string \<Rightarrow> bytes \<Rightarrow> guest_request list" where
  "upload_requests path data =
     (if data = [] then [WriteFileChunk path 0 [] True]
      else chunk_requests path (length data) 0 (chunks DEFAULT_FILE_CHUNK_SIZE data))"

lemma chunks_concat: "0 < n \<Longrightarrow> concat (chunks n xs) = xs"
  by (induction n xs rule: chunks.induct) (subst chunks.simps, auto)

lemma chunks_nonempty: "c \<in> set (chunks n xs) \<Longrightarrow> c \<noteq> []"
  by (induction n xs rule: chunks.induct) (subst (asm) (2) chunks.simps, auto split: if_splits)

lemma chunks_small: "c \<in> set (chunks n xs) \<Longrightarrow> length c \<le> n"
  by (induction n xs rule: chunks.induct) (subst (asm) (2) chunks.simps, auto split: if_splits)

lemma chunk_requests_length [simp]: "length (chunk_requests path len offset cs) = length cs"
  by (induction cs arbitrary: offset) auto

text \<open>The host writes all requests before it reads, whatever it then reads.\<close>

lemma write_chunk_loop_out:
  "\<forall>rq\<in>set (chunk_requests path len offset cs). codec_ok enc dec0 rq \<Longrightarrow> writable s \<Longrightarrow>
   \<forall>c\<in>set cs. c \<noteq> [] \<Longrightarrow> len = offset + length (concat cs) \<Longrightarrow> cs \<noteq> [] \<Longrightarrow>
   write_chunk_loop enc dec dbg path len offset n cs s =
     (let s1 = s\<lparr>st_out := st_out s @ concat (map (frame enc) (chunk_requests path len offset cs))\<rparr>;
          (s2, r) = read_response dec s1
      in (s2, upload_answer dbg path r))"
proof (induction cs arbitrary: offset n s)
  case Nil
  then show ?case by simp
next
  case (Cons c cs)
  let ?rq = "WriteFileChunk path (of_nat offset) c (len \<le> offset + length c)"
  let ?s = "s\<lparr>st_out := st_out s @ frame enc ?rq\<rparr>"
  have sent: "write_request enc ?rq s = (?s, Inr ())"
    using Cons.prems(1,2) by (intro requests.put_good [of enc dec0]) simp_all
  have last: "(len \<le> offset + length c) = (cs = [])"
    using Cons.prems(3,4) by (cases cs) auto
  show ?case
  proof (cases "cs = []")
    case True
    with sent last show ?thesis by (simp add: Let_def split: prod.split sum.split)
  next
    case False
    have "writable ?s" using Cons.prems(2) by simp
    with False Cons.IH [of "offset + length c" ?s n] Cons.prems sent last show ?thesis
      by (simp add: Let_def)
  qed
qed

lemma write_file_chunks_out:
  assumes "\<forall>rq\<in>set (upload_requests path data). codec_ok enc dec0 rq" "writable s"
  shows "write_file_chunks enc dec dbg path data s =
     (let s1 = s\<lparr>st_out := st_out s @ concat (map (frame enc) (upload_requests path data))\<rparr>;
          (s2, r) = read_response dec s1
      in (s2, upload_answer dbg path r))"
proof (cases "data = []")
  case True
  have "write_request enc (WriteFileChunk path 0 [] True) s =
      (s\<lparr>st_out := st_out s @ frame enc (WriteFileChunk path 0 [] True)\<rparr>, Inr ())"
    using assms True by (intro requests.put_good [of enc dec0]) (simp_all add: upload_requests_def)
  with True show ?thesis by (simp add: write_file_chunks_def upload_requests_def Let_def split: prod.split)
next
  case False
  have "chunks DEFAULT_FILE_CHUNK_SIZE data \<noteq> []"
    using False chunks_concat [of DEFAULT_FILE_CHUNK_SIZE data] by (auto simp: DEFAULT_FILE_CHUNK_SIZE_def)
  moreover have "\<forall>c\<in>set (chunks DEFAULT_FILE_CHUNK_SIZE data). c \<noteq> []" using chunks_nonempty by blast
  moreover have "length data = 0 + length (concat (chunks DEFAULT_FILE_CHUNK_SIZE data))"
    by (simp add: chunks_concat DEFAULT_FILE_CHUNK_SIZE_def)
  moreover have rqs: "upload_requests path data =
      chunk_requests path (length data) 0 (chunks DEFAULT_FILE_CHUNK_SIZE data)"
    using False by (simp add: upload_requests_def)
  ultimately have "write_chunk_loop enc dec dbg path (length data) 0 0 (chunks DEFAULT_FILE_CHUNK_SIZE data) s =
     (let s1 = s\<lparr>st_out := st_out s @ concat (map (frame enc) (upload_requests path data))\<rparr>;
          (s2, r) = read_response dec s1
      in (s2, upload_answer dbg path r))"
    using assms unfolding rqs by (intro write_chunk_loop_out [of path "length data" 0 _ enc dec0 s]) simp_all
  with False show ?thesis by (simp only: write_file_chunks_def if_False)
qed

section \<open>The agent's side of an upload\<close>

lemma connection_step:
  assumes "codec_ok encr dec rq" "st_in s = frame encr rq @ rest"
    and "handle_request enc dec w rq (s\<lparr>st_in := rest\<rparr>, ag) = Some (st, Inr ())"
  shows "handle_connection enc dec (w # ws) (s, ag) = handle_connection enc dec ws st"
  using request_step [OF assms(1,2)] assms(3) by simp

lemma connection_end:
  assumes "st_in s = []" "st_end s = UnexpectedEof"
  shows "handle_connection enc dec (w # ws) (s, ag) = Some ((s, ag), Inr ())"
  using requests.get_end [OF assms] by simp

lemma write_at_next:
  "write_at (length pre) c (pre @ drop (length pre) old) = pre @ c @ drop (length pre + length c) old"
  by (simp add: write_at_def add.commute)

lemma guest_chunk:
  assumes "accepts (w_os w) path p" "writable s" "offset < 2 ^ 64"
    and "new = write_at offset data (if offset = 0 \<and> is_last \<and> data = [] then [] else contents (ag_files ag) p)"
    and "is_last \<Longrightarrow> codec_ok enc dec' (FileWriteAck path (of_nat (length new)))"
  shows "handle_request enc dec w (WriteFileChunk path (of_nat offset) data is_last) (s, ag) =
    Some ((if is_last then s\<lparr>st_out := st_out s @ frame enc (FileWriteAck path (of_nat (length new)))\<rparr> else s,
      ag\<lparr>ag_files := (ag_files ag)(p \<mapsto> new)\<rparr>), Inr ())"
proof -
  have u: "unat (of_nat offset :: u64) = offset" using assms(3) by (simp add: unat_of_nat)
  then have "((of_nat offset :: u64) = 0) = (offset = 0)" by (metis unat_eq_zero)
  with u assms(4) have "new = write_at (unat (of_nat offset :: u64)) data
      (if (of_nat offset :: u64) = 0 \<and> is_last \<and> data = [] then [] else contents (ag_files ag) p)" by simp
  from chunk_stored [OF assms(1) this assms(5,2)] show ?thesis by (simp add: handle_request_def Let_def)
qed

lemma guest_upload:
  "\<forall>c\<in>set cs. c \<noteq> [] \<Longrightarrow> cs \<noteq> [] \<Longrightarrow> len = length pre + length (concat cs) \<Longrightarrow> len < 2 ^ 64 \<Longrightarrow>
   accepts (w_os w) path p \<Longrightarrow> contents (ag_files ag) p = pre @ drop (length pre) old \<Longrightarrow>
   \<forall>rq\<in>set (chunk_requests path len (length pre) cs). codec_ok encr dec rq \<Longrightarrow>
   st_in s = concat (map (frame encr) (chunk_requests path len (length pre) cs)) \<Longrightarrow>
   st_end s = UnexpectedEof \<Longrightarrow> writable s \<Longrightarrow> new = pre @ concat cs @ drop len old \<Longrightarrow>
   codec_ok enc dec' (FileWriteAck path (of_nat (length new))) \<Longrightarrow>
   handle_connection enc dec (replicate (Suc (length cs)) w) (s, ag) =
     Some ((s\<lparr>st_in := [], st_out := st_out s @ frame enc (FileWriteAck path (of_nat (length new)))\<rparr>,
       ag\<lparr>ag_files := (ag_files ag)(p \<mapsto> new)\<rparr>), Inr ())"
proof (induction cs arbitrary: pre s ag)
  case Nil
  then show ?case by simp
next
  case (Cons c cs)
  let ?last = "len \<le> length pre + length c"
  let ?rq = "WriteFileChunk path (of_nat (length pre)) c ?last"
  let ?rest = "concat (map (frame encr) (chunk_requests path len (length pre + length c) cs))"
  let ?new = "pre @ c @ drop (length pre + length c) old"
  have last: "?last = (cs = [])" using Cons.prems(1,3) by (cases cs) auto
  have rq: "codec_ok encr dec ?rq" "st_in s = frame encr ?rq @ ?rest" using Cons.prems by simp_all
  have new: "?new = write_at (length pre) c (if length pre = 0 \<and> ?last \<and> c = [] then [] else contents (ag_files ag) p)"
    using Cons.prems(1,6) by (simp add: write_at_next)
  let ?s = "s\<lparr>st_in := ?rest\<rparr>"
  let ?ag = "ag\<lparr>ag_files := (ag_files ag)(p \<mapsto> ?new)\<rparr>"
  have n: "cs = [] \<Longrightarrow> new = ?new" using Cons.prems(3,11) by simp
  have h: "handle_request enc dec w ?rq (?s, ag) = Some ((if ?last
      then ?s\<lparr>st_out := st_out ?s @ frame enc (FileWriteAck path (of_nat (length ?new)))\<rparr> else ?s, ?ag), Inr ())"
  proof (rule guest_chunk [OF Cons.prems(5) _ _ new])
    show "writable ?s" using Cons.prems(10) by simp
    show "length pre < 2 ^ 64" using Cons.prems(3,4) by simp
    show "codec_ok enc dec' (FileWriteAck path (of_nat (length ?new)))" if ?last
      using that last n Cons.prems(12) by simp
  qed
  show ?case
  proof (cases "cs = []")
    case True
    then have "handle_request enc dec w ?rq (?s, ag) =
      Some ((s\<lparr>st_in := [], st_out := st_out s @ frame enc (FileWriteAck path (of_nat (length new)))\<rparr>, ?ag), Inr ())"
      using h last n by simp
    note step = connection_step [OF rq this, of "[w]"]
    show ?thesis
      using True n step connection_end [of "s\<lparr>st_in := [], st_out := st_out s @
          frame enc (FileWriteAck path (of_nat (length new)))\<rparr>" enc dec w "[]"] Cons.prems(9)
      by (simp del: handle_connection.simps fun_upd_apply)
  next
    case False
    then have "handle_request enc dec w ?rq (?s, ag) = Some ((?s, ?ag), Inr ())"
      using h last by simp
    note step = connection_step [OF rq this, of "replicate (Suc (length cs)) w"]
    have "contents (ag_files ?ag) p = (pre @ c) @ drop (length (pre @ c)) old" by (simp add: contents_def)
    moreover have "new = (pre @ c) @ concat cs @ drop len old" "len = length (pre @ c) + length (concat cs)"
      using Cons.prems(3,11) by simp_all
    ultimately have "handle_connection enc dec (replicate (Suc (length cs)) w) (?s, ?ag) =
        Some ((?s\<lparr>st_in := [], st_out := st_out ?s @ frame enc (FileWriteAck path (of_nat (length new)))\<rparr>,
          ?ag\<lparr>ag_files := (ag_files ?ag)(p \<mapsto> new)\<rparr>), Inr ())"
      using Cons.prems False by (intro Cons.IH [of "pre @ c"]) (simp_all del: fun_upd_apply)
    with step show ?thesis by (simp del: handle_connection.simps fun_upd_apply)
  qed
qed


lemma guest_handles_upload:
  assumes "accepts (w_os w) path p" "length data < 2 ^ 64"
    and "\<forall>rq\<in>set (upload_requests path data). codec_ok encr dec rq"
    and "new = (if data = [] then [] else data @ drop (length data) (contents (ag_files ag) p))"
    and "codec_ok enc dec' (FileWriteAck path (of_nat (length new)))" "writable s"
    and "st_in s = concat (map (frame encr) (upload_requests path data))" "st_end s = UnexpectedEof"
  shows "handle_connection enc dec (replicate (Suc (length (upload_requests path data))) w) (s, ag) =
     Some ((s\<lparr>st_in := [], st_out := st_out s @ frame enc (FileWriteAck path (of_nat (length new)))\<rparr>,
       ag\<lparr>ag_files := (ag_files ag)(p \<mapsto> new)\<rparr>), Inr ())"
proof (cases "data = []")
  case True
  let ?rq = "WriteFileChunk path (of_nat 0) [] True"
  have up: "upload_requests path data = [?rq]" using True by (simp add: upload_requests_def)
  let ?s = "s\<lparr>st_in := []\<rparr>"
  let ?s' = "s\<lparr>st_in := [], st_out := st_out s @ frame enc (FileWriteAck path (of_nat (length new)))\<rparr>"
  have "handle_request enc dec w ?rq (?s, ag) = Some ((if True
      then ?s\<lparr>st_out := st_out ?s @ frame enc (FileWriteAck path (of_nat (length new)))\<rparr> else ?s,
      ag\<lparr>ag_files := (ag_files ag)(p \<mapsto> new)\<rparr>), Inr ())"
    using assms(4-6) True by (intro guest_chunk [OF assms(1)]) (simp_all add: write_at_def)
  then have "handle_request enc dec w ?rq (?s, ag) = Some ((?s', ag\<lparr>ag_files := (ag_files ag)(p \<mapsto> new)\<rparr>), Inr ())"
    by simp
  note step = connection_step [OF _ _ this, of encr "[w]"]
  show ?thesis
    using assms(3,7,8) step connection_end [of ?s' enc dec w "[]"] up
    by (simp del: handle_connection.simps fun_upd_apply)
next
  case False
  let ?cs = "chunks DEFAULT_FILE_CHUNK_SIZE data"
  have cs: "\<forall>c\<in>set ?cs. c \<noteq> []" "concat ?cs = data" "?cs \<noteq> []"
    using chunks_nonempty chunks_concat [of DEFAULT_FILE_CHUNK_SIZE data] False
    by (auto simp: DEFAULT_FILE_CHUNK_SIZE_def)
  have up: "upload_requests path data = chunk_requests path (length data) (length []) ?cs"
    using False by (simp add: upload_requests_def)
  have "handle_connection enc dec (replicate (Suc (length ?cs)) w) (s, ag) =
     Some ((s\<lparr>st_in := [], st_out := st_out s @ frame enc (FileWriteAck path (of_nat (length new)))\<rparr>,
       ag\<lparr>ag_files := (ag_files ag)(p \<mapsto> new)\<rparr>), Inr ())"
    using assms cs False up
    by (intro guest_upload [where pre = "[]" and old = "contents (ag_files ag) p" and len = "length data"])
      simp_all
  with up show ?thesis by simp
qed

text \<open>
  C25. An upload, from the host's call to the guest's file and back: the agent handles all requests and
  ends the connection; the file holds the data, and no other file changes; the host gets the length
  of the file. But unless the data is empty the file is not truncated: what it held beyond the length of the
  data stays, and the length returned is then that of the old contents.
\<close>

theorem upload_result:
  assumes "accepts (w_os w) path p" "length data < 2 ^ 64"
    and "\<forall>rq\<in>set (upload_requests path data). codec_ok encr dec rq"
    and "new = (if data = [] then [] else data @ drop (length data) (contents (ag_files ag) p))"
    and "codec_ok enc dec' (FileWriteAck path (of_nat (length new)))"
    and "writable host" "writable guest" "st_out host = []" "st_out guest = []"
    and "st_in guest = st_out (fst (write_file_chunks encr dec' dbg path data host))" "st_end guest = UnexpectedEof"
  shows "\<exists>guest' ag'. handle_connection enc dec (replicate (Suc (length (upload_requests path data))) w) (guest, ag) =
      Some ((guest', ag'), Inr ()) \<and>
    ag_files ag' = (ag_files ag)(p \<mapsto> new) \<and>
    (st_in host = st_out guest' \<longrightarrow>
      snd (write_file_chunks encr dec' dbg path data host) = Inr (of_nat (length new)))"
proof -
  let ?rqs = "concat (map (frame encr) (upload_requests path data))"
  let ?ack = "FileWriteAck path (of_nat (length new))"
  let ?h = "host\<lparr>st_out := st_out host @ ?rqs\<rparr>"
  have w: "write_file_chunks encr dec' dbg path data host =
      (let (s2, r) = read_response dec' ?h in (s2, upload_answer dbg path r))"
    unfolding write_file_chunks_out [OF assms(3,6)] by (simp add: Let_def)
  have out: "st_out (fst (read_response dec s)) = st_out s" for s and dec :: rsp_decoder
    by (auto simp: read_response_def read_frame_def read_exact_def Let_def
        split: prod.split sum.split io_error.split)
  have "st_in guest = ?rqs" using assms(8,10) out [of dec' ?h] by (simp add: w split_def Let_def)
  note g = guest_handles_upload [OF assms(1-5,7) this assms(11)]
  have "st_in host = frame enc ?ack \<Longrightarrow> read_response dec' ?h = (?h\<lparr>st_in := []\<rparr>, Inr (Some ?ack))"
    using assms(5) by (intro responses.get_good [of enc]) simp_all
  then have "st_in host = frame enc ?ack \<Longrightarrow>
      snd (write_file_chunks encr dec' dbg path data host) = Inr (of_nat (length new))"
    by (simp add: w upload_answer_def)
  with g assms(9) show ?thesis by simp
qed

definition const_codec :: "'m \<Rightarrow> ('m \<Rightarrow> string + bytes) \<times> (bytes \<Rightarrow> string + 'm)" where
  "const_codec m = (\<lambda>_. Inr [1], \<lambda>_. Inr m)"

lemma const_codec_ok: "codec_ok (fst (const_codec m)) (snd (const_codec m)) m"
  by (simp add: codec_ok_def const_codec_def json_of_def MAX_FRAME_SIZE_def)

lemma sample_accepts: "accepts (w_os sample_world) ''/f'' ''/f''"
  by (simp add: accepts_def sample_world_def plain_os_def resolve_and_validate_path_def Let_def
      is_absolute_def components_def part_component_def leaves_def path_of_def push_path_def
      bad_ancestor.simps parent_of_def)

theorem upload_result_witness:
  "\<exists>guest' ag'. handle_connection (fst (const_codec (FileWriteAck ''/f'' 3)))
      (snd (const_codec (WriteFileChunk ''/f'' 0 [1, 2] True))) [sample_world, sample_world]
      (sample_stream\<lparr>st_in := [0, 0, 0, 1, 1]\<rparr>, sample_agent) = Some ((guest', ag'), Inr ()) \<and>
    ag_files ag' = [''/f'' \<mapsto> [1, 2, 9]]"
proof -
  let ?rq = "WriteFileChunk ''/f'' 0 [1, 2] True"
  let ?ack = "FileWriteAck ''/f'' 3"
  let ?up = "write_file_chunks (fst (const_codec ?rq)) (snd (const_codec ?ack)) (\<lambda>_. '''') ''/f'' [1, 2]
    (sample_stream\<lparr>st_in := [0, 0, 0, 1, 1]\<rparr>)"
  have rqs: "upload_requests ''/f'' [1, 2] = [?rq]"
    by (simp add: upload_requests_def chunks.simps DEFAULT_FILE_CHUNK_SIZE_def)
  have "st_out (fst ?up) = [0, 0, 0, 1, 1]"
    by (subst write_file_chunks_out [of _ _ _ "snd (const_codec ?rq)"])
      (simp_all add: rqs const_codec_ok [unfolded const_codec_def fst_conv snd_conv] writable_def sample_stream_def frame_def json_of_def
        const_codec_def to_be_bytes_def read_response_def read_frame_def read_exact_def Let_def
        from_be_bytes_def MAX_FRAME_SIZE_def)
  moreover have "contents (ag_files sample_agent) ''/f'' = [9, 9, 9]" "ag_files sample_agent = [''/f'' \<mapsto> [9, 9, 9]]"
    by (simp_all add: sample_agent_def contents_def)
  moreover have "writable sample_stream" "st_out sample_stream = []" "st_end sample_stream = UnexpectedEof"
    by (simp_all add: writable_def sample_stream_def)
  ultimately obtain guest' ag' where "handle_connection (fst (const_codec ?ack)) (snd (const_codec ?rq))
      (replicate (Suc (length (upload_requests ''/f'' [1, 2]))) sample_world)
      (sample_stream\<lparr>st_in := [0, 0, 0, 1, 1]\<rparr>, sample_agent) = Some ((guest', ag'), Inr ())"
    "ag_files ag' = (ag_files sample_agent)(''/f'' \<mapsto> [1, 2, 9])"
    "ag_files sample_agent = [''/f'' \<mapsto> [9, 9, 9]]"
    using upload_result [OF sample_accepts, of "[1, 2]" "fst (const_codec ?rq)" "snd (const_codec ?rq)"
        "[1, 2, 9]" sample_agent "fst (const_codec ?ack)" "snd (const_codec ?ack)"
        "sample_stream\<lparr>st_in := [0, 0, 0, 1, 1]\<rparr>" "sample_stream\<lparr>st_in := [0, 0, 0, 1, 1]\<rparr>" "\<lambda>_. ''''"]
      const_codec_ok [of ?rq] const_codec_ok [of ?ack]
    by (auto simp: rqs simp del: handle_connection.simps fun_upd_apply)
  then show ?thesis by (simp add: rqs del: handle_connection.simps)
qed


section \<open>A download\<close>

lemma collect_next:
  assumes "codec_ok enc dec (ReadFileChunk q off d l)" "st_in s = frame enc (ReadFileChunk q off d l) @ rest"
  shows "collect_chunks dec dbg path acc s =
    (if l then (s\<lparr>st_in := rest\<rparr>, Inr (acc @ d)) else collect_chunks dec dbg path (acc @ d) (s\<lparr>st_in := rest\<rparr>))"
  by (subst collect_chunks.simps) (simp add: responses.get_good [OF assms])

lemma collect_stream:
  "chunk_stream rs c \<Longrightarrow> \<forall>r\<in>set rs. codec_ok enc dec r \<Longrightarrow> st_in s = concat (map (frame enc) rs) @ rest \<Longrightarrow>
   collect_chunks dec dbg path acc s = (s\<lparr>st_in := rest\<rparr>, Inr (acc @ c))"
proof (induction rs c arbitrary: acc s rule: chunk_stream.induct)
  case (Last q off d)
  then show ?case using collect_next [of enc dec q off d True s rest] by simp
next
  case (Next rs c q off d)
  then show ?case
    using collect_next [of enc dec q off d False s "concat (map (frame enc) rs) @ rest"] by simp
qed

lemma collect_part:
  "chunk_stream (rs @ r # rs') c \<Longrightarrow> \<forall>r\<in>set rs. codec_ok enc dec r \<Longrightarrow>
   st_in s = concat (map (frame enc) rs) @ rest \<Longrightarrow>
   collect_chunks dec dbg path acc s =
     collect_chunks dec dbg path (acc @ concat (map resp_data rs)) (s\<lparr>st_in := rest\<rparr>) \<and>
   prefix (concat (map resp_data rs)) c"
proof (induction rs arbitrary: acc c s)
  case Nil
  then have "s\<lparr>st_in := rest\<rparr> = s" by simp
  then show ?case by simp
next
  case (Cons r0 rs)
  from Cons.prems(1) obtain q off d c' where r0: "r0 = ReadFileChunk q off d False" "c = d @ c'"
    "chunk_stream (rs @ r # rs') c'" by (auto elim: chunk_stream_elim)
  let ?s = "s\<lparr>st_in := concat (map (frame enc) rs) @ rest\<rparr>"
  have "collect_chunks dec dbg path acc s = collect_chunks dec dbg path (acc @ d) ?s"
    using collect_next [of enc dec q off d False s "concat (map (frame enc) rs) @ rest"] Cons.prems(2,3) r0(1)
    by simp
  with Cons.IH [OF r0(3), of ?s "acc @ d"] Cons.prems(2) r0 show ?case by simp
qed

lemma read_response_short: "length (st_in s) < 4 \<Longrightarrow> st_end s = UnexpectedEof \<Longrightarrow> snd (read_response dec s) = Inr None"
  by (simp add: read_response_def read_frame_def read_exact_def)

lemma guest_handles_download:
  assumes "accepts (w_os w) path p" "ag_files ag p = Some c"
    and "codec_ok encr dec (ReadFile path (Some (of_nat DEFAULT_FILE_CHUNK_SIZE)))"
    and "\<forall>o' d l. length d \<le> DEFAULT_FILE_CHUNK_SIZE \<longrightarrow> codec_ok enc dec' (ReadFileChunk path o' d l)"
    and "writable s" "st_in s = frame encr (ReadFile path (Some (of_nat DEFAULT_FILE_CHUNK_SIZE)))"
      "st_end s = UnexpectedEof"
  shows "\<exists>rs. handle_connection enc dec [w, w] (s, ag) =
      Some ((s\<lparr>st_in := [], st_out := st_out s @ concat (map (frame enc) rs)\<rparr>, ag), Inr ()) \<and>
    chunk_stream rs c \<and> (\<forall>r\<in>set rs. codec_ok enc dec' r)"
proof -
  let ?k = "of_nat DEFAULT_FILE_CHUNK_SIZE :: u32"
  let ?s = "s\<lparr>st_in := []\<rparr>"
  have k: "unat ?k = DEFAULT_FILE_CHUNK_SIZE" by (simp add: DEFAULT_FILE_CHUNK_SIZE_def unat_of_nat)
  have "writable ?s" "0 < unat ?k" using assms(5) k by (simp_all add: DEFAULT_FILE_CHUNK_SIZE_def)
  with read_file_stream [of "w_os w" path p "ag_files ag" c ?k ?s enc dec'] assms(1,2,4) k
  obtain rs where rs: "handle_read_file (w_os w) enc path (Some ?k) (?s, ag_files ag) =
        ((?s\<lparr>st_out := st_out ?s @ concat (map (frame enc) rs)\<rparr>, ag_files ag), Inr ())"
      "chunk_stream rs c" "\<forall>r\<in>set rs. codec_ok enc dec' r" by auto
  let ?s' = "s\<lparr>st_in := [], st_out := st_out s @ concat (map (frame enc) rs)\<rparr>"
  have "handle_request enc dec w (ReadFile path (Some ?k)) (?s, ag) = Some ((?s', ag), Inr ())"
    using rs(1) by (simp add: handle_request_def)
  note step = connection_step [OF assms(3) _ this, of "[w]"]
  have "handle_connection enc dec [w, w] (s, ag) = Some ((?s', ag), Inr ())"
    using step connection_end [of ?s' enc dec w "[]" ag] assms(6,7) by (simp del: handle_connection.simps)
  with rs(2,3) show ?thesis by blast
qed

lemma read_file_chunks_out:
  assumes "codec_ok encr dec0 (ReadFile path (Some (of_nat DEFAULT_FILE_CHUNK_SIZE)))" "writable s"
  shows "read_file_chunks encr dec dbg path s =
    collect_chunks dec dbg path []
      (s\<lparr>st_out := st_out s @ frame encr (ReadFile path (Some (of_nat DEFAULT_FILE_CHUNK_SIZE)))\<rparr>)"
  using requests.put_good [OF assms] by (simp add: read_file_chunks_def)

text \<open>
  C26. A download, from the host's call to the agent and back: whatever sizes the reads of the file
  have, the agent sends the file and ends the connection without changing anything, and the host
  gets exactly the contents. But if the connection breaks between two frames, or within the length
  of one, the host gets what came before as if it were the whole file.
\<close>

theorem download_result:
  assumes "accepts (w_os w) path p" "ag_files ag p = Some c"
    and "codec_ok encr dec (ReadFile path (Some (of_nat DEFAULT_FILE_CHUNK_SIZE)))"
    and "\<forall>o' d l. length d \<le> DEFAULT_FILE_CHUNK_SIZE \<longrightarrow> codec_ok enc dec' (ReadFileChunk path o' d l)"
    and "writable host" "writable guest" "st_out guest = []" "st_end guest = UnexpectedEof"
    and "st_in guest = frame encr (ReadFile path (Some (of_nat DEFAULT_FILE_CHUNK_SIZE)))"
  shows "\<exists>rs guest'. handle_connection enc dec [w, w] (guest, ag) = Some ((guest', ag), Inr ()) \<and>
    st_out guest' = concat (map (frame enc) rs) \<and>
    (st_in host = st_out guest' \<longrightarrow> snd (read_file_chunks encr dec' dbg path host) = Inr c) \<and>
    (\<forall>i k. i < length rs \<and> k < 4 \<and> st_end host = UnexpectedEof \<and>
      st_in host = concat (map (frame enc) (take i rs)) @ take k (frame enc (rs ! i)) \<longrightarrow>
      (\<exists>c'. snd (read_file_chunks encr dec' dbg path host) = Inr c' \<and> prefix c' c \<and>
        c' = concat (map resp_data (take i rs))))"
proof -
  obtain rs where rs: "handle_connection enc dec [w, w] (guest, ag) =
      Some ((guest\<lparr>st_in := [], st_out := st_out guest @ concat (map (frame enc) rs)\<rparr>, ag), Inr ())"
    "chunk_stream rs c" "\<forall>r\<in>set rs. codec_ok enc dec' r"
    using guest_handles_download [OF assms(1-4,6,9,8)] by blast
  let ?h = "host\<lparr>st_out := st_out host @ frame encr (ReadFile path (Some (of_nat DEFAULT_FILE_CHUNK_SIZE)))\<rparr>"
  note r = read_file_chunks_out [OF assms(3,5), of dec' dbg]
  have whole: "snd (read_file_chunks encr dec' dbg path host) = Inr c"
    if "st_in host = concat (map (frame enc) rs)"
    using collect_stream [OF rs(2,3), of ?h "[]" dbg path "[]"] that by (simp add: r)
  have broken: "snd (read_file_chunks encr dec' dbg path host) = Inr (concat (map resp_data (take i rs))) \<and>
      prefix (concat (map resp_data (take i rs))) c"
    if i: "i < length rs" "k < 4" "st_end host = UnexpectedEof"
      "st_in host = concat (map (frame enc) (take i rs)) @ take k (frame enc (rs ! i))" for i k
  proof -
    let ?cut = "?h\<lparr>st_in := take k (frame enc (rs ! i))\<rparr>"
    have "chunk_stream (take i rs @ rs ! i # drop (Suc i) rs) c"
      using rs(2) id_take_nth_drop [OF i(1)] by simp
    moreover have "\<forall>r\<in>set (take i rs). codec_ok enc dec' r" using rs(3) by (meson in_set_takeD)
    ultimately have part: "collect_chunks dec' dbg path [] ?h =
        collect_chunks dec' dbg path ([] @ concat (map resp_data (take i rs))) ?cut"
      "prefix (concat (map resp_data (take i rs))) c"
      using collect_part [of "take i rs" "rs ! i" "drop (Suc i) rs" c enc dec' ?h "take k (frame enc (rs ! i))" dbg path "[]"]
        i(4) by simp_all
    have "snd (read_response dec' ?cut) = Inr None"
      using i(2,3) by (intro read_response_short) simp_all
    then have "snd (collect_chunks dec' dbg path acc ?cut) = Inr acc" for acc
      by (subst collect_chunks.simps) (auto split: prod.split)
    with part r show ?thesis by simp
  qed
  show ?thesis
    using rs(1) assms(7) whole broken
    by (intro exI [of _ rs] exI [of _ "guest\<lparr>st_in := [], st_out := st_out guest @ concat (map (frame enc) rs)\<rparr>"])
      (auto simp del: handle_connection.simps)
qed


text \<open>An encoding of the chunks of one file: the flag, the offset in two halves, the data.\<close>

definition chunk_enc :: encoder where
  "chunk_enc m = (case m of
     ReadFileChunk _ off d l \<Rightarrow>
       Inr ((if l then 1 else 0) # to_be_bytes (ucast (drop_bit 32 off)) @ to_be_bytes (ucast off) @ d)
   | _ \<Rightarrow> Inl ''?'')"

definition chunk_dec :: "string \<Rightarrow> rsp_decoder" where
  "chunk_dec path bs = (case bs of
     [] \<Rightarrow> Inl ''EOF''
   | b # bs \<Rightarrow> Inr (ReadFileChunk path
       (push_bit 32 (ucast (from_be_bytes (take 4 bs))) OR ucast (from_be_bytes (take 4 (drop 4 bs))))
       (drop 8 bs) (b = 1)))"

lemma join_halves: "push_bit 32 (ucast (ucast (drop_bit 32 w) :: u32)) OR ucast (ucast w :: u32) = (w :: u64)"
proof (rule bit_word_eqI)
  fix n assume "n < LENGTH(64)"
  then show "bit (push_bit 32 (ucast (ucast (drop_bit 32 w) :: u32)) OR ucast (ucast w :: u32) :: u64) n = bit w n"
    by (cases "n < 32") (auto simp: bit_simps)
qed

lemma chunk_codec: "length d \<le> DEFAULT_FILE_CHUNK_SIZE \<Longrightarrow> codec_ok chunk_enc (chunk_dec path) (ReadFileChunk path off d l)"
  by (simp add: codec_ok_def chunk_enc_def chunk_dec_def json_of_def join_halves MAX_FRAME_SIZE_def
      DEFAULT_FILE_CHUNK_SIZE_def)

theorem download_result_witness:
  "\<exists>rs guest'. handle_connection chunk_enc
      (snd (const_codec (ReadFile ''/f'' (Some 65536)))) [sample_world, sample_world]
      (sample_stream\<lparr>st_in := [0, 0, 0, 1, 1]\<rparr>, sample_agent) = Some ((guest', sample_agent), Inr ()) \<and>
    snd (read_file_chunks (fst (const_codec (ReadFile ''/f'' (Some 65536)))) (chunk_dec ''/f'') (\<lambda>_. '''') ''/f''
      (sample_stream\<lparr>st_in := concat (map (frame chunk_enc) rs)\<rparr>)) = Inr [9, 9, 9]"
proof -
  let ?rq = "ReadFile ''/f'' (Some 65536)"
  have k: "(of_nat DEFAULT_FILE_CHUNK_SIZE :: u32) = 65536" by (simp add: DEFAULT_FILE_CHUNK_SIZE_def)
  have f: "frame (fst (const_codec ?rq)) ?rq = [0, 0, 0, 1, 1]"
    by (simp add: frame_def json_of_def const_codec_def to_be_bytes_def)
  have s: "writable sample_stream" "st_out sample_stream = []" "st_end sample_stream = UnexpectedEof"
    "ag_files sample_agent ''/f'' = Some [9, 9, 9]"
    by (simp_all add: writable_def sample_stream_def sample_agent_def)
  define guest where "guest = sample_stream\<lparr>st_in := [0, 0, 0, 1, 1]\<rparr>"
  have g: "writable guest" "st_out guest = []" "st_end guest = UnexpectedEof" "st_in guest = [0, 0, 0, 1, 1]"
    using s by (simp_all add: guest_def)
  have "\<exists>rs guest'. handle_connection chunk_enc (snd (const_codec ?rq)) [sample_world, sample_world]
      (guest, sample_agent) = Some ((guest', sample_agent), Inr ()) \<and>
    st_out guest' = concat (map (frame chunk_enc) rs) \<and>
    (st_in host = st_out guest' \<longrightarrow>
      snd (read_file_chunks (fst (const_codec ?rq)) (chunk_dec ''/f'') (\<lambda>_. '''') ''/f'' host) = Inr [9, 9, 9])"
    if "writable host" for host
    using download_result [OF sample_accepts s(4), of "fst (const_codec ?rq)" "snd (const_codec ?rq)" chunk_enc
        "chunk_dec ''/f''" host guest "\<lambda>_. ''''"] const_codec_ok [of ?rq] chunk_codec [of _ "''/f''"] g that f k
    by (auto simp del: handle_connection.simps)
  from this [of sample_stream] s(1) obtain rs guest' where
    rs: "handle_connection chunk_enc (snd (const_codec ?rq)) [sample_world, sample_world]
      (guest, sample_agent) = Some ((guest', sample_agent), Inr ())"
      "st_out guest' = concat (map (frame chunk_enc) rs)" by blast
  let ?h = "sample_stream\<lparr>st_in := concat (map (frame chunk_enc) rs)\<rparr>"
  have "writable ?h" using s(1) by simp
  with \<open>\<And>host. writable host \<Longrightarrow> _\<close> [of ?h] rs show ?thesis
    unfolding guest_def by (auto simp del: handle_connection.simps)
qed

end
