(* ===== verification/Resource_Tiers.thy ===== *)
theory Resource_Tiers
  imports Prelude
begin

text \<open>
  Resource tiers and the size of a sandbox (\<open>akssora-core/src/resource_tiers.rs\<close>). Names are ASCII
  texts. A duration is in seconds, as the source writes them.
\<close>

section \<open>Tiers\<close>

datatype resource_tier = Micro | Small | Medium | Large | Xlarge

definition ALL_TIERS :: "resource_tier list" where
  "ALL_TIERS = [Micro, Small, Medium, Large, Xlarge]"

fun tier_as_str :: "resource_tier \<Rightarrow> string" where
  "tier_as_str Micro = ''micro''"
| "tier_as_str Small = ''small''"
| "tier_as_str Medium = ''medium''"
| "tier_as_str Large = ''large''"
| "tier_as_str Xlarge = ''xlarge''"

fun tier_vcpus :: "resource_tier \<Rightarrow> u32" where
  "tier_vcpus Micro = 1"
| "tier_vcpus Small = 1"
| "tier_vcpus Medium = 2"
| "tier_vcpus Large = 4"
| "tier_vcpus Xlarge = 8"

fun tier_mem_mib :: "resource_tier \<Rightarrow> u32" where
  "tier_mem_mib Micro = 256"
| "tier_mem_mib Small = 512"
| "tier_mem_mib Medium = 1024"
| "tier_mem_mib Large = 2048"
| "tier_mem_mib Xlarge = 4096"

fun tier_max_duration :: "resource_tier \<Rightarrow> u64" where
  "tier_max_duration Micro = 3600"
| "tier_max_duration Small = 7200"
| "tier_max_duration Medium = 14400"
| "tier_max_duration Large = 28800"
| "tier_max_duration Xlarge = 43200"

fun tier_description :: "resource_tier \<Rightarrow> string" where
  "tier_description Micro = ''Quick scripts, CI tasks, lightweight one-shot commands''"
| "tier_description Small = ''Lightweight agents, simple builds, single-container workloads''"
| "tier_description Medium = ''General-purpose development, multi-step builds, testing''"
| "tier_description Large = ''Heavy builds, multiple containers, large codebases''"
| "tier_description Xlarge = ''ML workloads, large compilations, memory-intensive tasks''"

record tier_spec =
  ts_tier :: "resource_tier option"
  ts_name :: string
  ts_vcpus :: u32
  ts_mem_mib :: u32
  ts_max_duration :: u64
  ts_description :: string

definition to_spec :: "resource_tier \<Rightarrow> tier_spec" where
  "to_spec t = \<lparr>ts_tier = Some t, ts_name = tier_as_str t, ts_vcpus = tier_vcpus t,
     ts_mem_mib = tier_mem_mib t, ts_max_duration = tier_max_duration t,
     ts_description = tier_description t\<rparr>"

text \<open>\<open>str::trim\<close> and lower case, on ASCII texts.\<close>

definition is_space :: "char \<Rightarrow> bool" where
  "is_space c \<longleftrightarrow> (of_char c :: nat) \<in> {9, 10, 11, 12, 13, 32}"

definition trim_text :: "string \<Rightarrow> string" where
  "trim_text s = rev (dropWhile is_space (rev (dropWhile is_space s)))"

definition lower_char :: "char \<Rightarrow> char" where
  "lower_char c = (let n = of_char c :: nat in if 65 \<le> n \<and> n \<le> 90 then char_of (n + 32) else c)"

definition lower_text :: "string \<Rightarrow> string" where
  "lower_text s = map lower_char s"

definition tier_from_name :: "string \<Rightarrow> resource_tier option" where
  "tier_from_name name =
     (let s = lower_text (trim_text name)
      in if s = ''micro'' then Some Micro
         else if s = ''small'' then Some Small
         else if s = ''medium'' then Some Medium
         else if s = ''large'' then Some Large
         else if s = ''xlarge'' then Some Xlarge
         else None)"

definition tier_from_str :: "string \<Rightarrow> unit + resource_tier" where
  "tier_from_str s = (case tier_from_name s of None \<Rightarrow> Inl () | Some t \<Rightarrow> Inr t)"

definition show_tier :: "resource_tier \<Rightarrow> string" where
  "show_tier t = tier_as_str t"

definition default_tiers :: "resource_tier list" where
  "default_tiers = ALL_TIERS"

definition default_tier_specs :: "tier_spec list" where
  "default_tier_specs = map to_spec ALL_TIERS"

section \<open>The registry and the size of a sandbox\<close>

record tier_registry =
  tr_tiers :: "resource_tier list"

definition new_tier_registry :: tier_registry where
  "new_tier_registry = \<lparr>tr_tiers = default_tiers\<rparr>"

definition with_tiers :: "resource_tier list \<Rightarrow> tier_registry" where
  "with_tiers ts = \<lparr>tr_tiers = ts\<rparr>"

definition get_tier :: "string \<Rightarrow> tier_registry \<Rightarrow> resource_tier option" where
  "get_tier name reg = (let lower = lower_text (trim_text name) in find (\<lambda>t. tier_as_str t = lower) (tr_tiers reg))"

definition list_tiers :: "tier_registry \<Rightarrow> resource_tier list" where
  "list_tiers reg = tr_tiers reg"

definition resolve_tier :: "string \<Rightarrow> tier_registry \<Rightarrow> (u32 \<times> u32 \<times> u64) option" where
  "resolve_tier name reg =
     map_option (\<lambda>t. (tier_vcpus t, tier_mem_mib t, tier_max_duration t)) (get_tier name reg)"

definition max_duration_for :: "string \<Rightarrow> tier_registry \<Rightarrow> u64 option" where
  "max_duration_for name reg = map_option tier_max_duration (get_tier name reg)"

record sandbox_size =
  sz_tier :: "string option"
  sz_vcpus :: "u32 option"
  sz_mem_mib :: "u32 option"

definition size_default :: "sandbox_size \<Rightarrow> tier_registry \<Rightarrow> u32 \<times> u32 \<times> u64" where
  "size_default sz reg =
     (case sz_vcpus sz of None \<Rightarrow> 1 | Some v \<Rightarrow> v,
      case sz_mem_mib sz of None \<Rightarrow> 512 | Some m \<Rightarrow> m,
      case get_tier ''small'' reg of None \<Rightarrow> 7200 | Some t \<Rightarrow> tier_max_duration t)"

definition resolve_size :: "sandbox_size \<Rightarrow> tier_registry \<Rightarrow> u32 \<times> u32 \<times> u64" where
  "resolve_size sz reg =
     (case sz_tier sz of
        None \<Rightarrow> size_default sz reg
      | Some name \<Rightarrow> (case resolve_tier name reg of Some r \<Rightarrow> r | None \<Rightarrow> size_default sz reg))"

definition size_from_tier :: "resource_tier \<Rightarrow> sandbox_size" where
  "size_from_tier t = \<lparr>sz_tier = Some (tier_as_str t), sz_vcpus = Some (tier_vcpus t),
     sz_mem_mib = Some (tier_mem_mib t)\<rparr>"

section \<open>The order of the tiers\<close>

text \<open>The tiers in the order of the source's list, so that they can be compared.\<close>

fun tier_rank :: "resource_tier \<Rightarrow> nat" where
  "tier_rank Micro = 0"
| "tier_rank Small = 1"
| "tier_rank Medium = 2"
| "tier_rank Large = 3"
| "tier_rank Xlarge = 4"

lemma tier_rank_inj: "tier_rank a = tier_rank b \<Longrightarrow> a = b"
  by (cases a; cases b) simp_all

instantiation resource_tier :: linorder
begin

definition less_eq_resource_tier :: "resource_tier \<Rightarrow> resource_tier \<Rightarrow> bool" where
  "a \<le> b \<longleftrightarrow> tier_rank a \<le> tier_rank b"

definition less_resource_tier :: "resource_tier \<Rightarrow> resource_tier \<Rightarrow> bool" where
  "a < b \<longleftrightarrow> tier_rank a < tier_rank b"

instance
  by standard (auto simp: less_eq_resource_tier_def less_resource_tier_def intro: tier_rank_inj)

end

section \<open>Names\<close>

definition ascii_variant :: "string \<Rightarrow> string \<Rightarrow> bool" where
  "ascii_variant s t \<longleftrightarrow> (\<exists>pre core suf. s = pre @ core @ suf \<and> list_all is_space pre \<and> list_all is_space suf \<and>
     map lower_char core = t)"

lemma trim_text_split:
  "\<exists>pre suf. s = pre @ trim_text s @ suf \<and> list_all is_space pre \<and> list_all is_space suf"
proof -
  let ?t = "dropWhile is_space s"
  let ?suf = "rev (takeWhile is_space (rev ?t))"
  have "trim_text s @ ?suf = rev (takeWhile is_space (rev ?t) @ dropWhile is_space (rev ?t))"
    by (simp add: trim_text_def del: takeWhile_dropWhile_id)
  also have "\<dots> = ?t" by simp
  finally have "?t = trim_text s @ ?suf" by (rule sym)
  moreover have "s = takeWhile is_space s @ ?t" by simp
  ultimately have "s = takeWhile is_space s @ trim_text s @ ?suf" by simp
  moreover have "list_all is_space (takeWhile is_space s)" "list_all is_space ?suf"
    by (auto simp: list_all_iff dest: set_takeWhileD)
  ultimately show ?thesis by blast
qed

lemma trim_text_core:
  assumes "list_all is_space pre" "list_all is_space suf" "core \<noteq> []" "\<not> is_space (hd core)" "\<not> is_space (last core)"
  shows "trim_text (pre @ core @ suf) = core"
proof -
  have "dropWhile is_space (pre @ core @ suf) = core @ suf"
    using assms(1,3,4) by (induction pre) (auto simp: neq_Nil_conv)
  moreover have "dropWhile is_space (rev suf @ rev core) = rev core"
  proof -
    have "dropWhile is_space (rev core) = rev core" using assms(3,5) by (cases core rule: rev_cases) auto
    moreover have "\<forall>c\<in>set (rev suf). is_space c" using assms(2) by (simp add: list_all_iff)
    ultimately show ?thesis by (metis dropWhile_append2)
  qed
  ultimately show ?thesis by (simp add: trim_text_def)
qed

lemma lower_char_space: "is_space c \<Longrightarrow> lower_char c = c"
  by (auto simp: is_space_def lower_char_def Let_def)

lemma variant_trimmed:
  assumes "t \<noteq> []" "\<not> is_space (hd t)" "\<not> is_space (last t)"
  shows "lower_text (trim_text s) = t \<longleftrightarrow> ascii_variant s t"
proof
  assume "lower_text (trim_text s) = t"
  then show "ascii_variant s t" using trim_text_split [of s] unfolding ascii_variant_def lower_text_def by metis
next
  assume "ascii_variant s t"
  then obtain pre core suf where s: "s = pre @ core @ suf" "list_all is_space pre" "list_all is_space suf"
    "map lower_char core = t" by (auto simp: ascii_variant_def)
  have core: "core \<noteq> []" using assms(1) s(4) by auto
  have "\<not> is_space (hd core)" "\<not> is_space (last core)"
    using assms s(4) core lower_char_space by (auto simp: hd_map last_map)
  from trim_text_core [OF s(2,3) core this] s(1,4) show "lower_text (trim_text s) = t"
    by (simp add: lower_text_def)
qed

lemma tier_name_trimmed: "tier_as_str t \<noteq> [] \<and> \<not> is_space (hd (tier_as_str t)) \<and> \<not> is_space (last (tier_as_str t))"
  by (cases t) (simp_all add: is_space_def)

lemma tier_as_str_inj: "tier_as_str a = tier_as_str b \<longleftrightarrow> a = b"
  by (cases a; cases b) simp_all

lemma tier_from_name_iff: "tier_from_name s = Some t \<longleftrightarrow> ascii_variant s (tier_as_str t)"
proof -
  have "tier_from_name s = Some t \<longleftrightarrow> lower_text (trim_text s) = tier_as_str t"
    by (cases t) (auto simp: tier_from_name_def Let_def)
  then show ?thesis using variant_trimmed tier_name_trimmed by simp
qed

lemma get_tier_iff: "get_tier s reg = Some t \<longleftrightarrow> t \<in> set (tr_tiers reg) \<and> ascii_variant s (tier_as_str t)"
proof -
  have "find (\<lambda>t. tier_as_str t = n) ts = Some t \<longleftrightarrow> t \<in> set ts \<and> n = tier_as_str t" for ts n
    by (induction ts) (auto simp: tier_as_str_inj)
  then show ?thesis using variant_trimmed tier_name_trimmed by (simp add: get_tier_def Let_def)
qed

text \<open>
  A name stands for a tier exactly when it is the tier's text in any case with blanks around it:
  for the parser, and for a registry if it holds that tier; the text of a tier reads back as that
  tier. The tiers are listed from the smallest to the largest: a larger tier has more memory and
  runs longer, and has no fewer processors.
\<close>

theorem tier_names:
  "(tier_from_name s = Some t \<longleftrightarrow> ascii_variant s (tier_as_str t)) \<and>
   (get_tier s reg = Some t \<longleftrightarrow> t \<in> set (tr_tiers reg) \<and> ascii_variant s (tier_as_str t)) \<and>
   get_tier s new_tier_registry = tier_from_name s \<and> tier_from_str (show_tier t) = Inr t \<and>
   sorted default_tiers \<and> (t < u) = (tier_mem_mib t < tier_mem_mib u) \<and>
   (t < u) = (tier_max_duration t < tier_max_duration u) \<and> (tier_vcpus t < tier_vcpus u \<longrightarrow> t < u)"
proof -
  have "get_tier s new_tier_registry = tier_from_name s"
  proof (rule option.expand)
    have all: "x \<in> set (tr_tiers new_tier_registry)" for x
      by (cases x) (simp_all add: new_tier_registry_def default_tiers_def ALL_TIERS_def)
    then have e: "get_tier s new_tier_registry = Some x \<longleftrightarrow> tier_from_name s = Some x" for x
      by (simp add: get_tier_iff tier_from_name_iff)
    then show "(get_tier s new_tier_registry = None) = (tier_from_name s = None)"
      by (metis not_None_eq)
    show "the (get_tier s new_tier_registry) = the (tier_from_name s)"
      if "get_tier s new_tier_registry \<noteq> None" using that e by (metis option.collapse)
  qed
  moreover have "tier_from_str (show_tier t) = Inr t"
  proof -
    have "map lower_char (tier_as_str t) = tier_as_str t" by (cases t) (simp_all add: lower_char_def)
    then have "ascii_variant (tier_as_str t) (tier_as_str t)"
      unfolding ascii_variant_def by (intro exI [of _ "[]"] exI [of _ "tier_as_str t"]) simp
    then have "tier_from_name (tier_as_str t) = Some t" by (simp add: tier_from_name_iff)
    then show ?thesis by (simp add: tier_from_str_def show_tier_def)
  qed
  moreover have "sorted default_tiers"
    by (simp add: default_tiers_def ALL_TIERS_def less_eq_resource_tier_def)
  moreover have "(t < u) = (tier_mem_mib t < tier_mem_mib u)" "(t < u) = (tier_max_duration t < tier_max_duration u)"
    "tier_vcpus t < tier_vcpus u \<longrightarrow> t < u"
    by (cases t; cases u; simp add: less_resource_tier_def)+
  ultimately show ?thesis by (simp add: tier_from_name_iff get_tier_iff)
qed

theorem tier_names_witness: "tier_from_str (show_tier Large) = Inr Large \<and> Micro < Large"
  using tier_names [of "''large''" Large new_tier_registry Micro] tier_names [of "''x''" Micro new_tier_registry Large]
  by simp

text \<open>A tier that is known decides the whole size; explicit numbers count only without one, and are
  not checked against anything.\<close>

lemma tier_overrides_numbers:
  assumes "sz_tier sz = Some name" "get_tier name reg = Some t"
  shows "resolve_size sz reg = (tier_vcpus t, tier_mem_mib t, tier_max_duration t)"
  using assms by (simp add: resolve_size_def resolve_tier_def)

lemma size_without_tier:
  assumes "\<And>name. sz_tier sz = Some name \<Longrightarrow> get_tier name reg = None"
  shows "resolve_size sz reg = size_default sz reg"
  using assms by (simp add: resolve_size_def resolve_tier_def split: option.split)

lemma size_from_tier_resolves:
  "t \<in> set (tr_tiers reg) \<Longrightarrow> resolve_size (size_from_tier t) reg = (tier_vcpus t, tier_mem_mib t, tier_max_duration t)"
proof (rule tier_overrides_numbers)
  assume t: "t \<in> set (tr_tiers reg)"
  have "map lower_char (tier_as_str t) = tier_as_str t" by (cases t) (simp_all add: lower_char_def)
  then have "ascii_variant (tier_as_str t) (tier_as_str t)"
    unfolding ascii_variant_def by (intro exI [of _ "[]"] exI [of _ "tier_as_str t"]) simp
  with t show "get_tier (tier_as_str t) reg = Some t" by (simp add: get_tier_iff)
qed (simp add: size_from_tier_def)

end
