(* ===== verification/Vm_Api.thy ===== *)
theory Vm_Api
  imports Protocol
begin

text \<open>
  What the host says to a virtual machine: the bodies of the requests
  (\<open>akssora-core/src/session/types.rs\<close>), the requests about its state and snapshots
  (\<open>snapshot.rs\<close>) and the texts of the errors (\<open>error.rs\<close>). The client that carries the requests
  (\<open>crate::firecracker\<close>) is not part of the sources; it is a parameter, which says for each request
  how it is answered after the requests made before.
\<close>

section \<open>Texts of the errors\<close>

text \<open>The text of an input or output error that is the end of a stream is the parameter \<open>eof\<close>.\<close>

fun show_io :: "string \<Rightarrow> io_error \<Rightarrow> string" where
  "show_io eof UnexpectedEof = eof"
| "show_io eof (IoFailed msg) = msg"

definition backticked :: "string \<Rightarrow> string" where
  "backticked s = ''`'' @ s @ ''`''"

fun show_error :: "string \<Rightarrow> core_error \<Rightarrow> string" where
  "show_error eof (Io e) = ''I/O error: '' @ show_io eof e"
| "show_error eof (ReadLengthPrefix e) = ''failed to read request length prefix''"
| "show_error eof (ReadBody n e) = ''failed to read request body ('' @ show_nat n @ '' bytes expected)''"
| "show_error eof (WriteResponse e) = ''failed to write response''"
| "show_error eof (WriteRequest e) = ''failed to write request''"
| "show_error eof (Serialization s) = ''serialization error: '' @ s"
| "show_error eof (ProcessSpawn c e) = ''failed to spawn process '' @ backticked c"
| "show_error eof (SpawnFailed c e) = ''failed to spawn child process '' @ backticked c"
| "show_error eof StdoutNotPiped = ''child process stdout was not piped''"
| "show_error eof StderrNotPiped = ''child process stderr was not piped''"
| "show_error eof (BootConfig s) = ''failed to configure boot: '' @ s"
| "show_error eof (RootfsConfig s) = ''failed to configure root filesystem: '' @ s"
| "show_error eof (MachineConfig s) = ''failed to configure machine: '' @ s"
| "show_error eof (VsockConfig s) = ''failed to configure vsock: '' @ s"
| "show_error eof (StartMicroVM s) = ''failed to start microVM: '' @ s"
| "show_error eof (BootFailed s) = ''failed to boot microVM: '' @ s"
| "show_error eof (CloseFailed s) = ''failed to close microVM: '' @ s"
| "show_error eof (KillFailed s) = ''failed to kill microVM: '' @ s"
| "show_error eof (VsockBind e) = ''failed to bind vsock''"
| "show_error eof (VsockConnect e) = ''failed to connect to vsock''"
| "show_error eof (PtySpawn e) = ''failed to spawn PTY process''"
| "show_error eof (PtyOpen n) = ''failed to open PTY master''"
| "show_error eof (PtyClone e) = ''failed to clone PTY slave''"
| "show_error eof (PtyRead e) = ''failed to read from PTY master''"
| "show_error eof (PtyWrite e) = ''failed to write to PTY master''"
| "show_error eof (PtyTask s) = ''PTY blocking task failed''"
| "show_error eof (PtyPartialWrite w n) =
     ''partial write to PTY master: wrote '' @ show_nat w @ '' of '' @ show_nat n @ '' bytes''"
| "show_error eof (PtyWait e) = ''failed to wait for PTY child process''"
| "show_error eof (GuestAgent s) = ''failed to communicate with Akssora Guest Agent: '' @ s"
| "show_error eof (KillMicroVM e) = ''failed to kill microVM''"
| "show_error eof (WaitMicroVM e) = ''failed to wait for microVM process''"
| "show_error eof (BodyTooLarge n) = ''request body length '' @ show_nat n @ '' exceeds maximum allowed size''"
| "show_error eof (FirecrackerConnect e) = ''failed to connect to Firecracker API''"
| "show_error eof (FirecrackerHandshake s) = ''failed to perform Firecracker handshake''"
| "show_error eof (RequestBuild s) = ''failed to build request''"
| "show_error eof (FirecrackerRequest s) = ''failed to send request to Firecracker API''"
| "show_error eof (FirecrackerApi n) = ''Firecracker API returned an error: '' @ show_nat (unat n)"
| "show_error eof ResponseTooLarge = ''response body length exceeds maximum allowed size''"
| "show_error eof (SessionNotFound i) = ''session not found''"
| "show_error eof (LockProcess s) = ''failed to lock process: '' @ s"
| "show_error eof ShellNotOpen = ''shell session is not open''"
| "show_error eof (ShellSend s) = ''failed to send input to shell session: '' @ s"
| "show_error eof (GuestFileError p m) = ''guest file operation failed for '' @ backticked p @ '': '' @ m"
| "show_error eof (PathTraversal s) = ''path traversal detected: '' @ backticked s"
| "show_error eof (TemplateBuild s) = ''template build failed: '' @ s"
| "show_error eof (TemplateNotFound s) = ''template '' @ backticked s @ '' not found''"
| "show_error eof (Database s) = ''database error: '' @ s"
| "show_error eof (PauseMicroVM s) = ''failed to pause microVM: '' @ s"
| "show_error eof (ResumeMicroVM s) = ''failed to resume microVM: '' @ s"
| "show_error eof (SnapshotCreate s) = ''failed to create snapshot: '' @ s"
| "show_error eof (SnapshotLoad s) = ''failed to load snapshot: '' @ s"
| "show_error eof (PoolError s) = ''warm pool error: '' @ s"

section \<open>Calls that change a state and may fail\<close>

text \<open>The operator \<open>?\<close>: an error ends the caller, with the state as the failed call left it.\<close>

definition and_then :: "'s \<times> ('e + 'a) \<Rightarrow> ('a \<Rightarrow> 's \<Rightarrow> 's \<times> ('e + 'b)) \<Rightarrow> 's \<times> ('e + 'b)" where
  "and_then m f = (case m of (s, Inl e) \<Rightarrow> (s, Inl e) | (s, Inr x) \<Rightarrow> f x s)"

lemma and_then_simps [simp]:
  "and_then (s, Inl e) f = (s, Inl e)" "and_then (s, Inr x) f = f x s"
  by (simp_all add: and_then_def)

lemma and_then_Inr: "and_then m f = (s', Inr y) \<longleftrightarrow> (\<exists>s x. m = (s, Inr x) \<and> f x s = (s', Inr y))"
  by (auto simp: and_then_def split: prod.split sum.split)

lemma and_then_Inl:
  "and_then m f = (s', Inl e) \<longleftrightarrow> m = (s', Inl e) \<or> (\<exists>s x. m = (s, Inr x) \<and> f x s = (s', Inl e))"
  by (auto simp: and_then_def split: prod.splits sum.splits)

definition map_err :: "('e \<Rightarrow> 'f) \<Rightarrow> 's \<times> ('e + 'a) \<Rightarrow> 's \<times> ('f + 'a)" where
  "map_err f m = (case m of (s, Inl e) \<Rightarrow> (s, Inl (f e)) | (s, Inr x) \<Rightarrow> (s, Inr x))"

lemma map_err_simps [simp]:
  "map_err f (s, Inl e) = (s, Inl (f e))" "map_err f (s, Inr x) = (s, Inr x)"
  by (simp_all add: map_err_def)

lemma fst_map_err [simp]: "fst (map_err f m) = fst m"
  by (simp add: map_err_def split: prod.split sum.split)

text \<open>\<open>let _ = \<dots>\<close>: the result is ignored.\<close>

definition ignore :: "'s \<times> 'a \<Rightarrow> 's \<times> ('e + unit)" where
  "ignore m = (fst m, Inr ())"

lemma ignore_simp [simp]: "ignore (s, r) = (s, Inr ())"
  by (simp add: ignore_def)

section \<open>Requests to the machine\<close>

record boot_source =
  bs_kernel_image_path :: string
  bs_boot_args :: string

record drive =
  dr_drive_id :: string
  dr_path_on_host :: string
  dr_is_root_device :: bool
  dr_is_read_only :: bool

record machine_config =
  mc_vcpu_count :: u8
  mc_mem_size_mib :: u32

record vm_action =
  va_action_type :: string

record vsock_config =
  vc_guest_cid :: u32
  vc_uds_path :: string

text \<open>A JSON value is its text.\<close>

record entropy_device =
  ed_rate_limiter :: "string option"

datatype snapshot_type = SnapshotFull | SnapshotDiff

datatype vm_state_value = VmPaused | VmResumed

record vm_state =
  vs_state :: vm_state_value

record create_snapshot_params =
  cs_snapshot_type :: snapshot_type
  cs_snapshot_path :: string
  cs_mem_file_path :: string

record load_snapshot_params =
  ls_snapshot_path :: string
  ls_mem_file_path :: string
  ls_enable_diff_snapshots :: "bool option"
  ls_resume_vm :: "bool option"

datatype vm_body =
    BootSourceBody boot_source
  | DriveBody drive
  | MachineBody machine_config
  | EntropyBody entropy_device
  | VsockBody vsock_config
  | ActionBody vm_action
  | VmStateBody vm_state
  | CreateSnapshotBody create_snapshot_params
  | LoadSnapshotBody load_snapshot_params

datatype api_method = Put | Patch

record api_call =
  ac_socket :: string
  ac_method :: api_method
  ac_path :: string
  ac_body :: vm_body

text \<open>The answer to a request, given the requests of all clients before it: the text of an error, or
  success.\<close>

type_synonym client = "api_call list \<Rightarrow> api_call \<Rightarrow> string + unit"

text \<open>The host: the paths that exist, the processes it has started and that still run, and the
  requests made so far.\<close>

record host =
  ho_paths :: "string set"
  ho_running :: "nat set"
  ho_calls :: "api_call list"

definition api_request :: "client \<Rightarrow> api_call \<Rightarrow> host \<Rightarrow> host \<times> (string + unit)" where
  "api_request cl c h = (h\<lparr>ho_calls := ho_calls h @ [c]\<rparr>, cl (ho_calls h) c)"

definition put_request :: "client \<Rightarrow> string \<Rightarrow> string \<Rightarrow> vm_body \<Rightarrow> host \<Rightarrow> host \<times> (string + unit)" where
  "put_request cl socket path body =
     api_request cl \<lparr>ac_socket = socket, ac_method = Put, ac_path = path, ac_body = body\<rparr>"

definition patch_request :: "client \<Rightarrow> string \<Rightarrow> string \<Rightarrow> vm_body \<Rightarrow> host \<Rightarrow> host \<times> (string + unit)" where
  "patch_request cl socket path body =
     api_request cl \<lparr>ac_socket = socket, ac_method = Patch, ac_path = path, ac_body = body\<rparr>"

section \<open>State and snapshots of the machine\<close>

definition pause_vm :: "client \<Rightarrow> string \<Rightarrow> host \<Rightarrow> host \<times> (core_error + unit)" where
  "pause_vm cl socket h =
     map_err PauseMicroVM (patch_request cl socket ''/vm'' (VmStateBody \<lparr>vs_state = VmPaused\<rparr>) h)"

definition resume_vm :: "client \<Rightarrow> string \<Rightarrow> host \<Rightarrow> host \<times> (core_error + unit)" where
  "resume_vm cl socket h =
     map_err ResumeMicroVM (patch_request cl socket ''/vm'' (VmStateBody \<lparr>vs_state = VmResumed\<rparr>) h)"

definition create_snapshot :: "client \<Rightarrow> string \<Rightarrow> create_snapshot_params \<Rightarrow> host \<Rightarrow> host \<times> (core_error + unit)" where
  "create_snapshot cl socket params h =
     map_err SnapshotCreate (put_request cl socket ''/snapshot/create'' (CreateSnapshotBody params) h)"

definition load_snapshot :: "client \<Rightarrow> string \<Rightarrow> load_snapshot_params \<Rightarrow> host \<Rightarrow> host \<times> (core_error + unit)" where
  "load_snapshot cl socket params h =
     map_err SnapshotLoad (put_request cl socket ''/snapshot/load'' (LoadSnapshotBody params) h)"

section \<open>What a request leaves\<close>

lemma api_request_host [simp]:
  "fst (api_request cl c h) = h\<lparr>ho_calls := ho_calls h @ [c]\<rparr>" "snd (api_request cl c h) = cl (ho_calls h) c"
  by (simp_all add: api_request_def)

text \<open>A list of requests, each with the error a failure is reported as, or nothing when it is ignored,
  up to the first failure that is reported.\<close>

type_synonym call_plan = "(api_call \<times> (string \<Rightarrow> core_error) option) list"

fun run_calls :: "client \<Rightarrow> call_plan \<Rightarrow> host \<Rightarrow> host \<times> (core_error + unit)" where
  "run_calls cl [] h = (h, Inr ())"
| "run_calls cl ((c, report) # cs) h =
     and_then (case report of None \<Rightarrow> ignore (api_request cl c h) | Some e \<Rightarrow> map_err e (api_request cl c h))
       (\<lambda>_. run_calls cl cs)"

text \<open>The answer to the \<open>i\<close>-th request of a plan that starts after the requests \<open>past\<close>.\<close>

definition answer_at :: "client \<Rightarrow> api_call list \<Rightarrow> call_plan \<Rightarrow> nat \<Rightarrow> string + unit" where
  "answer_at cl past cs i = cl (past @ map fst (take i cs)) (fst (cs ! i))"

definition call_passes :: "client \<Rightarrow> api_call list \<Rightarrow> call_plan \<Rightarrow> nat \<Rightarrow> bool" where
  "call_passes cl past cs i \<longleftrightarrow> snd (cs ! i) = None \<or> answer_at cl past cs i = Inr ()"

lemma answer_at_Cons [simp]:
  "answer_at cl past (ce # cs) 0 = cl past (fst ce)"
  "answer_at cl past (ce # cs) (Suc i) = answer_at cl (past @ [fst ce]) cs i"
  by (simp_all add: answer_at_def)

lemma call_passes_Cons [simp]:
  "call_passes cl past (ce # cs) 0 \<longleftrightarrow> snd ce = None \<or> cl past (fst ce) = Inr ()"
  "call_passes cl past (ce # cs) (Suc i) \<longleftrightarrow> call_passes cl (past @ [fst ce]) cs i"
  by (simp_all add: call_passes_def)

definition plan_result ::
    "client \<Rightarrow> call_plan \<Rightarrow> host \<Rightarrow> nat \<Rightarrow> host \<times> (core_error + unit) \<Rightarrow> bool" where
  "plan_result cl cs h n hr \<longleftrightarrow>
     n \<le> length cs \<and> fst hr = h\<lparr>ho_calls := ho_calls h @ map fst (take n cs)\<rparr> \<and>
     (case snd hr of
        Inr _ \<Rightarrow> n = length cs \<and> (\<forall>i<n. call_passes cl (ho_calls h) cs i)
      | Inl e \<Rightarrow> 0 < n \<and> (\<forall>i<n - 1. call_passes cl (ho_calls h) cs i) \<and>
          (\<exists>f msg. snd (cs ! (n - 1)) = Some f \<and> answer_at cl (ho_calls h) cs (n - 1) = Inl msg \<and> e = f msg))"

lemma run_calls_result: "\<exists>n. plan_result cl cs h n (run_calls cl cs h)"
proof (induction cs arbitrary: h)
  case Nil
  then show ?case by (simp add: plan_result_def)
next
  case (Cons ce cs)
  obtain c report where ce: "ce = (c, report)" by (cases ce)
  let ?h = "h\<lparr>ho_calls := ho_calls h @ [c]\<rparr>"
  show ?case
  proof (cases "call_passes cl (ho_calls h) (ce # cs) 0")
    case True
    then have step: "run_calls cl ((c, report) # cs) h = run_calls cl cs ?h"
      by (auto simp: ce api_request_def split: option.split)
    from Cons.IH [of ?h] obtain n where n: "plan_result cl cs ?h n (run_calls cl cs ?h)" by blast
    have all: "(\<forall>i<Suc k. call_passes cl (ho_calls h) (ce # cs) i) \<longleftrightarrow>
        (\<forall>i<k. call_passes cl (ho_calls ?h) cs i)" for k
      using True by (auto simp: ce less_Suc_eq_0_disj)
    have "plan_result cl (ce # cs) h (Suc n) (run_calls cl (ce # cs) h)"
    proof (cases "snd (run_calls cl cs ?h)")
      case (Inl e)
      then obtain k where k: "n = Suc k" using n by (cases n) (simp_all add: plan_result_def)
      with n Inl all [of k] show ?thesis by (simp add: plan_result_def step ce del: run_calls.simps)
    next
      case (Inr u)
      with n all [of n] show ?thesis by (simp add: plan_result_def step ce del: run_calls.simps)
    qed
    then show ?thesis by blast
  next
    case False
    then obtain f msg where f: "report = Some f" "cl (ho_calls h) c = Inl msg"
      by (cases report; cases "cl (ho_calls h) c") (auto simp: ce)
    then have "plan_result cl (ce # cs) h (Suc 0) (run_calls cl (ce # cs) h)"
      by (simp add: plan_result_def ce api_request_def)
    then show ?thesis by blast
  qed
qed

text \<open>Whether the machine behind a socket is paused, by the requests that succeeded.\<close>

fun paused_since :: "client \<Rightarrow> string \<Rightarrow> api_call list \<Rightarrow> bool" where
  "paused_since cl socket [] = False"
| "paused_since cl socket (c # past) =
     (case ac_body c of
        VmStateBody v \<Rightarrow>
          if ac_socket c = socket \<and> cl (rev past) c = Inr () then vs_state v = VmPaused
          else paused_since cl socket past
      | _ \<Rightarrow> paused_since cl socket past)"

definition is_paused :: "client \<Rightarrow> string \<Rightarrow> api_call list \<Rightarrow> bool" where
  "is_paused cl socket calls = paused_since cl socket (rev calls)"

lemma is_paused_snoc:
  "is_paused cl socket (cs @ [c]) =
     (case ac_body c of
        VmStateBody v \<Rightarrow>
          if ac_socket c = socket \<and> cl cs c = Inr () then vs_state v = VmPaused else is_paused cl socket cs
      | _ \<Rightarrow> is_paused cl socket cs)"
  by (simp add: is_paused_def split: vm_body.split)

end
