(* ===== verification/Host_Session.thy ===== *)
theory Host_Session
  imports Vm_Api
begin

text \<open>
  Sessions on the host: the paths of a session (\<open>akssora-core/src/session/session_config.rs\<close>), the
  start of a machine, fresh or from a snapshot, and its end (\<open>session.rs\<close>), the table of sessions
  (\<open>session_manager.rs\<close>) and the fork of a session (\<open>fork.rs\<close>). The shell of a session is in the
  theory that models its connections.

  What the operating system answers is a record; the text of a \<open>Uuid\<close> and of the end of a stream
  are fields of it.
\<close>

section \<open>The operating system\<close>

text \<open>One turn of the wait for the API socket: whether the process has exited (with the text of its
  status), whether the socket accepts a connection, and the milliseconds since the start.\<close>

record socket_poll =
  sp_try_wait :: "io_error + string option"
  sp_connects :: bool
  sp_elapsed :: nat

record host_os =
  os_temp_dir :: string
  os_show_uuid :: "uuid \<Rightarrow> string"
  os_eof :: string
  os_env :: "string \<rightharpoonup> string"
  os_mkdir :: "string \<Rightarrow> io_error option"
  os_chmod :: "string \<Rightarrow> io_error option"
  os_spawn :: "string \<Rightarrow> string \<Rightarrow> io_error + nat"
  os_polls :: "socket_poll list"
  os_kill :: "nat \<Rightarrow> io_error option"
  os_wait :: "nat \<Rightarrow> io_error option"

definition path_join :: "string \<Rightarrow> string \<Rightarrow> string" where
  "path_join base name = base @ ''/'' @ name"

definition create_dir_all :: "host_os \<Rightarrow> string \<Rightarrow> host \<Rightarrow> host \<times> (core_error + unit)" where
  "create_dir_all os p h =
     (case os_mkdir os p of
        Some e \<Rightarrow> (h, Inl (Io e))
      | None \<Rightarrow> (h\<lparr>ho_paths := insert p (ho_paths h)\<rparr>, Inr ()))"

definition remove_path :: "string \<Rightarrow> host \<Rightarrow> host" where
  "remove_path p h = h\<lparr>ho_paths := ho_paths h - {p}\<rparr>"

section \<open>The paths of a session\<close>

record session_config =
  sc_rootfs_path :: string
  sc_kernel_path :: string
  sc_vcpu_count :: u8
  sc_mem_size_mib :: u32
  sc_socket_path :: string
  sc_vsock_uds_path :: string

definition existing_path :: "string \<Rightarrow> string \<Rightarrow> string \<Rightarrow> host \<Rightarrow> host \<times> (core_error + string)" where
  "existing_path what hint path h =
     (if path \<in> ho_paths h then (h, Inr path)
      else (h, Inl (Io (IoFailed (what @ '' image not found at '' @ backticked path @ hint)))))"

definition path_from_env :: "host_os \<Rightarrow> string \<Rightarrow> string \<Rightarrow> host \<Rightarrow> host \<times> (core_error + string)" where
  "path_from_env os what var h =
     (case os_env os var of
        None \<Rightarrow> (h, Inl (Io (IoFailed (var @
          '' environment variable is not set. Please set it in .env or the environment''))))
      | Some path \<Rightarrow> existing_path what
          (''. Please ensure the file exists or check '' @ var @ '' in .env'') path h)"

definition config_with_rootfs ::
    "host_os \<Rightarrow> uuid \<Rightarrow> string option \<Rightarrow> host \<Rightarrow> host \<times> (core_error + session_config)" where
  "config_with_rootfs os session_id custom_rootfs h =
     (let base = path_join (os_temp_dir os) (os_show_uuid os session_id)
      in and_then (create_dir_all os base h) (\<lambda>_ h.
         and_then (case os_chmod os base of Some e \<Rightarrow> (h, Inl (Io e)) | None \<Rightarrow> (h, Inr ())) (\<lambda>_ h.
         and_then (case custom_rootfs of
             Some path \<Rightarrow> existing_path ''Custom rootfs'' '''' path h
           | None \<Rightarrow> path_from_env os ''Rootfs'' ''AKSSORA_ROOTFS_PATH'' h) (\<lambda>rootfs h.
         and_then (path_from_env os ''Kernel'' ''AKSSORA_KERNEL_PATH'' h) (\<lambda>kernel h.
           (h, Inr \<lparr>sc_rootfs_path = rootfs, sc_kernel_path = kernel, sc_vcpu_count = 2,
              sc_mem_size_mib = 1024, sc_socket_path = path_join base ''firecracker.socket'',
              sc_vsock_uds_path = path_join base ''vsock.socket''\<rparr>))))))"

definition new_session_config :: "host_os \<Rightarrow> uuid \<Rightarrow> host \<Rightarrow> host \<times> (core_error + session_config)" where
  "new_session_config os session_id = config_with_rootfs os session_id None"

section \<open>Starting a machine\<close>

record session =
  se_session_id :: uuid
  se_process :: nat
  se_client :: string
  se_vsock_uds_path :: string

text \<open>The wait for the API socket; \<open>None\<close> when it still waits after these answers. A process that is
  dropped is not killed.\<close>

fun wait_for_socket_ready ::
    "host_os \<Rightarrow> nat \<Rightarrow> socket_poll list \<Rightarrow> host \<Rightarrow> (host \<times> (core_error + unit)) option" where
  "wait_for_socket_ready os pid [] h = None"
| "wait_for_socket_ready os pid (p # ps) h =
     (case sp_try_wait p of
        Inl e \<Rightarrow> Some (h, Inl (Io e))
      | Inr (Some status) \<Rightarrow> Some (h\<lparr>ho_running := ho_running h - {pid}\<rparr>,
          Inl (StartMicroVM (''Firecracker process exited prematurely with status: '' @ status)))
      | Inr None \<Rightarrow>
          if sp_connects p then Some (h, Inr ())
          else if 2000 \<le> sp_elapsed p
          then Some ((case os_kill os pid of
                        None \<Rightarrow> h\<lparr>ho_running := ho_running h - {pid}\<rparr> | Some _ \<Rightarrow> h),
                 Inl (StartMicroVM ''Timed out waiting for Firecracker API socket to be ready''))
          else wait_for_socket_ready os pid ps h)"

text \<open>What \<open>with_rootfs\<close> and \<open>from_snapshot\<close> share: the program is found and started on the socket.\<close>

definition start_process :: "host_os \<Rightarrow> string \<Rightarrow> host \<Rightarrow> host \<times> (core_error + nat)" where
  "start_process os socket h =
     (case os_env os ''FIRECRACKER_BIN'' of
        None \<Rightarrow> (h, Inl (StartMicroVM (''FIRECRACKER_BIN environment variable is not set. '' @
          ''Please set it in .env or the environment'')))
      | Some bin \<Rightarrow>
          if bin \<notin> ho_paths h
          then (h, Inl (StartMicroVM (''Firecracker binary not found at '' @ backticked bin @
            ''. Please check FIRECRACKER_BIN in .env'')))
          else (case os_spawn os bin socket of
                  Inl e \<Rightarrow> (h, Inl (ProcessSpawn bin e))
                | Inr pid \<Rightarrow> (h\<lparr>ho_running := insert pid (ho_running h)\<rparr>, Inr pid)))"

definition boot_args :: string where
  "boot_args = ''console=ttyS0 reboot=k panic=1 pci=off random.trust_cpu=on systemd.hostname=akssora root=/dev/vda rw init=/akssora-guest-agent''"

definition configure_vm :: "client \<Rightarrow> session_config \<Rightarrow> host \<Rightarrow> host \<times> (core_error + unit)" where
  "configure_vm cl cfg h =
     (let put = put_request cl (sc_socket_path cfg)
      in and_then (map_err BootConfig (put ''/boot-source''
           (BootSourceBody \<lparr>bs_kernel_image_path = sc_kernel_path cfg, bs_boot_args = boot_args\<rparr>) h)) (\<lambda>_ h.
         and_then (map_err RootfsConfig (put ''/drives/rootfs''
           (DriveBody \<lparr>dr_drive_id = ''rootfs'', dr_path_on_host = sc_rootfs_path cfg,
              dr_is_root_device = True, dr_is_read_only = False\<rparr>) h)) (\<lambda>_ h.
         and_then (map_err MachineConfig (put ''/machine-config''
           (MachineBody \<lparr>mc_vcpu_count = sc_vcpu_count cfg, mc_mem_size_mib = sc_mem_size_mib cfg\<rparr>) h)) (\<lambda>_ h.
         and_then (ignore (put ''/entropy'' (EntropyBody \<lparr>ed_rate_limiter = None\<rparr>) h)) (\<lambda>_ h.
         and_then (map_err VsockConfig (put ''/vsock''
           (VsockBody \<lparr>vc_guest_cid = 3, vc_uds_path = sc_vsock_uds_path cfg\<rparr>) h)) (\<lambda>_ h.
           map_err StartMicroVM (put ''/actions'' (ActionBody \<lparr>va_action_type = ''InstanceStart''\<rparr>) h)))))))"

definition with_rootfs ::
    "host_os \<Rightarrow> client \<Rightarrow> uuid \<Rightarrow> string option \<Rightarrow> host \<Rightarrow> (host \<times> (core_error + session)) option" where
  "with_rootfs os cl session_id custom_rootfs h =
     (case config_with_rootfs os session_id custom_rootfs h of
        (h, Inl e) \<Rightarrow> Some (h, Inl e)
      | (h, Inr cfg) \<Rightarrow>
          (case start_process os (sc_socket_path cfg)
                  (remove_path (sc_vsock_uds_path cfg) (remove_path (sc_socket_path cfg) h)) of
             (h, Inl e) \<Rightarrow> Some (h, Inl e)
           | (h, Inr pid) \<Rightarrow>
               (case wait_for_socket_ready os pid (os_polls os) h of
                  None \<Rightarrow> None
                | Some (h, Inl e) \<Rightarrow> Some (h, Inl e)
                | Some (h, Inr _) \<Rightarrow>
                    Some (and_then (configure_vm cl cfg h) (\<lambda>_ h.
                      (h, Inr \<lparr>se_session_id = session_id, se_process = pid,
                         se_client = sc_socket_path cfg, se_vsock_uds_path = sc_vsock_uds_path cfg\<rparr>))))))"

definition new_session :: "host_os \<Rightarrow> client \<Rightarrow> uuid \<Rightarrow> host \<Rightarrow> (host \<times> (core_error + session)) option" where
  "new_session os cl session_id = with_rootfs os cl session_id None"

definition from_snapshot ::
    "host_os \<Rightarrow> client \<Rightarrow> uuid \<Rightarrow> string \<Rightarrow> string \<Rightarrow> string \<Rightarrow> host \<Rightarrow>
     (host \<times> (core_error + session)) option" where
  "from_snapshot os cl session_id snapshot_path mem_file_path vsock_uds_path h =
     (let base = path_join (os_temp_dir os) (os_show_uuid os session_id);
          socket_path = path_join base ''firecracker.socket''
      in case and_then (create_dir_all os base h) (\<lambda>_ h. start_process os socket_path (remove_path socket_path h)) of
           (h, Inl e) \<Rightarrow> Some (h, Inl e)
         | (h, Inr pid) \<Rightarrow>
             (case wait_for_socket_ready os pid (os_polls os) h of
                None \<Rightarrow> None
              | Some (h, Inl e) \<Rightarrow> Some (h, Inl e)
              | Some (h, Inr _) \<Rightarrow>
                  Some (and_then (load_snapshot cl socket_path \<lparr>ls_snapshot_path = snapshot_path,
                      ls_mem_file_path = mem_file_path, ls_enable_diff_snapshots = None,
                      ls_resume_vm = Some True\<rparr> h) (\<lambda>_ h.
                    (h, Inr \<lparr>se_session_id = session_id, se_process = pid, se_client = socket_path,
                       se_vsock_uds_path = vsock_uds_path\<rparr>)))))"

definition pause_session :: "client \<Rightarrow> session \<Rightarrow> host \<Rightarrow> host \<times> (core_error + unit)" where
  "pause_session cl s = pause_vm cl (se_client s)"

definition resume_session :: "client \<Rightarrow> session \<Rightarrow> host \<Rightarrow> host \<times> (core_error + unit)" where
  "resume_session cl s = resume_vm cl (se_client s)"

definition snapshot_session :: "client \<Rightarrow> session \<Rightarrow> string \<Rightarrow> string \<Rightarrow> host \<Rightarrow> host \<times> (core_error + unit)" where
  "snapshot_session cl s snapshot_path mem_file_path =
     create_snapshot cl (se_client s) \<lparr>cs_snapshot_type = SnapshotFull,
       cs_snapshot_path = snapshot_path, cs_mem_file_path = mem_file_path\<rparr>"

definition end_session :: "host_os \<Rightarrow> session \<Rightarrow> host \<Rightarrow> host \<times> (core_error + unit)" where
  "end_session os s h =
     (case os_kill os (se_process s) of
        Some e \<Rightarrow> (h, Inl (KillMicroVM e))
      | None \<Rightarrow>
          (let h' = h\<lparr>ho_running := ho_running h - {se_process s}\<rparr>
           in case os_wait os (se_process s) of
                Some e \<Rightarrow> (h', Inl (KillMicroVM e))
              | None \<Rightarrow> (h', Inr ())))"

section \<open>The table of sessions\<close>

type_synonym session_manager = "uuid \<rightharpoonup> session"

definition new_session_manager :: session_manager where
  "new_session_manager = Map.empty"

definition create_session ::
    "host_os \<Rightarrow> client \<Rightarrow> uuid \<Rightarrow> host \<Rightarrow> session_manager \<Rightarrow>
     ((host \<times> session_manager) \<times> (core_error + uuid)) option" where
  "create_session os cl session_id h sm =
     (case new_session os cl session_id h of
        None \<Rightarrow> None
      | Some (h, Inl e) \<Rightarrow> Some ((h, sm), Inl e)
      | Some (h, Inr s) \<Rightarrow> Some ((h, sm(se_session_id s \<mapsto> s)), Inr (se_session_id s)))"

definition session_ids :: "session_manager \<Rightarrow> uuid set" where
  "session_ids sm = dom sm"

definition get_session :: "session_manager \<Rightarrow> uuid \<Rightarrow> session option" where
  "get_session sm session_id = sm session_id"

definition manager_end_session ::
    "host_os \<Rightarrow> uuid \<Rightarrow> host \<Rightarrow> session_manager \<Rightarrow> (host \<times> session_manager) \<times> (core_error + unit)" where
  "manager_end_session os session_id h sm =
     (case sm session_id of
        None \<Rightarrow> ((h, sm), Inl (SessionNotFound session_id))
      | Some s \<Rightarrow> (case end_session os s h of (h', r) \<Rightarrow> ((h', sm(session_id := None)), r)))"

definition contains_session :: "session_manager \<Rightarrow> uuid \<Rightarrow> bool" where
  "contains_session sm session_id \<longleftrightarrow> sm session_id \<noteq> None"

definition no_sessions :: "session_manager \<Rightarrow> bool" where
  "no_sessions sm \<longleftrightarrow> sm = Map.empty"

section \<open>Forking a session\<close>

record fork_result =
  fr_new_id :: uuid
  fr_source_id :: uuid
  fr_created_at :: datetime

datatype fork_error =
    ForkSourceNotFound uuid
  | ForkSourceStopped
  | ForkSnapshotFailed string
  | ForkBootFailed string
  | ForkIo io_error

fun show_fork_error :: "host_os \<Rightarrow> fork_error \<Rightarrow> string" where
  "show_fork_error os (ForkSourceNotFound i) = ''source sandbox not found: '' @ os_show_uuid os i"
| "show_fork_error os ForkSourceStopped = ''cannot fork a stopped sandbox''"
| "show_fork_error os (ForkSnapshotFailed s) = ''snapshot creation failed: '' @ s"
| "show_fork_error os (ForkBootFailed s) = ''boot from snapshot failed: '' @ s"
| "show_fork_error os (ForkIo e) = ''I/O error: '' @ show_io (os_eof os) e"

definition core_error_of_fork :: "host_os \<Rightarrow> fork_error \<Rightarrow> core_error" where
  "core_error_of_fork os e = PoolError (show_fork_error os e)"

text \<open>The forked session is left in a thread-local cell; the state of a fork is the host and the cell.\<close>

type_synonym fork_state = "host \<times> session option"

definition on_host :: "(host \<Rightarrow> host \<times> 'r) \<Rightarrow> fork_state \<Rightarrow> fork_state \<times> 'r" where
  "on_host f st = (case f (fst st) of (h, r) \<Rightarrow> ((h, snd st), r))"

definition fork_base :: "host_os \<Rightarrow> uuid \<Rightarrow> string" where
  "fork_base os new_id = path_join (os_temp_dir os) (''fork-'' @ os_show_uuid os new_id)"

definition fork_failed :: "host_os \<Rightarrow> string \<Rightarrow> core_error \<Rightarrow> core_error" where
  "fork_failed os what e = core_error_of_fork os (ForkSnapshotFailed (what @ show_error (os_eof os) e))"

text \<open>The configuration of a session fails with an input or output error, whose own text is shown.\<close>

definition fork_config_failed :: "host_os \<Rightarrow> core_error \<Rightarrow> core_error" where
  "fork_config_failed os e = core_error_of_fork os (ForkBootFailed
     (case e of Io io \<Rightarrow> show_io (os_eof os) io | other \<Rightarrow> show_error (os_eof os) other))"

definition fork_steps ::
    "host_os \<Rightarrow> client \<Rightarrow> uuid \<Rightarrow> session \<Rightarrow> host \<Rightarrow> host \<times> (core_error + string \<times> string \<times> string)" where
  "fork_steps os cl new_id source h =
     (let snapshot_path = path_join (fork_base os new_id) ''snapshot.json'';
          mem_file_path = path_join (fork_base os new_id) ''vm.mem''
      in and_then (create_dir_all os (fork_base os new_id) h) (\<lambda>_ h.
         and_then (map_err (fork_failed os ''pause failed: '') (pause_session cl source h)) (\<lambda>_ h.
         and_then (map_err (fork_failed os '''') (snapshot_session cl source snapshot_path mem_file_path h)) (\<lambda>_ h.
         and_then (map_err (fork_failed os ''resume failed: '') (resume_session cl source h)) (\<lambda>_ h.
         and_then (map_err (fork_config_failed os) (new_session_config os new_id h)) (\<lambda>cfg h.
           (h, Inr (snapshot_path, mem_file_path, sc_vsock_uds_path cfg))))))))"

definition fork_session ::
    "host_os \<Rightarrow> client \<Rightarrow> uuid \<Rightarrow> datetime \<Rightarrow> session \<Rightarrow> uuid \<Rightarrow> fork_state \<Rightarrow>
     (fork_state \<times> (core_error + fork_result)) option" where
  "fork_session os cl new_id created_at source source_id st =
     (case on_host (fork_steps os cl new_id source) st of
        (st, Inl e) \<Rightarrow> Some (st, Inl e)
      | (st, Inr (snapshot_path, mem_file_path, vsock)) \<Rightarrow>
          (case from_snapshot os cl new_id snapshot_path mem_file_path vsock (fst st) of
             None \<Rightarrow> None
           | Some (h, Inl e) \<Rightarrow> Some ((h, snd st),
               Inl (core_error_of_fork os (ForkBootFailed (show_error (os_eof os) e))))
           | Some (h, Inr new) \<Rightarrow> Some ((h, Some new),
               Inr \<lparr>fr_new_id = new_id, fr_source_id = source_id, fr_created_at = created_at\<rparr>)))"

definition take_forked_session :: "fork_state \<Rightarrow> fork_state \<times> session option" where
  "take_forked_session st = ((fst st, None), snd st)"

definition fork_sandbox ::
    "host_os \<Rightarrow> client \<Rightarrow> uuid \<Rightarrow> datetime \<Rightarrow> session \<Rightarrow> uuid \<Rightarrow> fork_state \<Rightarrow>
     (fork_state \<times> (core_error + fork_result \<times> session)) option" where
  "fork_sandbox os cl new_id created_at source source_id st =
     (case fork_session os cl new_id created_at source source_id st of
        None \<Rightarrow> None
      | Some (st, Inl e) \<Rightarrow> Some (st, Inl e)
      | Some (st, Inr result) \<Rightarrow>
          (case take_forked_session st of
             (st, None) \<Rightarrow> Some (st, Inl (PoolError ''forked session not found''))
           | (st, Some s) \<Rightarrow> Some (st, Inr (result, s))))"

section \<open>Waiting for the API socket\<close>

definition still_waiting :: "socket_poll \<Rightarrow> bool" where
  "still_waiting p \<longleftrightarrow> sp_try_wait p = Inr None \<and> \<not> sp_connects p \<and> sp_elapsed p < 2000"

lemma wait_skips:
  "\<forall>w\<in>set ws. still_waiting w \<Longrightarrow> wait_for_socket_ready os pid (ws @ ps) h = wait_for_socket_ready os pid ps h"
  by (induction ws) (simp_all add: still_waiting_def)

lemma wait_Some:
  "wait_for_socket_ready os pid ps h \<noteq> None \<longleftrightarrow> (\<exists>p\<in>set ps. \<not> still_waiting p)"
  by (induction ps) (auto simp: still_waiting_def split: sum.split option.split)

lemma wait_host:
  "wait_for_socket_ready os pid ps h = Some (h', r) \<Longrightarrow>
   h' = h \<or> h' = h\<lparr>ho_running := ho_running h - {pid}\<rparr>"
  by (induction ps) (auto split: sum.splits option.splits if_splits)

lemma wait_Inr: "wait_for_socket_ready os pid ps h = Some (h', Inr u) \<Longrightarrow> h' = h"
  by (induction ps) (auto split: sum.splits option.splits if_splits)

text \<open>What the last turn of the wait leaves running.\<close>

definition after_poll :: "host_os \<Rightarrow> nat \<Rightarrow> socket_poll \<Rightarrow> host \<Rightarrow> host" where
  "after_poll os pid p h =
     (if (\<exists>status. sp_try_wait p = Inr (Some status)) \<or>
         sp_try_wait p = Inr None \<and> \<not> sp_connects p \<and> os_kill os pid = None
      then h\<lparr>ho_running := ho_running h - {pid}\<rparr> else h)"

text \<open>
  The wait for the API socket ends: as soon as one turn comes two seconds or more after the start,
  and before that only when the socket accepts or the process is found to have exited or cannot be
  asked. The first turn that ends it decides the result; a process that exited, or was killed in
  time, no longer runs, but one that cannot be asked or killed is left running.
\<close>

theorem socket_wait_ends:
  assumes "\<exists>p\<in>set ps. 2000 \<le> sp_elapsed p"
  shows "\<exists>ws p rest r. ps = ws @ p # rest \<and> (\<forall>w\<in>set ws. still_waiting w) \<and> \<not> still_waiting p \<and>
    wait_for_socket_ready os pid ps h = Some (after_poll os pid p h, r) \<and>
    (r = Inr () \<longleftrightarrow> sp_try_wait p = Inr None \<and> sp_connects p)"
proof -
  from assms have "\<exists>p\<in>set ps. \<not> still_waiting p" by (force simp: still_waiting_def)
  then obtain ws p rest where ps: "ps = ws @ p # rest" "\<not> still_waiting p" "\<forall>w\<in>set ws. still_waiting w"
    using split_list_first_prop [of ps "\<lambda>p. \<not> still_waiting p"] by blast
  have "wait_for_socket_ready os pid ps h = wait_for_socket_ready os pid (p # rest) h"
    using wait_skips ps(1,3) by simp
  moreover have "\<exists>r. wait_for_socket_ready os pid (p # rest) h = Some (after_poll os pid p h, r) \<and>
      (r = Inr () \<longleftrightarrow> sp_try_wait p = Inr None \<and> sp_connects p)"
    using ps(2) by (auto simp: still_waiting_def after_poll_def split: sum.split option.split)
  ultimately show ?thesis using ps by metis
qed

definition sample_os :: host_os where
  "sample_os = \<lparr>os_temp_dir = ''/tmp'', os_show_uuid = (\<lambda>i. if i = 7 then ''seven'' else ''other''),
     os_eof = ''early eof'',
     os_env = [''FIRECRACKER_BIN'' \<mapsto> ''/fc'', ''AKSSORA_ROOTFS_PATH'' \<mapsto> ''/rootfs'',
       ''AKSSORA_KERNEL_PATH'' \<mapsto> ''/vmlinux''],
     os_mkdir = (\<lambda>_. None), os_chmod = (\<lambda>_. None), os_spawn = (\<lambda>_ _. Inr 40),
     os_polls = [\<lparr>sp_try_wait = Inr None, sp_connects = False, sp_elapsed = 5\<rparr>,
       \<lparr>sp_try_wait = Inr None, sp_connects = True, sp_elapsed = 10\<rparr>],
     os_kill = (\<lambda>_. None), os_wait = (\<lambda>_. None)\<rparr>"

definition idle_host :: host where
  "idle_host = \<lparr>ho_paths = {''/fc'', ''/rootfs'', ''/vmlinux''}, ho_running = {}, ho_calls = []\<rparr>"

theorem socket_wait_ends_witness:
  "\<exists>h' r. wait_for_socket_ready sample_os 40 [\<lparr>sp_try_wait = Inr None, sp_connects = False, sp_elapsed = 2001\<rparr>]
     (idle_host\<lparr>ho_running := {40}\<rparr>) = Some (h', r) \<and> r \<noteq> Inr () \<and> ho_running h' = {}"
proof -
  let ?p = "\<lparr>sp_try_wait = Inr None, sp_connects = False, sp_elapsed = 2001\<rparr>"
  let ?h = "idle_host\<lparr>ho_running := {40}\<rparr>"
  have "\<exists>p\<in>set [?p]. 2000 \<le> sp_elapsed p" by simp
  from socket_wait_ends [OF this, of sample_os 40 ?h]
  obtain ws p rest r where w: "[?p] = ws @ p # rest"
    "wait_for_socket_ready sample_os 40 [?p] ?h = Some (after_poll sample_os 40 p ?h, r)"
    "r = Inr () \<longleftrightarrow> sp_try_wait p = Inr None \<and> sp_connects p" by blast
  from w(1) have p: "p = ?p" by (cases ws) auto
  have "ho_running (after_poll sample_os 40 p ?h) = {}" by (simp add: p after_poll_def sample_os_def)
  with w(2,3) p show ?thesis by (simp del: wait_for_socket_ready.simps)
qed

section \<open>The start of a session\<close>

definition boot_calls :: "session_config \<Rightarrow> call_plan" where
  "boot_calls cfg =
     (let put = (\<lambda>path body. \<lparr>ac_socket = sc_socket_path cfg, ac_method = Put, ac_path = path, ac_body = body\<rparr>)
      in [(put ''/boot-source'' (BootSourceBody \<lparr>bs_kernel_image_path = sc_kernel_path cfg,
             bs_boot_args = boot_args\<rparr>), Some BootConfig),
          (put ''/drives/rootfs'' (DriveBody \<lparr>dr_drive_id = ''rootfs'', dr_path_on_host = sc_rootfs_path cfg,
             dr_is_root_device = True, dr_is_read_only = False\<rparr>), Some RootfsConfig),
          (put ''/machine-config'' (MachineBody \<lparr>mc_vcpu_count = sc_vcpu_count cfg,
             mc_mem_size_mib = sc_mem_size_mib cfg\<rparr>), Some MachineConfig),
          (put ''/entropy'' (EntropyBody \<lparr>ed_rate_limiter = None\<rparr>), None),
          (put ''/vsock'' (VsockBody \<lparr>vc_guest_cid = 3, vc_uds_path = sc_vsock_uds_path cfg\<rparr>), Some VsockConfig),
          (put ''/actions'' (ActionBody \<lparr>va_action_type = ''InstanceStart''\<rparr>), Some StartMicroVM)])"

lemma and_then_ret: "and_then m (\<lambda>_ h. (h, Inr ())) = (m :: 's \<times> ('e + unit))"
  by (cases m; cases "snd m") (auto simp: and_then_def)

lemma run_calls_fun:
  "run_calls cl [] = (\<lambda>h. (h, Inr ()))"
  "run_calls cl ((c, report) # cs) = (\<lambda>h.
     and_then (case report of None \<Rightarrow> ignore (api_request cl c h) | Some e \<Rightarrow> map_err e (api_request cl c h))
       (\<lambda>_. run_calls cl cs))"
  by (rule ext, simp)+

lemma configure_vm_plan: "configure_vm cl cfg h = run_calls cl (boot_calls cfg) h"
  by (simp add: configure_vm_def boot_calls_def put_request_def Let_def run_calls_fun and_then_ret
      del: run_calls.simps)

lemma remove_path_host [simp]:
  "ho_running (remove_path p h) = ho_running h" "ho_calls (remove_path p h) = ho_calls h"
  by (simp_all add: remove_path_def)

lemma create_dir_all_host:
  "create_dir_all os p h = (h', r) \<Longrightarrow> ho_running h' = ho_running h \<and> ho_calls h' = ho_calls h"
  by (auto simp: create_dir_all_def split: option.splits)

lemma path_from_env_host: "path_from_env os what var h = (h', r) \<Longrightarrow> h' = h"
  by (auto simp: path_from_env_def existing_path_def split: option.splits if_splits)

lemma config_host:
  "config_with_rootfs os sid custom h = (h', r) \<Longrightarrow> ho_running h' = ho_running h \<and> ho_calls h' = ho_calls h"
  by (auto simp: config_with_rootfs_def and_then_def Let_def existing_path_def
      split: prod.splits sum.splits option.splits if_splits
      dest!: create_dir_all_host path_from_env_host)

lemma start_process_host:
  "start_process os socket h = (h', r) \<Longrightarrow> ho_calls h' = ho_calls h \<and>
   (case r of Inl e \<Rightarrow> ho_running h' = ho_running h
    | Inr pid \<Rightarrow> ho_running h' = insert pid (ho_running h) \<and> (\<exists>bin. os_spawn os bin socket = Inr pid))"
  by (auto simp: start_process_def split: option.splits sum.splits if_splits)

lemma configure_host:
  "ho_running (fst (configure_vm cl cfg h)) = ho_running h \<and> ho_paths (fst (configure_vm cl cfg h)) = ho_paths h"
  using run_calls_result [of cl "boot_calls cfg" h] by (auto simp: configure_vm_plan plan_result_def)

lemma with_rootfs_ready:
  assumes "config_with_rootfs os sid custom h = (h1, Inr cfg)"
    and "start_process os (sc_socket_path cfg)
        (remove_path (sc_vsock_uds_path cfg) (remove_path (sc_socket_path cfg) h1)) = (h2, Inr pid)"
    and "wait_for_socket_ready os pid (os_polls os) h2 = Some (h3, Inr ())"
  shows "with_rootfs os cl sid custom h = Some (and_then (run_calls cl (boot_calls cfg) h2) (\<lambda>_ h.
      (h, Inr \<lparr>se_session_id = sid, se_process = pid, se_client = sc_socket_path cfg,
         se_vsock_uds_path = sc_vsock_uds_path cfg\<rparr>))) \<and>
    ho_calls h2 = ho_calls h \<and> ho_running h2 = insert pid (ho_running h)"
  using assms wait_Inr [OF assms(3)] config_host [OF assms(1)] start_process_host [OF assms(2)]
  by (simp add: with_rootfs_def configure_vm_plan)

text \<open>
  C22. Once the process is started and its socket accepts, the machine is configured by six requests
  in a fixed order: the kernel, the root drive, the size, the entropy device, the socket device and
  the start. They are sent one after the other up to the first that is refused; a refused entropy
  device is passed over, any other refusal is returned as the error of its step. The session is
  returned exactly when all went through. The process runs in either case: after a refusal nothing
  stops it and nobody holds it.
\<close>

theorem session_start:
  assumes "config_with_rootfs os sid custom h = (h1, Inr cfg)"
    and "start_process os (sc_socket_path cfg)
        (remove_path (sc_vsock_uds_path cfg) (remove_path (sc_socket_path cfg) h1)) = (h2, Inr pid)"
    and "wait_for_socket_ready os pid (os_polls os) h2 = Some (h3, Inr ())"
  shows "\<exists>h' n r. with_rootfs os cl sid custom h = Some (h', r) \<and>
    n \<le> 6 \<and> ho_calls h' = ho_calls h @ map fst (take n (boot_calls cfg)) \<and>
    ho_running h' = insert pid (ho_running h) \<and>
    (\<forall>i<n - 1. call_passes cl (ho_calls h) (boot_calls cfg) i) \<and>
    (n = 6 \<and> call_passes cl (ho_calls h) (boot_calls cfg) 5 \<and>
       r = Inr \<lparr>se_session_id = sid, se_process = pid, se_client = sc_socket_path cfg,
         se_vsock_uds_path = sc_vsock_uds_path cfg\<rparr> \<or>
     (\<exists>f msg. 0 < n \<and> snd (boot_calls cfg ! (n - 1)) = Some f \<and>
       answer_at cl (ho_calls h) (boot_calls cfg) (n - 1) = Inl msg \<and> r = Inl (f msg)))"
proof -
  let ?s = "\<lparr>se_session_id = sid, se_process = pid, se_client = sc_socket_path cfg,
      se_vsock_uds_path = sc_vsock_uds_path cfg\<rparr>"
  note ready = with_rootfs_ready [OF assms, of cl]
  obtain n where n: "plan_result cl (boot_calls cfg) h2 n (run_calls cl (boot_calls cfg) h2)"
    using run_calls_result by blast
  obtain h' u where run: "run_calls cl (boot_calls cfg) h2 = (h', u)" by fastforce
  have len: "length (boot_calls cfg) = 6" by (simp add: boot_calls_def Let_def)
  have h': "n \<le> 6" "ho_calls h' = ho_calls h @ map fst (take n (boot_calls cfg))"
    "ho_running h' = insert pid (ho_running h)"
    using n ready by (simp_all add: plan_result_def run len)
  show ?thesis
  proof (cases u)
    case (Inl e)
    with ready run have "with_rootfs os cl sid custom h = Some (h', Inl e)" by simp
    moreover have "0 < n" "\<forall>i<n - 1. call_passes cl (ho_calls h) (boot_calls cfg) i"
      "\<exists>f msg. snd (boot_calls cfg ! (n - 1)) = Some f \<and>
        answer_at cl (ho_calls h) (boot_calls cfg) (n - 1) = Inl msg \<and> e = f msg"
      using n Inl ready by (simp_all add: plan_result_def run)
    ultimately show ?thesis
      using h' by (intro exI [of _ h'] exI [of _ n] exI [of _ "Inl e"]) blast
  next
    case (Inr x)
    with ready run have "with_rootfs os cl sid custom h = Some (h', Inr ?s)" by simp
    moreover have "n = 6" "\<forall>i<6. call_passes cl (ho_calls h) (boot_calls cfg) i"
      using n Inr ready by (auto simp: plan_result_def run len)
    ultimately show ?thesis
      using h' by (intro exI [of _ h'] exI [of _ n] exI [of _ "Inr ?s"]) simp
  qed
qed

text \<open>A machine that refuses the socket device and the entropy device.\<close>

definition refusing_client :: client where
  "refusing_client calls c = (if ac_path c \<in> {''/vsock'', ''/entropy''} then Inl ''refused'' else Inr ())"

theorem session_start_witness:
  "\<exists>h'. with_rootfs sample_os refusing_client 7 None idle_host = Some (h', Inl (VsockConfig ''refused'')) \<and>
    ho_running h' = {40} \<and> length (ho_calls h') = 5"
proof -
  obtain h1 cfg where c: "config_with_rootfs sample_os 7 None idle_host = (h1, Inr cfg)"
    by (simp add: config_with_rootfs_def create_dir_all_def path_from_env_def existing_path_def
        sample_os_def idle_host_def Let_def)
  have h1: "ho_paths h1 = {''/fc'', ''/rootfs'', ''/vmlinux'', ''/tmp/seven''}"
    "sc_socket_path cfg = ''/tmp/seven/firecracker.socket''" "sc_vsock_uds_path cfg = ''/tmp/seven/vsock.socket''"
    using c by (auto simp: config_with_rootfs_def create_dir_all_def path_from_env_def existing_path_def
        sample_os_def idle_host_def Let_def path_join_def)
  let ?h = "remove_path (sc_vsock_uds_path cfg) (remove_path (sc_socket_path cfg) h1)"
  obtain h2 where p: "start_process sample_os (sc_socket_path cfg) ?h = (h2, Inr 40)"
    using h1 by (simp add: start_process_def sample_os_def remove_path_def)
  have w: "wait_for_socket_ready sample_os 40 (os_polls sample_os) h2 = Some (h2, Inr ())"
    by (simp add: sample_os_def)
  obtain h' n r where res: "with_rootfs sample_os refusing_client 7 None idle_host = Some (h', r)"
    "n \<le> 6" "ho_calls h' = ho_calls idle_host @ map fst (take n (boot_calls cfg))"
    "ho_running h' = insert 40 (ho_running idle_host)"
    "\<forall>i<n - 1. call_passes refusing_client (ho_calls idle_host) (boot_calls cfg) i"
    "n = 6 \<and> call_passes refusing_client (ho_calls idle_host) (boot_calls cfg) 5 \<and>
       r = Inr \<lparr>se_session_id = 7, se_process = 40, se_client = sc_socket_path cfg,
         se_vsock_uds_path = sc_vsock_uds_path cfg\<rparr> \<or>
     (\<exists>f msg. 0 < n \<and> snd (boot_calls cfg ! (n - 1)) = Some f \<and>
       answer_at refusing_client (ho_calls idle_host) (boot_calls cfg) (n - 1) = Inl msg \<and> r = Inl (f msg))"
    using session_start [OF c p w, of refusing_client] by (elim exE conjE) (rule that)
  have refused: "\<not> call_passes refusing_client past (boot_calls cfg) 4" for past
    by (simp add: call_passes_def answer_at_def refusing_client_def boot_calls_def Let_def)
  have others: "snd (boot_calls cfg ! i) = Some f \<Longrightarrow>
      refusing_client past (fst (boot_calls cfg ! i)) = Inl msg \<Longrightarrow> i < 6 \<Longrightarrow>
      i = 4 \<and> msg = ''refused'' \<and> f = VsockConfig" for i f msg past
  proof -
    assume a: "snd (boot_calls cfg ! i) = Some f" "refusing_client past (fst (boot_calls cfg ! i)) = Inl msg" "i < 6"
    from a(3) consider "i = 0" | "i = 1" | "i = 2" | "i = 3" | "i = 4" | "i = 5" by linarith
    then show ?thesis using a(1,2) by cases (simp_all add: refusing_client_def boot_calls_def Let_def)
  qed
  have "call_passes refusing_client (ho_calls idle_host) (boot_calls cfg) 4" if "n = 6"
    using res(5) that by simp
  then have "n \<noteq> 6" using refused by blast
  with res(6) obtain f msg where f: "0 < n" "snd (boot_calls cfg ! (n - 1)) = Some f"
    "answer_at refusing_client (ho_calls idle_host) (boot_calls cfg) (n - 1) = Inl msg" "r = Inl (f msg)" by blast
  have "n - 1 < 6" using f(1) res(2) by linarith
  from others [OF f(2) f(3) [unfolded answer_at_def] this] f(1,4) have "n = 5" "r = Inl (VsockConfig ''refused'')"
    by auto
  with res(1,3,4) show ?thesis by (auto simp: idle_host_def boot_calls_def Let_def)
qed

section \<open>The table of sessions\<close>

text \<open>The system gives a new process an identifier that is not in use: no running process has it, and no
  process that has exited and that its parent has not waited for.\<close>

definition fresh_pids :: "host_os \<Rightarrow> nat set \<Rightarrow> bool" where
  "fresh_pids os used \<longleftrightarrow> (\<forall>bin socket pid. os_spawn os bin socket = Inr pid \<longrightarrow> pid \<notin> used)"

lemma start_fresh:
  assumes "start_process os socket h = (h', Inr pid)" "fresh_pids os used" "ho_running h = ho_running h0"
  shows "pid \<notin> used \<and> ho_running h' = insert pid (ho_running h0)"
  using start_process_host [OF assms(1)] assms(2,3) by (auto simp: fresh_pids_def)

lemma with_rootfs_outcome:
  assumes "with_rootfs os cl sid custom h = Some (h', r)" "fresh_pids os used" "ho_running h \<subseteq> used"
  shows "ho_running h \<subseteq> ho_running h' \<and> ho_running h' \<subseteq> ho_running h \<union> - used \<and>
    (\<forall>s. r = Inr s \<longrightarrow> se_session_id s = sid \<and> se_process s \<notin> used \<and>
       ho_running h' = insert (se_process s) (ho_running h))"
proof -
  obtain h1 c where c: "config_with_rootfs os sid custom h = (h1, c)" by fastforce
  have h1: "ho_running h1 = ho_running h" using config_host [OF c] by simp
  show ?thesis
  proof (cases c)
    case (Inl e)
    with c h1 assms(1) show ?thesis by (auto simp: with_rootfs_def)
  next
    case (Inr cfg)
    let ?h = "remove_path (sc_vsock_uds_path cfg) (remove_path (sc_socket_path cfg) h1)"
    obtain h2 p where p: "start_process os (sc_socket_path cfg) ?h = (h2, p)" by fastforce
    show ?thesis
    proof (cases p)
      case (Inl e)
      with c p h1 Inr assms(1) start_process_host [OF p] show ?thesis by (auto simp: with_rootfs_def)
    next
      case (Inr pid)
      have fresh: "pid \<notin> used" "ho_running h2 = insert pid (ho_running h)"
        using start_fresh [OF p [unfolded Inr] assms(2), of h] h1 by simp_all
      obtain h3 w where w: "wait_for_socket_ready os pid (os_polls os) h2 = Some (h3, w)"
        using assms(1) c p \<open>c = Inr cfg\<close> Inr by (auto simp: with_rootfs_def split: option.splits)
      show ?thesis
      proof (cases w)
        case (Inl e)
        with c p w \<open>c = Inr cfg\<close> \<open>p = Inr pid\<close> assms(1) wait_host [OF w] fresh assms(3) show ?thesis
          by (auto simp: with_rootfs_def)
      next
        case (Inr u)
        with wait_Inr w have "h3 = h2" by blast
        with c p w \<open>c = Inr cfg\<close> \<open>p = Inr pid\<close> Inr assms(1,3) fresh configure_host [of cl cfg h2]
        show ?thesis by (cases "configure_vm cl cfg h2"; cases "snd (configure_vm cl cfg h2)")
          (auto simp: with_rootfs_def)
      qed
    qed
  qed
qed

text \<open>
  Histories of a table: sessions created under new identifiers, while the system gives new process
  identifiers, and ended; and beside them processes that exit by themselves (a crash, or a reboot of
  the guest), which the table takes no notice of. \<open>gone\<close> are the processes that have exited so and
  that nobody has waited for; one is waited for only when no session of the table holds it.
\<close>

inductive manager_reachable :: "host \<Rightarrow> nat set \<Rightarrow> session_manager \<Rightarrow> bool" where
  Empty: "manager_reachable h {} new_session_manager"
| Create: "manager_reachable h gone sm \<Longrightarrow> sm sid = None \<Longrightarrow> fresh_pids os (ho_running h \<union> gone) \<Longrightarrow>
    create_session os cl sid h sm = Some ((h', sm'), r) \<Longrightarrow> manager_reachable h' gone sm'"
| End: "manager_reachable h gone sm \<Longrightarrow> manager_end_session os sid h sm = ((h', sm'), r) \<Longrightarrow>
    manager_reachable h' gone sm'"
| Exit: "manager_reachable h gone sm \<Longrightarrow> pid \<in> ho_running h \<Longrightarrow>
    manager_reachable (h\<lparr>ho_running := ho_running h - {pid}\<rparr>) (insert pid gone) sm"
| Reap: "manager_reachable h gone sm \<Longrightarrow> (\<forall>i s. sm i = Some s \<longrightarrow> se_process s \<noteq> pid) \<Longrightarrow>
    manager_reachable h (gone - {pid}) sm"

inductive_cases manager_reachable_elim: "manager_reachable h gone sm"

definition table_ok :: "host \<Rightarrow> nat set \<Rightarrow> session_manager \<Rightarrow> bool" where
  "table_ok h gone sm \<longleftrightarrow> ho_running h \<inter> gone = {} \<and>
     (\<forall>i s. sm i = Some s \<longrightarrow> se_session_id s = i \<and> se_process s \<in> ho_running h \<union> gone) \<and>
     (\<forall>i j s t. sm i = Some s \<and> sm j = Some t \<and> se_process s = se_process t \<longrightarrow> i = j)"

lemma create_table_ok:
  assumes "table_ok h gone sm" "fresh_pids os (ho_running h \<union> gone)"
    "create_session os cl sid h sm = Some ((h', sm'), r)"
  shows "table_ok h' gone sm'"
proof -
  obtain s where s: "with_rootfs os cl sid None h = Some (h', s)"
    "sm' = (case s of Inl _ \<Rightarrow> sm | Inr s \<Rightarrow> sm(se_session_id s \<mapsto> s))"
    using assms(3) by (auto simp: create_session_def new_session_def split: option.splits sum.splits)
  note out = with_rootfs_outcome [OF s(1) assms(2) Un_upper1]
  have disj: "ho_running h' \<inter> gone = {}" using out assms(1) by (auto simp: table_ok_def)
  show ?thesis
  proof (cases s)
    case (Inl e)
    with s(2) out assms(1) disj show ?thesis by (simp add: table_ok_def) blast
  next
    case (Inr t)
    with out have t: "se_process t \<notin> ho_running h \<union> gone" "ho_running h' = insert (se_process t) (ho_running h)"
      by simp_all
    with Inr s(2) assms(1) disj show ?thesis by (simp add: table_ok_def) metis
  qed
qed

lemma end_session_host:
  "end_session os s h = (h', r) \<Longrightarrow>
   ho_running h' = (if os_kill os (se_process s) = None then ho_running h - {se_process s} else ho_running h)"
  by (auto simp: end_session_def Let_def split: option.splits)

lemma end_table_ok:
  assumes "table_ok h gone sm" "manager_end_session os sid h sm = ((h', sm'), r)"
  shows "table_ok h' gone sm'"
proof (cases "sm sid")
  case None
  with assms show ?thesis by (simp add: manager_end_session_def)
next
  case (Some s)
  obtain h1 r1 where e: "end_session os s h = (h1, r1)" by fastforce
  with Some assms(2) have "h' = h1" "sm' = sm(sid := None)" by (simp_all add: manager_end_session_def)
  then show ?thesis
    using end_session_host [OF e] assms(1) Some by (simp add: table_ok_def disjoint_iff) metis
qed

lemma reachable_table_ok: "manager_reachable h gone sm \<Longrightarrow> table_ok h gone sm"
proof (induction rule: manager_reachable.induct)
  case (Empty h)
  then show ?case by (simp add: table_ok_def new_session_manager_def)
next
  case (Create h gone sm sid os cl h' sm' r)
  then show ?case using create_table_ok by blast
next
  case (End h gone sm os sid h' sm' r)
  then show ?case using end_table_ok by blast
next
  case (Exit h gone sm pid)
  then show ?case by (auto simp: table_ok_def)
next
  case (Reap h gone sm pid)
  then show ?case by (auto simp: table_ok_def)
qed

text \<open>
  C24. However sessions were created and ended and processes exited by themselves in between, each
  session of the table is listed under its own identifier and has a process of its own, which runs
  exactly when it has not exited by itself: the table keeps a session whose process has exited. Ending
  a session takes it out of the table, and leaves nothing in the table that holds its process; the
  process runs on exactly when it ran and cannot be killed: then the session is gone all the same, and
  what still runs can no longer be reached through the table.
\<close>

theorem session_table:
  assumes "manager_reachable h gone sm"
  shows "(\<forall>i s. sm i = Some s \<longrightarrow> se_session_id s = i \<and> (se_process s \<in> ho_running h \<longleftrightarrow> se_process s \<notin> gone)) \<and>
    (\<forall>i j s t. sm i = Some s \<and> sm j = Some t \<and> se_process s = se_process t \<longrightarrow> i = j) \<and>
    (\<forall>os i s h' sm' r. sm i = Some s \<and> manager_end_session os i h sm = ((h', sm'), r) \<longrightarrow>
       sm' = sm(i := None) \<and> (\<forall>j t. sm' j = Some t \<longrightarrow> se_process t \<noteq> se_process s) \<and>
       (se_process s \<in> ho_running h' \<longleftrightarrow> se_process s \<notin> gone \<and> os_kill os (se_process s) \<noteq> None) \<and>
       (r = Inr () \<longleftrightarrow> os_kill os (se_process s) = None \<and> os_wait os (se_process s) = None))"
proof -
  have ok: "table_ok h gone sm" by (rule reachable_table_ok [OF assms])
  have runs: "se_process s \<in> ho_running h \<longleftrightarrow> se_process s \<notin> gone" if "sm i = Some s" for i s
    using ok that by (auto simp: table_ok_def)
  have ended: "sm' = sm(i := None) \<and> (\<forall>j t. sm' j = Some t \<longrightarrow> se_process t \<noteq> se_process s) \<and>
       (se_process s \<in> ho_running h' \<longleftrightarrow> se_process s \<notin> gone \<and> os_kill os (se_process s) \<noteq> None) \<and>
       (r = Inr () \<longleftrightarrow> os_kill os (se_process s) = None \<and> os_wait os (se_process s) = None)"
    if a: "sm i = Some s" "manager_end_session os i h sm = ((h', sm'), r)" for os i s h' sm' r
  proof -
    obtain h1 r1 where e: "end_session os s h = (h1, r1)" by fastforce
    with a have h1: "h' = h1" "sm' = sm(i := None)" "r = r1" by (simp_all add: manager_end_session_def)
    have "se_process s \<in> ho_running h' \<longleftrightarrow> se_process s \<notin> gone \<and> os_kill os (se_process s) \<noteq> None"
      using end_session_host [OF e] h1(1) runs [OF a(1)] by auto
    moreover have "\<forall>j t. sm' j = Some t \<longrightarrow> se_process t \<noteq> se_process s"
      using ok a(1) h1(2) by (auto simp: table_ok_def split: if_splits)
    moreover have "r1 = Inr () \<longleftrightarrow> os_kill os (se_process s) = None \<and> os_wait os (se_process s) = None"
      using e by (auto simp: end_session_def Let_def split: option.splits)
    ultimately show ?thesis using h1 by blast
  qed
  have "se_session_id s = i" if "sm i = Some s" for i s using ok that by (simp add: table_ok_def)
  moreover have "i = j" if "sm i = Some s" "sm j = Some t" "se_process s = se_process t" for i j s t
    using ok that unfolding table_ok_def by blast
  ultimately show ?thesis using runs ended by (intro conjI allI impI) (blast+)
qed

text \<open>A machine that refuses nothing.\<close>

definition willing_client :: client where
  "willing_client calls c = Inr ()"

definition sample_session :: session where
  "sample_session = \<lparr>se_session_id = 7, se_process = 40, se_client = ''/tmp/seven/firecracker.socket'',
     se_vsock_uds_path = ''/tmp/seven/vsock.socket''\<rparr>"

lemma idle_start:
  "\<exists>h'. with_rootfs sample_os willing_client 7 None idle_host = Some (h', Inr sample_session) \<and>
     ho_running h' = {40}"
  by (simp add: with_rootfs_def configure_vm_def put_request_def api_request_def willing_client_def
      config_with_rootfs_def create_dir_all_def path_from_env_def existing_path_def start_process_def
      remove_path_def sample_os_def idle_host_def sample_session_def path_join_def Let_def)

theorem session_table_witness:
  "\<exists>h h'. manager_reachable h {} [7 \<mapsto> sample_session] \<and> se_process sample_session \<in> ho_running h \<and>
     manager_reachable h' {40} [7 \<mapsto> sample_session] \<and> se_process sample_session \<notin> ho_running h'"
proof -
  obtain h where h: "with_rootfs sample_os willing_client 7 None idle_host = Some (h, Inr sample_session)"
    "ho_running h = {40}" using idle_start by blast
  then have "create_session sample_os willing_client 7 idle_host new_session_manager =
      Some ((h, [7 \<mapsto> sample_session]), Inr 7)"
    by (simp add: create_session_def new_session_def new_session_manager_def sample_session_def)
  moreover have "fresh_pids sample_os (ho_running idle_host \<union> {})"
    by (simp add: fresh_pids_def sample_os_def idle_host_def)
  ultimately have created: "manager_reachable h {} [7 \<mapsto> sample_session]"
    using manager_reachable.Create [OF manager_reachable.Empty] by (simp add: new_session_manager_def)
  then have exited: "manager_reachable (h\<lparr>ho_running := {}\<rparr>) {40} [7 \<mapsto> sample_session]"
    using manager_reachable.Exit [of h "{}" _ 40] h(2) by simp
  have "se_process sample_session \<in> ho_running h"
    using session_table [OF created, THEN conjunct1] by simp
  moreover have "se_process sample_session \<notin> ho_running (h\<lparr>ho_running := {}\<rparr>)"
    using session_table [OF exited, THEN conjunct1] by (simp add: sample_session_def)
  ultimately show ?thesis using created exited by blast
qed

section \<open>Forks\<close>

definition fork_calls :: "host_os \<Rightarrow> uuid \<Rightarrow> session \<Rightarrow> api_call list" where
  "fork_calls os new_id source =
     (let call = (\<lambda>method path body. \<lparr>ac_socket = se_client source, ac_method = method, ac_path = path, ac_body = body\<rparr>)
      in [call Patch ''/vm'' (VmStateBody \<lparr>vs_state = VmPaused\<rparr>),
          call Put ''/snapshot/create'' (CreateSnapshotBody \<lparr>cs_snapshot_type = SnapshotFull,
            cs_snapshot_path = path_join (fork_base os new_id) ''snapshot.json'',
            cs_mem_file_path = path_join (fork_base os new_id) ''vm.mem''\<rparr>),
          call Patch ''/vm'' (VmStateBody \<lparr>vs_state = VmResumed\<rparr>)])"

definition fork_load :: "host_os \<Rightarrow> uuid \<Rightarrow> api_call" where
  "fork_load os new_id =
     \<lparr>ac_socket = path_join (path_join (os_temp_dir os) (os_show_uuid os new_id)) ''firecracker.socket'',
      ac_method = Put, ac_path = ''/snapshot/load'',
      ac_body = LoadSnapshotBody \<lparr>ls_snapshot_path = path_join (fork_base os new_id) ''snapshot.json'',
        ls_mem_file_path = path_join (fork_base os new_id) ''vm.mem'', ls_enable_diff_snapshots = None,
        ls_resume_vm = Some True\<rparr>\<rparr>"

definition fork_plan :: "host_os \<Rightarrow> uuid \<Rightarrow> session \<Rightarrow> call_plan" where
  "fork_plan os new_id source =
     zip (fork_calls os new_id source)
       [Some (\<lambda>msg. fork_failed os ''pause failed: '' (PauseMicroVM msg)),
        Some (\<lambda>msg. fork_failed os '''' (SnapshotCreate msg)),
        Some (\<lambda>msg. fork_failed os ''resume failed: '' (ResumeMicroVM msg))]"

lemma map_err_comp: "map_err f (map_err g m) = map_err (\<lambda>e. f (g e)) m"
  by (cases m; cases "snd m") (auto simp: map_err_def)

lemma and_then_assoc: "and_then (and_then m f) g = and_then m (\<lambda>x s. and_then (f x s) g)"
  by (cases m; cases "snd m") (auto simp: and_then_def)

lemma run_calls_Cons_then:
  "and_then (run_calls cl ((c, report) # cs) h) g =
     and_then (case report of None \<Rightarrow> ignore (api_request cl c h) | Some e \<Rightarrow> map_err e (api_request cl c h))
       (\<lambda>_ h. and_then (run_calls cl cs h) g)"
  by (simp add: and_then_assoc)

lemma fork_steps_plan:
  "fork_steps os cl new_id source h =
     and_then (create_dir_all os (fork_base os new_id) h) (\<lambda>_ h.
     and_then (run_calls cl (fork_plan os new_id source) h) (\<lambda>_ h.
     and_then (map_err (fork_config_failed os) (new_session_config os new_id h)) (\<lambda>cfg h.
       (h, Inr (path_join (fork_base os new_id) ''snapshot.json'', path_join (fork_base os new_id) ''vm.mem'',
          sc_vsock_uds_path cfg)))))"
  by (simp add: fork_steps_def fork_plan_def fork_calls_def Let_def run_calls_Cons_then pause_session_def pause_vm_def
      snapshot_session_def create_snapshot_def resume_session_def resume_vm_def put_request_def patch_request_def
      map_err_comp del: run_calls.simps(2))

lemma from_snapshot_outcome:
  assumes "from_snapshot os cl sid sp mp v h = Some (h', r)"
    and load: "load = \<lparr>ac_socket = path_join (path_join (os_temp_dir os) (os_show_uuid os sid)) ''firecracker.socket'',
      ac_method = Put, ac_path = ''/snapshot/load'',
      ac_body = LoadSnapshotBody \<lparr>ls_snapshot_path = sp, ls_mem_file_path = mp, ls_enable_diff_snapshots = None,
        ls_resume_vm = Some True\<rparr>\<rparr>"
  shows "(ho_calls h' = ho_calls h \<or> ho_calls h' = ho_calls h @ [load]) \<and>
    (\<forall>s. r = Inr s \<longrightarrow> se_session_id s = sid \<and> se_process s \<in> ho_running h' \<and> se_vsock_uds_path s = v \<and>
      ho_calls h' = ho_calls h @ [load] \<and> cl (ho_calls h) load = Inr ())"
proof -
  define base where "base = path_join (os_temp_dir os) (os_show_uuid os sid)"
  define socket where "socket = path_join base ''firecracker.socket''"
  obtain h1 p where p: "and_then (create_dir_all os base h)
      (\<lambda>_ h. start_process os socket (remove_path socket h)) = (h1, p)" by fastforce
  have h1: "ho_calls h1 = ho_calls h \<and> (\<forall>pid. p = Inr pid \<longrightarrow> pid \<in> ho_running h1)"
  proof -
    obtain h0 q where q: "create_dir_all os base h = (h0, q)" by fastforce
    show ?thesis
    proof (cases q)
      case (Inl e)
      with p q create_dir_all_host [OF q] show ?thesis by auto
    next
      case (Inr u)
      with p q have "start_process os socket (remove_path socket h0) = (h1, p)" by simp
      from start_process_host [OF this] create_dir_all_host [OF q] show ?thesis by auto
    qed
  qed
  show ?thesis
  proof (cases p)
    case (Inl e)
    with p h1 assms(1) show ?thesis
      by (auto simp: from_snapshot_def Let_def base_def [symmetric] socket_def [symmetric])
  next
    case (Inr pid)
    obtain h2 w where w: "wait_for_socket_ready os pid (os_polls os) h1 = Some (h2, w)"
      using assms(1) p Inr
      by (auto simp: from_snapshot_def Let_def base_def [symmetric] socket_def [symmetric] split: option.splits)
    show ?thesis
    proof (cases w)
      case (Inl e)
      with p h1 assms(1) w Inr \<open>p = Inr pid\<close> wait_host [OF w] show ?thesis
        by (auto simp: from_snapshot_def Let_def base_def [symmetric] socket_def [symmetric])
    next
      case (Inr u)
      with wait_Inr w have "h2 = h1" by blast
      then show ?thesis
        using p h1 assms(1) w Inr \<open>p = Inr pid\<close> load
        by (cases "cl (ho_calls h1) load")
          (auto simp: from_snapshot_def Let_def base_def [symmetric] socket_def [symmetric] load_snapshot_def
            put_request_def api_request_def)
    qed
  qed
qed

lemma is_paused_load: "ac_body c = LoadSnapshotBody b \<Longrightarrow> is_paused cl socket (cs @ [c]) = is_paused cl socket cs"
  by (simp add: is_paused_snoc)

text \<open>The calls of a fork, and after which of them the source is paused.\<close>

lemma fork_plan_calls:
  assumes "c = fork_calls os new_id source"
  shows "map fst (fork_plan os new_id source) = c" "length (fork_plan os new_id source) = 3"
    "c = [c ! 0, c ! 1, c ! 2]"
    "i < 3 \<Longrightarrow> answer_at cl cs (fork_plan os new_id source) i = cl (cs @ take i c) (c ! i)"
    "i < 3 \<Longrightarrow> call_passes cl cs (fork_plan os new_id source) i \<longleftrightarrow> cl (cs @ take i c) (c ! i) = Inr ()"
proof -
  have plan: "map fst (fork_plan os new_id source) = c" "length (fork_plan os new_id source) = 3"
    "\<And>i. i < 3 \<Longrightarrow> \<exists>f. snd (fork_plan os new_id source ! i) = Some f"
    "\<And>i. i < 3 \<Longrightarrow> fst (fork_plan os new_id source ! i) = c ! i"
    using assms by (auto simp: fork_plan_def fork_calls_def Let_def nth_Cons' numeral_eq_Suc less_Suc_eq)
  have answer: "i < 3 \<Longrightarrow> answer_at cl cs (fork_plan os new_id source) i = cl (cs @ take i c) (c ! i)" for i
    using plan(1,4) by (simp add: answer_at_def take_map [symmetric])
  show "map fst (fork_plan os new_id source) = c" "length (fork_plan os new_id source) = 3" using plan(1,2) .
  show "c = [c ! 0, c ! 1, c ! 2]" by (simp add: assms fork_calls_def Let_def)
  show "i < 3 \<Longrightarrow> answer_at cl cs (fork_plan os new_id source) i = cl (cs @ take i c) (c ! i)" by (rule answer)
  show "i < 3 \<Longrightarrow> call_passes cl cs (fork_plan os new_id source) i \<longleftrightarrow> cl (cs @ take i c) (c ! i) = Inr ()"
    using plan(3) [of i] answer [of i] by (auto simp: call_passes_def)
qed

lemma fork_calls_paused:
  assumes "c = fork_calls os new_id source" "\<not> is_paused cl (se_client source) cs"
  shows "is_paused cl (se_client source) (cs @ [c ! 0]) \<longleftrightarrow> cl cs (c ! 0) = Inr ()"
    "is_paused cl (se_client source) (cs @ [c ! 0, c ! 1]) \<longleftrightarrow> cl cs (c ! 0) = Inr ()"
    "is_paused cl (se_client source) (cs @ [c ! 0, c ! 1, c ! 2]) \<longleftrightarrow>
      cl (cs @ [c ! 0, c ! 1]) (c ! 2) \<noteq> Inr () \<and> cl cs (c ! 0) = Inr ()"
proof -
  have p: "is_paused cl (se_client source) (cs @ [c ! 0]) \<longleftrightarrow> cl cs (c ! 0) = Inr () \<or> is_paused cl (se_client source) cs"
    "is_paused cl (se_client source) (cs @ [c ! 1]) \<longleftrightarrow> is_paused cl (se_client source) cs"
    "is_paused cl (se_client source) (cs @ [c ! 2]) \<longleftrightarrow> cl cs (c ! 2) \<noteq> Inr () \<and> is_paused cl (se_client source) cs" for cs
    by (simp_all add: is_paused_snoc assms(1) fork_calls_def Let_def)
  then show "is_paused cl (se_client source) (cs @ [c ! 0]) \<longleftrightarrow> cl cs (c ! 0) = Inr ()"
    "is_paused cl (se_client source) (cs @ [c ! 0, c ! 1]) \<longleftrightarrow> cl cs (c ! 0) = Inr ()"
    "is_paused cl (se_client source) (cs @ [c ! 0, c ! 1, c ! 2]) \<longleftrightarrow>
      cl (cs @ [c ! 0, c ! 1]) (c ! 2) \<noteq> Inr () \<and> cl cs (c ! 0) = Inr ()"
    using p(1) [of cs] p(2) [of "cs @ [c ! 0]"] p(3) [of "cs @ [c ! 0, c ! 1]"] assms(2) by simp_all
qed

lemma fork_plan_paused:
  assumes "plan_result cl (fork_plan os new_id source) h n (h', u)" "\<not> is_paused cl (se_client source) (ho_calls h)"
    and "c = fork_calls os new_id source"
  shows "(is_paused cl (se_client source) (ho_calls h') \<longleftrightarrow> cl (ho_calls h) (c ! 0) = Inr () \<and>
      (cl (ho_calls h @ [c ! 0]) (c ! 1) \<noteq> Inr () \<or> cl (ho_calls h @ [c ! 0, c ! 1]) (c ! 2) \<noteq> Inr ())) \<and>
    (is_paused cl (se_client source) (ho_calls h') \<longrightarrow> (\<exists>e. u = Inl e)) \<and>
    (\<forall>v. u = Inr v \<longrightarrow> ho_calls h' = ho_calls h @ c)"
proof -
  note plan = fork_plan_calls [OF assms(3)]
  note paused = fork_calls_paused [OF assms(3,2)]
  have h': "ho_calls h' = ho_calls h @ take n c" "n \<le> 3"
    using assms(1) plan(1,2) by (simp_all add: plan_result_def take_map [symmetric])
  have t: "take 0 c = []" "take 1 c = [c ! 0]" "take 2 c = [c ! 0, c ! 1]" "take 3 c = [c ! 0, c ! 1, c ! 2]"
    by (subst plan(3), simp)+
  show ?thesis
  proof (cases u)
    case (Inr v)
    then have "n = 3" "\<forall>i<3. call_passes cl (ho_calls h) (fork_plan os new_id source) i"
      using assms(1) plan(2) by (auto simp: plan_result_def)
    then have "cl (ho_calls h @ take i c) (c ! i) = Inr ()" if "i < 3" for i using plan(5) that by blast
    from this [of 0] this [of 1] this [of 2] show ?thesis
      using Inr h'(1) t \<open>n = 3\<close> paused plan(3) by simp
  next
    case (Inl e)
    then have f: "0 < n" "\<forall>i<n - 1. call_passes cl (ho_calls h) (fork_plan os new_id source) i"
      "\<exists>msg. answer_at cl (ho_calls h) (fork_plan os new_id source) (n - 1) = Inl msg"
      using assms(1) by (auto simp: plan_result_def)
    then have fail: "cl (ho_calls h @ take (n - 1) c) (c ! (n - 1)) \<noteq> Inr ()" using plan(4) [of "n - 1"] h'(2) by auto
    have pass: "cl (ho_calls h @ take i c) (c ! i) = Inr ()" if "i < n - 1" for i
      using f(2) that plan(5) [of i cl "ho_calls h"] h'(2) by auto
    from f(1) h'(2) consider "n = 1" | "n = 2" | "n = 3" by linarith
    then show ?thesis
    proof cases
      case 1
      with fail paused h'(1) t Inl show ?thesis by simp
    next
      case 2
      with fail pass [of 0] paused h'(1) t Inl show ?thesis by simp
    next
      case 3
      with fail pass [of 0] pass [of 1] paused h'(1) t Inl show ?thesis by simp
    qed
  qed
qed

text \<open>
  C23. A fork pauses the source, takes a snapshot, resumes the source and starts a machine from the
  snapshot. When it succeeds the source runs, the new session has its own identifier and a running
  process that was started from the snapshot just taken, and nothing is left behind for a later
  fork. But when the snapshot or the resumption is refused, the error is returned and the source
  stays paused.
\<close>

theorem fork_outcome:
  assumes "fork_sandbox os cl new_id created_at source source_id (h, cell) = Some ((h', cell'), r)"
    and "\<not> is_paused cl (se_client source) (ho_calls h)" "c = fork_calls os new_id source"
  shows "(is_paused cl (se_client source) (ho_calls h') \<longleftrightarrow>
      os_mkdir os (fork_base os new_id) = None \<and> cl (ho_calls h) (c ! 0) = Inr () \<and>
      (cl (ho_calls h @ [c ! 0]) (c ! 1) \<noteq> Inr () \<or> cl (ho_calls h @ [c ! 0, c ! 1]) (c ! 2) \<noteq> Inr ())) \<and>
    (\<forall>result s. r = Inr (result, s) \<longrightarrow>
      \<not> is_paused cl (se_client source) (ho_calls h') \<and> cell' = None \<and>
      ho_calls h' = ho_calls h @ c @ [fork_load os new_id] \<and>
      se_session_id s = new_id \<and> se_process s \<in> ho_running h' \<and>
      result = \<lparr>fr_new_id = new_id, fr_source_id = source_id, fr_created_at = created_at\<rparr>)"
proof (cases "os_mkdir os (fork_base os new_id)")
  case (Some e)
  then have "h' = h \<and> r = Inl (Io e)"
    using assms(1) by (simp add: fork_sandbox_def fork_session_def on_host_def fork_steps_plan create_dir_all_def)
  with Some assms(2) show ?thesis by simp
next
  case None
  let ?h = "h\<lparr>ho_paths := insert (fork_base os new_id) (ho_paths h)\<rparr>"
  obtain h1 u where run: "run_calls cl (fork_plan os new_id source) ?h = (h1, u)" by fastforce
  then obtain n where "plan_result cl (fork_plan os new_id source) ?h n (h1, u)"
    using run_calls_result [of cl "fork_plan os new_id source" ?h] by auto
  note plan = fork_plan_paused [OF this _ assms(3), simplified, OF assms(2)]
  note unfold = fork_sandbox_def fork_session_def on_host_def fork_steps_plan create_dir_all_def
  show ?thesis
  proof (cases u)
    case (Inl e)
    then have "h' = h1 \<and> r = Inl e" using assms(1) None run by (simp add: unfold)
    with plan None show ?thesis by simp
  next
    case (Inr v)
    obtain h2 cfg where cfg: "new_session_config os new_id h1 = (h2, cfg)" by fastforce
    then have h2: "ho_calls h2 = ho_calls h1" using config_host by (simp add: new_session_config_def)
    have calls: "ho_calls h1 = ho_calls h @ c" using plan Inr by simp
    have not_paused: "\<not> is_paused cl (se_client source) (ho_calls h1)" using plan Inr by auto
    show ?thesis
    proof (cases cfg)
      case (Inl e)
      then have "h' = h2" "\<exists>e. r = Inl e" using assms(1) None run Inr cfg by (auto simp: unfold)
      with plan None not_paused h2 show ?thesis by auto
    next
      case (Inr cfg')
      obtain h3 s where s: "from_snapshot os cl new_id (path_join (fork_base os new_id) ''snapshot.json'')
          (path_join (fork_base os new_id) ''vm.mem'') (sc_vsock_uds_path cfg') h2 = Some (h3, s)"
        using assms(1) None run \<open>u = Inr v\<close> cfg Inr by (auto simp: unfold split: option.splits)
      note new = from_snapshot_outcome [OF s fork_load_def [of os new_id]]
      have h': "h' = h3" "case s of Inl _ \<Rightarrow> \<exists>e. r = Inl e
          | Inr s \<Rightarrow> r = Inr (\<lparr>fr_new_id = new_id, fr_source_id = source_id, fr_created_at = created_at\<rparr>, s) \<and> cell' = None"
        using assms(1) None run \<open>u = Inr v\<close> cfg Inr s
        by (auto simp: unfold take_forked_session_def split: sum.splits)
      have "\<not> is_paused cl (se_client source) (ho_calls h')"
        using new h2 h'(1) not_paused is_paused_load [of "fork_load os new_id"]
        by (auto simp: fork_load_def)
      with plan None h' new h2 calls not_paused show ?thesis by (auto split: sum.splits)
    qed
  qed
qed

text \<open>A machine that cannot take snapshots.\<close>

definition snapless_client :: client where
  "snapless_client calls c = (if ac_path c = ''/snapshot/create'' then Inl ''disk full'' else Inr ())"

theorem fork_outcome_witness:
  "\<exists>st' e. fork_sandbox sample_os snapless_client 8 0 sample_session 7 (idle_host, None) = Some (st', Inl e) \<and>
     is_paused snapless_client (se_client sample_session) (ho_calls (fst st'))"
proof -
  obtain h' e where f: "fork_sandbox sample_os snapless_client 8 0 sample_session 7 (idle_host, None) =
      Some ((h', None), Inl e)"
    by (simp add: fork_sandbox_def fork_session_def on_host_def fork_steps_def create_dir_all_def
        pause_session_def pause_vm_def snapshot_session_def create_snapshot_def put_request_def patch_request_def
        api_request_def snapless_client_def sample_os_def idle_host_def Let_def)
  have "\<not> is_paused snapless_client (se_client sample_session) (ho_calls idle_host)"
    by (simp add: is_paused_def idle_host_def)
  from fork_outcome [OF f this refl] have "is_paused snapless_client (se_client sample_session) (ho_calls h')"
    by (simp add: sample_os_def fork_calls_def snapless_client_def Let_def)
  with f show ?thesis by auto
qed

end
