(* ===== verification/Host_Exec.thy ===== *)
theory Host_Exec
  imports Host_Session File_Transfer
begin

text \<open>
  Commands and files of a session (\<open>akssora-core/src/session/session.rs\<close>): the connection to the guest
  agent, the execution of a command, and the transfer of files over such a connection. The
  connection is composed with the agent's side.
\<close>

section \<open>Connecting\<close>

text \<open>An attempt to connect: it is refused, it is accepted and the other side stays silent for ever, or
  it gives a connection.\<close>

datatype attempt = NoConnection | SilentPeer | Connected stream

fun take_line :: "bytes \<Rightarrow> bytes \<times> bytes" where
  "take_line [] = ([], [])"
| "take_line (b # bs) = (if b = 10 then ([b], bs) else (case take_line bs of (l, r) \<Rightarrow> (b # l, r)))"

definition read_reply :: "stream \<Rightarrow> stream \<times> bytes" where
  "read_reply s = (case take_line (st_in s) of (l, r) \<Rightarrow> (s\<lparr>st_in := r\<rparr>, l))"

definition connect_line :: bytes where
  "connect_line = text_bytes ''CONNECT 1024'' @ [10]"

text \<open>The attempts, each with the milliseconds since the start after it. \<open>None\<close>: the call has not
  returned after these; within an attempt nothing limits the wait for the reply.\<close>

fun connect_to_guest :: "(attempt \<times> nat) list \<Rightarrow> (core_error + stream) option" where
  "connect_to_guest [] = None"
| "connect_to_guest ((a, elapsed) # as) =
     (let again = (if 10000 < elapsed
            then Some (Inl (VsockConnect (IoFailed
              ''Timed out waiting for guest agent to become ready on vsock port 1024'')))
            else connect_to_guest as)
      in case a of
           NoConnection \<Rightarrow> again
         | SilentPeer \<Rightarrow> None
         | Connected s \<Rightarrow>
             (case write_all connect_line s of
                (s1, Some _) \<Rightarrow> again
              | (s1, None) \<Rightarrow>
                  (case read_reply s1 of
                     (s2, reply) \<Rightarrow> if prefix (text_bytes ''OK'') reply then Some (Inr s2) else again)))"

section \<open>Commands\<close>

fun is_terminal_response :: "guest_response \<Rightarrow> bool" where
  "is_terminal_response (Exit _) = True"
| "is_terminal_response ShellClosed = True"
| "is_terminal_response _ = False"

text \<open>The task that forwards the responses, while the receiver takes them.\<close>

function forward_responses :: "rsp_decoder \<Rightarrow> stream \<Rightarrow> guest_response list" where
  "forward_responses dec s =
     (case read_response dec s of
        (s1, Inr (Some response)) \<Rightarrow>
          response # (if is_terminal_response response then [] else forward_responses dec s1)
      | _ \<Rightarrow> [])"
  by pat_completeness auto
termination
  by (relation "measure (\<lambda>(_, s). length (st_in s))") (auto intro: read_response_shorter dest: sym)

declare forward_responses.simps [simp del]

text \<open>The stream as the caller leaves it, and what is received.\<close>

definition exec_stream ::
    "rq_encoder \<Rightarrow> rsp_decoder \<Rightarrow> (attempt \<times> nat) list \<Rightarrow> string \<Rightarrow>
     (core_error + stream \<times> guest_response list) option" where
  "exec_stream enc dec attempts cmd =
     (case connect_to_guest attempts of
        None \<Rightarrow> None
      | Some (Inl error) \<Rightarrow> Some (Inl error)
      | Some (Inr s) \<Rightarrow>
          (case write_request enc (Exec cmd) s of
             (s1, Inl error) \<Rightarrow> Some (Inl error)
           | (s1, Inr _) \<Rightarrow> Some (Inr (s1, forward_responses dec s1))))"

record exec_output =
  eo_stdout :: bytes
  eo_stderr :: bytes
  eo_exit_code :: i32
  eo_output :: bytes

fun collect_output :: "guest_response list \<Rightarrow> exec_output \<Rightarrow> exec_output" where
  "collect_output [] out = out"
| "collect_output (r # rs) out =
     (case r of
        Stdout bs \<Rightarrow> collect_output rs (out\<lparr>eo_stdout := eo_stdout out @ bs\<rparr>)
      | Stderr bs \<Rightarrow> collect_output rs (out\<lparr>eo_stderr := eo_stderr out @ bs\<rparr>)
      | Output bs \<Rightarrow> collect_output rs (out\<lparr>eo_output := eo_output out @ bs\<rparr>)
      | ShellClosed \<Rightarrow> out\<lparr>eo_exit_code := 0\<rparr>
      | Exit code \<Rightarrow> out\<lparr>eo_exit_code := code\<rparr>
      | _ \<Rightarrow> collect_output rs out)"

definition no_output :: exec_output where
  "no_output = \<lparr>eo_stdout = [], eo_stderr = [], eo_exit_code = - 1, eo_output = []\<rparr>"

definition session_exec ::
    "rq_encoder \<Rightarrow> rsp_decoder \<Rightarrow> (attempt \<times> nat) list \<Rightarrow> string \<Rightarrow> (core_error + exec_output) option" where
  "session_exec enc dec attempts cmd =
     (case exec_stream enc dec attempts cmd of
        None \<Rightarrow> None
      | Some (Inl error) \<Rightarrow> Some (Inl error)
      | Some (Inr (s, responses)) \<Rightarrow> Some (Inr (collect_output responses no_output)))"

section \<open>Files\<close>

definition session_write_file ::
    "rq_encoder \<Rightarrow> rsp_decoder \<Rightarrow> (guest_response \<Rightarrow> string) \<Rightarrow> (attempt \<times> nat) list \<Rightarrow> string \<Rightarrow> bytes \<Rightarrow>
     (core_error + u64) option" where
  "session_write_file enc dec dbg attempts path data =
     (case connect_to_guest attempts of
        None \<Rightarrow> None
      | Some (Inl error) \<Rightarrow> Some (Inl error)
      | Some (Inr s) \<Rightarrow> Some (snd (write_file_chunks enc dec dbg path data s)))"

definition session_read_file ::
    "rq_encoder \<Rightarrow> rsp_decoder \<Rightarrow> (guest_response \<Rightarrow> string) \<Rightarrow> (attempt \<times> nat) list \<Rightarrow> string \<Rightarrow>
     (core_error + bytes) option" where
  "session_read_file enc dec dbg attempts path =
     (case connect_to_guest attempts of
        None \<Rightarrow> None
      | Some (Inl error) \<Rightarrow> Some (Inl error)
      | Some (Inr s) \<Rightarrow> Some (snd (read_file_chunks enc dec dbg path s)))"

section \<open>The connection\<close>

definition attempt_succeeds :: "attempt \<Rightarrow> bool" where
  "attempt_succeeds a = (case a of
     Connected s \<Rightarrow> snd (write_all connect_line s) = None \<and>
       prefix (text_bytes ''OK'') (snd (read_reply (fst (write_all connect_line s))))
   | _ \<Rightarrow> False)"

lemma connect_fail:
  assumes "\<not> attempt_succeeds a" "a \<noteq> SilentPeer"
  shows "connect_to_guest ((a, t) # as) = (if 10000 < t
    then Some (Inl (VsockConnect (IoFailed ''Timed out waiting for guest agent to become ready on vsock port 1024'')))
    else connect_to_guest as)"
  using assms
  by (cases a) (auto simp: attempt_succeeds_def Let_def split: prod.split option.split)

lemma connect_ok:
  assumes "attempt_succeeds (Connected s)"
  shows "connect_to_guest ((Connected s, t) # as) = Some (Inr (fst (read_reply (fst (write_all connect_line s)))))"
  using assms by (auto simp: attempt_succeeds_def Let_def split: prod.split option.split)

lemma connect_silent: "connect_to_guest ((SilentPeer, t) # as) = None"
  by (simp add: Let_def)

lemma connect_retries:
  "\<forall>(a, t)\<in>set as. a \<noteq> SilentPeer \<and> \<not> attempt_succeeds a \<and> t \<le> 10000 \<Longrightarrow>
   connect_to_guest (as @ bs) = connect_to_guest bs"
  by (induction as) (auto simp: connect_fail simp del: connect_to_guest.simps)

lemma attempt_Connected: "attempt_succeeds a \<Longrightarrow> \<exists>s. a = Connected s"
  by (cases a) (simp_all add: attempt_succeeds_def)

text \<open>
  Connecting to the agent: the attempts that are refused, or not answered with OK, are repeated
  until ten seconds have passed; the first that is answered with OK gives the connection, placed
  after the reply. When every attempt is answered or refused, the call returns; but one peer that
  accepts and stays silent keeps it waiting for ever, whatever the clock says.
\<close>

theorem connecting_ends:
  assumes "as = tries @ (a, t) # rest"
    and "\<forall>(b, t')\<in>set tries. b \<noteq> SilentPeer \<and> \<not> attempt_succeeds b \<and> t' \<le> 10000"
    and "attempt_succeeds a \<or> a = SilentPeer \<or> 10000 < t"
  shows "(attempt_succeeds a \<longrightarrow> (\<exists>s. a = Connected s \<and> connect_to_guest as =
      Some (Inr (fst (read_reply (fst (write_all connect_line s))))))) \<and>
    (a = SilentPeer \<longrightarrow> connect_to_guest as = None) \<and>
    (\<not> attempt_succeeds a \<and> a \<noteq> SilentPeer \<longrightarrow> (\<exists>msg. connect_to_guest as = Some (Inl (VsockConnect (IoFailed msg)))))"
proof -
  have "connect_to_guest as = connect_to_guest ((a, t) # rest)"
    using connect_retries [OF assms(2)] assms(1) by simp
  then show ?thesis
    using assms(3) connect_fail [of a t rest] connect_ok connect_silent attempt_Connected [of a]
    by (auto simp del: connect_to_guest.simps simp: attempt_succeeds_def)
qed

theorem connecting_ends_witness:
  "connect_to_guest [(NoConnection, 100), (Connected (sample_stream\<lparr>st_in := [79, 75, 10, 5]\<rparr>), 200)] =
     Some (Inr (sample_stream\<lparr>st_in := [5], st_out := connect_line\<rparr>)) \<and>
   connect_to_guest [(NoConnection, 100), (SilentPeer, 20000)] = None"
proof -
  let ?s = "sample_stream\<lparr>st_in := [79, 75, 10, 5]\<rparr>"
  have ok: "attempt_succeeds (Connected ?s)"
    by (simp add: attempt_succeeds_def write_all_def read_reply_def sample_stream_def text_bytes_def)
  have "fst (read_reply (fst (write_all connect_line ?s))) = sample_stream\<lparr>st_in := [5], st_out := connect_line\<rparr>"
    by (simp add: write_all_def read_reply_def sample_stream_def)
  then show ?thesis
    using connecting_ends [of "[(NoConnection, 100), (Connected ?s, 200)]" "[(NoConnection, 100)]" "Connected ?s" 200 "[]"]
      connecting_ends [of "[(NoConnection, 100), (SilentPeer, 20000)]" "[(NoConnection, 100)]" SilentPeer 20000 "[]"] ok
    by (simp add: attempt_succeeds_def del: connect_to_guest.simps)
qed

section \<open>A command, end to end\<close>

fun err_bytes :: "exec_event list \<Rightarrow> bytes" where
  "err_bytes [] = []"
| "err_bytes (ErrRead (Inr bs) # es) = bs @ err_bytes es"
| "err_bytes (_ # es) = err_bytes es"

fun stderr_of :: "guest_response list \<Rightarrow> bytes" where
  "stderr_of [] = []"
| "stderr_of (Stderr bs # rs) = bs @ stderr_of rs"
| "stderr_of (_ # rs) = stderr_of rs"

definition plain_output :: "guest_response \<Rightarrow> bool" where
  "plain_output r \<longleftrightarrow> (\<exists>bs. r = Stdout bs \<or> r = Stderr bs)"

lemma stderr_of_append: "stderr_of (rs @ rs') = stderr_of rs @ stderr_of rs'"
  by (induction rs rule: stderr_of.induct) simp_all

lemma exec_responses_plain: "r \<in> set (exec_responses es) \<Longrightarrow> plain_output r"
proof -
  have "r \<in> set (event_response e) \<Longrightarrow> plain_output r" for e
    by (cases e rule: event_response.cases) (auto simp: plain_output_def split: if_splits)
  then show "r \<in> set (exec_responses es) \<Longrightarrow> plain_output r" by (auto simp: exec_responses_def)
qed

lemma stderr_exec_responses: "reads_ok a b es \<Longrightarrow> stderr_of (exec_responses es) = err_bytes es"
proof (induction es arbitrary: a b)
  case Nil
  then show ?case by simp
next
  case (Cons e es)
  consider bs where "e = OutRead (Inr bs)" | bs where "e = ErrRead (Inr bs)"
    using Cons.prems by (cases "(a, b, e # es)" rule: reads_ok.cases) auto
  then show ?case
    using Cons by cases auto
qed

lemma collect_plain:
  "\<forall>r\<in>set rs. plain_output r \<Longrightarrow> collect_output (rs @ rs') out =
     collect_output rs' (out\<lparr>eo_stdout := eo_stdout out @ stdout_of rs, eo_stderr := eo_stderr out @ stderr_of rs\<rparr>)"
proof (induction rs arbitrary: out)
  case Nil
  then show ?case by simp
next
  case (Cons r rs)
  then obtain bs where "r = Stdout bs \<or> r = Stderr bs" by (auto simp: plain_output_def)
  with Cons show ?case by (elim disjE) simp_all
qed

lemma forward_good:
  assumes "codec_ok enc dec m" "st_in s = frame enc m @ rest"
  shows "forward_responses dec s =
    m # (if is_terminal_response m then [] else forward_responses dec (s\<lparr>st_in := rest\<rparr>))"
  by (subst forward_responses.simps) (simp add: responses.get_good [OF assms])

lemma forward_many:
  "\<forall>m\<in>set ms. codec_ok enc dec m \<and> \<not> is_terminal_response m \<Longrightarrow> st_in s = concat (map (frame enc) ms) @ rest \<Longrightarrow>
   forward_responses dec s = ms @ forward_responses dec (s\<lparr>st_in := rest\<rparr>)"
proof (induction ms arbitrary: s)
  case Nil
  then have "s\<lparr>st_in := rest\<rparr> = s" by simp
  then show ?case by simp
next
  case (Cons m ms)
  then show ?case
    using forward_good [of enc dec m s "concat (map (frame enc) ms) @ rest"] by simp
qed

lemma read_response_cut:
  assumes "codec_ok enc dec m" "k < length (frame enc m)" "st_in s = take k (frame enc m)"
  shows "snd (read_response dec s) \<noteq> Inr (Some r)"
proof (cases "k < 4")
  case True
  with assms(3) have "length (st_in s) < 4" by (simp add: frame_def)
  then show ?thesis
    by (auto simp: read_response_def read_frame_def read_exact_def split: io_error.split)
next
  case False
  let ?j = "json_of enc m"
  have "st_in s = to_be_bytes (of_nat (length ?j)) @ take (k - 4) ?j" "k - 4 < length ?j"
    using assms(2,3) False by (simp_all add: frame_def)
  with read_prefix [OF this(1)] assms(1) show ?thesis
    by (simp add: read_response_def read_frame_def Let_def codec_ok_def unat_frame_length) (simp add: read_exact_def)
qed

lemma forward_cut:
  assumes "codec_ok enc dec m" "k < length (frame enc m)" "st_in s = take k (frame enc m)"
  shows "forward_responses dec s = []"
proof (cases "snd (read_response dec s)")
  case (Inl e)
  then show ?thesis by (subst forward_responses.simps) (auto split: prod.split)
next
  case (Inr r)
  with read_response_cut [OF assms] have "r = None" by (cases r) auto
  with Inr show ?thesis by (subst forward_responses.simps) (auto split: prod.split)
qed

definition greeting_ok :: "bytes \<Rightarrow> bool" where
  "greeting_ok g \<longleftrightarrow> prefix (text_bytes ''OK'') g \<and> (\<exists>l. g = l @ [10] \<and> 10 \<notin> set l)"

lemma take_line_greeting: "10 \<notin> set l \<Longrightarrow> take_line (l @ 10 # rest) = (l @ [10], rest)"
  by (induction l) auto

lemma connect_greeted:
  assumes "greeting_ok g" "writable s" "st_in s = g @ rest"
  shows "connect_to_guest ((Connected s, t) # as) = Some (Inr (s\<lparr>st_out := st_out s @ connect_line, st_in := rest\<rparr>))"
proof -
  obtain l where l: "g = l @ [10]" "10 \<notin> set l" using assms(1) by (auto simp: greeting_ok_def)
  have "read_reply (s\<lparr>st_out := st_out s @ connect_line\<rparr>) = (s\<lparr>st_out := st_out s @ connect_line, st_in := rest\<rparr>, g)"
    using l assms(3) take_line_greeting [OF l(2)] by (simp add: read_reply_def)
  then show ?thesis
    using assms(1,2) connect_ok [of s t as] by (simp add: attempt_succeeds_def write_all_writable greeting_ok_def)
qed

lemma exec_stream_greeted:
  assumes "greeting_ok g" "writable s" "st_in s = g @ rest" "codec_ok encr decr (Exec cmd)"
  shows "exec_stream encr dec ((Connected s, t) # as) cmd =
    Some (Inr (s\<lparr>st_in := rest, st_out := st_out s @ connect_line @ frame encr (Exec cmd)\<rparr>,
      forward_responses dec (s\<lparr>st_in := rest, st_out := st_out s @ connect_line @ frame encr (Exec cmd)\<rparr>)))"
proof -
  have "writable (s\<lparr>st_out := st_out s @ connect_line, st_in := rest\<rparr>)" using assms(2) by (simp add: writable_def)
  with requests.put_good [OF assms(4) this] show ?thesis
    by (simp add: exec_stream_def connect_greeted [OF assms(1-3)] del: connect_to_guest.simps)
qed

lemma guest_runs_command:
  assumes "w_spawn w (exec_command_of cmd (ag_env ag)) =
      Inr \<lparr>sp_stdout_piped = True, sp_stderr_piped = True, sp_events = es @ Waited (Inr code) # later\<rparr>"
    and "reads_ok True True es" "\<forall>r\<in>set (exec_responses es). codec_ok enc dec r"
    and "codec_ok enc dec (Exit (case code of None \<Rightarrow> - 1 | Some c \<Rightarrow> c))"
    and "codec_ok encr decr (Exec cmd)" "writable s" "st_in s = frame encr (Exec cmd)" "st_end s = UnexpectedEof"
  shows "handle_connection enc decr [w, w'] (s, ag) = Some ((s\<lparr>st_in := [], st_out := st_out s @
      concat (map (frame enc) (exec_responses es @ [Exit (case code of None \<Rightarrow> - 1 | Some c \<Rightarrow> c)]))\<rparr>, ag), Inr ())"
proof -
  let ?rs = "exec_responses es @ [Exit (case code of None \<Rightarrow> - 1 | Some c \<Rightarrow> c)]"
  let ?s = "s\<lparr>st_in := [], st_out := st_out s @ concat (map (frame enc) ?rs)\<rparr>"
  have "writable (s\<lparr>st_in := []\<rparr>)" using assms(6) by (simp add: writable_def)
  from handle_exec_run [where spawn = "w_spawn w", OF assms(1-4) this]
  have "handle_request enc decr w (Exec cmd) (s\<lparr>st_in := []\<rparr>, ag) = Some ((?s, ag), Inr ())"
    by (simp add: handle_request_def)
  from connection_step [OF assms(5) _ this, of "[w']"] assms(7)
  have "handle_connection enc decr [w, w'] (s, ag) = handle_connection enc decr [w'] (?s, ag)"
    by (simp del: handle_connection.simps)
  with connection_end [of ?s enc decr w' "[]" ag] assms(8) show ?thesis by (simp del: handle_connection.simps)
qed

lemma stdout_of_take: "prefix (stdout_of (take i rs)) (stdout_of rs)"
  using stdout_of_append [of "take i rs" "drop i rs"] by simp

lemma stderr_of_take: "prefix (stderr_of (take i rs)) (stderr_of rs)"
  using stderr_of_append [of "take i rs" "drop i rs"] by simp

lemma session_exec_forward:
  assumes "greeting_ok g" "writable s" "st_in s = g @ rest" "codec_ok encr decr (Exec cmd)"
  shows "session_exec encr dec [(Connected s, t)] cmd = Some (Inr (collect_output (forward_responses dec
    (s\<lparr>st_in := rest, st_out := st_out s @ connect_line @ frame encr (Exec cmd)\<rparr>)) no_output))"
  using exec_stream_greeted [OF assms, of dec t "[]"] by (simp add: session_exec_def)

lemma exec_responses_unended:
  assumes "\<forall>r\<in>set (exec_responses es). codec_ok enc dec r" "set ms \<subseteq> set (exec_responses es)"
  shows "\<forall>m\<in>set ms. codec_ok enc dec m \<and> \<not> is_terminal_response m"
proof -
  have "plain_output r \<Longrightarrow> \<not> is_terminal_response r" for r by (auto simp: plain_output_def)
  with assms exec_responses_plain show ?thesis by blast
qed

text \<open>What the host makes of the responses to a command: all of them, or those before a break.\<close>

lemma whole_output:
  assumes "reads_ok True True es" "\<forall>r\<in>set (exec_responses es). codec_ok enc dec r" "codec_ok enc dec (Exit c)"
    and "st_in s = concat (map (frame enc) (exec_responses es @ [Exit c]))"
  shows "collect_output (forward_responses dec s) no_output =
    \<lparr>eo_stdout = out_bytes es, eo_stderr = err_bytes es, eo_exit_code = c, eo_output = []\<rparr>"
proof -
  have "forward_responses dec s = exec_responses es @ forward_responses dec (s\<lparr>st_in := frame enc (Exit c)\<rparr>)"
    using forward_many [OF exec_responses_unended [OF assms(2) subset_refl], of s "frame enc (Exit c)"] assms(4) by simp
  moreover have "forward_responses dec (s\<lparr>st_in := frame enc (Exit c)\<rparr>) = [Exit c]"
    using forward_good [OF assms(3), of "s\<lparr>st_in := frame enc (Exit c)\<rparr>" "[]"] by simp
  moreover have "\<forall>r\<in>set (exec_responses es). plain_output r" using exec_responses_plain by blast
  ultimately show ?thesis
    using collect_plain [of "exec_responses es" "[Exit c]" no_output]
    by (simp add: no_output_def stdout_exec_responses [OF assms(1)] stderr_exec_responses [OF assms(1)])
qed

lemma broken_output:
  assumes "reads_ok True True es" "\<forall>r\<in>set rs. codec_ok enc dec r" "rs = exec_responses es @ [Exit c]"
    and "i < length rs" "k < length (frame enc (rs ! i))"
    and "st_in s = concat (map (frame enc) (take i rs)) @ take k (frame enc (rs ! i))"
  shows "eo_exit_code (collect_output (forward_responses dec s) no_output) = - 1 \<and>
    prefix (eo_stdout (collect_output (forward_responses dec s) no_output)) (out_bytes es) \<and>
    prefix (eo_stderr (collect_output (forward_responses dec s) no_output)) (err_bytes es)"
proof -
  let ?cut = "take k (frame enc (rs ! i))"
  have take: "take i rs = take i (exec_responses es)" using assms(3,4) by simp
  then have sub: "set (take i rs) \<subseteq> set (exec_responses es)" by (simp add: set_take_subset)
  have codecs: "\<forall>r\<in>set (exec_responses es). codec_ok enc dec r" "codec_ok enc dec (rs ! i)"
    using assms(2-4) nth_mem by (simp, blast)
  have "forward_responses dec s = take i rs @ forward_responses dec (s\<lparr>st_in := ?cut\<rparr>)"
    using forward_many [OF exec_responses_unended [OF codecs(1) sub], of s ?cut] assms(6) by simp
  moreover have "forward_responses dec (s\<lparr>st_in := ?cut\<rparr>) = []"
    using assms(5) by (intro forward_cut [OF codecs(2)]) simp_all
  moreover have "\<forall>r\<in>set (take i rs). plain_output r" using sub exec_responses_plain by blast
  ultimately show ?thesis
    using collect_plain [of "take i rs" "[]" no_output] take
      stdout_of_take [of i "exec_responses es"] stderr_of_take [of i "exec_responses es"]
    by (simp add: no_output_def stdout_exec_responses [OF assms(1)] stderr_exec_responses [OF assms(1)])
qed

text \<open>
  C8. A command from the host's call to the agent and back: the host gets what was read from the two
  pipes before the wait returned, each complete and in order, and the exit status. But if the
  connection breaks at any byte before the end, the call still succeeds: it gives what had arrived
  of the two pipes, and the status -1 of a command that was killed.
\<close>

theorem exec_end_to_end:
  assumes "w_spawn w (exec_command_of cmd (ag_env ag)) =
      Inr \<lparr>sp_stdout_piped = True, sp_stderr_piped = True, sp_events = es @ Waited (Inr code) # later\<rparr>"
    and "reads_ok True True es" "\<forall>r\<in>set (exec_responses es). codec_ok enc dec r"
    and "codec_ok enc dec (Exit (case code of None \<Rightarrow> - 1 | Some c \<Rightarrow> c))"
    and "codec_ok encr decr (Exec cmd)" "greeting_ok greeting" "writable host"
    and "writable guest" "st_out guest = []" "st_in guest = frame encr (Exec cmd)" "st_end guest = UnexpectedEof"
  shows "\<exists>rs guest'. handle_connection enc decr [w, w'] (guest, ag) = Some ((guest', ag), Inr ()) \<and>
    st_out guest' = concat (map (frame enc) rs) \<and>
    (st_in host = greeting @ st_out guest' \<longrightarrow>
      session_exec encr dec [(Connected host, t)] cmd = Some (Inr
        \<lparr>eo_stdout = out_bytes es, eo_stderr = err_bytes es,
         eo_exit_code = (case code of None \<Rightarrow> - 1 | Some c \<Rightarrow> c), eo_output = []\<rparr>)) \<and>
    (\<forall>i k. i < length rs \<and> k < length (frame enc (rs ! i)) \<and>
      st_in host = greeting @ concat (map (frame enc) (take i rs)) @ take k (frame enc (rs ! i)) \<longrightarrow>
      (\<exists>out. session_exec encr dec [(Connected host, t)] cmd = Some (Inr out) \<and> eo_exit_code out = - 1 \<and>
        prefix (eo_stdout out) (out_bytes es) \<and> prefix (eo_stderr out) (err_bytes es)))"
proof -
  define c :: i32 where "c = (case code of None \<Rightarrow> - 1 | Some c \<Rightarrow> c)"
  define rs where "rs = exec_responses es @ [Exit c]"
  define guest' where "guest' = guest\<lparr>st_in := [], st_out := concat (map (frame enc) rs)\<rparr>"
  have run: "handle_connection enc decr [w, w'] (guest, ag) = Some ((guest', ag), Inr ())"
    using guest_runs_command [OF assms(1-5,8,10,11), of w'] assms(9)
    by (simp add: guest'_def rs_def c_def del: handle_connection.simps)
  have final: "codec_ok enc dec (Exit c)" using assms(4) by (simp add: c_def)
  then have codecs: "\<forall>r\<in>set rs. codec_ok enc dec r" using assms(3) by (simp add: rs_def)
  note exec = session_exec_forward [OF assms(6,7) _ assms(5), of _ dec t]
  have whole: "session_exec encr dec [(Connected host, t)] cmd = Some (Inr
        \<lparr>eo_stdout = out_bytes es, eo_stderr = err_bytes es, eo_exit_code = c, eo_output = []\<rparr>)"
    if "st_in host = greeting @ concat (map (frame enc) rs)"
    using exec [OF that] whole_output [OF assms(2,3) final] by (simp add: rs_def)
  have broken: "\<exists>out. session_exec encr dec [(Connected host, t)] cmd = Some (Inr out) \<and> eo_exit_code out = - 1 \<and>
        prefix (eo_stdout out) (out_bytes es) \<and> prefix (eo_stderr out) (err_bytes es)"
    if i: "i < length rs" "k < length (frame enc (rs ! i))"
      "st_in host = greeting @ concat (map (frame enc) (take i rs)) @ take k (frame enc (rs ! i))" for i k
    using exec [OF i(3)] broken_output [OF assms(2) codecs rs_def i(1,2)] by simp
  have "st_out guest' = concat (map (frame enc) rs)" by (simp add: guest'_def)
  with run whole show ?thesis unfolding c_def [symmetric]
    by (intro exI [of _ rs] exI [of _ guest'] conjI allI impI) (auto elim!: broken simp del: handle_connection.simps)
qed

text \<open>A command that cannot be started is no error of the call either: the agent ends the connection
  without an answer.\<close>

lemma failed_spawn_looks_like_exit:
  assumes "w_spawn w (exec_command_of cmd (ag_env ag)) = Inl e"
    and "codec_ok encr decr (Exec cmd)" "greeting_ok greeting" "writable host" "st_in host = greeting"
    and "st_in guest = frame encr (Exec cmd)"
  shows "\<exists>guest' err. handle_connection enc decr (w # ws) (guest, ag) = Some ((guest', ag), Inl err) \<and>
    st_out guest' = st_out guest \<and> session_exec encr dec [(Connected host, t)] cmd = Some (Inr no_output)"
proof -
  have "read_request decr guest = (guest\<lparr>st_in := []\<rparr>, Inr (Some (Exec cmd)))"
    using requests.get_good [OF assms(2), of guest "[]"] assms(6) by simp
  then have "handle_connection enc decr (w # ws) (guest, ag) =
      Some ((guest\<lparr>st_in := []\<rparr>, ag), Inl (GuestSpawnFailed cmd e))"
    using assms(1) by (simp add: handle_request_def handle_exec_def)
  moreover have "forward_responses dec s = []" if "st_in s = []" for s
    using that by (subst forward_responses.simps)
      (simp add: read_response_def read_frame_def read_exact_def split: io_error.split)
  then have "session_exec encr dec [(Connected host, t)] cmd = Some (Inr no_output)"
    using exec_stream_greeted [OF assms(3,4) _ assms(2), of "[]" dec t "[]"] assms(5)
    by (simp add: session_exec_def)
  ultimately show ?thesis by auto
qed

theorem exec_end_to_end_witness:
  "session_exec (fst (const_codec (Exec ''x''))) sample_exec_dec
     [(Connected (sample_stream\<lparr>st_in := [79, 75, 10] @ [0, 0, 0, 2, 1, 104] @ [0, 0, 0, 1, 0]\<rparr>), 5)] ''x'' =
   Some (Inr \<lparr>eo_stdout = [104], eo_stderr = [], eo_exit_code = 0, eo_output = []\<rparr>)"
proof -
  let ?spawned = "\<lparr>sp_stdout_piped = True, sp_stderr_piped = True,
      sp_events = [OutRead (Inr [104])] @ Waited (Inr (Some 0)) # []\<rparr>"
  define w where "w = sample_world\<lparr>w_spawn := \<lambda>_. Inr ?spawned\<rparr>"
  define guest where "guest = sample_stream\<lparr>st_in := [0, 0, 0, 1, 1]\<rparr>"
  define host where "host = sample_stream\<lparr>st_in := [79, 75, 10] @ [0, 0, 0, 2, 1, 104] @ [0, 0, 0, 1, 0]\<rparr>"
  have spawn: "w_spawn w (exec_command_of ''x'' (ag_env sample_agent)) = Inr ?spawned" by (simp add: w_def)
  have codecs: "reads_ok True True [OutRead (Inr [104])]"
    "\<forall>r\<in>set (exec_responses [OutRead (Inr [104])]). codec_ok sample_exec_enc sample_exec_dec r"
    "codec_ok sample_exec_enc sample_exec_dec (Exit (case Some 0 of None \<Rightarrow> - 1 | Some c \<Rightarrow> c))"
    by (simp_all add: codec_ok_def sample_exec_enc_def sample_exec_dec_def json_of_def MAX_FRAME_SIZE_def)
  have greeting: "greeting_ok [79, 75, 10]"
    by (simp add: greeting_ok_def text_bytes_def)
  have streams: "writable host" "writable guest" "st_out guest = []" "st_end guest = UnexpectedEof"
    "st_in guest = frame (fst (const_codec (Exec ''x''))) (Exec ''x'')"
    by (simp_all add: host_def guest_def writable_def sample_stream_def frame_def json_of_def const_codec_def
        to_be_bytes_def)
  let ?dec = "snd (const_codec (Exec ''x''))"
  have "frame sample_exec_enc (Stdout [104]) = [0, 0, 0, 2, 1, 104]" "frame sample_exec_enc (Exit 0) = [0, 0, 0, 1, 0]"
    by (simp_all add: frame_def json_of_def sample_exec_enc_def to_be_bytes_def)
  with guest_runs_command [OF spawn codecs const_codec_ok streams(2,5,4), of w] streams(3)
  have run: "handle_connection sample_exec_enc ?dec [w, w] (guest, sample_agent) = Some ((guest\<lparr>st_in := [],
      st_out := [0, 0, 0, 2, 1, 104] @ [0, 0, 0, 1, 0]\<rparr>, sample_agent), Inr ())"
    by (simp del: handle_connection.simps)
  obtain guest' where "handle_connection sample_exec_enc ?dec [w, w] (guest, sample_agent) =
      Some ((guest', sample_agent), Inr ())"
    "st_in host = [79, 75, 10] @ st_out guest' \<longrightarrow>
      session_exec (fst (const_codec (Exec ''x''))) sample_exec_dec [(Connected host, 5)] ''x'' =
      Some (Inr \<lparr>eo_stdout = out_bytes [OutRead (Inr [104])], eo_stderr = err_bytes [OutRead (Inr [104])],
        eo_exit_code = (case Some 0 of None \<Rightarrow> - 1 | Some c \<Rightarrow> c), eo_output = []\<rparr>)"
    using exec_end_to_end [OF spawn codecs const_codec_ok greeting streams(1,2,3,5,4), of w 5] by blast
  with run show ?thesis by (simp add: host_def del: handle_connection.simps)
qed

end
