(* ===== verification/Host_Shell.thy ===== *)
theory Host_Shell
  imports Host_Exec
begin

text \<open>
  The shell of a session on the host (\<open>akssora-core/src/session/session.rs\<close>): two tasks that share a
  connection, one that turns queued input into requests and one that forwards the output, and the
  calls that open it, send input and close it. A turn of a task is one step: one message is taken
  from its queue or read, and dealt with.
\<close>

section \<open>The link of a shell\<close>

text \<open>The connection, the queue of the input with whether its sender still exists, whether each task
  still runs, what was put into the output channel, and whether somebody can still receive it.\<close>

record shell_link =
  lk_stream :: stream
  lk_inputs :: "bytes list"
  lk_sender :: bool
  lk_writer :: bool
  lk_reader :: bool
  lk_outputs :: "bytes list"
  lk_receiver :: bool

definition input_capacity :: nat where
  "input_capacity = 128"

definition create_shell_connection ::
    "rq_encoder \<Rightarrow> (attempt \<times> nat) list \<Rightarrow> (core_error + shell_link) option" where
  "create_shell_connection enc attempts =
     (case connect_to_guest attempts of
        None \<Rightarrow> None
      | Some (Inl error) \<Rightarrow> Some (Inl error)
      | Some (Inr s) \<Rightarrow>
          (case write_request enc OpenShell s of
             (s1, Inl error) \<Rightarrow> Some (Inl error)
           | (s1, Inr _) \<Rightarrow> Some (Inr \<lparr>lk_stream = s1, lk_inputs = [], lk_sender = True, lk_writer = True,
                lk_reader = True, lk_outputs = [], lk_receiver = True\<rparr>)))"

text \<open>The end of the write task: a last request, and the queue is gone.\<close>

definition writer_ends :: "rq_encoder \<Rightarrow> shell_link \<Rightarrow> shell_link" where
  "writer_ends enc lk = lk\<lparr>lk_stream := fst (write_request enc CloseShell (lk_stream lk)),
     lk_writer := False, lk_inputs := []\<rparr>"

definition writer_turn :: "rq_encoder \<Rightarrow> shell_link \<Rightarrow> shell_link" where
  "writer_turn enc lk =
     (if \<not> lk_writer lk then lk
      else case lk_inputs lk of
        [] \<Rightarrow> if lk_sender lk then lk else writer_ends enc lk
      | bs # rest \<Rightarrow>
          (case write_request enc (Input bs) (lk_stream lk) of
             (s, Inl _) \<Rightarrow> writer_ends enc (lk\<lparr>lk_stream := s\<rparr>)
           | (s, Inr _) \<Rightarrow> lk\<lparr>lk_stream := s, lk_inputs := rest\<rparr>))"

definition forward_output :: "stream \<Rightarrow> bytes \<Rightarrow> shell_link \<Rightarrow> shell_link" where
  "forward_output s data lk =
     (if lk_receiver lk then lk\<lparr>lk_stream := s, lk_outputs := lk_outputs lk @ [data]\<rparr>
      else lk\<lparr>lk_stream := s, lk_reader := False\<rparr>)"

definition reader_turn :: "rsp_decoder \<Rightarrow> shell_link \<Rightarrow> shell_link" where
  "reader_turn dec lk =
     (if \<not> lk_reader lk then lk
      else case read_response dec (lk_stream lk) of
        (s, Inr (Some response)) \<Rightarrow>
          (case response of
             Output data \<Rightarrow> forward_output s data lk
           | Stdout data \<Rightarrow> forward_output s data lk
           | Stderr data \<Rightarrow> forward_output s data lk
           | ShellClosed \<Rightarrow> lk\<lparr>lk_stream := s, lk_reader := False\<rparr>
           | Exit _ \<Rightarrow> lk\<lparr>lk_stream := s, lk_reader := False\<rparr>
           | _ \<Rightarrow> lk\<lparr>lk_stream := s\<rparr>)
      | (s, _) \<Rightarrow> lk\<lparr>lk_stream := s, lk_reader := False\<rparr>)"

section \<open>The calls of the session\<close>

text \<open>The shell of a session is the link of which it holds the sender and the tasks.\<close>

type_synonym session_shell = "shell_link option"

text \<open>
  Closing drops the sender and then asks both tasks to abort; it waits for neither. What it gives
  beside the shell is the link that the tasks still hold. A task is aborted at an await, which is
  some time later: what it does until then are turns like any other. The abort of the write task
  loses the queue, and may come between the bytes of the request that it writes then, the first
  \<open>n\<close> of which are out.
\<close>

definition drop_sender :: "shell_link \<Rightarrow> shell_link" where
  "drop_sender lk = lk\<lparr>lk_sender := False\<rparr>"

definition close_shell :: "session_shell \<Rightarrow> session_shell \<times> shell_link option" where
  "close_shell sh = (None, map_option drop_sender sh)"

definition write_pending :: "shell_link \<Rightarrow> guest_request option" where
  "write_pending lk =
     (case lk_inputs lk of
        bs # _ \<Rightarrow> Some (Input bs)
      | [] \<Rightarrow> if lk_sender lk then None else Some CloseShell)"

definition abort_writer :: "rq_encoder \<Rightarrow> nat \<Rightarrow> shell_link \<Rightarrow> shell_link" where
  "abort_writer enc n lk =
     (if \<not> lk_writer lk then lk
      else lk\<lparr>lk_stream := (case write_pending lk of
                None \<Rightarrow> lk_stream lk
              | Some m \<Rightarrow> (case enc m of
                  Inl _ \<Rightarrow> lk_stream lk
                | Inr json \<Rightarrow> fst (write_all (take n (to_be_bytes (of_nat (length json)) @ json)) (lk_stream lk)))),
              lk_writer := False, lk_inputs := []\<rparr>)"

definition abort_reader :: "shell_link \<Rightarrow> shell_link" where
  "abort_reader lk = lk\<lparr>lk_reader := False\<rparr>"

definition open_shell ::
    "rq_encoder \<Rightarrow> (attempt \<times> nat) list \<Rightarrow> session_shell \<Rightarrow> (session_shell \<times> (core_error + unit)) option" where
  "open_shell enc attempts sh =
     (let sh' = fst (close_shell sh)
      in case create_shell_connection enc attempts of
           None \<Rightarrow> None
         | Some (Inl error) \<Rightarrow> Some (sh', Inl error)
         | Some (Inr lk) \<Rightarrow> Some (Some lk, Inr ()))"

text \<open>The caller gets the sender and the receiver; nobody keeps the tasks, which run on.\<close>

definition open_shell_channels ::
    "rq_encoder \<Rightarrow> (attempt \<times> nat) list \<Rightarrow> (core_error + shell_link) option" where
  "open_shell_channels enc attempts = create_shell_connection enc attempts"

text \<open>Sending waits while the queue is full (\<open>None\<close>), and fails when the write task has ended.\<close>

definition send_to_link :: "bytes \<Rightarrow> shell_link \<Rightarrow> (shell_link \<times> (core_error + unit)) option" where
  "send_to_link data lk =
     (if \<not> lk_writer lk then Some (lk, Inl (ShellSend ''channel closed''))
      else if input_capacity \<le> length (lk_inputs lk) then None
      else Some (lk\<lparr>lk_inputs := lk_inputs lk @ [data]\<rparr>, Inr ()))"

definition send_input :: "bytes \<Rightarrow> session_shell \<Rightarrow> (session_shell \<times> (core_error + unit)) option" where
  "send_input data sh =
     (case sh of
        None \<Rightarrow> Some (None, Inl ShellNotOpen)
      | Some lk \<Rightarrow> map_option (\<lambda>(lk', r). (Some lk', r)) (send_to_link data lk))"

definition is_shell_open :: "session_shell \<Rightarrow> bool" where
  "is_shell_open sh \<longleftrightarrow> sh \<noteq> None"

section \<open>Runs\<close>

text \<open>A run of an open link, with the input that was accepted: the caller sends, either task takes a
  turn, or the caller drops the receiver.\<close>

inductive shell_run :: "rq_encoder \<Rightarrow> rsp_decoder \<Rightarrow> shell_link \<Rightarrow> bytes list \<Rightarrow> shell_link \<Rightarrow> bool"
  for enc dec lk0 where
  Opened: "shell_run enc dec lk0 [] lk0"
| Sent: "shell_run enc dec lk0 acc lk \<Longrightarrow> send_to_link data lk = Some (lk', Inr ()) \<Longrightarrow>
    shell_run enc dec lk0 (acc @ [data]) lk'"
| WriterTurn: "shell_run enc dec lk0 acc lk \<Longrightarrow> shell_run enc dec lk0 acc (writer_turn enc lk)"
| ReaderTurn: "shell_run enc dec lk0 acc lk \<Longrightarrow> shell_run enc dec lk0 acc (reader_turn dec lk)"
| ReceiverDropped: "shell_run enc dec lk0 acc lk \<Longrightarrow> shell_run enc dec lk0 acc (lk\<lparr>lk_receiver := False\<rparr>)"

text \<open>What a link goes through after a call of \<open>close_shell\<close>.\<close>

inductive shell_closing :: "rq_encoder \<Rightarrow> rsp_decoder \<Rightarrow> shell_link \<Rightarrow> shell_link \<Rightarrow> bool"
  for enc dec dropped where
  Dropped: "shell_closing enc dec dropped dropped"
| LateWriterTurn: "shell_closing enc dec dropped lk \<Longrightarrow> shell_closing enc dec dropped (writer_turn enc lk)"
| LateReaderTurn: "shell_closing enc dec dropped lk \<Longrightarrow> shell_closing enc dec dropped (reader_turn dec lk)"
| WriterAborted: "shell_closing enc dec dropped lk \<Longrightarrow> shell_closing enc dec dropped (abort_writer enc n lk)"
| ReaderAborted: "shell_closing enc dec dropped lk \<Longrightarrow> shell_closing enc dec dropped (abort_reader lk)"
| LateReceiverDropped: "shell_closing enc dec dropped lk \<Longrightarrow> shell_closing enc dec dropped (lk\<lparr>lk_receiver := False\<rparr>)"

text \<open>What of the responses is forwarded.\<close>

fun shell_outputs :: "guest_response list \<Rightarrow> bytes list" where
  "shell_outputs [] = []"
| "shell_outputs (r # rs) =
     (case r of
        Output d \<Rightarrow> d # shell_outputs rs
      | Stdout d \<Rightarrow> d # shell_outputs rs
      | Stderr d \<Rightarrow> d # shell_outputs rs
      | ShellClosed \<Rightarrow> []
      | Exit _ \<Rightarrow> []
      | _ \<Rightarrow> shell_outputs rs)"

definition fresh_link :: "stream \<Rightarrow> shell_link" where
  "fresh_link s = \<lparr>lk_stream = s, lk_inputs = [], lk_sender = True, lk_writer = True, lk_reader = True,
     lk_outputs = [], lk_receiver = True\<rparr>"

definition link_writes :: "rq_encoder \<Rightarrow> stream \<Rightarrow> bytes list \<Rightarrow> shell_link \<Rightarrow> bool" where
  "link_writes enc s acc lk \<longleftrightarrow> lk_sender lk \<and> lk_writer lk \<and> writable (lk_stream lk) \<and>
     length (lk_inputs lk) \<le> input_capacity \<and>
     (\<exists>sent. acc = sent @ lk_inputs lk \<and>
        st_out (lk_stream lk) = st_out s @ concat (map (\<lambda>d. frame enc (Input d)) sent))"

definition link_reads :: "encoder \<Rightarrow> guest_response list \<Rightarrow> shell_link \<Rightarrow> bool" where
  "link_reads encr rs lk \<longleftrightarrow> prefix (lk_outputs lk) (shell_outputs rs) \<and>
     (lk_receiver lk \<and> \<not> lk_reader lk \<longrightarrow> lk_outputs lk = shell_outputs rs) \<and>
     (lk_reader lk \<longrightarrow> st_end (lk_stream lk) = UnexpectedEof \<and>
       (\<exists>rs'. set rs' \<subseteq> set rs \<and> st_in (lk_stream lk) = concat (map (frame encr) rs') \<and>
         lk_outputs lk @ shell_outputs rs' = shell_outputs rs))"

lemma write_request_frames:
  assumes "codec_ok enc dec m" "writable s"
  shows "write_request enc m s = (s\<lparr>st_out := st_out s @ frame enc m\<rparr>, Inr ())"
  using requests.put_good [OF assms] .

lemma writer_turn_writes:
  assumes "link_writes enc s acc lk" "\<forall>d\<in>set acc. codec_ok enc decr (Input d)"
  shows "link_writes enc s acc (writer_turn enc lk)"
proof (cases "lk_inputs lk")
  case Nil
  with assms show ?thesis by (simp add: link_writes_def writer_turn_def)
next
  case (Cons d ds)
  obtain sent where sent: "acc = sent @ d # ds"
    "st_out (lk_stream lk) = st_out s @ concat (map (\<lambda>d. frame enc (Input d)) sent)"
    using assms(1) Cons by (auto simp: link_writes_def)
  let ?s = "(lk_stream lk)\<lparr>st_out := st_out (lk_stream lk) @ frame enc (Input d)\<rparr>"
  have "write_request enc (Input d) (lk_stream lk) = (?s, Inr ())"
    using assms sent(1) by (intro write_request_frames) (auto simp: link_writes_def)
  then have "writer_turn enc lk = lk\<lparr>lk_stream := ?s, lk_inputs := ds\<rparr>"
    using assms(1) Cons by (simp add: writer_turn_def link_writes_def)
  then show ?thesis
    using assms(1) Cons sent by (auto simp: link_writes_def writable_def intro!: exI [of _ "sent @ [d]"])
qed

lemma read_response_out:
  "read_response dec s = (s', r) \<Longrightarrow> st_out s' = st_out s \<and> st_room s' = st_room s \<and> st_flush s' = st_flush s"
  by (auto simp: read_response_def read_frame_def read_exact_def Let_def
      split: if_splits io_error.splits sum.splits prod.splits)

lemma reader_turn_writes: "link_writes enc s acc lk \<Longrightarrow> link_writes enc s acc (reader_turn dec lk)"
proof (cases "lk_reader lk")
  case True
  assume w: "link_writes enc s acc lk"
  obtain s' r where r: "read_response dec (lk_stream lk) = (s', r)" by fastforce
  have "lk_stream (reader_turn dec lk) = s' \<and> lk_inputs (reader_turn dec lk) = lk_inputs lk \<and>
      lk_sender (reader_turn dec lk) = lk_sender lk \<and> lk_writer (reader_turn dec lk) = lk_writer lk"
    using True r by (simp add: reader_turn_def forward_output_def split: sum.split option.split guest_response.split)
  with w read_response_out [OF r] show ?thesis by (simp add: link_writes_def writable_def)
qed (simp add: reader_turn_def)

lemma writer_turn_reads: "link_reads encr rs lk \<Longrightarrow> link_reads encr rs (writer_turn enc lk)"
proof -
  have out: "st_in (fst (write_request enc m s)) = st_in s \<and> st_end (fst (write_request enc m s)) = st_end s" for m s
    by (auto simp: write_request_def write_frame_def write_all_def split: sum.split option.split)
  then have out': "write_request enc m s = (s', r) \<Longrightarrow> st_in s' = st_in s \<and> st_end s' = st_end s" for m s s' r
    by (metis fst_conv)
  assume "link_reads encr rs lk"
  then show ?thesis
    using out out'
    by (auto simp: link_reads_def writer_turn_def writer_ends_def split: list.split prod.split sum.split dest!: out')
qed

lemma reader_turn_reads:
  assumes "link_reads encr rs lk" "\<forall>r\<in>set rs. codec_ok encr dec r"
  shows "link_reads encr rs (reader_turn dec lk)"
proof (cases "lk_reader lk")
  case True
  then obtain rs' where rs': "set rs' \<subseteq> set rs" "st_in (lk_stream lk) = concat (map (frame encr) rs')"
    "lk_outputs lk @ shell_outputs rs' = shell_outputs rs" "st_end (lk_stream lk) = UnexpectedEof"
    using assms(1) by (auto simp: link_reads_def)
  show ?thesis
  proof (cases rs')
    case Nil
    then have "read_response dec (lk_stream lk) = (lk_stream lk, Inr None)"
      using rs'(2,4) by (intro responses.get_end) simp_all
    moreover have "lk_outputs lk = shell_outputs rs" using rs'(3) Nil by simp
    ultimately show ?thesis using True assms(1) by (simp add: reader_turn_def link_reads_def)
  next
    case (Cons r rs'')
    let ?s = "(lk_stream lk)\<lparr>st_in := concat (map (frame encr) rs'')\<rparr>"
    have "codec_ok encr dec r" using assms(2) rs'(1) Cons by auto
    then have "read_response dec (lk_stream lk) = (?s, Inr (Some r))"
      using rs'(2) Cons by (intro responses.get_good) simp_all
    moreover have "prefix (lk_outputs lk @ [d]) (shell_outputs rs)" if "shell_outputs rs' = d # ds" for d ds
      using rs'(3) that by (metis append.assoc append_Cons append_Nil prefixI)
    ultimately show ?thesis
      using True assms(1) rs' Cons
      by (auto simp: reader_turn_def forward_output_def link_reads_def split: guest_response.split)
  qed
next
  case False
  with assms(1) show ?thesis by (simp add: reader_turn_def)
qed

lemma run_link:
  assumes "shell_run enc dec (fresh_link s) acc lk" "writable s"
    and "st_in s = concat (map (frame encr) rs)" "st_end s = UnexpectedEof"
    and "\<forall>r\<in>set rs. codec_ok encr dec r"
  shows "(\<forall>d\<in>set acc. codec_ok enc decr (Input d)) \<longrightarrow> link_writes enc s acc lk"
    and "link_reads encr rs lk"
proof -
  from assms(1) have "((\<forall>d\<in>set acc. codec_ok enc decr (Input d)) \<longrightarrow> link_writes enc s acc lk) \<and> link_reads encr rs lk"
  proof (induction rule: shell_run.induct)
    case Opened
    then show ?case using assms(2,3,4) by (auto simp: link_writes_def link_reads_def fresh_link_def)
  next
    case (Sent acc lk data lk')
    then have lk': "lk' = lk\<lparr>lk_inputs := lk_inputs lk @ [data]\<rparr>" "length (lk_inputs lk) < input_capacity"
      by (auto simp: send_to_link_def split: if_splits)
    then show ?case using Sent.IH by (auto simp: link_writes_def link_reads_def)
  next
    case (WriterTurn acc lk)
    then show ?case using writer_turn_writes writer_turn_reads by blast
  next
    case (ReaderTurn acc lk)
    then show ?case using reader_turn_writes reader_turn_reads assms(5) by blast
  next
    case (ReceiverDropped acc lk)
    then show ?case by (auto simp: link_writes_def link_reads_def)
  qed
  then show "(\<forall>d\<in>set acc. codec_ok enc decr (Input d)) \<longrightarrow> link_writes enc s acc lk" "link_reads encr rs lk"
    by blast+
qed

lemma shell_greeted:
  assumes "greeting_ok g" "writable s" "st_in s = g @ rest" "codec_ok enc decr OpenShell"
  shows "open_shell enc ((Connected s, t) # as) sh = Some (Some (fresh_link
    (s\<lparr>st_in := rest, st_out := st_out s @ connect_line @ frame enc OpenShell\<rparr>)), Inr ())"
proof -
  have "writable (s\<lparr>st_out := st_out s @ connect_line, st_in := rest\<rparr>)" using assms(2) by (simp add: writable_def)
  with write_request_frames [OF assms(4) this] show ?thesis
    by (simp add: open_shell_def close_shell_def create_shell_connection_def fresh_link_def
        connect_greeted [OF assms(1-3)] del: connect_to_guest.simps)
qed

section \<open>Closing\<close>

lemma closing_trans: "shell_closing enc dec b c \<Longrightarrow> shell_closing enc dec a b \<Longrightarrow> shell_closing enc dec a c"
  by (induction rule: shell_closing.induct) (auto intro: shell_closing.intros)

definition last_frames :: "rq_encoder \<Rightarrow> bytes list \<Rightarrow> bytes" where
  "last_frames enc queue = concat (map (frame enc) (map Input queue @ [CloseShell]))"

lemma last_frames_Cons: "last_frames enc (d # ds) = frame enc (Input d) @ last_frames enc ds"
  and last_frames_Nil: "last_frames enc [] = frame enc CloseShell"
  by (simp_all add: last_frames_def)

text \<open>A link that is being closed: its write task still has to write what of the queue it has not
  written, or it has written a first part of all that is left and writes no more.\<close>

definition closing_writes :: "rq_encoder \<Rightarrow> bytes list \<Rightarrow> bytes \<Rightarrow> shell_link \<Rightarrow> bool" where
  "closing_writes enc queue out lk \<longleftrightarrow> \<not> lk_sender lk \<and> writable (lk_stream lk) \<and>
     (\<exists>part. st_out (lk_stream lk) = out @ part \<and>
       (if lk_writer lk then part @ last_frames enc (lk_inputs lk) = last_frames enc queue \<and> set (lk_inputs lk) \<subseteq> set queue
        else prefix part (last_frames enc queue)))"

lemma writer_turn_sends:
  assumes "lk_writer lk" "\<not> lk_sender lk" "writable (lk_stream lk)" "codec_ok enc decr CloseShell"
    and "\<forall>d\<in>set (lk_inputs lk). codec_ok enc decr (Input d)"
  shows "writer_turn enc lk = (case lk_inputs lk of
      [] \<Rightarrow> lk\<lparr>lk_stream := (lk_stream lk)\<lparr>st_out := st_out (lk_stream lk) @ frame enc CloseShell\<rparr>,
              lk_writer := False\<rparr>
    | d # ds \<Rightarrow> lk\<lparr>lk_stream := (lk_stream lk)\<lparr>st_out := st_out (lk_stream lk) @ frame enc (Input d)\<rparr>,
              lk_inputs := ds\<rparr>)"
  using assms write_request_frames [of enc decr _ "lk_stream lk"]
  by (simp add: writer_turn_def writer_ends_def split: list.split)

lemma abort_writer_sends:
  assumes "lk_writer lk" "\<not> lk_sender lk" "writable (lk_stream lk)" "codec_ok enc decr CloseShell"
    and "\<forall>d\<in>set (lk_inputs lk). codec_ok enc decr (Input d)"
  shows "abort_writer enc n lk = lk\<lparr>lk_stream := (lk_stream lk)\<lparr>st_out := st_out (lk_stream lk) @
      take n (frame enc (case lk_inputs lk of [] \<Rightarrow> CloseShell | d # _ \<Rightarrow> Input d))\<rparr>,
    lk_writer := False, lk_inputs := []\<rparr>"
proof (cases "lk_inputs lk")
  case Nil
  then show ?thesis using assms
    by (simp add: abort_writer_def write_pending_def write_all_writable frame_def codec_ok_def del: take_append)
next
  case (Cons d ds)
  then have "codec_ok enc decr (Input d)" using assms(5) by simp
  then show ?thesis using Cons assms(1,3)
    by (simp add: abort_writer_def write_pending_def write_all_writable frame_def codec_ok_def del: take_append)
qed

lemma closing_writer_turn:
  assumes "closing_writes enc queue out lk" "codec_ok enc decr CloseShell" "\<forall>d\<in>set queue. codec_ok enc decr (Input d)"
  shows "closing_writes enc queue out (writer_turn enc lk)"
proof (cases "lk_writer lk")
  case True
  have q: "\<forall>d\<in>set (lk_inputs lk). codec_ok enc decr (Input d)" using assms(1,3) True by (auto simp: closing_writes_def)
  have "writer_turn enc lk = (case lk_inputs lk of
      [] \<Rightarrow> lk\<lparr>lk_stream := (lk_stream lk)\<lparr>st_out := st_out (lk_stream lk) @ frame enc CloseShell\<rparr>,
              lk_writer := False\<rparr>
    | d # ds \<Rightarrow> lk\<lparr>lk_stream := (lk_stream lk)\<lparr>st_out := st_out (lk_stream lk) @ frame enc (Input d)\<rparr>,
              lk_inputs := ds\<rparr>)"
    using assms(1) by (intro writer_turn_sends [OF True _ _ assms(2) q]) (simp_all add: closing_writes_def)
  then show ?thesis using assms(1) True
    by (cases "lk_inputs lk") (auto simp: closing_writes_def writable_def last_frames_Cons last_frames_Nil)
qed (use assms(1) in \<open>simp add: writer_turn_def\<close>)

lemma closing_abort:
  assumes "closing_writes enc queue out lk" "codec_ok enc decr CloseShell" "\<forall>d\<in>set queue. codec_ok enc decr (Input d)"
  shows "closing_writes enc queue out (abort_writer enc n lk)"
proof (cases "lk_writer lk")
  case True
  let ?f = "frame enc (case lk_inputs lk of [] \<Rightarrow> CloseShell | d # _ \<Rightarrow> Input d)"
  have q: "\<forall>d\<in>set (lk_inputs lk). codec_ok enc decr (Input d)" using assms(1,3) True by (auto simp: closing_writes_def)
  obtain part where part: "st_out (lk_stream lk) = out @ part" "part @ last_frames enc (lk_inputs lk) = last_frames enc queue"
    using assms(1) True by (auto simp: closing_writes_def)
  obtain rest where "last_frames enc (lk_inputs lk) = take n ?f @ drop n ?f @ rest"
    by (cases "lk_inputs lk") (auto simp: last_frames_Cons last_frames_Nil simp flip: append_assoc)
  with part(2) have "prefix (part @ take n ?f) (last_frames enc queue)"
    by (metis append.assoc prefixI)
  moreover have "abort_writer enc n lk = lk\<lparr>lk_stream := (lk_stream lk)\<lparr>st_out := st_out (lk_stream lk) @ take n ?f\<rparr>,
      lk_writer := False, lk_inputs := []\<rparr>"
    using assms(1) by (intro abort_writer_sends [OF True _ _ assms(2) q]) (simp_all add: closing_writes_def)
  ultimately show ?thesis using assms(1) part(1) by (auto simp: closing_writes_def writable_def)
qed (use assms(1) in \<open>simp add: abort_writer_def\<close>)

lemma reader_turn_frame:
  "st_out (lk_stream (reader_turn dec lk)) = st_out (lk_stream lk) \<and>
   st_room (lk_stream (reader_turn dec lk)) = st_room (lk_stream lk) \<and>
   st_flush (lk_stream (reader_turn dec lk)) = st_flush (lk_stream lk) \<and>
   lk_inputs (reader_turn dec lk) = lk_inputs lk \<and> lk_sender (reader_turn dec lk) = lk_sender lk \<and>
   lk_writer (reader_turn dec lk) = lk_writer lk"
proof -
  obtain s' r where r: "read_response dec (lk_stream lk) = (s', r)" by fastforce
  with read_response_out [OF r] show ?thesis
    by (simp add: reader_turn_def forward_output_def split: sum.split option.split guest_response.split)
qed

lemma writer_turn_outputs:
  "lk_outputs (writer_turn enc lk) = lk_outputs lk" "lk_reader (writer_turn enc lk) = lk_reader lk"
  "lk_outputs (abort_writer enc n lk) = lk_outputs lk" "lk_reader (abort_writer enc n lk) = lk_reader lk"
  by (auto simp: writer_turn_def writer_ends_def abort_writer_def split: list.split prod.split sum.split)

lemma reader_turn_more: "prefix (lk_outputs lk) (lk_outputs (reader_turn dec lk))"
  by (auto simp: reader_turn_def forward_output_def split: prod.split sum.split option.split guest_response.split)

lemma abort_writer_reads: "link_reads encr rs lk \<Longrightarrow> link_reads encr rs (abort_writer enc n lk)"
proof -
  have "st_in (fst (write_all bs s)) = st_in s \<and> st_end (fst (write_all bs s)) = st_end s" for bs s
    by (simp add: write_all_def split: option.split)
  then show "link_reads encr rs lk \<Longrightarrow> link_reads encr rs (abort_writer enc n lk)"
    by (auto simp: link_reads_def abort_writer_def split: option.split sum.split)
qed

lemma closing_link:
  assumes "shell_closing enc dec dropped lk" "codec_ok enc decr CloseShell" "\<forall>d\<in>set queue. codec_ok enc decr (Input d)"
    and "closing_writes enc queue out dropped" "link_reads encr rs dropped" "\<forall>r\<in>set rs. codec_ok encr dec r"
  shows "closing_writes enc queue out lk" "prefix (lk_outputs dropped) (lk_outputs lk)"
    "(link_reads encr rs lk \<or> \<not> lk_reader lk) \<and> prefix (lk_outputs lk) (shell_outputs rs)"
proof -
  from assms(1) have "closing_writes enc queue out lk \<and> prefix (lk_outputs dropped) (lk_outputs lk) \<and>
      (link_reads encr rs lk \<or> \<not> lk_reader lk) \<and> prefix (lk_outputs lk) (shell_outputs rs)"
  proof (induction rule: shell_closing.induct)
    case Dropped
    then show ?case using assms(4,5) by (simp add: link_reads_def)
  next
    case (LateWriterTurn lk)
    then show ?case using closing_writer_turn [OF _ assms(2,3)] writer_turn_reads [of encr rs lk enc]
      by (auto simp: writer_turn_outputs)
  next
    case (LateReaderTurn lk)
    have "closing_writes enc queue out (reader_turn dec lk)"
      using LateReaderTurn.IH reader_turn_frame [of dec lk]
      by (cases "lk_writer lk") (auto simp: closing_writes_def writable_def)
    moreover have "prefix (lk_outputs dropped) (lk_outputs (reader_turn dec lk))"
      using LateReaderTurn.IH reader_turn_more [of lk dec] prefix_order.trans by blast
    moreover have "\<not> lk_reader lk \<Longrightarrow> reader_turn dec lk = lk" by (simp add: reader_turn_def)
    then have "(link_reads encr rs (reader_turn dec lk) \<or> \<not> lk_reader (reader_turn dec lk)) \<and>
        prefix (lk_outputs (reader_turn dec lk)) (shell_outputs rs)"
      using LateReaderTurn.IH reader_turn_reads [OF _ assms(6), of lk]
      by (cases "lk_reader lk") (auto simp: link_reads_def)
    ultimately show ?case by blast
  next
    case (WriterAborted lk n)
    then show ?case using closing_abort [OF _ assms(2,3)] abort_writer_reads [of encr rs lk enc n]
      by (auto simp: writer_turn_outputs)
  next
    case (ReaderAborted lk)
    then show ?case by (cases "lk_writer lk") (auto simp: abort_reader_def closing_writes_def)
  next
    case (LateReceiverDropped lk)
    then show ?case by (cases "lk_writer lk") (auto simp: closing_writes_def link_reads_def)
  qed
  then show "closing_writes enc queue out lk" "prefix (lk_outputs dropped) (lk_outputs lk)"
    "(link_reads encr rs lk \<or> \<not> lk_reader lk) \<and> prefix (lk_outputs lk) (shell_outputs rs)" by blast+
qed

lemma closing_done:
  "shell_closing enc dec dropped lk \<Longrightarrow> \<not> lk_writer dropped \<Longrightarrow>
   \<not> lk_writer lk \<and> st_out (lk_stream lk) = st_out (lk_stream dropped)"
  by (induction rule: shell_closing.induct)
    (use reader_turn_frame in \<open>auto simp: writer_turn_def abort_writer_def abort_reader_def\<close>)

text \<open>Any first part of what is left may be what is written.\<close>

lemma closing_any:
  assumes "lk_writer lk" "\<not> lk_sender lk" "writable (lk_stream lk)" "codec_ok enc decr CloseShell"
    and "\<forall>d\<in>set (lk_inputs lk). codec_ok enc decr (Input d)" "prefix part (last_frames enc (lk_inputs lk))"
  shows "\<exists>lk'. shell_closing enc dec lk lk' \<and> \<not> lk_writer lk' \<and> st_out (lk_stream lk') = st_out (lk_stream lk) @ part"
  using assms
proof (induction "lk_inputs lk" arbitrary: lk part)
  case Nil
  have "take (length part) (frame enc CloseShell) = part"
    using Nil(1,7) by (auto simp: last_frames_Nil elim: prefixE)
  then have "\<not> lk_writer (abort_writer enc (length part) lk)"
    "st_out (lk_stream (abort_writer enc (length part) lk)) = st_out (lk_stream lk) @ part"
    using abort_writer_sends [OF Nil(2-6), of "length part"] by (simp_all flip: Nil(1) del: take_all_iff)
  then show ?case using shell_closing.WriterAborted [OF shell_closing.Dropped] by blast
next
  case (Cons d ds)
  let ?f = "frame enc (Input d)"
  have f: "last_frames enc (lk_inputs lk) = ?f @ last_frames enc ds" using Cons(2) by (metis last_frames_Cons)
  show ?case
  proof (cases "length part \<le> length ?f")
    case True
    then have "take (length part) ?f = part" using Cons(8) f by (auto elim!: prefixE simp: append_eq_append_conv2)
    then have "\<not> lk_writer (abort_writer enc (length part) lk)"
      "st_out (lk_stream (abort_writer enc (length part) lk)) = st_out (lk_stream lk) @ part"
      using abort_writer_sends [OF Cons(3-7), of "length part"] by (simp_all flip: Cons(2) del: take_all_iff)
    then show ?thesis using shell_closing.WriterAborted [OF shell_closing.Dropped] by blast
  next
    case False
    then obtain part' where part: "part = ?f @ part'" "prefix part' (last_frames enc ds)"
      using Cons(8) f by (auto simp: prefix_def append_eq_append_conv2)
    let ?lk = "writer_turn enc lk"
    have lk: "?lk = lk\<lparr>lk_stream := (lk_stream lk)\<lparr>st_out := st_out (lk_stream lk) @ ?f\<rparr>, lk_inputs := ds\<rparr>"
      using writer_turn_sends [OF Cons(3-7)] by (simp flip: Cons(2))
    have "\<exists>lk'. shell_closing enc dec ?lk lk' \<and> \<not> lk_writer lk' \<and> st_out (lk_stream lk') = st_out (lk_stream ?lk) @ part'"
      using Cons(2-7) part(2) by (intro Cons(1)) (auto simp: lk writable_def simp flip: Cons(2))
    then obtain lk' where "shell_closing enc dec ?lk lk'" "\<not> lk_writer lk'"
      "st_out (lk_stream lk') = st_out (lk_stream ?lk) @ part'" by blast
    then show ?thesis
      using closing_trans [OF _ shell_closing.LateWriterTurn [OF shell_closing.Dropped]] part(1)
      by (intro exI [of _ lk']) (simp add: lk)
  qed
qed

text \<open>
  C28. However the turns of the two tasks and the calls of a shell's user are interleaved: what was
  written to the guest is the accepted input in its order, except for a last part, of at most 128
  pieces, that is still queued; what was forwarded is a first part of the output in its order, and
  all of it once the reading task has ended with somebody still listening.

  A close is a race. At any time after it, what was written in addition is a first part of the bytes of
  the queued input followed by the request that closes the shell; once the write task has stopped
  nothing is written any more; and every such first part, from nothing to all of it, is what some run
  writes, so that neither the queued input nor the closing request can be relied on, and a request may
  be cut in the middle. What is forwarded stays a first part of the output.
\<close>

theorem shell_link_faithful:
  assumes "open_shell enc [(Connected s, t)] None = Some (Some lk0, Inr ())"
    and "greeting_ok g" "writable s" "st_in s = g @ concat (map (frame encr) rs)" "st_end s = UnexpectedEof"
    and "codec_ok enc decr OpenShell" "codec_ok enc decr CloseShell" "\<forall>r\<in>set rs. codec_ok encr dec r"
    and "shell_run enc dec lk0 acc lk" "\<forall>d\<in>set acc. codec_ok enc decr (Input d)"
    and "close_shell (Some lk) = (sh', Some dropped)"
  shows "(\<exists>sent. acc = sent @ lk_inputs lk \<and> length (lk_inputs lk) \<le> 128 \<and>
      st_out (lk_stream lk) =
        st_out s @ connect_line @ concat (map (frame enc) (OpenShell # map Input sent))) \<and>
    prefix (lk_outputs lk) (shell_outputs rs) \<and>
    (lk_receiver lk \<and> \<not> lk_reader lk \<longrightarrow> lk_outputs lk = shell_outputs rs) \<and>
    sh' = None \<and>
    (\<forall>closed. shell_closing enc dec dropped closed \<longrightarrow>
      (\<exists>part. st_out (lk_stream closed) = st_out (lk_stream lk) @ part \<and>
        prefix part (concat (map (frame enc) (map Input (lk_inputs lk) @ [CloseShell])))) \<and>
      (\<not> lk_writer closed \<longrightarrow> (\<forall>later. shell_closing enc dec closed later \<longrightarrow>
        st_out (lk_stream later) = st_out (lk_stream closed))) \<and>
      prefix (lk_outputs lk) (lk_outputs closed) \<and> prefix (lk_outputs closed) (shell_outputs rs)) \<and>
    (\<forall>part. prefix part (concat (map (frame enc) (map Input (lk_inputs lk) @ [CloseShell]))) \<longrightarrow>
      (\<exists>closed. shell_closing enc dec dropped closed \<and> \<not> lk_writer closed \<and>
        st_out (lk_stream closed) = st_out (lk_stream lk) @ part))"
proof -
  let ?s = "s\<lparr>st_in := concat (map (frame encr) rs), st_out := st_out s @ connect_line @ frame enc OpenShell\<rparr>"
  have lk0: "lk0 = fresh_link ?s"
    using assms(1) shell_greeted [OF assms(2,3,4,6), of t "[]" None] by simp
  have s: "writable ?s" "st_in ?s = concat (map (frame encr) rs)" "st_end ?s = UnexpectedEof"
    using assms(3,5) by (simp_all add: writable_def)
  have w: "link_writes enc ?s acc lk"
    using run_link(1) [where decr = decr, OF assms(9) [unfolded lk0] s assms(8)] assms(10) by blast
  have reads: "link_reads encr rs lk" by (rule run_link(2) [OF assms(9) [unfolded lk0] s assms(8)])
  obtain sent where sent: "acc = sent @ lk_inputs lk" "length (lk_inputs lk) \<le> input_capacity"
    "st_out (lk_stream lk) = st_out ?s @ concat (map (\<lambda>d. frame enc (Input d)) sent)"
    using w by (auto simp: link_writes_def)
  have d: "dropped = drop_sender lk" "sh' = None" using assms(11) by (simp_all add: close_shell_def)
  have queue: "\<forall>d\<in>set (lk_inputs lk). codec_ok enc decr (Input d)" using assms(10) sent(1) by auto
  have start: "closing_writes enc (lk_inputs lk) (st_out (lk_stream lk)) dropped" "link_reads encr rs dropped"
    "lk_outputs dropped = lk_outputs lk"
    using w reads by (auto simp: d drop_sender_def closing_writes_def link_writes_def link_reads_def)
  have closed: "(\<exists>part. st_out (lk_stream closed) = st_out (lk_stream lk) @ part \<and>
        prefix part (last_frames enc (lk_inputs lk))) \<and>
      (\<not> lk_writer closed \<longrightarrow> (\<forall>later. shell_closing enc dec closed later \<longrightarrow>
        st_out (lk_stream later) = st_out (lk_stream closed))) \<and>
      prefix (lk_outputs lk) (lk_outputs closed) \<and> prefix (lk_outputs closed) (shell_outputs rs)"
    if "shell_closing enc dec dropped closed" for closed
    using closing_link [OF that assms(7) queue start(1,2) assms(8)] start(3)
    by (cases "lk_writer closed") (auto simp: closing_writes_def dest: closing_done intro: prefixI [OF sym])
  have any: "\<exists>closed. shell_closing enc dec dropped closed \<and> \<not> lk_writer closed \<and>
        st_out (lk_stream closed) = st_out (lk_stream lk) @ part"
    if "prefix part (last_frames enc (lk_inputs lk))" for part
    using closing_any [of dropped enc decr part, OF _ _ _ assms(7)] queue w that
    by (auto simp: d drop_sender_def link_writes_def)
  show ?thesis
    using sent reads d(2) closed any unfolding last_frames_def
    by (intro conjI) (auto simp: link_reads_def input_capacity_def o_def)
qed

definition tiny_enc :: rq_encoder where
  "tiny_enc m = (case m of OpenShell \<Rightarrow> Inr [1] | Input bs \<Rightarrow> Inr (2 # bs) | CloseShell \<Rightarrow> Inr [3] | _ \<Rightarrow> Inl ''?'')"

definition tiny_dec :: "bytes \<Rightarrow> string + guest_request" where
  "tiny_dec bs = (case bs of [] \<Rightarrow> Inl ''?''
     | b # bs \<Rightarrow> Inr (if b = 1 then OpenShell else if b = 3 then CloseShell else Input bs))"

text \<open>One piece of input is queued when the shell is closed: it may be written, followed by the closing
  request, or be lost.\<close>

theorem shell_link_faithful_witness:
  "\<exists>lk0 lk written lost. open_shell tiny_enc [(Connected (sample_stream\<lparr>st_in := [79, 75, 10]\<rparr>), 5)] None =
       Some (Some lk0, Inr ()) \<and>
     shell_run tiny_enc sample_exec_dec lk0 [[7]] lk \<and> lk_inputs lk = [[7]] \<and>
     shell_closing tiny_enc sample_exec_dec (drop_sender lk) written \<and>
     st_out (lk_stream written) = st_out (lk_stream lk) @ [0, 0, 0, 2, 2, 7, 0, 0, 0, 1, 3] \<and>
     shell_closing tiny_enc sample_exec_dec (drop_sender lk) lost \<and>
     st_out (lk_stream lost) = st_out (lk_stream lk)"
proof -
  let ?s = "sample_stream\<lparr>st_in := [79, 75, 10]\<rparr>"
  have codecs: "codec_ok tiny_enc tiny_dec OpenShell" "codec_ok tiny_enc tiny_dec CloseShell"
    "\<forall>d\<in>set [[7]]. codec_ok tiny_enc tiny_dec (Input d)"
    "\<forall>r\<in>set []. codec_ok sample_exec_enc sample_exec_dec r"
    by (simp_all add: codec_ok_def tiny_enc_def tiny_dec_def json_of_def MAX_FRAME_SIZE_def)
  have s: "greeting_ok [79, 75, 10]" "writable ?s" "st_in ?s = [79, 75, 10] @ concat (map (frame sample_exec_enc) [])"
    "st_end ?s = UnexpectedEof"
    by (simp_all add: greeting_ok_def text_bytes_def writable_def sample_stream_def)
  obtain lk0 where lk0: "open_shell tiny_enc [(Connected ?s, 5)] None = Some (Some lk0, Inr ())"
    "lk_inputs lk0 = []" "lk_writer lk0"
    using shell_greeted [OF s(1,2,3) codecs(1), of 5 "[]" None] by (auto simp: fresh_link_def)
  define lk where "lk = lk0\<lparr>lk_inputs := [[7]]\<rparr>"
  have run: "shell_run tiny_enc sample_exec_dec lk0 ([] @ [[7]]) lk"
    by (rule shell_run.Sent [OF shell_run.Opened]) (simp add: lk_def send_to_link_def lk0 input_capacity_def)
  have closed: "close_shell (Some lk) = (None, Some (drop_sender lk))" by (simp add: close_shell_def)
  have frames: "concat (map (frame tiny_enc) (map Input (lk_inputs lk) @ [CloseShell])) = [0, 0, 0, 2, 2, 7, 0, 0, 0, 1, 3]"
    by (simp add: lk_def frame_def json_of_def tiny_enc_def to_be_bytes_def)
  have "\<exists>closed. shell_closing tiny_enc sample_exec_dec (drop_sender lk) closed \<and>
      st_out (lk_stream closed) = st_out (lk_stream lk) @ part" if "prefix part [0, 0, 0, 2, 2, 7, 0, 0, 0, 1, 3]" for part
    using shell_link_faithful [OF lk0(1) s codecs(1,2,4) run _ closed] codecs(3) that unfolding frames by auto
  from this [of "[0, 0, 0, 2, 2, 7, 0, 0, 0, 1, 3]"] this [of "[]"]
  obtain written lost where "shell_closing tiny_enc sample_exec_dec (drop_sender lk) written"
    "st_out (lk_stream written) = st_out (lk_stream lk) @ [0, 0, 0, 2, 2, 7, 0, 0, 0, 1, 3]"
    "shell_closing tiny_enc sample_exec_dec (drop_sender lk) lost" "st_out (lk_stream lost) = st_out (lk_stream lk)"
    by auto
  moreover have "lk_inputs lk = [[7]]" by (simp add: lk_def)
  ultimately show ?thesis using lk0(1) run unfolding append_Nil by blast
qed

end
