(* ===== verification/Vm_Manager.thy ===== *)
theory Vm_Manager
  imports Host_Exec
begin

text \<open>
  The older manager of one machine (\<open>akssora-core/src/vm_manager.rs\<close>), the session around it
  (\<open>crates/session/src\<close>) and the command line that runs one command in one machine
  (\<open>akssora-cli/src/main.rs\<close>). The manager's own reading of the responses, without a bound on the
  length of a frame, is compared with that of the sessions.
\<close>

section \<open>The machine\<close>

record vm_manager_config =
  vmc_rootfs_path :: string
  vmc_kernel_path :: string
  vmc_vcpu_count :: u8
  vmc_mem_size_mib :: u32
  vmc_socket_path :: string
  vmc_vsock_uds_path :: string

record vm_manager =
  vmm_process :: nat
  vmm_client :: string
  vmm_vsock_uds_path :: string

record vm_exec_output =
  veo_stdout :: bytes
  veo_stderr :: bytes
  veo_exit_code :: i32

definition vm_boot_args :: string where
  "vm_boot_args = ''console=ttyS0 reboot=k panic=1 pci=off root=/dev/vda rw init=/akssora-guest-agent''"

definition vm_boot :: "host_os \<Rightarrow> client \<Rightarrow> vm_manager_config \<Rightarrow> host \<Rightarrow> host \<times> (core_error + vm_manager)" where
  "vm_boot os cl cfg h =
     (let socket = vmc_socket_path cfg;
          put = put_request cl socket;
          h = remove_path (vmc_vsock_uds_path cfg) (remove_path socket h)
      in case os_spawn os ''/home/aks/./firecracker'' socket of
           Inl e \<Rightarrow> (h, Inl (ProcessSpawn ''firecracker'' e))
         | Inr pid \<Rightarrow>
             (let h = h\<lparr>ho_running := insert pid (ho_running h)\<rparr>
              in and_then (map_err BootConfig (put ''/boot-source'' (BootSourceBody
                   \<lparr>bs_kernel_image_path = vmc_kernel_path cfg, bs_boot_args = vm_boot_args\<rparr>) h)) (\<lambda>_ h.
                 and_then (map_err RootfsConfig (put ''/drives/rootfs'' (DriveBody
                   \<lparr>dr_drive_id = ''rootfs'', dr_path_on_host = vmc_rootfs_path cfg, dr_is_root_device = True,
                    dr_is_read_only = False\<rparr>) h)) (\<lambda>_ h.
                 and_then (map_err MachineConfig (put ''/machine-config'' (MachineBody
                   \<lparr>mc_vcpu_count = vmc_vcpu_count cfg, mc_mem_size_mib = vmc_mem_size_mib cfg\<rparr>) h)) (\<lambda>_ h.
                 and_then (map_err VsockConfig (put ''/vsock'' (VsockBody
                   \<lparr>vc_guest_cid = 3, vc_uds_path = vmc_vsock_uds_path cfg\<rparr>) h)) (\<lambda>_ h.
                 and_then (map_err StartMicroVM (put ''/actions'' (ActionBody
                   \<lparr>va_action_type = ''InstanceStart''\<rparr>) h)) (\<lambda>_ h.
                   (h, Inr \<lparr>vmm_process = pid, vmm_client = socket,
                      vmm_vsock_uds_path = vmc_vsock_uds_path cfg\<rparr>))))))))"

definition vm_destroy :: "host_os \<Rightarrow> vm_manager \<Rightarrow> host \<Rightarrow> host \<times> (core_error + unit)" where
  "vm_destroy os vm h =
     (case os_kill os (vmm_process vm) of
        Some e \<Rightarrow> (h, Inl (KillMicroVM e))
      | None \<Rightarrow>
          (let h' = h\<lparr>ho_running := ho_running h - {vmm_process vm}\<rparr>
           in case os_wait os (vmm_process vm) of
                Some e \<Rightarrow> (h', Inl (KillMicroVM e))
              | None \<Rightarrow> (h', Inr ())))"

section \<open>Commands\<close>

text \<open>One response: the length, the body, the message, each failure an error of the call.\<close>

definition vm_read_response :: "rsp_decoder \<Rightarrow> stream \<Rightarrow> stream \<times> (core_error + guest_response)" where
  "vm_read_response dec s =
     and_then (map_err Io (read_exact 4 s)) (\<lambda>len_buf s.
     and_then (map_err Io (read_exact (unat (from_be_bytes len_buf)) s)) (\<lambda>body s.
       case dec body of Inl e \<Rightarrow> (s, Inl (Serialization e)) | Inr response \<Rightarrow> (s, Inr response)))"

lemma vm_read_shorter:
  assumes "vm_read_response dec s = (s', Inr r)"
  shows "length (st_in s') < length (st_in s)"
  using assms
  by (auto simp: vm_read_response_def and_then_def map_err_def dest!: read_exact_in
      split: prod.splits sum.splits)

function vm_collect ::
    "rsp_decoder \<Rightarrow> bytes \<Rightarrow> bytes \<Rightarrow> stream \<Rightarrow> stream \<times> (core_error + vm_exec_output)" where
  "vm_collect dec out err s =
     (case vm_read_response dec s of
        (s1, Inl error) \<Rightarrow> (s1, Inl error)
      | (s1, Inr response) \<Rightarrow>
          (case response of
             Stdout bs \<Rightarrow> vm_collect dec (out @ bs) err s1
           | Stderr bs \<Rightarrow> vm_collect dec out (err @ bs) s1
           | Exit code \<Rightarrow> (s1, Inr \<lparr>veo_stdout = out, veo_stderr = err, veo_exit_code = code\<rparr>)
           | _ \<Rightarrow> vm_collect dec out err s1))"
  by pat_completeness auto
termination
  by (relation "measure (\<lambda>(_, _, _, s). length (st_in s))") (auto intro: vm_read_shorter dest: sym)

declare vm_collect.simps [simp del]

text \<open>The greeting is read as a line: what there is when the stream ends, but an error of the stream before
  the end of the line is an error of the call. \<open>text_of\<close> reads it as text, which may fail.\<close>

definition vm_read_line :: "stream \<Rightarrow> stream \<times> (io_error + bytes)" where
  "vm_read_line s =
     (case read_reply s of
        (s', line) \<Rightarrow>
          if line \<noteq> [] \<and> last line = 10 \<or> st_end s = UnexpectedEof then (s', Inr line) else (s', Inl (st_end s)))"

definition vm_exec ::
    "rq_encoder \<Rightarrow> rsp_decoder \<Rightarrow> (bytes \<Rightarrow> io_error + string) \<Rightarrow> io_error + stream \<Rightarrow> string \<Rightarrow>
     core_error + vm_exec_output" where
  "vm_exec enc dec text_of connection cmd =
     (case connection of
        Inl e \<Rightarrow> Inl (VsockConnect e)
      | Inr s \<Rightarrow>
          (case write_all connect_line s of
             (s, Some e) \<Rightarrow> Inl (Io e)
           | (s, None) \<Rightarrow>
               (case vm_read_line s of
                  (s, Inl e) \<Rightarrow> Inl (Io e)
                | (s, Inr reply) \<Rightarrow>
                    (case text_of reply of
                       Inl e \<Rightarrow> Inl (Io e)
                     | Inr line \<Rightarrow>
                         if \<not> prefix ''OK'' line then Inl (VsockConnect (IoFailed line))
                         else (case enc (Exec cmd) of
                                 Inl e \<Rightarrow> Inl (Serialization e)
                               | Inr json \<Rightarrow>
                                   (case write_all (to_be_bytes (of_nat (length json))) s of
                                      (s, Some e) \<Rightarrow> Inl (Io e)
                                    | (s, None) \<Rightarrow>
                                        (case write_all json s of
                                           (s, Some e) \<Rightarrow> Inl (Io e)
                                         | (s, None) \<Rightarrow> snd (vm_collect dec [] [] s))))))))"

section \<open>The session and the command line\<close>

record cli_session =
  cls_session_id :: uuid
  cls_vm_manager :: vm_manager

datatype session_error = BootError string | CloseError string

definition cli_config :: "host_os \<Rightarrow> uuid \<Rightarrow> vm_manager_config" where
  "cli_config os session_id =
     (let base = path_join (os_temp_dir os) (os_show_uuid os session_id)
      in \<lparr>vmc_rootfs_path = ''/home/aks/vs_stuff/Development/rust_devs/akssora/images/rootfs.ext4'',
          vmc_kernel_path = ''/home/aks/vs_stuff/Development/rust_devs/akssora/images/vmlinux'',
          vmc_vcpu_count = 2, vmc_mem_size_mib = 512, vmc_socket_path = path_join base ''firecracker.socket'',
          vmc_vsock_uds_path = path_join base ''vsock.socket''\<rparr>)"

definition cli_session_new ::
    "host_os \<Rightarrow> client \<Rightarrow> uuid \<Rightarrow> uuid \<Rightarrow> host \<Rightarrow> host \<times> (session_error + cli_session)" where
  "cli_session_new os cl session_id other_id h =
     (let h = fst (create_dir_all os (path_join (os_temp_dir os) (os_show_uuid os session_id)) h)
      in and_then (map_err (\<lambda>e. BootError (''Fail to boot the virtualManager '' @ show_error (os_eof os) e))
             (vm_boot os cl (cli_config os session_id) h)) (\<lambda>vm h.
           (h, Inr \<lparr>cls_session_id = other_id, cls_vm_manager = vm\<rparr>)))"

definition cli_session_close :: "host_os \<Rightarrow> cli_session \<Rightarrow> host \<Rightarrow> host \<times> (session_error + unit)" where
  "cli_session_close os s h =
     map_err (\<lambda>e. CloseError (''Fail to destroy the virtualManager '' @ show_error (os_eof os) e))
       (vm_destroy os (cls_vm_manager s) h)"

datatype cli_error = CliSession session_error | CliCore core_error

text \<open>\<open>akssora run <cmd>\<close>; the output is printed before the machine is closed, so the result has what
  was printed also when closing fails.\<close>

definition cli_run ::
    "host_os \<Rightarrow> client \<Rightarrow> (string \<Rightarrow> core_error + vm_exec_output) \<Rightarrow> uuid \<Rightarrow> uuid \<Rightarrow> string \<Rightarrow> host \<Rightarrow>
     host \<times> (bytes \<times> bytes) \<times> (cli_error + i32)" where
  "cli_run os cl exec id1 id2 cmd h =
     (case cli_session_new os cl id1 id2 h of
        (h, Inl e) \<Rightarrow> (h, ([], []), Inl (CliSession e))
      | (h, Inr s) \<Rightarrow>
          (case exec cmd of
             Inl e \<Rightarrow> (h, ([], []), Inl (CliCore e))
           | Inr out \<Rightarrow>
               (case cli_session_close os s h of
                  (h, Inl e) \<Rightarrow> (h, (veo_stdout out, veo_stderr out), Inl (CliSession e))
                | (h, Inr _) \<Rightarrow> (h, (veo_stdout out, veo_stderr out), Inr (veo_exit_code out)))))"

section \<open>The two ways to run a command\<close>

lemma vm_read_good:
  assumes "codec_ok enc dec m" "st_in s = frame enc m @ rest"
  shows "vm_read_response dec s = (s\<lparr>st_in := rest\<rparr>, Inr m)"
  using assms read_prefix [of s _ "json_of enc m @ rest"]
  by (simp add: vm_read_response_def codec_ok_def frame_def unat_frame_length read_exact_def)

lemma vm_read_cut:
  assumes "codec_ok enc dec m" "k < length (frame enc m)" "st_in s = take k (frame enc m)"
  shows "\<exists>s' e. vm_read_response dec s = (s', Inl (Io e))"
proof (cases "k < 4")
  case True
  with assms(3) have "length (st_in s) < 4" by (simp add: frame_def)
  then show ?thesis by (simp add: vm_read_response_def read_exact_def)
next
  case False
  let ?j = "json_of enc m"
  have "st_in s = to_be_bytes (of_nat (length ?j)) @ take (k - 4) ?j" "k - 4 < length ?j"
    using assms(2,3) False by (simp_all add: frame_def)
  with read_prefix [OF this(1)] assms(1) show ?thesis
    by (simp add: vm_read_response_def codec_ok_def unat_frame_length) (simp add: read_exact_def)
qed

lemma vm_collect_plain:
  "\<forall>m\<in>set ms. codec_ok enc dec m \<and> plain_output m \<Longrightarrow> st_in s = concat (map (frame enc) ms) @ rest \<Longrightarrow>
   vm_collect dec out err s = vm_collect dec (out @ stdout_of ms) (err @ stderr_of ms) (s\<lparr>st_in := rest\<rparr>)"
proof (induction ms arbitrary: out err s)
  case Nil
  then have "s\<lparr>st_in := rest\<rparr> = s" by simp
  then show ?case by simp
next
  case (Cons m ms)
  let ?s = "s\<lparr>st_in := concat (map (frame enc) ms) @ rest\<rparr>"
  have "vm_read_response dec s = (?s, Inr m)"
    using vm_read_good [of enc dec m s "concat (map (frame enc) ms) @ rest"] Cons.prems by simp
  moreover obtain bs where "m = Stdout bs \<or> m = Stderr bs" using Cons.prems(1) by (auto simp: plain_output_def)
  ultimately show ?case
    using Cons.IH [of ?s] Cons.prems by (subst vm_collect.simps) auto
qed

lemma vm_exec_greeted:
  assumes "greeting_ok g" "text_of g = Inr line" "prefix ''OK'' line" "writable s" "st_in s = g @ rest"
    and "codec_ok encr decr (Exec cmd)"
  shows "vm_exec encr dec text_of (Inr s) cmd = snd (vm_collect dec [] []
    (s\<lparr>st_in := rest, st_out := st_out s @ connect_line @ frame encr (Exec cmd)\<rparr>))"
proof -
  obtain l where l: "g = l @ [10]" "10 \<notin> set l" using assms(1) by (auto simp: greeting_ok_def)
  have w: "writable (s\<lparr>st_in := i, st_out := out\<rparr>)" "writable (s\<lparr>st_out := out\<rparr>)" for i out
    using assms(4) by (simp_all add: writable_def)
  have "vm_read_line (s\<lparr>st_out := out\<rparr>) = (s\<lparr>st_in := rest, st_out := out\<rparr>, Inr g)" for out
    using l assms(5) take_line_greeting [OF l(2)] by (simp add: vm_read_line_def read_reply_def)
  then show ?thesis
    using assms(2-4,6) w by (simp add: vm_exec_def write_all_writable codec_ok_def frame_def)
qed

text \<open>Both have sent the same request when they read what follows the output.\<close>

lemma both_execs:
  assumes "\<forall>r\<in>set rs. codec_ok enc dec r \<and> plain_output r" "codec_ok encr decr (Exec cmd)" "writable s"
    and "greeting_ok g" "text_of g = Inr line" "prefix ''OK'' line" "st_in s = g @ concat (map (frame enc) rs) @ after"
  obtains sent where "st_in sent = after"
    "vm_exec encr dec text_of (Inr s) cmd = snd (vm_collect dec (stdout_of rs) (stderr_of rs) sent)"
    "session_exec encr dec [(Connected s, t)] cmd =
      Some (Inr (collect_output (rs @ forward_responses dec sent) no_output))"
proof -
  define sent where "sent = s\<lparr>st_out := st_out s @ connect_line @ frame encr (Exec cmd)\<rparr>"
  have sent: "s\<lparr>st_in := i, st_out := st_out s @ connect_line @ frame encr (Exec cmd)\<rparr> = sent\<lparr>st_in := i\<rparr>" for i
    by (simp add: sent_def)
  have plain: "\<forall>m\<in>set rs. codec_ok enc dec m \<and> \<not> is_terminal_response m"
    using assms(1) by (auto simp: plain_output_def)
  have "vm_exec encr dec text_of (Inr s) cmd =
      snd (vm_collect dec (stdout_of rs) (stderr_of rs) (sent\<lparr>st_in := after\<rparr>))"
    using vm_exec_greeted [where text_of = text_of and dec = dec, OF assms(4,5,6,3,7,2)]
      vm_collect_plain [OF assms(1), of "sent\<lparr>st_in := concat (map (frame enc) rs) @ after\<rparr>" after "[]" "[]"]
    by (simp add: sent)
  moreover have "session_exec encr dec [(Connected s, t)] cmd =
      Some (Inr (collect_output (rs @ forward_responses dec (sent\<lparr>st_in := after\<rparr>)) no_output))"
    using exec_stream_greeted [OF assms(4,3,7,2), of dec t "[]"]
      forward_many [OF plain, of "sent\<lparr>st_in := concat (map (frame enc) rs) @ after\<rparr>" after]
    by (simp add: session_exec_def sent)
  ultimately show thesis using that [of "sent\<lparr>st_in := after\<rparr>"] by simp
qed

text \<open>
  C40. The two ways to run a command over the same connection agree on every complete answer: output
  in any order, ended by the exit status, gives the same output and the same status. They differ
  when the connection breaks before the end: the older manager reports an error, the session
  reports success with the status -1.
\<close>

theorem two_execs_agree:
  assumes "\<forall>r\<in>set rs. codec_ok enc dec r \<and> plain_output r" "codec_ok enc dec (Exit code)"
    and "codec_ok encr decr (Exec cmd)" "writable s" "greeting_ok g" "text_of g = Inr line" "prefix ''OK'' line"
  shows "(st_in s = g @ concat (map (frame enc) (rs @ [Exit code])) @ rest \<longrightarrow>
      vm_exec encr dec text_of (Inr s) cmd =
        Inr \<lparr>veo_stdout = stdout_of rs, veo_stderr = stderr_of rs, veo_exit_code = code\<rparr> \<and>
      session_exec encr dec [(Connected s, t)] cmd =
        Some (Inr \<lparr>eo_stdout = stdout_of rs, eo_stderr = stderr_of rs, eo_exit_code = code, eo_output = []\<rparr>)) \<and>
    (\<forall>r k. codec_ok enc dec r \<and> k < length (frame enc r) \<and>
      st_in s = g @ concat (map (frame enc) rs) @ take k (frame enc r) \<longrightarrow>
      (\<exists>e. vm_exec encr dec text_of (Inr s) cmd = Inl (Io e)) \<and>
      session_exec encr dec [(Connected s, t)] cmd =
        Some (Inr \<lparr>eo_stdout = stdout_of rs, eo_stderr = stderr_of rs, eo_exit_code = - 1, eo_output = []\<rparr>))"
proof -
  have plain: "\<forall>m\<in>set rs. plain_output m" using assms(1) by blast
  have whole: "vm_exec encr dec text_of (Inr s) cmd =
        Inr \<lparr>veo_stdout = stdout_of rs, veo_stderr = stderr_of rs, veo_exit_code = code\<rparr> \<and>
      session_exec encr dec [(Connected s, t)] cmd =
        Some (Inr \<lparr>eo_stdout = stdout_of rs, eo_stderr = stderr_of rs, eo_exit_code = code, eo_output = []\<rparr>)"
    if w: "st_in s = g @ concat (map (frame enc) (rs @ [Exit code])) @ rest"
  proof -
    obtain sent where sent: "st_in sent = frame enc (Exit code) @ rest"
      "vm_exec encr dec text_of (Inr s) cmd = snd (vm_collect dec (stdout_of rs) (stderr_of rs) sent)"
      "session_exec encr dec [(Connected s, t)] cmd =
        Some (Inr (collect_output (rs @ forward_responses dec sent) no_output))"
      by (rule both_execs [where text_of = text_of and g = g and after = "frame enc (Exit code) @ rest" and t = t,
          OF assms(1,3-7)]) (use w in simp_all)
    have "snd (vm_collect dec out err sent) = Inr \<lparr>veo_stdout = out, veo_stderr = err, veo_exit_code = code\<rparr>" for out err
      using vm_read_good [OF assms(2) sent(1)] by (subst vm_collect.simps) simp
    with sent forward_good [OF assms(2) sent(1)] collect_plain [OF plain, of "[Exit code]" no_output] show ?thesis
      by (simp add: no_output_def)
  qed
  have broken: "(\<exists>e. vm_exec encr dec text_of (Inr s) cmd = Inl (Io e)) \<and>
      session_exec encr dec [(Connected s, t)] cmd =
        Some (Inr \<lparr>eo_stdout = stdout_of rs, eo_stderr = stderr_of rs, eo_exit_code = - 1, eo_output = []\<rparr>)"
    if b: "codec_ok enc dec r" "k < length (frame enc r)"
      "st_in s = g @ concat (map (frame enc) rs) @ take k (frame enc r)" for r k
  proof -
    obtain sent where sent: "st_in sent = take k (frame enc r)"
      "vm_exec encr dec text_of (Inr s) cmd = snd (vm_collect dec (stdout_of rs) (stderr_of rs) sent)"
      "session_exec encr dec [(Connected s, t)] cmd =
        Some (Inr (collect_output (rs @ forward_responses dec sent) no_output))"
      by (rule both_execs [where text_of = text_of and g = g and after = "take k (frame enc r)" and t = t,
          OF assms(1,3-7)]) (use b(3) in simp_all)
    obtain s' e where "vm_read_response dec sent = (s', Inl (Io e))" using vm_read_cut [OF b(1,2) sent(1)] by auto
    then have "snd (vm_collect dec out err sent) = Inl (Io e)" for out err by (subst vm_collect.simps) simp
    with sent forward_cut [OF b(1,2) sent(1)] collect_plain [OF plain, of "[]" no_output] show ?thesis
      by (simp add: no_output_def)
  qed
  from whole broken show ?thesis by blast
qed

theorem two_execs_agree_witness:
  "\<exists>e. vm_exec (fst (const_codec (Exec ''x''))) sample_exec_dec (\<lambda>_. Inr ''OK 1'')
     (Inr (sample_stream\<lparr>st_in := [79, 75, 10] @ [0, 0, 0, 2, 1, 104] @ [0, 0]\<rparr>)) ''x'' = Inl (Io e) \<and>
   session_exec (fst (const_codec (Exec ''x''))) sample_exec_dec
     [(Connected (sample_stream\<lparr>st_in := [79, 75, 10] @ [0, 0, 0, 2, 1, 104] @ [0, 0]\<rparr>), 5)] ''x'' =
   Some (Inr \<lparr>eo_stdout = [104], eo_stderr = [], eo_exit_code = - 1, eo_output = []\<rparr>)"
proof -
  define s where "s = sample_stream\<lparr>st_in := [79, 75, 10] @ [0, 0, 0, 2, 1, 104] @ [0, 0]\<rparr>"
  have codecs: "\<forall>r\<in>set [Stdout [104]]. codec_ok sample_exec_enc sample_exec_dec r \<and> plain_output r"
    "codec_ok sample_exec_enc sample_exec_dec (Exit 0)"
    by (simp_all add: codec_ok_def sample_exec_enc_def sample_exec_dec_def json_of_def MAX_FRAME_SIZE_def plain_output_def)
  have greeting: "greeting_ok [79, 75, 10]" "prefix ''OK'' ''OK 1''"
    by (simp_all add: greeting_ok_def text_bytes_def)
  have frames: "frame sample_exec_enc (Stdout [104]) = [0, 0, 0, 2, 1, 104]" "frame sample_exec_enc (Exit 0) = [0, 0, 0, 1, 0]"
    by (simp_all add: frame_def json_of_def sample_exec_enc_def to_be_bytes_def)
  have s: "writable s" "st_in s = [79, 75, 10] @ concat (map (frame sample_exec_enc) [Stdout [104]]) @
      take 2 (frame sample_exec_enc (Exit 0))" "2 < length (frame sample_exec_enc (Exit 0))"
    by (simp_all add: s_def frames writable_def sample_stream_def)
  have "(\<exists>e. vm_exec (fst (const_codec (Exec ''x''))) sample_exec_dec (\<lambda>_. Inr ''OK 1'') (Inr s) ''x'' = Inl (Io e)) \<and>
    session_exec (fst (const_codec (Exec ''x''))) sample_exec_dec [(Connected s, 5)] ''x'' =
      Some (Inr \<lparr>eo_stdout = stdout_of [Stdout [104]], eo_stderr = stderr_of [Stdout [104]],
        eo_exit_code = - 1, eo_output = []\<rparr>)"
    using two_execs_agree [where text_of = "\<lambda>_. Inr ''OK 1''" and rest = "[]" and t = 5,
        OF codecs const_codec_ok s(1) greeting(1) refl greeting(2), THEN conjunct2] s(2,3) codecs(2) by blast
  then show ?thesis by (simp add: s_def)
qed

text \<open>A command line whose command fails leaves its machine running.\<close>

lemma failed_run_leaves_machine:
  assumes "cli_session_new os cl id1 id2 h = (h1, Inr s)" "exec cmd = Inl e"
  shows "cli_run os cl exec id1 id2 cmd h = (h1, ([], []), Inl (CliCore e)) \<and>
    vmm_process (cls_vm_manager s) \<in> ho_running h1"
proof -
  have calls: "ho_running (fst (put_request cl so p b x)) = ho_running x" for so p b x
    by (simp add: put_request_def)
  have "vm_boot os cl cfg h0 = (h1, Inr vm) \<Longrightarrow> vmm_process vm \<in> ho_running h1" for cfg h0 vm
    by (auto simp: vm_boot_def Let_def and_then_Inr map_err_def put_request_def api_request_def
        split: sum.splits prod.splits)
  then have "vmm_process (cls_vm_manager s) \<in> ho_running h1"
    using assms(1) by (auto simp: cli_session_new_def Let_def and_then_Inr map_err_def split: sum.splits prod.splits)
  with assms show ?thesis by (simp add: cli_run_def)
qed

end
