(* ===== verification/Record_Db.thy ===== *)
theory Record_Db
  imports Host_Session Guest_Shell "HOL-Library.AList"
begin

text \<open>
  What the stores of the host share: the embedded database they keep their records in (\<open>sled\<close>) and the
  encoding of the records (\<open>serde_json\<close>), both parameters, and the three operations that the pool's
  store (\<open>akssora-core/src/pool/store.rs\<close>) and the template store
  (\<open>akssora-core/src/templates/store.rs\<close>) write in the same way.
\<close>

section \<open>The database\<close>

text \<open>The operations of a database with the state \<open>'db\<close>; each may fail with a text. Iterating gives
  items, each an entry or an error.\<close>

record 'db database =
  db_get :: "bytes \<Rightarrow> 'db \<Rightarrow> 'db \<times> (string + bytes option)"
  db_insert :: "bytes \<Rightarrow> bytes \<Rightarrow> 'db \<Rightarrow> 'db \<times> (string + unit)"
  db_remove :: "bytes \<Rightarrow> 'db \<Rightarrow> 'db \<times> (string + bytes option)"
  db_flush :: "'db \<Rightarrow> 'db \<times> (string + unit)"
  db_iter :: "'db \<Rightarrow> 'db \<times> (string + bytes \<times> bytes) list"

text \<open>What the stores rely on. \<open>view\<close> is the mapping that a state stands for: a call that fails does
  not change it, inserting and removing change one key, reading and flushing change nothing, and an
  iteration without an error gives every entry once.\<close>

definition database_ok :: "'db database \<Rightarrow> ('db \<Rightarrow> bytes \<rightharpoonup> bytes) \<Rightarrow> bool" where
  "database_ok D view \<longleftrightarrow>
     (\<forall>k db. view (fst (db_get D k db)) = view db \<and>
       (\<forall>v. snd (db_get D k db) = Inr v \<longrightarrow> v = view db k)) \<and>
     (\<forall>k v db. view (fst (db_insert D k v db)) =
       (case snd (db_insert D k v db) of Inl _ \<Rightarrow> view db | Inr _ \<Rightarrow> (view db)(k \<mapsto> v))) \<and>
     (\<forall>k db. view (fst (db_remove D k db)) =
       (case snd (db_remove D k db) of Inl _ \<Rightarrow> view db | Inr _ \<Rightarrow> (view db)(k := None)) \<and>
       (\<forall>v. snd (db_remove D k db) = Inr v \<longrightarrow> v = view db k)) \<and>
     (\<forall>db. view (fst (db_flush D db)) = view db) \<and>
     (\<forall>db. view (fst (db_iter D db)) = view db \<and>
       (\<forall>kvs. snd (db_iter D db) = map Inr kvs \<longrightarrow>
          distinct (map fst kvs) \<and> set kvs = {(k, v). view db k = Some v}))"

section \<open>Records\<close>

definition on_db :: "'db \<times> (string + 'a) \<Rightarrow> 'db \<times> (core_error + 'a)" where
  "on_db m = map_err Database m"

definition store_insert ::
    "'db database \<Rightarrow> ('r \<Rightarrow> string + bytes) \<Rightarrow> bytes \<Rightarrow> 'r \<Rightarrow> 'db \<Rightarrow> 'db \<times> (core_error + unit)" where
  "store_insert D ser key r db =
     (case ser r of
        Inl e \<Rightarrow> (db, Inl (Serialization e))
      | Inr bytes \<Rightarrow>
          and_then (on_db (db_insert D key bytes db)) (\<lambda>_ db.
          and_then (on_db (db_flush D db)) (\<lambda>_ db. (db, Inr ()))))"

definition decode_found :: "(bytes \<Rightarrow> string + 'r) \<Rightarrow> bytes option \<Rightarrow> core_error + 'r option" where
  "decode_found de found =
     (case found of
        None \<Rightarrow> Inr None
      | Some bytes \<Rightarrow> (case de bytes of Inl e \<Rightarrow> Inl (Serialization e) | Inr r \<Rightarrow> Inr (Some r)))"

definition store_get ::
    "'db database \<Rightarrow> (bytes \<Rightarrow> string + 'r) \<Rightarrow> bytes \<Rightarrow> 'db \<Rightarrow> 'db \<times> (core_error + 'r option)" where
  "store_get D de key db = and_then (on_db (db_get D key db)) (\<lambda>found db. (db, decode_found de found))"

definition store_delete ::
    "'db database \<Rightarrow> (bytes \<Rightarrow> string + 'r) \<Rightarrow> bytes \<Rightarrow> 'db \<Rightarrow> 'db \<times> (core_error + 'r option)" where
  "store_delete D de key db =
     and_then (on_db (db_remove D key db)) (\<lambda>found db.
     and_then (on_db (db_flush D db)) (\<lambda>_ db. (db, decode_found de found)))"

section \<open>What the operations do\<close>

lemma text_bytes_inj [simp]: "text_bytes s = text_bytes t \<longleftrightarrow> s = t"
proof
  assume "text_bytes s = text_bytes t"
  moreover have "inj (of_char :: char \<Rightarrow> 8 word)"
  proof
    fix c d :: char assume "(of_char c :: 8 word) = of_char d"
    then have "unat (of_nat (of_char c) :: 8 word) = unat (of_nat (of_char d) :: 8 word)"
      by (simp add: of_nat_of_char)
    moreover have "(of_char c :: nat) < 256" for c using nat_of_char_less_256 [of c] by simp
    ultimately show "c = d" by (simp add: unat_of_nat)
  qed
  ultimately show "s = t" unfolding text_bytes_def by (simp add: inj_map_eq_map)
qed simp

lemma on_db_simps [simp]: "on_db (s, Inl e) = (s, Inl (Database e))" "on_db (s, Inr x) = (s, Inr x)"
  by (simp_all add: on_db_def)

lemma db_get_view:
  "database_ok D view \<Longrightarrow> db_get D k db = (db', r) \<Longrightarrow> view db' = view db \<and> (\<forall>v. r = Inr v \<longrightarrow> v = view db k)"
  unfolding database_ok_def by (metis fst_conv snd_conv)

lemma db_insert_view:
  "database_ok D view \<Longrightarrow> db_insert D k v db = (db', r) \<Longrightarrow>
   view db' = (case r of Inl _ \<Rightarrow> view db | Inr _ \<Rightarrow> (view db)(k \<mapsto> v))"
  unfolding database_ok_def by (metis fst_conv snd_conv)

lemma db_remove_view:
  "database_ok D view \<Longrightarrow> db_remove D k db = (db', r) \<Longrightarrow>
   view db' = (case r of Inl _ \<Rightarrow> view db | Inr _ \<Rightarrow> (view db)(k := None)) \<and> (\<forall>v. r = Inr v \<longrightarrow> v = view db k)"
  unfolding database_ok_def by (metis fst_conv snd_conv)

lemma db_flush_view: "database_ok D view \<Longrightarrow> db_flush D db = (db', r) \<Longrightarrow> view db' = view db"
  unfolding database_ok_def by (metis fst_conv)

lemma db_iter_view:
  "database_ok D view \<Longrightarrow> db_iter D db = (db', items) \<Longrightarrow> view db' = view db \<and>
   (\<forall>kvs. items = map Inr kvs \<longrightarrow> distinct (map fst kvs) \<and> set kvs = {(k, v). view db k = Some v})"
  unfolding database_ok_def by (metis fst_conv snd_conv)

text \<open>A record that is stored is in the database, even when only the flush fails; a failure before
  that leaves everything as it was.\<close>

lemma store_insert_view:
  assumes "database_ok D view" "store_insert D ser key r db = (db', res)"
  shows "view db' = view db \<and> res \<noteq> Inr () \<or> (\<exists>bytes. ser r = Inr bytes \<and> view db' = (view db)(key \<mapsto> bytes))"
proof (cases "ser r")
  case (Inl e)
  with assms(2) show ?thesis by (auto simp: store_insert_def)
next
  case (Inr bytes)
  obtain db1 r1 where i: "db_insert D key bytes db = (db1, r1)" by fastforce
  obtain db2 r2 where f: "db_flush D db1 = (db2, r2)" by fastforce
  show ?thesis
    using assms(2) Inr i f db_insert_view [OF assms(1) i] db_flush_view [OF assms(1) f]
    by (cases r1; cases r2) (auto simp: store_insert_def)
qed

lemma store_insert_ok:
  assumes "database_ok D view" "store_insert D ser key r db = (db', Inr u)"
  shows "\<exists>bytes. ser r = Inr bytes \<and> view db' = (view db)(key \<mapsto> bytes)"
  using store_insert_view [OF assms] by simp

lemma store_get_view:
  assumes "database_ok D view" "store_get D de key db = (db', res)"
  shows "view db' = view db \<and> (\<forall>x. res = Inr x \<longrightarrow> decode_found de (view db key) = Inr x)"
proof -
  obtain db1 r where g: "db_get D key db = (db1, r)" by fastforce
  show ?thesis
    using assms(2) g db_get_view [OF assms(1) g] by (cases r) (auto simp: store_get_def)
qed

lemma store_delete_view:
  assumes "database_ok D view" "store_delete D de key db = (db', res)"
  shows "(view db' = view db \<and> res \<noteq> Inr None \<or> view db' = (view db)(key := None)) \<and>
    (\<forall>x. res = Inr x \<longrightarrow> view db' = (view db)(key := None) \<and> decode_found de (view db key) = Inr x)"
proof -
  obtain db1 r1 where i: "db_remove D key db = (db1, r1)" by fastforce
  obtain db2 r2 where f: "db_flush D db1 = (db2, r2)" by fastforce
  show ?thesis
    using assms(2) i f db_remove_view [OF assms(1) i] db_flush_view [OF assms(1) f]
    by (cases r1; cases r2) (auto simp: store_delete_def)
qed

section \<open>A database that is a list of entries\<close>

text \<open>For concrete examples: the entries, and how many more calls succeed.\<close>

type_synonym list_db = "(bytes \<times> bytes) list \<times> nat"

definition spend :: "list_db \<Rightarrow> (list_db \<Rightarrow> list_db \<times> (string + 'a)) \<Rightarrow> list_db \<times> (string + 'a)" where
  "spend db f = (case snd db of 0 \<Rightarrow> (db, Inl ''io'') | Suc n \<Rightarrow> f (fst db, n))"

definition list_database :: "list_db database" where
  "list_database = \<lparr>db_get = (\<lambda>k db. spend db (\<lambda>db. (db, Inr (map_of (fst db) k)))),
     db_insert = (\<lambda>k v db. spend db (\<lambda>db. ((AList.update k v (fst db), snd db), Inr ()))),
     db_remove = (\<lambda>k db. spend db (\<lambda>db. ((AList.delete k (fst db), snd db), Inr (map_of (fst db) k)))),
     db_flush = (\<lambda>db. spend db (\<lambda>db. (db, Inr ()))),
     db_iter = (\<lambda>db. case snd db of 0 \<Rightarrow> (db, [Inl ''io'']) | Suc n \<Rightarrow>
       ((fst db, n), map Inr (AList.clearjunk (fst db))))\<rparr>"

definition list_view :: "list_db \<Rightarrow> bytes \<rightharpoonup> bytes" where
  "list_view db = map_of (fst db)"

lemma list_database_ok: "database_ok list_database list_view"
proof -
  have inj: "map Inr xs = (map Inr ys :: (string + bytes \<times> bytes) list) \<longleftrightarrow> xs = ys" for xs ys
    by (simp add: inj_map_eq_map inj_def)
  have "Inl e # xs \<noteq> (map Inr ys :: (string + bytes \<times> bytes) list)" for e xs ys
    by (cases ys) auto
  then have none: "[Inl ''io''] \<noteq> (map Inr ys :: (string + bytes \<times> bytes) list)" for ys by blast
  have entries: "set (AList.clearjunk l) = {(k, v). map_of l k = Some v}" for l :: "(bytes \<times> bytes) list"
    using map_of_eq_Some_iff [OF distinct_clearjunk [of l]] by (auto simp: map_of_clearjunk)
  show ?thesis
    unfolding database_ok_def
    by (auto simp: list_database_def list_view_def spend_def update_conv' delete_conv' distinct_clearjunk
        entries inj none split: nat.splits)
qed

end
