(* ===== verification/Templates.thy ===== *)
theory Templates
  imports Record_Db
begin

text \<open>
  Templates: their store (\<open>akssora-core/src/templates/store.rs\<close>), the manager that builds and finds them
  (\<open>templates/mod.rs\<close>), the builder that makes a disk image out of a Dockerfile
  (\<open>templates/build.rs\<close>) and the registry of official templates (\<open>templates/official.rs\<close>). The hash
  function, the encoding of records, the parser of TOML and the answers of the programs that the
  builder runs are parameters.
\<close>

section \<open>The store\<close>

record template_record =
  tpl_id :: string
  tpl_name :: string
  tpl_rootfs_path :: string
  tpl_size_bytes :: u64
  tpl_created_at :: datetime

record 'db template_store =
  tst_db :: "'db database"
  tst_ser :: "template_record \<Rightarrow> string + bytes"
  tst_de :: "bytes \<Rightarrow> string + template_record"
  tst_sha256 :: "bytes \<Rightarrow> string"

definition compute_hash :: "'db template_store \<Rightarrow> string \<Rightarrow> string" where
  "compute_hash T content = ''sha256:'' @ tst_sha256 T (text_bytes content)"

definition template_insert :: "'db template_store \<Rightarrow> template_record \<Rightarrow> 'db \<Rightarrow> 'db \<times> (core_error + unit)" where
  "template_insert T r = store_insert (tst_db T) (tst_ser T) (text_bytes (tpl_id r)) r"

definition template_get :: "'db template_store \<Rightarrow> string \<Rightarrow> 'db \<Rightarrow> 'db \<times> (core_error + template_record option)" where
  "template_get T i = store_get (tst_db T) (tst_de T) (text_bytes i)"

text \<open>The first item that is an error, or does not decode, ends the listing.\<close>

fun decode_items ::
    "(bytes \<Rightarrow> string + 'r) \<Rightarrow> (string + bytes \<times> bytes) list \<Rightarrow> core_error + 'r list" where
  "decode_items de [] = Inr []"
| "decode_items de (Inl e # items) = Inl (Database e)"
| "decode_items de (Inr (k, v) # items) =
     (case de v of
        Inl e \<Rightarrow> Inl (Serialization e)
      | Inr r \<Rightarrow> (case decode_items de items of Inl e \<Rightarrow> Inl e | Inr rs \<Rightarrow> Inr (r # rs)))"

definition template_list :: "'db template_store \<Rightarrow> 'db \<Rightarrow> 'db \<times> (core_error + template_record list)" where
  "template_list T db = (case db_iter (tst_db T) db of (db', items) \<Rightarrow> (db', decode_items (tst_de T) items))"

definition template_delete :: "'db template_store \<Rightarrow> string \<Rightarrow> 'db \<Rightarrow> 'db \<times> (core_error + template_record option)" where
  "template_delete T i = store_delete (tst_db T) (tst_de T) (text_bytes i)"

section \<open>The manager\<close>

record template_spec =
  tsp_name :: string
  tsp_dockerfile :: string

text \<open>\<open>str::replace\<close> with an empty replacement.\<close>

function remove_all :: "string \<Rightarrow> string \<Rightarrow> string" where
  "remove_all pat s =
     (case s of
        [] \<Rightarrow> []
      | c # cs \<Rightarrow> if pat \<noteq> [] \<and> prefix pat s then remove_all pat (drop (length pat) s) else c # remove_all pat cs)"
  by pat_completeness auto
termination
  by (relation "measure (\<lambda>(_, s). length s)") (auto simp: less_Suc_eq_le neq_Nil_conv)

declare remove_all.simps [simp del]

text \<open>The world the builder acts on is \<open>'w\<close>: it can make directories, tell whether a file exists, and
  build an image at a path, which gives its size.\<close>

record 'w image_world =
  iw_mkdir :: "string \<Rightarrow> 'w \<Rightarrow> 'w \<times> (core_error + unit)"
  iw_exists :: "string \<Rightarrow> 'w \<Rightarrow> bool"
  iw_build :: "string \<Rightarrow> string \<Rightarrow> string \<Rightarrow> 'w \<Rightarrow> 'w \<times> (core_error + u64)"

record ('db, 'w) template_manager =
  tm_store :: "'db template_store"
  tm_storage_dir :: string
  tm_builder :: "'w image_world"

definition on_store :: "('db \<Rightarrow> 'db \<times> 'r) \<Rightarrow> 'db \<times> 'w \<Rightarrow> ('db \<times> 'w) \<times> 'r" where
  "on_store f st = (case f (fst st) of (db, r) \<Rightarrow> ((db, snd st), r))"

definition on_world :: "('w \<Rightarrow> 'w \<times> 'r) \<Rightarrow> 'db \<times> 'w \<Rightarrow> ('db \<times> 'w) \<times> 'r" where
  "on_world f st = (case f (snd st) of (w, r) \<Rightarrow> ((fst st, w), r))"

text \<open>The file of the image that is built for a Dockerfile.\<close>

definition template_image :: "('db, 'w) template_manager \<Rightarrow> string \<Rightarrow> string" where
  "template_image M dockerfile =
     path_join (tm_storage_dir M) (remove_all ''sha256:'' (compute_hash (tm_store M) dockerfile) @ ''.ext4'')"

text \<open>The second part of \<open>create_template\<close>, without a record or without the file it names.\<close>

definition build_and_record ::
    "('db, 'w) template_manager \<Rightarrow> datetime \<Rightarrow> template_spec \<Rightarrow> 'db \<times> 'w \<Rightarrow>
     ('db \<times> 'w) \<times> (core_error + template_record)" where
  "build_and_record M now spec st =
     (let output = template_image M (tsp_dockerfile spec)
      in and_then (on_world (iw_mkdir (tm_builder M) (tm_storage_dir M)) st) (\<lambda>_ st.
         and_then (on_world (iw_build (tm_builder M) (tsp_name spec) (tsp_dockerfile spec) output) st) (\<lambda>n st.
         let record = \<lparr>tpl_id = compute_hash (tm_store M) (tsp_dockerfile spec), tpl_name = tsp_name spec,
               tpl_rootfs_path = output, tpl_size_bytes = n, tpl_created_at = now\<rparr>
         in and_then (on_store (template_insert (tm_store M) record) st) (\<lambda>_ st. (st, Inr record)))))"

definition create_template ::
    "('db, 'w) template_manager \<Rightarrow> datetime \<Rightarrow> template_spec \<Rightarrow> 'db \<times> 'w \<Rightarrow>
     ('db \<times> 'w) \<times> (core_error + template_record)" where
  "create_template M now spec st =
     and_then (on_store (template_get (tm_store M) (compute_hash (tm_store M) (tsp_dockerfile spec))) st)
       (\<lambda>existing st.
          case existing of
            Some r \<Rightarrow>
              if iw_exists (tm_builder M) (tpl_rootfs_path r) (snd st) then (st, Inr r)
              else build_and_record M now spec st
          | None \<Rightarrow> build_and_record M now spec st)"

definition get_template ::
    "('db, 'w) template_manager \<Rightarrow> string \<Rightarrow> 'db \<Rightarrow> 'db \<times> (core_error + template_record option)" where
  "get_template M = template_get (tm_store M)"

definition list_templates :: "('db, 'w) template_manager \<Rightarrow> 'db \<Rightarrow> 'db \<times> (core_error + template_record list)" where
  "list_templates M = template_list (tm_store M)"

definition delete_template ::
    "('db, 'w) template_manager \<Rightarrow> string \<Rightarrow> 'db \<Rightarrow> 'db \<times> (core_error + template_record option)" where
  "delete_template M = template_delete (tm_store M)"

section \<open>The builder\<close>

text \<open>
  The builder runs programs. \<open>bo_answer\<close> says for each command, given the commands before it, whether
  it cannot be run or with what success it ends. \<open>bo_remove\<close> says in the same way what an attempt to
  remove a directory comes to, which may fail: whether the directory goes, and whether files in it do.
  The state has the commands so far, the directories made, the images mounted, each with its
  directory, and the images of which files were removed through a mount.
\<close>

record removal =
  rm_gone :: bool
  rm_files :: bool

record build_os =
  bo_temp_dir :: string
  bo_env :: "string \<rightharpoonup> string"
  bo_exists :: "string \<Rightarrow> bool"
  bo_mkdir :: "string \<Rightarrow> io_error option"
  bo_write :: "string \<Rightarrow> io_error option"
  bo_answer :: "string list list \<Rightarrow> string list \<Rightarrow> io_error + bool"
  bo_remove :: "string list list \<Rightarrow> string \<Rightarrow> removal"
  bo_length :: "string \<Rightarrow> io_error + u64"
  bo_parent :: "string \<Rightarrow> string option"
  bo_eof :: string

record build_state =
  bst_log :: "string list list"
  bst_dirs :: "string set"
  bst_mounted :: "(string \<times> string) list"
  bst_emptied :: "string set"

definition run_command :: "build_os \<Rightarrow> string list \<Rightarrow> build_state \<Rightarrow> build_state \<times> (io_error + bool)" where
  "run_command bo cmd st = (st\<lparr>bst_log := bst_log st @ [cmd]\<rparr>, bo_answer bo (bst_log st) cmd)"

text \<open>The error of a removal is ignored. The files of a directory that an image is mounted on are those of
  the image, and the directory itself is busy and stays.\<close>

definition remove_tree :: "build_os \<Rightarrow> string \<Rightarrow> build_state \<Rightarrow> build_state" where
  "remove_tree bo dir st =
     (let result = bo_remove bo (bst_log st) dir;
          mounted = {img. (img, dir) \<in> set (bst_mounted st)}
      in st\<lparr>bst_dirs := (if rm_gone result \<and> mounted = {} then bst_dirs st - {dir} else bst_dirs st),
            bst_emptied := (if rm_files result then bst_emptied st \<union> mounted else bst_emptied st)\<rparr>)"

definition make_dir :: "build_os \<Rightarrow> string \<Rightarrow> build_state \<Rightarrow> build_state \<times> (core_error + unit)" where
  "make_dir bo dir st =
     (case bo_mkdir bo dir of
        Some e \<Rightarrow> (st, Inl (Io e))
      | None \<Rightarrow> (st\<lparr>bst_dirs := insert dir (bst_dirs st)\<rparr>, Inr ()))"

definition cleanup_docker :: "build_os \<Rightarrow> string \<Rightarrow> string \<Rightarrow> string \<Rightarrow> build_state \<Rightarrow> build_state" where
  "cleanup_docker bo container_name tag temp_dir st =
     remove_tree bo temp_dir (fst (run_command bo [''docker'', ''rmi'', tag]
       (fst (run_command bo [''docker'', ''rm'', ''-f'', container_name] st))))"

definition candidate_agents :: "string list" where
  "candidate_agents =
     [''/home/aks/vs_stuff/Development/rust_devs/akssora/target/x86_64-unknown-linux-musl/release/akssora-guest-agent'',
      ''target/x86_64-unknown-linux-musl/release/akssora-guest-agent'',
      ''/usr/local/bin/akssora-guest-agent'']"

definition find_guest_agent_binary :: "build_os \<Rightarrow> string option" where
  "find_guest_agent_binary bo =
     (case bo_env bo ''AKSSORA_GUEST_AGENT_PATH'' of
        Some p \<Rightarrow> if bo_exists bo p then Some p else find (bo_exists bo) candidate_agents
      | None \<Rightarrow> find (bo_exists bo) candidate_agents)"

text \<open>A command whose failure ends the build: when it cannot be run, nothing is cleaned up.\<close>

definition required ::
    "build_os \<Rightarrow> string list \<Rightarrow> string \<Rightarrow> (build_state \<Rightarrow> build_state) \<Rightarrow> string \<Rightarrow>
     build_state \<Rightarrow> build_state \<times> (core_error + unit)" where
  "required bo cmd cannot cleanup fails st =
     and_then (map_err (\<lambda>e. TemplateBuild (cannot @ show_io (bo_eof bo) e)) (run_command bo cmd st)) (\<lambda>ok st.
       if ok then (st, Inr ()) else (cleanup st, Inl (TemplateBuild fails)))"

definition run_ignored :: "build_os \<Rightarrow> string list \<Rightarrow> build_state \<Rightarrow> build_state" where
  "run_ignored bo cmd st = fst (run_command bo cmd st)"

definition install_agent :: "build_os \<Rightarrow> string \<Rightarrow> build_state \<Rightarrow> build_state" where
  "install_agent bo mount_dir st =
     (case find_guest_agent_binary bo of
        None \<Rightarrow> st
      | Some agent \<Rightarrow>
          (let dest = path_join mount_dir ''akssora-guest-agent''
           in run_ignored bo [''sudo'', ''chmod'', ''+x'', dest]
                (run_ignored bo [''sudo'', ''cp'', agent, dest] st)))"

definition unmount :: "build_os \<Rightarrow> string \<Rightarrow> build_state \<Rightarrow> build_state" where
  "unmount bo mount_dir st =
     (case run_command bo [''sudo'', ''umount'', mount_dir] st of
        (st', Inr True) \<Rightarrow> st'\<lparr>bst_mounted := filter (\<lambda>(_, d). d \<noteq> mount_dir) (bst_mounted st')\<rparr>
      | (st', _) \<Rightarrow> st')"

text \<open>The last part: the files are exported into the mounted image, then everything is taken down, and
  only then is the success of the export looked at.\<close>

definition export_rootfs ::
    "build_os \<Rightarrow> string \<Rightarrow> (build_state \<Rightarrow> build_state) \<Rightarrow> string \<Rightarrow> string \<Rightarrow>
     build_state \<Rightarrow> build_state \<times> (core_error + u64)" where
  "export_rootfs bo container_name cleanup mount_dir output st =
     and_then (map_err (\<lambda>e. TemplateBuild (''failed to export rootfs: '' @ show_io (bo_eof bo) e))
         (run_command bo [''sh'', ''-c'',
           ''docker export '' @ container_name @ '' | sudo tar -C '' @ mount_dir @ '' -xf -''] st)) (\<lambda>exported st.
       let st = install_agent bo mount_dir st;
           st = run_ignored bo [''sudo'', ''mkdir'', ''-p'', path_join mount_dir ''dev'', path_join mount_dir ''proc'',
             path_join mount_dir ''sys'', path_join mount_dir ''tmp''] st;
           st = cleanup (remove_tree bo mount_dir (unmount bo mount_dir st))
       in if \<not> exported then (st, Inl (TemplateBuild ''failed to unpack exported container rootfs''))
          else (case bo_length bo output of Inl e \<Rightarrow> (st, Inl (Io e)) | Inr n \<Rightarrow> (st, Inr n)))"

definition build_steps ::
    "build_os \<Rightarrow> string \<Rightarrow> string \<Rightarrow> string \<Rightarrow> string \<Rightarrow> string \<Rightarrow> string \<Rightarrow> build_state \<Rightarrow>
     build_state \<times> (core_error + u64)" where
  "build_steps bo name tag container_name temp_dir mount_dir output st =
     (let dockerfile_path = path_join temp_dir ''Dockerfile'';
          cleanup = cleanup_docker bo container_name tag temp_dir
      in and_then (make_dir bo temp_dir st) (\<lambda>_ st.
         and_then (case bo_write bo dockerfile_path of Some e \<Rightarrow> (st, Inl (Io e)) | None \<Rightarrow> (st, Inr ())) (\<lambda>_ st.
         and_then (required bo [''docker'', ''build'', ''-t'', tag, ''-f'', dockerfile_path, temp_dir]
           ''failed to run docker build: '' (remove_tree bo temp_dir)
           (''docker build failed for template '' @ backticked name) st) (\<lambda>_ st.
         and_then (required bo [''docker'', ''create'', ''--name'', container_name, tag]
           ''failed to create container: ''
           (remove_tree bo temp_dir \<circ> run_ignored bo [''docker'', ''rmi'', tag])
           ''failed to create container from template image'' st) (\<lambda>_ st.
         and_then (case bo_parent bo output of None \<Rightarrow> (st, Inr ()) | Some parent \<Rightarrow> make_dir bo parent st) (\<lambda>_ st.
         and_then (required bo [''dd'', ''if=/dev/zero'', ''of='' @ output, ''bs=1M'', ''count=100'']
           ''failed to allocate disk: '' cleanup ''failed to allocate raw disk image'' st) (\<lambda>_ st.
         and_then (required bo [''mkfs.ext4'', ''-F'', output]
           ''failed to format ext4: '' cleanup ''failed to format ext4 rootfs'' st) (\<lambda>_ st.
         and_then (make_dir bo mount_dir st) (\<lambda>_ st.
         and_then (required bo [''sudo'', ''mount'', output, mount_dir]
           ''failed to mount ext4: '' (remove_tree bo mount_dir \<circ> cleanup)
           ''failed to mount ext4 image for rootfs export'' st) (\<lambda>_ st.
           export_rootfs bo container_name cleanup mount_dir output
             (st\<lparr>bst_mounted := (output, mount_dir) # bst_mounted st\<rparr>)))))))))))"

text \<open>The text of the Dockerfile is what is written to the file of that name.\<close>

definition build_template ::
    "build_os \<Rightarrow> string \<Rightarrow> string \<Rightarrow> string \<Rightarrow> string \<Rightarrow> build_state \<Rightarrow> build_state \<times> (core_error + u64)" where
  "build_template bo build_id name dockerfile output =
     build_steps bo name (''akssora-template-'' @ build_id) (''akssora-container-'' @ build_id)
       (path_join (bo_temp_dir bo) (''akssora-build-'' @ build_id))
       (path_join (bo_temp_dir bo) (''akssora-mount-'' @ build_id)) output"

section \<open>Official templates\<close>

record image_spec =
  is_base :: string
  is_format :: string

record resource_spec =
  rs_min_memory_mib :: u32
  rs_min_vcpus :: u32
  rs_recommended_memory_mib :: u32
  rs_recommended_vcpus :: u32

record permission_spec =
  ps_network_egress :: bool
  ps_max_connections :: u32

record template_metadata =
  tmd_id :: string
  tmd_name :: string
  tmd_version :: string
  tmd_description :: string
  tmd_agent :: string
  tmd_agent_version :: string
  tmd_category :: string
  tmd_maintainer :: string
  tmd_license :: string
  tmd_image :: image_spec
  tmd_dockerfile_inline :: string
  tmd_resources :: resource_spec
  tmd_permissions :: permission_spec

record official_template =
  ot_id :: string
  ot_name :: string
  ot_version :: string
  ot_description :: string
  ot_agent :: string
  ot_agent_version :: string
  ot_category :: string
  ot_maintainer :: string
  ot_license :: string
  ot_base_image :: string
  ot_image_format :: string
  ot_min_memory_mib :: u32
  ot_min_vcpus :: u32
  ot_recommended_memory_mib :: u32
  ot_recommended_vcpus :: u32
  ot_network_egress :: bool
  ot_loaded_at :: datetime

definition from_spec :: "datetime \<Rightarrow> template_metadata \<Rightarrow> official_template" where
  "from_spec now m =
     \<lparr>ot_id = tmd_id m, ot_name = tmd_name m, ot_version = tmd_version m, ot_description = tmd_description m,
      ot_agent = tmd_agent m, ot_agent_version = tmd_agent_version m, ot_category = tmd_category m,
      ot_maintainer = tmd_maintainer m, ot_license = tmd_license m, ot_base_image = is_base (tmd_image m),
      ot_image_format = is_format (tmd_image m), ot_min_memory_mib = rs_min_memory_mib (tmd_resources m),
      ot_min_vcpus = rs_min_vcpus (tmd_resources m),
      ot_recommended_memory_mib = rs_recommended_memory_mib (tmd_resources m),
      ot_recommended_vcpus = rs_recommended_vcpus (tmd_resources m),
      ot_network_egress = ps_network_egress (tmd_permissions m), ot_loaded_at = now\<rparr>"

record official_registry =
  or_templates :: "string \<rightharpoonup> official_template"
  or_versioned :: "string \<rightharpoonup> official_template"

definition new_official_registry :: official_registry where
  "new_official_registry = \<lparr>or_templates = Map.empty, or_versioned = Map.empty\<rparr>"

text \<open>An entry of the directory: it cannot be read, or it is a path, a directory or not, that has a
  \<open>template.toml\<close> or not, with what reading that gives.\<close>

datatype dir_entry =
    BadEntry
  | DirEntry bool "(io_error + string) option"

definition load_single ::
    "string \<Rightarrow> (string \<Rightarrow> string + template_metadata) \<Rightarrow> datetime \<Rightarrow> string \<Rightarrow> io_error + string \<Rightarrow>
     core_error + official_template" where
  "load_single eof parse now path content =
     (case content of
        Inl e \<Rightarrow> Inl (TemplateBuild (''failed to read '' @ path @ '': '' @ show_io eof e))
      | Inr toml \<Rightarrow>
          (case parse toml of
             Inl e \<Rightarrow> Inl (TemplateBuild (''failed to parse '' @ path @ '': '' @ e))
           | Inr spec \<Rightarrow> Inr (from_spec now spec)))"

definition versioned_key :: "string \<Rightarrow> string \<Rightarrow> string" where
  "versioned_key i version = i @ ''@'' @ version"

definition add_official :: "official_template \<Rightarrow> official_registry \<Rightarrow> official_registry" where
  "add_official t reg = reg\<lparr>or_templates := (or_templates reg)(ot_id t \<mapsto> t),
     or_versioned := (or_versioned reg)(versioned_key (ot_id t) (ot_version t) \<mapsto> t,
       versioned_key (ot_id t) ''latest'' \<mapsto> t)\<rparr>"

definition load_entry ::
    "string \<Rightarrow> (string \<Rightarrow> string + template_metadata) \<Rightarrow> datetime \<Rightarrow> string \<times> dir_entry \<Rightarrow>
     official_registry \<Rightarrow> official_registry" where
  "load_entry eof parse now pe reg =
     (case snd pe of
        BadEntry \<Rightarrow> reg
      | DirEntry is_dir toml \<Rightarrow>
          (if \<not> is_dir then reg
           else case toml of
             None \<Rightarrow> reg
           | Some content \<Rightarrow>
               (case load_single eof parse now (path_join (fst pe) ''template.toml'') content of
                  Inl _ \<Rightarrow> reg
                | Inr t \<Rightarrow> add_official t reg)))"

text \<open>The entries in the order the directory gives them, or nothing when it does not exist.\<close>

definition load_from_dir ::
    "string \<Rightarrow> (string \<Rightarrow> string + template_metadata) \<Rightarrow> datetime \<Rightarrow> string \<Rightarrow>
     (io_error + (string \<times> dir_entry) list) option \<Rightarrow> core_error + official_registry" where
  "load_from_dir eof parse now dir entries =
     (case entries of
        None \<Rightarrow> Inr new_official_registry
      | Some (Inl e) \<Rightarrow> Inl (TemplateBuild
          (''failed to read official templates dir '' @ dir @ '': '' @ show_io eof e))
      | Some (Inr es) \<Rightarrow> Inr (fold (load_entry eof parse now) es new_official_registry))"

definition official_get :: "string \<Rightarrow> official_registry \<Rightarrow> official_template option" where
  "official_get i reg = or_templates reg i"

definition get_versioned :: "string \<Rightarrow> string \<Rightarrow> official_registry \<Rightarrow> official_template option" where
  "get_versioned i version reg = or_versioned reg (versioned_key i version)"

definition official_list :: "string list \<Rightarrow> official_registry \<Rightarrow> official_template list" where
  "official_list ks reg = values_in ks (or_templates reg)"

definition official_list_by_agent :: "string list \<Rightarrow> string \<Rightarrow> official_registry \<Rightarrow> official_template list" where
  "official_list_by_agent ks agent reg = filter (\<lambda>t. ot_agent t = agent) (values_in ks (or_templates reg))"

definition official_count :: "official_registry \<Rightarrow> nat" where
  "official_count reg = card (dom (or_templates reg))"

section \<open>The registry loads what the directory holds\<close>

definition loaded_template ::
    "string \<Rightarrow> (string \<Rightarrow> string + template_metadata) \<Rightarrow> datetime \<Rightarrow> string \<times> dir_entry \<Rightarrow> official_template option" where
  "loaded_template eof parse now pe =
     (case snd pe of
        DirEntry True (Some content) \<Rightarrow>
          (case load_single eof parse now (path_join (fst pe) ''template.toml'') content of
             Inl _ \<Rightarrow> None | Inr t \<Rightarrow> Some t)
      | _ \<Rightarrow> None)"

definition loaded_templates ::
    "string \<Rightarrow> (string \<Rightarrow> string + template_metadata) \<Rightarrow> datetime \<Rightarrow> (string \<times> dir_entry) list \<Rightarrow> official_template list" where
  "loaded_templates eof parse now es = List.map_filter (loaded_template eof parse now) es"

fun last_with :: "('a \<Rightarrow> bool) \<Rightarrow> 'a list \<Rightarrow> 'a option" where
  "last_with P [] = None"
| "last_with P (x # xs) = (case last_with P xs of None \<Rightarrow> (if P x then Some x else None) | Some y \<Rightarrow> Some y)"

lemma load_entry_eq:
  "load_entry eof parse now pe reg = (case loaded_template eof parse now pe of None \<Rightarrow> reg | Some t \<Rightarrow> add_official t reg)"
  by (auto simp: load_entry_def loaded_template_def split: dir_entry.split option.split sum.split bool.split)

lemma fold_load:
  "fold (load_entry eof parse now) es reg = fold add_official (loaded_templates eof parse now es) reg"
  by (induction es arbitrary: reg)
    (auto simp: loaded_templates_def List.map_filter_def load_entry_eq split: option.split)

lemma versioned_key_eq:
  "CHR ''@'' \<notin> set i \<Longrightarrow> CHR ''@'' \<notin> set j \<Longrightarrow> versioned_key i v = versioned_key j w \<longleftrightarrow> i = j \<and> v = w"
proof (induction i arbitrary: j)
  case Nil
  then show ?case by (cases j) (auto simp: versioned_key_def)
next
  case (Cons c i)
  then show ?case by (cases j) (auto simp: versioned_key_def)
qed

lemma fold_add_lookup:
  assumes "CHR ''@'' \<notin> set i" "\<forall>t\<in>set ts. CHR ''@'' \<notin> set (ot_id t)"
  shows "or_templates (fold add_official ts reg) i =
      (case last_with (\<lambda>t. ot_id t = i) ts of None \<Rightarrow> or_templates reg i | Some t \<Rightarrow> Some t)"
    and "or_versioned (fold add_official ts reg) (versioned_key i v) =
      (case last_with (\<lambda>t. ot_id t = i \<and> (ot_version t = v \<or> v = ''latest'')) ts of
         None \<Rightarrow> or_versioned reg (versioned_key i v) | Some t \<Rightarrow> Some t)"
  using assms
  by (induction ts arbitrary: reg) (auto simp: add_official_def versioned_key_eq split: option.split)

text \<open>
  The registry of official templates holds every template of the directory that can be read and
  parsed, and nothing else. Looked up by its identifier, or by its identifier and version, it is the
  last one loaded with that identifier, or that identifier and version. \<open>latest\<close> is the last one
  loaded with the identifier, whatever its version: it follows the order of the directory, not the
  order of the versions.
\<close>

theorem official_lookup:
  assumes "load_from_dir eof parse now dir (Some (Inr es)) = Inr reg"
    and "ts = loaded_templates eof parse now es" "CHR ''@'' \<notin> set i" "\<forall>t\<in>set ts. CHR ''@'' \<notin> set (ot_id t)"
  shows "official_get i reg = last_with (\<lambda>t. ot_id t = i) ts \<and>
    get_versioned i ''latest'' reg = official_get i reg \<and>
    (v \<noteq> ''latest'' \<longrightarrow> get_versioned i v reg = last_with (\<lambda>t. ot_id t = i \<and> ot_version t = v) ts)"
proof -
  have "reg = fold add_official ts new_official_registry" using assms(1,2) by (simp add: load_from_dir_def fold_load)
  then show ?thesis
    using fold_add_lookup [OF assms(3,4), of new_official_registry]
    by (auto simp: official_get_def get_versioned_def new_official_registry_def split: option.split)
qed

definition sample_metadata :: "string \<Rightarrow> template_metadata" where
  "sample_metadata version = \<lparr>tmd_id = ''a'', tmd_name = '''', tmd_version = version, tmd_description = '''',
     tmd_agent = '''', tmd_agent_version = '''', tmd_category = '''', tmd_maintainer = '''', tmd_license = '''',
     tmd_image = \<lparr>is_base = '''', is_format = ''''\<rparr>, tmd_dockerfile_inline = '''',
     tmd_resources = \<lparr>rs_min_memory_mib = 0, rs_min_vcpus = 0, rs_recommended_memory_mib = 0,
       rs_recommended_vcpus = 0\<rparr>, tmd_permissions = \<lparr>ps_network_egress = False, ps_max_connections = 0\<rparr>\<rparr>"

theorem official_lookup_witness:
  "\<exists>reg. load_from_dir ''eof'' (\<lambda>toml. Inr (sample_metadata toml)) 0 ''/t''
       (Some (Inr [(''x'', DirEntry True (Some (Inr ''2''))), (''y'', DirEntry True (Some (Inr ''1'')))])) = Inr reg \<and>
     map_option ot_version (get_versioned ''a'' ''latest'' reg) = Some ''1''"
proof -
  let ?es = "[(''x'', DirEntry True (Some (Inr ''2''))), (''y'', DirEntry True (Some (Inr ''1'')))]"
  obtain reg where reg: "load_from_dir ''eof'' (\<lambda>toml. Inr (sample_metadata toml)) 0 ''/t'' (Some (Inr ?es)) = Inr reg"
    by (simp add: load_from_dir_def)
  let ?ts = "loaded_templates ''eof'' (\<lambda>toml. Inr (sample_metadata toml)) 0 ?es"
  have ts: "?ts = [from_spec 0 (sample_metadata ''2''), from_spec 0 (sample_metadata ''1'')]"
    by (simp add: loaded_templates_def List.map_filter_def loaded_template_def load_single_def)
  then have "official_get ''a'' reg = last_with (\<lambda>t. ot_id t = ''a'') ?ts \<and>
      get_versioned ''a'' ''latest'' reg = official_get ''a'' reg"
    using official_lookup [OF reg refl, of "''a''" "''1''"] by (simp add: from_spec_def sample_metadata_def)
  with reg ts show ?thesis by (simp add: from_spec_def sample_metadata_def)
qed

section \<open>A template is built once\<close>

definition codec_total :: "('r \<Rightarrow> string + bytes) \<Rightarrow> (bytes \<Rightarrow> string + 'r) \<Rightarrow> bool" where
  "codec_total ser de \<longleftrightarrow> (\<forall>r b. ser r = Inr b \<longrightarrow> de b = Inr r)"

definition stored :: "('db \<Rightarrow> bytes \<rightharpoonup> bytes) \<Rightarrow> 'db template_store \<Rightarrow> string \<Rightarrow> template_record \<Rightarrow> 'db \<Rightarrow> bool" where
  "stored view T i r db \<longleftrightarrow> decode_found (tst_de T) (view db (text_bytes i)) = Inr (Some r)"

lemma template_get_stored:
  assumes "database_ok (tst_db T) view" "template_get T i db = (db', res)"
  shows "view db' = view db \<and> (\<forall>r. res = Inr (Some r) \<longrightarrow> stored view T i r db)"
  using store_get_view [OF assms(1), of "tst_de T" "text_bytes i" db db' res] assms(2)
  by (auto simp: template_get_def stored_def)

lemma template_insert_stored:
  assumes "database_ok (tst_db T) view" "codec_total (tst_ser T) (tst_de T)" "template_insert T r db = (db', Inr u)"
  shows "stored view T (tpl_id r) r db'"
  using store_insert_ok [OF assms(1), of "tst_ser T" "text_bytes (tpl_id r)" r db db' u] assms(2,3)
  by (auto simp: template_insert_def stored_def decode_found_def codec_total_def)

lemma on_store_pair: "on_store f st = ((fst (f (fst st)), snd st), snd (f (fst st)))"
  by (simp add: on_store_def split: prod.split)

lemma on_world_pair: "on_world f st = ((fst st, fst (f (snd st))), snd (f (snd st)))"
  by (simp add: on_world_def split: prod.split)

text \<open>What a build that succeeds has done.\<close>

lemma built_and_recorded:
  assumes "build_and_record M now spec (db, w) = ((db', w'), Inr r)"
  obtains w1 n where "iw_mkdir (tm_builder M) (tm_storage_dir M) w = (w1, Inr ())"
    "iw_build (tm_builder M) (tsp_name spec) (tsp_dockerfile spec) (template_image M (tsp_dockerfile spec)) w1 = (w', Inr n)"
    "r = \<lparr>tpl_id = compute_hash (tm_store M) (tsp_dockerfile spec), tpl_name = tsp_name spec,
      tpl_rootfs_path = template_image M (tsp_dockerfile spec), tpl_size_bytes = n, tpl_created_at = now\<rparr>"
    "template_insert (tm_store M) r db = (db', Inr ())"
proof -
  obtain st1 u st2 n st3 v where "on_world (iw_mkdir (tm_builder M) (tm_storage_dir M)) (db, w) = (st1, Inr u)"
    "on_world (iw_build (tm_builder M) (tsp_name spec) (tsp_dockerfile spec) (template_image M (tsp_dockerfile spec))) st1 =
      (st2, Inr n)"
    "r = \<lparr>tpl_id = compute_hash (tm_store M) (tsp_dockerfile spec), tpl_name = tsp_name spec,
      tpl_rootfs_path = template_image M (tsp_dockerfile spec), tpl_size_bytes = n, tpl_created_at = now\<rparr>"
    "on_store (template_insert (tm_store M) r) st2 = (st3, Inr v)" "st3 = (db', w')"
    using assms unfolding build_and_record_def Let_def and_then_Inr by auto
  then show thesis by (auto simp: on_world_pair on_store_pair prod_eq_iff intro: that)
qed

lemma create_template_stored:
  assumes "database_ok (tst_db (tm_store M)) view" "codec_total (tst_ser (tm_store M)) (tst_de (tm_store M))"
    and "create_template M now spec st = (st', Inr r)"
  shows "stored view (tm_store M) (compute_hash (tm_store M) (tsp_dockerfile spec)) r (fst st')"
proof -
  let ?T = "tm_store M" and ?hash = "compute_hash (tm_store M) (tsp_dockerfile spec)"
  obtain db1 found where g: "template_get ?T ?hash (fst st) = (db1, found)" by fastforce
  note got = template_get_stored [OF assms(1) g]
  show ?thesis
  proof (cases "build_and_record M now spec (db1, snd st) = (st', Inr r)")
    case True
    then have "build_and_record M now spec (db1, snd st) = ((fst st', snd st'), Inr r)" by simp
    from built_and_recorded [OF this] template_insert_stored [OF assms(1,2)] show ?thesis
      by (metis template_record.select_convs(1))
  next
    case False
    with assms(3) g have "found = Inr (Some r)" "fst st' = db1"
      by (auto simp: create_template_def on_store_def and_then_def split: sum.splits option.splits if_splits)
    with got show ?thesis by (simp add: stored_def)
  qed
qed

text \<open>A record that is stored is found, and as long as its image exists nothing is built.\<close>

lemma stored_not_rebuilt:
  assumes "database_ok (tst_db (tm_store M)) view"
    and "stored view (tm_store M) (compute_hash (tm_store M) (tsp_dockerfile spec)) r (fst st)"
    and "iw_exists (tm_builder M) (tpl_rootfs_path r) (snd st)" "create_template M now spec st = (st', res)"
  shows "snd st' = snd st \<and> view (fst st') = view (fst st) \<and> (res = Inr r \<or> (\<exists>e. res = Inl (Database e)))"
proof -
  let ?T = "tm_store M"
  let ?hash = "compute_hash ?T (tsp_dockerfile spec)"
  obtain db1 found where g: "template_get ?T ?hash (fst st) = (db1, found)" by fastforce
  obtain db2 raw where raw: "db_get (tst_db ?T) (text_bytes ?hash) (fst st) = (db2, raw)" by fastforce
  note raw_view = db_get_view [OF assms(1) raw]
  show ?thesis
  proof (cases raw)
    case (Inl e)
    then have "found = Inl (Database e)" "view db1 = view (fst st)"
      using g raw raw_view by (auto simp: template_get_def store_get_def)
    with g assms(4) show ?thesis by (auto simp: create_template_def on_store_def)
  next
    case (Inr v)
    then have "found = Inr (Some r)" "view db1 = view (fst st)"
      using g raw raw_view assms(2) by (auto simp: template_get_def store_get_def stored_def)
    with g assms(3,4) show ?thesis by (auto simp: create_template_def on_store_def)
  qed
qed

text \<open>
  A Dockerfile is built once: after a template was created, another request for the same
  Dockerfile, under whatever name, builds nothing and changes nothing as long as the image exists.
  It returns the very same record, or an error of the database. The name asked for is not looked at.
\<close>

theorem template_built_once:
  assumes "database_ok (tst_db (tm_store M)) view" "codec_total (tst_ser (tm_store M)) (tst_de (tm_store M))"
    and "create_template M now spec st = (st', Inr r)" "iw_exists (tm_builder M) (tpl_rootfs_path r) (snd st')"
    and "tsp_dockerfile spec' = tsp_dockerfile spec" "create_template M now' spec' st' = (st'', res)"
  shows "snd st'' = snd st' \<and> view (fst st'') = view (fst st') \<and> (res = Inr r \<or> (\<exists>e. res = Inl (Database e)))"
  using stored_not_rebuilt [OF assms(1) _ assms(4,6)] create_template_stored [OF assms(1-3)] assms(5) by simp

definition sample_template_store :: "list_db template_store" where
  "sample_template_store = \<lparr>tst_db = list_database,
     tst_ser = (\<lambda>r. if r = \<lparr>tpl_id = ''sha256:0'', tpl_name = ''a'', tpl_rootfs_path = ''/t/0.ext4'',
         tpl_size_bytes = 9, tpl_created_at = 1\<rparr> then Inr [1] else Inl ''no''),
     tst_de = (\<lambda>b. if b = [1] then Inr \<lparr>tpl_id = ''sha256:0'', tpl_name = ''a'', tpl_rootfs_path = ''/t/0.ext4'',
         tpl_size_bytes = 9, tpl_created_at = 1\<rparr> else Inl ''no''),
     tst_sha256 = (\<lambda>_. ''0'')\<rparr>"

text \<open>A builder that counts its builds.\<close>

definition sample_manager :: "(list_db, nat) template_manager" where
  "sample_manager = \<lparr>tm_store = sample_template_store, tm_storage_dir = ''/t'',
     tm_builder = \<lparr>iw_mkdir = (\<lambda>_ n. (n, Inr ())), iw_exists = (\<lambda>_ n. 0 < n),
       iw_build = (\<lambda>_ _ _ n. (n + 1, Inr 9))\<rparr>\<rparr>"

theorem template_built_once_witness:
  "\<exists>st st' r res. create_template sample_manager 1 \<lparr>tsp_name = ''a'', tsp_dockerfile = ''D''\<rparr> (([], 20), 0) = (st, Inr r) \<and>
     create_template sample_manager 2 \<lparr>tsp_name = ''b'', tsp_dockerfile = ''D''\<rparr> st = (st', res) \<and>
     snd st' = snd st \<and> (res = Inr r \<or> (\<exists>e. res = Inl (Database e))) \<and> tpl_name r = ''a''"
proof -
  let ?r = "\<lparr>tpl_id = ''sha256:0'', tpl_name = ''a'', tpl_rootfs_path = ''/t/0.ext4'', tpl_size_bytes = 9, tpl_created_at = 1\<rparr>"
  have p: "remove_all ''sha256:'' ''sha256:0'' = ''0''"
    by (subst remove_all.simps, simp, subst remove_all.simps, simp, subst remove_all.simps, simp)
  obtain st where first: "create_template sample_manager 1 \<lparr>tsp_name = ''a'', tsp_dockerfile = ''D''\<rparr> (([], 20), 0) = (st, Inr ?r)"
    "0 < snd st"
    by (simp add: create_template_def build_and_record_def template_image_def sample_manager_def sample_template_store_def compute_hash_def p path_join_def
        on_store_def on_world_def template_get_def store_get_def list_database_def spend_def decode_found_def
        template_insert_def store_insert_def Let_def)
  obtain st' res where again: "create_template sample_manager 2 \<lparr>tsp_name = ''b'', tsp_dockerfile = ''D''\<rparr> st = (st', res)"
    by fastforce
  have "database_ok (tst_db (tm_store sample_manager)) list_view"
    "codec_total (tst_ser (tm_store sample_manager)) (tst_de (tm_store sample_manager))"
    "iw_exists (tm_builder sample_manager) (tpl_rootfs_path ?r) (snd st)"
    using first(2) by (auto simp: sample_manager_def sample_template_store_def list_database_ok codec_total_def)
  from template_built_once [OF this(1,2) first(1) this(3) _ again]
  have "snd st' = snd st \<and> (res = Inr ?r \<or> (\<exists>e. res = Inl (Database e)))" by simp
  with first(1) again show ?thesis
    by (intro exI [of _ st] exI [of _ st'] exI [of _ ?r] exI [of _ res]) simp
qed

section \<open>Building an image\<close>

lemma required_Inr:
  "required bo cmd cannot cleanup fails st = (st', Inr u) \<longleftrightarrow>
     st' = st\<lparr>bst_log := bst_log st @ [cmd]\<rparr> \<and> bo_answer bo (bst_log st) cmd = Inr True \<and> u = ()"
  by (auto simp: required_def run_command_def and_then_def map_err_def split: sum.splits if_splits)

lemma make_dir_Inr:
  "make_dir bo dir st = (st', Inr u) \<longleftrightarrow> st' = st\<lparr>bst_dirs := insert dir (bst_dirs st)\<rparr> \<and> bo_mkdir bo dir = None \<and> u = ()"
  by (auto simp: make_dir_def split: option.splits)

definition build_commands :: "string \<Rightarrow> string \<Rightarrow> string \<Rightarrow> string \<Rightarrow> string \<Rightarrow> string list list" where
  "build_commands tag container_name temp_dir mount_dir output =
     [[''docker'', ''build'', ''-t'', tag, ''-f'', path_join temp_dir ''Dockerfile'', temp_dir],
      [''docker'', ''create'', ''--name'', container_name, tag],
      [''dd'', ''if=/dev/zero'', ''of='' @ output, ''bs=1M'', ''count=100''],
      [''mkfs.ext4'', ''-F'', output],
      [''sudo'', ''mount'', output, mount_dir],
      [''sh'', ''-c'', ''docker export '' @ container_name @ '' | sudo tar -C '' @ mount_dir @ '' -xf -'']]"

definition succeeded :: "build_os \<Rightarrow> string list list \<Rightarrow> string list \<Rightarrow> bool" where
  "succeeded bo log cmd \<longleftrightarrow> (\<exists>past rest. log = past @ cmd # rest \<and> bo_answer bo past cmd = Inr True)"

lemma succeeded_append: "succeeded bo log cmd \<Longrightarrow> succeeded bo (log @ ext) cmd"
  unfolding succeeded_def by (metis append.assoc append_Cons)

lemma install_agent_state:
  "bst_dirs (install_agent bo d st) = bst_dirs st \<and> bst_mounted (install_agent bo d st) = bst_mounted st \<and>
   bst_emptied (install_agent bo d st) = bst_emptied st \<and>
   (\<exists>ext. bst_log (install_agent bo d st) = bst_log st @ ext)"
  by (auto simp: install_agent_def run_ignored_def run_command_def Let_def split: option.split)

text \<open>The last command of the log that has been answered so far.\<close>

lemma succeeded_last: "bo_answer bo log cmd = Inr True \<Longrightarrow> succeeded bo (log @ [cmd]) cmd"
  by (auto simp: succeeded_def)

text \<open>What is left of the two directories and of the files of the image, when the unmounting came after
  the commands \<open>before\<close>.\<close>

definition taken_down :: "build_os \<Rightarrow> string \<Rightarrow> string \<Rightarrow> string \<Rightarrow> string list list \<Rightarrow> build_state \<Rightarrow> bool" where
  "taken_down bo temp_dir mount_dir disk before st \<longleftrightarrow>
     (let unmounted = (bo_answer bo before [''sudo'', ''umount'', mount_dir] = Inr True);
          result = bo_remove bo (before @ [[''sudo'', ''umount'', mount_dir]]) mount_dir
      in (mount_dir \<in> bst_dirs st \<longleftrightarrow> \<not> (unmounted \<and> rm_gone result)) \<and>
         (temp_dir \<in> bst_dirs st \<longleftrightarrow> \<not> rm_gone (bo_remove bo (bst_log st) temp_dir)) \<and>
         (disk \<in> bst_emptied st \<longleftrightarrow> \<not> unmounted \<and> rm_files result))"

lemma export_Inr:
  assumes "export_rootfs bo c (cleanup_docker bo c tag temp_dir) mount_dir disk st = (st', Inr n)"
    and "bst_mounted st = [(disk, mount_dir)]" "bst_emptied st = {}" "temp_dir \<noteq> mount_dir"
    and "temp_dir \<in> bst_dirs st" "mount_dir \<in> bst_dirs st"
  shows "\<exists>before cmd. cmd = [''sh'', ''-c'', ''docker export '' @ c @ '' | sudo tar -C '' @ mount_dir @ '' -xf -''] \<and>
    bst_log st' = before @ [[''sudo'', ''umount'', mount_dir], [''docker'', ''rm'', ''-f'', c], [''docker'', ''rmi'', tag]] \<and>
    (\<exists>ext. before = bst_log st @ cmd # ext) \<and> bo_answer bo (bst_log st) cmd = Inr True \<and>
    bo_length bo disk = Inr n \<and> taken_down bo temp_dir mount_dir disk before st'"
proof -
  define cmd where "cmd = [''sh'', ''-c'', ''docker export '' @ c @ '' | sudo tar -C '' @ mount_dir @ '' -xf -'']"
  define st1 where "st1 = install_agent bo mount_dir (st\<lparr>bst_log := bst_log st @ [cmd]\<rparr>)"
  define st2 where "st2 = run_ignored bo [''sudo'', ''mkdir'', ''-p'', path_join mount_dir ''dev'',
      path_join mount_dir ''proc'', path_join mount_dir ''sys'', path_join mount_dir ''tmp''] st1"
  have st2: "bst_mounted st2 = [(disk, mount_dir)]" "bst_emptied st2 = {}" "bst_dirs st2 = bst_dirs st"
    "\<exists>ext. bst_log st2 = bst_log st @ cmd # ext"
    using install_agent_state [of bo mount_dir "st\<lparr>bst_log := bst_log st @ [cmd]\<rparr>"] assms(2,3)
    by (auto simp: st1_def st2_def run_ignored_def run_command_def)
  have answer: "bo_answer bo (bst_log st) cmd = Inr True"
    and st': "st' = cleanup_docker bo c tag temp_dir (remove_tree bo mount_dir (unmount bo mount_dir st2))"
    and len: "bo_length bo disk = Inr n"
    using assms(1)
    by (auto simp: export_rootfs_def run_command_def and_then_def map_err_def Let_def cmd_def st1_def st2_def
        split: sum.splits if_splits)
  define umount where "umount = [''sudo'', ''umount'', mount_dir]"
  define st3 where "st3 = unmount bo mount_dir st2"
  have st3: "bst_log st3 = bst_log st2 @ [umount]" "bst_emptied st3 = {}" "bst_dirs st3 = bst_dirs st"
    "bst_mounted st3 = (if bo_answer bo (bst_log st2) umount = Inr True then [] else [(disk, mount_dir)])"
    using st2 by (auto simp: st3_def unmount_def run_command_def umount_def split: sum.split bool.split)
  have "bst_log st' = bst_log st2 @ [umount, [''docker'', ''rm'', ''-f'', c], [''docker'', ''rmi'', tag]]"
    using st3(1) by (simp add: st' cleanup_docker_def remove_tree_def run_command_def Let_def flip: st3_def)
  moreover from this have "taken_down bo temp_dir mount_dir disk (bst_log st2) st'"
    using st3 assms(4-6)
    by (auto simp: taken_down_def st' cleanup_docker_def remove_tree_def run_command_def Let_def
        simp flip: st3_def umount_def)
  ultimately show ?thesis
    using answer len st2(4) by (intro exI [of _ "bst_log st2"] exI [of _ cmd]) (simp add: cmd_def umount_def)
qed

lemma succeeded_run:
  assumes "log = base @ cmds @ rest" "\<And>i. i < length cmds \<Longrightarrow> bo_answer bo (base @ take i cmds) (cmds ! i) = Inr True"
  shows "\<forall>cmd\<in>set cmds. succeeded bo log cmd"
proof
  fix cmd assume "cmd \<in> set cmds"
  then obtain i where i: "i < length cmds" "cmd = cmds ! i" by (metis in_set_conv_nth)
  have "log = ((base @ take i cmds) @ [cmd]) @ drop (Suc i) cmds @ rest"
    using id_take_nth_drop [OF i(1)] by (simp add: assms(1) i(2))
  then show "succeeded bo log cmd" using succeeded_last succeeded_append assms(2) [OF i(1)] i(2) by metis
qed

lemma build_before_export:
  assumes "build_steps bo name tag container temp_dir mount_dir disk st = (st', Inr n)" "bst_mounted st = []"
    and "build_commands tag container temp_dir mount_dir disk = [c1, c2, c3, c4, c5, c6]"
  shows "\<exists>d. export_rootfs bo container (cleanup_docker bo container tag temp_dir) mount_dir disk
        (st\<lparr>bst_dirs := d, bst_log := bst_log st @ [c1, c2, c3, c4, c5], bst_mounted := [(disk, mount_dir)]\<rparr>) = (st', Inr n) \<and>
    temp_dir \<in> d \<and> mount_dir \<in> d \<and> bo_answer bo (bst_log st) c1 = Inr True \<and> bo_answer bo (bst_log st @ [c1]) c2 = Inr True \<and>
    bo_answer bo (bst_log st @ [c1, c2]) c3 = Inr True \<and> bo_answer bo (bst_log st @ [c1, c2, c3]) c4 = Inr True \<and>
    bo_answer bo (bst_log st @ [c1, c2, c3, c4]) c5 = Inr True"
proof -
  have c: "c1 = [''docker'', ''build'', ''-t'', tag, ''-f'', path_join temp_dir ''Dockerfile'', temp_dir]"
    "c2 = [''docker'', ''create'', ''--name'', container, tag]"
    "c3 = [''dd'', ''if=/dev/zero'', ''of='' @ disk, ''bs=1M'', ''count=100'']"
    "c4 = [''mkfs.ext4'', ''-F'', disk]" "c5 = [''sudo'', ''mount'', disk, mount_dir]"
    using assms(3) unfolding build_commands_def by blast+
  from assms(1) obtain st1 u where par: "(case bo_parent bo disk of None \<Rightarrow> (st\<lparr>bst_dirs := insert temp_dir (bst_dirs st),
        bst_log := bst_log st @ [c1, c2]\<rparr>, Inr ())
      | Some parent \<Rightarrow> make_dir bo parent (st\<lparr>bst_dirs := insert temp_dir (bst_dirs st),
        bst_log := bst_log st @ [c1, c2]\<rparr>)) = (st1, Inr u)"
    and rest: "export_rootfs bo container (cleanup_docker bo container tag temp_dir) mount_dir disk
        (st1\<lparr>bst_dirs := insert mount_dir (bst_dirs st1), bst_log := bst_log st1 @ [c3, c4, c5],
          bst_mounted := (disk, mount_dir) # bst_mounted st1\<rparr>) = (st', Inr n)"
    and a: "bo_answer bo (bst_log st) c1 = Inr True" "bo_answer bo (bst_log st @ [c1]) c2 = Inr True"
      "bo_answer bo (bst_log st1) c3 = Inr True" "bo_answer bo (bst_log st1 @ [c3]) c4 = Inr True"
      "bo_answer bo (bst_log st1 @ [c3, c4]) c5 = Inr True"
    unfolding build_steps_def Let_def c [symmetric] and_then_Inr required_Inr make_dir_Inr
    by (fastforce split: option.splits)
  have st1: "\<exists>d. st1 = st\<lparr>bst_dirs := d, bst_log := bst_log st @ [c1, c2]\<rparr> \<and> temp_dir \<in> d"
    using par
    by (intro exI [of _ "bst_dirs st1"], cases "bo_parent bo disk")
      (auto simp: make_dir_Inr intro: build_state.equality)
  then obtain d where d: "st1 = st\<lparr>bst_dirs := d, bst_log := bst_log st @ [c1, c2]\<rparr>" "temp_dir \<in> d" by blast
  show ?thesis using rest a d(2) by (intro exI [of _ "insert mount_dir d"]) (simp add: d(1) assms(2))
qed

lemma build_steps_result:
  assumes "build_steps bo name tag container temp_dir mount_dir disk st = (st', Inr n)"
    and "bst_mounted st = []" "bst_emptied st = {}" "temp_dir \<noteq> mount_dir"
  shows "(\<forall>cmd\<in>set (build_commands tag container temp_dir mount_dir disk). succeeded bo (bst_log st') cmd) \<and>
    bo_length bo disk = Inr n \<and>
    (\<exists>before rest. bst_log st' = before @ [''sudo'', ''umount'', mount_dir] # rest \<and>
      taken_down bo temp_dir mount_dir disk before st')"
proof -
  let ?cmds = "build_commands tag container temp_dir mount_dir disk"
  obtain c1 c2 c3 c4 c5 c6 where c: "?cmds = [c1, c2, c3, c4, c5, c6]" by (simp add: build_commands_def)
  obtain d where exp: "export_rootfs bo container (cleanup_docker bo container tag temp_dir) mount_dir disk
        (st\<lparr>bst_dirs := d, bst_log := bst_log st @ [c1, c2, c3, c4, c5], bst_mounted := [(disk, mount_dir)]\<rparr>) = (st', Inr n)"
      "temp_dir \<in> d" "mount_dir \<in> d"
      "bo_answer bo (bst_log st) c1 = Inr True" "bo_answer bo (bst_log st @ [c1]) c2 = Inr True"
      "bo_answer bo (bst_log st @ [c1, c2]) c3 = Inr True" "bo_answer bo (bst_log st @ [c1, c2, c3]) c4 = Inr True"
      "bo_answer bo (bst_log st @ [c1, c2, c3, c4]) c5 = Inr True"
    using build_before_export [OF assms(1,2) c] by blast
  define st5 where "st5 = st\<lparr>bst_dirs := d, bst_log := bst_log st @ [c1, c2, c3, c4, c5], bst_mounted := [(disk, mount_dir)]\<rparr>"
  have st5: "bst_log st5 = bst_log st @ take 5 ?cmds" "bst_mounted st5 = [(disk, mount_dir)]" "bst_emptied st5 = {}" "temp_dir \<in> bst_dirs st5"
      "mount_dir \<in> bst_dirs st5" "export_rootfs bo container (cleanup_docker bo container tag temp_dir) mount_dir disk st5 = (st', Inr n)"
    using exp(1-3) assms(3) c by (simp_all add: st5_def)
  have ok: "bo_answer bo (bst_log st @ take i ?cmds) (?cmds ! i) = Inr True" if "i < 5" for i
  proof -
    from that consider "i = 0" | "i = 1" | "i = 2" | "i = 3" | "i = 4" by linarith
    then show ?thesis using exp(4-8) by cases (simp_all add: c)
  qed
  from export_Inr [OF st5(6,2,3) assms(4) st5(4,5)] obtain before cmd ext where e:
    "cmd = ?cmds ! 5" "bst_log st' = before @ [[''sudo'', ''umount'', mount_dir], [''docker'', ''rm'', ''-f'', container], [''docker'', ''rmi'', tag]]"
    "before = bst_log st5 @ cmd # ext" "bo_answer bo (bst_log st5) cmd = Inr True" "bo_length bo disk = Inr n"
    "taken_down bo temp_dir mount_dir disk before st'"
    by (auto simp: build_commands_def)
  have cmds: "?cmds = take 5 ?cmds @ [?cmds ! 5]" "length ?cmds = 6" by (simp_all add: build_commands_def)
  obtain more where log: "bst_log st' = bst_log st @ ?cmds @ more"
    using e(1,2,3) st5(1) cmds(1) by (metis append.assoc append_Cons append_Nil)
  have "bo_answer bo (bst_log st @ take i ?cmds) (?cmds ! i) = Inr True" if "i < length ?cmds" for i
    using that cmds(2) ok [of i] e(1,4) st5(1) by (cases "i = 5") auto
  from succeeded_run [OF log this] have "\<forall>cmd\<in>set ?cmds. succeeded bo (bst_log st') cmd" .
  moreover have "bst_log st' = before @ [''sudo'', ''umount'', mount_dir] # [[''docker'', ''rm'', ''-f'', container], [''docker'', ''rmi'', tag]]"
    using e(2) by simp
  ultimately show ?thesis using e(5,6) by blast
qed

text \<open>
  A build that succeeds has made the image in the image file: the six commands that matter have
  all run and succeeded, each with those before it, and the size returned is the file's. Each of the
  two temporary directories is left exactly when its removal fails, the second also when the image is
  still mounted on it. The success of the unmounting is not looked at before the directory is removed:
  if it fails, the removal goes through the mount, and the build returns an image of which it has
  just removed what files it could.
\<close>

theorem build_result:
  assumes "build_template bo build_id name dockerfile disk st = (st', Inr n)"
    and "bst_mounted st = []" "bst_emptied st = {}"
    and "temp_dir = path_join (bo_temp_dir bo) (''akssora-build-'' @ build_id)"
      "mount_dir = path_join (bo_temp_dir bo) (''akssora-mount-'' @ build_id)"
  shows "(\<forall>cmd\<in>set (build_commands (''akssora-template-'' @ build_id) (''akssora-container-'' @ build_id)
        temp_dir mount_dir disk). succeeded bo (bst_log st') cmd) \<and>
    bo_length bo disk = Inr n \<and>
    (\<exists>before rest. bst_log st' = before @ [''sudo'', ''umount'', mount_dir] # rest \<and>
      taken_down bo temp_dir mount_dir disk before st')"
proof -
  have "temp_dir \<noteq> mount_dir" using assms(4,5) by (simp add: path_join_def)
  from build_steps_result [OF assms(1) [unfolded build_template_def assms(4,5) [symmetric]] assms(2,3) this]
  show ?thesis .
qed

text \<open>A system on which every command succeeds except the unmounting, and every removal.\<close>

definition busy_mount_os :: build_os where
  "busy_mount_os = \<lparr>bo_temp_dir = ''/tmp'', bo_env = Map.empty, bo_exists = (\<lambda>_. False), bo_mkdir = (\<lambda>_. None),
     bo_write = (\<lambda>_. None), bo_answer = (\<lambda>_ cmd. Inr (take 2 cmd \<noteq> [''sudo'', ''umount''])), 
     bo_remove = (\<lambda>_ _. \<lparr>rm_gone = True, rm_files = True\<rparr>), bo_length = (\<lambda>_. Inr 100), bo_parent = (\<lambda>_. None), bo_eof = ''eof''\<rparr>"

theorem build_result_witness:
  "\<exists>st'. build_template busy_mount_os ''1'' ''n'' ''FROM x'' ''/t/x.ext4''
       \<lparr>bst_log = [], bst_dirs = {}, bst_mounted = [], bst_emptied = {}\<rparr> = (st', Inr 100) \<and>
     ''/t/x.ext4'' \<in> bst_emptied st'"
proof -
  let ?st = "\<lparr>bst_log = [], bst_dirs = {}, bst_mounted = [], bst_emptied = {}\<rparr>"
  obtain st' where b: "build_template busy_mount_os ''1'' ''n'' ''FROM x'' ''/t/x.ext4'' ?st = (st', Inr 100)"
    by (simp add: build_template_def build_steps_def busy_mount_os_def required_def run_command_def make_dir_def export_rootfs_def Let_def)
  obtain before where "taken_down busy_mount_os (path_join (bo_temp_dir busy_mount_os) ''akssora-build-1'')
      (path_join (bo_temp_dir busy_mount_os) ''akssora-mount-1'') ''/t/x.ext4'' before st'"
    using build_result [OF b _ _ refl refl] by auto
  then have "''/t/x.ext4'' \<in> bst_emptied st'"
    by (simp add: taken_down_def busy_mount_os_def)
  then show ?thesis using b by blast
qed

end
