(* ===== verification/Template_Builds.thy ===== *)
theory Template_Builds
  imports Templates
begin

text \<open>
  The template manager (\<open>akssora-core/src/templates/mod.rs\<close>) with the builder it is made with by
  default (\<open>akssora-core/src/templates/build.rs\<close>): what a record says about the image it names, and
  what later requests for the same template get.
\<close>

section \<open>The manager with the Docker builder\<close>

text \<open>\<open>fresh\<close> gives the identifier of a build and \<open>ex\<close> tells whether a file exists.\<close>

definition docker_builder ::
    "build_os \<Rightarrow> (build_state \<Rightarrow> string) \<Rightarrow> (string \<Rightarrow> build_state \<Rightarrow> bool) \<Rightarrow> build_state image_world" where
  "docker_builder bo fresh ex = \<lparr>iw_mkdir = make_dir bo, iw_exists = ex,
     iw_build = (\<lambda>name dockerfile output st. build_template bo (fresh st) name dockerfile output st)\<rparr>"

definition manager_with_builder ::
    "'db template_store \<Rightarrow> string \<Rightarrow> 'w image_world \<Rightarrow> ('db, 'w) template_manager" where
  "manager_with_builder store storage_dir builder =
     \<lparr>tm_store = store, tm_storage_dir = storage_dir, tm_builder = builder\<rparr>"

definition new_manager ::
    "build_os \<Rightarrow> (build_state \<Rightarrow> string) \<Rightarrow> (string \<Rightarrow> build_state \<Rightarrow> bool) \<Rightarrow> 'db template_store \<Rightarrow> string \<Rightarrow>
     ('db, build_state) template_manager" where
  "new_manager bo fresh ex store storage_dir =
     \<lparr>tm_store = store, tm_storage_dir = storage_dir, tm_builder = docker_builder bo fresh ex\<rparr>"

definition default_manager ::
    "build_os \<Rightarrow> (build_state \<Rightarrow> string) \<Rightarrow> (string \<Rightarrow> build_state \<Rightarrow> bool) \<Rightarrow> core_error + 'db template_store \<Rightarrow>
     core_error + ('db, build_state) template_manager" where
  "default_manager bo fresh ex opened =
     (case opened of
        Inl e \<Rightarrow> Inl e
      | Inr store \<Rightarrow> Inr (new_manager bo fresh ex store (path_join (bo_temp_dir bo) ''akssora-templates'')))"

section \<open>Records and images\<close>

text \<open>A request that changed the world has built.\<close>

lemma created_by_build:
  fixes M :: "('db, 'w) template_manager"
  assumes "create_template M now spec (db, w) = ((db', w'), Inr r)" "w' \<noteq> w"
  obtains w1 n where "iw_mkdir (tm_builder M) (tm_storage_dir M) w = (w1, Inr ())"
    "iw_build (tm_builder M) (tsp_name spec) (tsp_dockerfile spec) (template_image M (tsp_dockerfile spec)) w1 = (w', Inr n)"
    "r = \<lparr>tpl_id = compute_hash (tm_store M) (tsp_dockerfile spec), tpl_name = tsp_name spec,
      tpl_rootfs_path = template_image M (tsp_dockerfile spec), tpl_size_bytes = n, tpl_created_at = now\<rparr>"
proof -
  obtain db1 found where g: "template_get (tm_store M) (compute_hash (tm_store M) (tsp_dockerfile spec)) db = (db1, found)"
    by fastforce
  have "build_and_record M now spec (db1, w) = ((db', w'), Inr r)"
    using assms g by (auto simp: create_template_def on_store_def and_then_def split: sum.splits option.splits if_splits)
  then show thesis by (rule built_and_recorded) (rule that)
qed

section \<open>Later requests\<close>

text \<open>Any number of requests for templates after one whose record is \<open>r\<close>: for the same Dockerfile, while
  the image of the record exists, and for Dockerfiles of another hash.\<close>

inductive later_requests ::
    "('db, 'w) template_manager \<Rightarrow> template_record \<Rightarrow> string \<Rightarrow> 'db \<times> 'w \<Rightarrow> 'db \<times> 'w \<Rightarrow> bool"
  for M r dockerfile st0 where
  Recorded: "later_requests M r dockerfile st0 st0"
| SameDockerfile: "later_requests M r dockerfile st0 st \<Longrightarrow> tsp_dockerfile spec = dockerfile \<Longrightarrow>
    iw_exists (tm_builder M) (tpl_rootfs_path r) (snd st) \<Longrightarrow> create_template M now spec st = (st', res) \<Longrightarrow>
    later_requests M r dockerfile st0 st'"
| OtherDockerfile: "later_requests M r dockerfile st0 st \<Longrightarrow>
    compute_hash (tm_store M) (tsp_dockerfile spec) \<noteq> compute_hash (tm_store M) dockerfile \<Longrightarrow>
    create_template M now spec st = (st', res) \<Longrightarrow> later_requests M r dockerfile st0 st'"

lemma insert_keeps_others:
  assumes "database_ok (tst_db T) view" "template_insert T r db = (db', res)" "i \<noteq> tpl_id r"
  shows "view db' (text_bytes i) = view db (text_bytes i)"
  using store_insert_view [OF assms(1), of "tst_ser T" "text_bytes (tpl_id r)" r db db' res] assms(2,3)
  by (auto simp: template_insert_def)

lemma create_keeps_others:
  assumes "database_ok (tst_db (tm_store M)) view" "create_template M now spec st = (st', res)"
    and "i \<noteq> compute_hash (tm_store M) (tsp_dockerfile spec)"
  shows "view (fst st') (text_bytes i) = view (fst st) (text_bytes i)"
proof -
  let ?T = "tm_store M" and ?hash = "compute_hash (tm_store M) (tsp_dockerfile spec)"
  obtain db1 found where g: "template_get ?T ?hash (fst st) = (db1, found)" by fastforce
  have view1: "view db1 = view (fst st)" using template_get_stored [OF assms(1) g] by simp
  have build: "view (fst st2) (text_bytes i) = view db1 (text_bytes i)"
    if b: "build_and_record M now spec (db1, w) = (st2, res2)" for w st2 res2
  proof -
    have ins: "view (fst (template_insert ?T x db1)) (text_bytes i) = view db1 (text_bytes i)" if "tpl_id x = ?hash" for x
      using insert_keeps_others [OF assms(1), of x db1] that assms(3) by (metis prod.collapse)
    show ?thesis using b ins
      by (auto simp: build_and_record_def Let_def and_then_def on_world_pair on_store_pair split: sum.splits)
  qed
  show ?thesis
  proof (cases "build_and_record M now spec (db1, snd st) = (st', res)")
    case True
    with build view1 show ?thesis by metis
  next
    case False
    with assms(2) g have "fst st' = db1"
      by (auto simp: create_template_def on_store_def and_then_def split: sum.splits option.splits if_splits)
    with view1 show ?thesis by simp
  qed
qed

lemma later_stored:
  assumes "later_requests M r dockerfile st0 st" "database_ok (tst_db (tm_store M)) view"
    and "stored view (tm_store M) (compute_hash (tm_store M) dockerfile) r (fst st0)"
  shows "stored view (tm_store M) (compute_hash (tm_store M) dockerfile) r (fst st)"
  using assms(1)
proof (induction rule: later_requests.induct)
  case Recorded
  then show ?case by (rule assms(3))
next
  case (SameDockerfile st spec now st' res)
  then have "view (fst st') = view (fst st)" using stored_not_rebuilt [OF assms(2)] by metis
  with SameDockerfile.IH show ?case by (simp add: stored_def)
next
  case (OtherDockerfile st spec now st' res)
  then show ?case using create_keeps_others [OF assms(2) OtherDockerfile.hyps(3)] by (simp add: stored_def)
qed

text \<open>
  C31. A record that the manager has just built names an image of the size recorded, from a build whose
  commands all succeeded, and is found under the hash of its Dockerfile. What the build took down
  depends on commands and removals whose failures it ignores: each temporary directory is left
  exactly when its removal fails, the second also when the unmounting fails; and then the image has
  lost its files exactly when that removal could remove any. After any number of later requests,
  every request for the same Dockerfile gets this record and runs no command, or an error of the
  database, as long as the file exists. That holds for an image that the build itself has emptied
  too: it is never built again.
\<close>

theorem docker_templates:
  assumes "database_ok (tst_db store) view" "codec_total (tst_ser store) (tst_de store)"
    and "M = new_manager bo fresh ex store dir" "bst_mounted w = []" "bst_emptied w = {}"
    and "create_template M now spec (db, w) = ((db', w'), Inr r)" "w' \<noteq> w"
  shows "tpl_rootfs_path r = template_image M (tsp_dockerfile spec) \<and>
    bo_length bo (tpl_rootfs_path r) = Inr (tpl_size_bytes r) \<and>
    stored view store (compute_hash store (tsp_dockerfile spec)) r db' \<and>
    (\<exists>i tmp mnt before rest. tmp = path_join (bo_temp_dir bo) (''akssora-build-'' @ i) \<and>
      mnt = path_join (bo_temp_dir bo) (''akssora-mount-'' @ i) \<and>
      (\<forall>cmd\<in>set (build_commands (''akssora-template-'' @ i) (''akssora-container-'' @ i) tmp mnt (tpl_rootfs_path r)).
        succeeded bo (bst_log w') cmd) \<and>
      bst_log w' = before @ [''sudo'', ''umount'', mnt] # rest \<and>
      (let unmounted = (bo_answer bo before [''sudo'', ''umount'', mnt] = Inr True);
           removal = bo_remove bo (before @ [[''sudo'', ''umount'', mnt]]) mnt
       in (tmp \<in> bst_dirs w' \<longleftrightarrow> \<not> rm_gone (bo_remove bo (bst_log w') tmp)) \<and>
          (mnt \<in> bst_dirs w' \<longleftrightarrow> \<not> (unmounted \<and> rm_gone removal)) \<and>
          (tpl_rootfs_path r \<in> bst_emptied w' \<longleftrightarrow> \<not> unmounted \<and> rm_files removal))) \<and>
    (\<forall>st now' spec' st'' res. later_requests M r (tsp_dockerfile spec) (db', w') st \<and>
      ex (tpl_rootfs_path r) (snd st) \<and> tsp_dockerfile spec' = tsp_dockerfile spec \<and>
      create_template M now' spec' st = (st'', res) \<longrightarrow>
      snd st'' = snd st \<and> (res = Inr r \<or> (\<exists>e. res = Inl (Database e))))"
proof -
  have M: "tm_store M = store" "tm_storage_dir M = dir" "tm_builder M = docker_builder bo fresh ex"
    by (simp_all add: assms(3) new_manager_def)
  obtain w1 n where dir: "make_dir bo dir w = (w1, Inr ())"
    and built: "build_template bo (fresh w1) (tsp_name spec) (tsp_dockerfile spec)
      (template_image M (tsp_dockerfile spec)) w1 = (w', Inr n)"
    and r: "r = \<lparr>tpl_id = compute_hash (tm_store M) (tsp_dockerfile spec), tpl_name = tsp_name spec,
      tpl_rootfs_path = template_image M (tsp_dockerfile spec), tpl_size_bytes = n, tpl_created_at = now\<rparr>"
    using created_by_build [OF assms(6,7)] M by (simp add: docker_builder_def) blast
  define i where "i = fresh w1"
  have w1: "bst_mounted w1 = []" "bst_emptied w1 = {}" using dir assms(4,5) by (simp_all add: make_dir_Inr)
  have ne: "path_join (bo_temp_dir bo) (''akssora-build-'' @ i) \<noteq> path_join (bo_temp_dir bo) (''akssora-mount-'' @ i)"
    by (simp add: path_join_def)
  note steps = build_steps_result [OF built [unfolded build_template_def i_def [symmetric]] w1 ne]
  have stored: "stored view store (compute_hash store (tsp_dockerfile spec)) r db'"
    using create_template_stored [of M view now spec "(db, w)" "(db', w')" r] assms(1,2,6) M by simp
  moreover have "snd st'' = snd st \<and> (res = Inr r \<or> (\<exists>e. res = Inl (Database e)))"
    if "later_requests M r (tsp_dockerfile spec) (db', w') st" "ex (tpl_rootfs_path r) (snd st)"
      "tsp_dockerfile spec' = tsp_dockerfile spec" "create_template M now' spec' st = (st'', res)"
    for st now' spec' st'' res
    using stored_not_rebuilt [OF _ _ _ that(4), of view r] later_stored [OF that(1), of view] stored that(2,3) assms(1) M
    by (simp add: docker_builder_def)
  moreover have "\<exists>i tmp mnt before rest. tmp = path_join (bo_temp_dir bo) (''akssora-build-'' @ i) \<and>
      mnt = path_join (bo_temp_dir bo) (''akssora-mount-'' @ i) \<and>
      (\<forall>cmd\<in>set (build_commands (''akssora-template-'' @ i) (''akssora-container-'' @ i) tmp mnt (tpl_rootfs_path r)).
        succeeded bo (bst_log w') cmd) \<and>
      bst_log w' = before @ [''sudo'', ''umount'', mnt] # rest \<and> taken_down bo tmp mnt (tpl_rootfs_path r) before w'"
    using steps r by auto
  moreover have "tpl_rootfs_path r = template_image M (tsp_dockerfile spec)"
    "bo_length bo (tpl_rootfs_path r) = Inr (tpl_size_bytes r)" using steps r by simp_all
  ultimately show ?thesis unfolding taken_down_def Let_def by (intro conjI allI impI) (blast | elim conjE exE; blast)+
qed

text \<open>A host on which the unmounting fails. The image it has emptied is what the third request gets too.\<close>

definition busy_manager :: "(list_db, build_state) template_manager" where
  "busy_manager = new_manager busy_mount_os (\<lambda>_. ''1'') (\<lambda>_ _. True)
     (sample_template_store\<lparr>tst_ser := (\<lambda>r. if r = \<lparr>tpl_id = ''sha256:0'', tpl_name = ''a'',
         tpl_rootfs_path = ''/t/0.ext4'', tpl_size_bytes = 100, tpl_created_at = 1\<rparr> then Inr [1] else Inl ''no''),
       tst_de := (\<lambda>b. if b = [1] then Inr \<lparr>tpl_id = ''sha256:0'', tpl_name = ''a'',
         tpl_rootfs_path = ''/t/0.ext4'', tpl_size_bytes = 100, tpl_created_at = 1\<rparr> else Inl ''no'')\<rparr>) ''/t''"

theorem docker_templates_witness:
  "\<exists>db w r st1 res1 st2 res2. create_template busy_manager 1 \<lparr>tsp_name = ''a'', tsp_dockerfile = ''D''\<rparr>
       (([], 20), \<lparr>bst_log = [], bst_dirs = {}, bst_mounted = [], bst_emptied = {}\<rparr>) = ((db, w), Inr r) \<and>
     tpl_rootfs_path r \<in> bst_emptied w \<and>
     create_template busy_manager 2 \<lparr>tsp_name = ''b'', tsp_dockerfile = ''D''\<rparr> (db, w) = (st1, res1) \<and>
     create_template busy_manager 3 \<lparr>tsp_name = ''c'', tsp_dockerfile = ''D''\<rparr> st1 = (st2, res2) \<and>
     snd st2 = w \<and> (res2 = Inr r \<or> (\<exists>e. res2 = Inl (Database e)))"
proof -
  let ?w = "\<lparr>bst_log = [], bst_dirs = {}, bst_mounted = [], bst_emptied = {}\<rparr> :: build_state"
  let ?r = "\<lparr>tpl_id = ''sha256:0'', tpl_name = ''a'', tpl_rootfs_path = ''/t/0.ext4'', tpl_size_bytes = 100, tpl_created_at = 1\<rparr>"
  have p: "remove_all ''sha256:'' ''sha256:0'' = ''0''"
    by (subst remove_all.simps, simp, subst remove_all.simps, simp, subst remove_all.simps, simp)
  obtain db w where c: "create_template busy_manager 1 \<lparr>tsp_name = ''a'', tsp_dockerfile = ''D''\<rparr> (([], 20), ?w) = ((db, w), Inr ?r)"
    and w: "w \<noteq> ?w"
    by (simp add: create_template_def build_and_record_def template_image_def busy_manager_def new_manager_def docker_builder_def sample_template_store_def
        compute_hash_def p path_join_def on_store_pair on_world_def template_get_def store_get_def list_database_def
        spend_def decode_found_def template_insert_def store_insert_def Let_def build_template_def build_steps_def
        busy_mount_os_def required_def run_command_def make_dir_def export_rootfs_def
        cleanup_docker_def remove_tree_def run_ignored_def install_agent_def find_guest_agent_binary_def
        candidate_agents_def unmount_def)
  obtain st1 res1 where again: "create_template busy_manager 2 \<lparr>tsp_name = ''b'', tsp_dockerfile = ''D''\<rparr> (db, w) = (st1, res1)"
    by fastforce
  obtain st2 res2 where third: "create_template busy_manager 3 \<lparr>tsp_name = ''c'', tsp_dockerfile = ''D''\<rparr> st1 = (st2, res2)"
    by fastforce
  have ok: "database_ok (tst_db (tm_store busy_manager)) list_view"
    "codec_total (tst_ser (tm_store busy_manager)) (tst_de (tm_store busy_manager))"
    by (auto simp: busy_manager_def new_manager_def sample_template_store_def list_database_ok codec_total_def)
  have M: "busy_manager = new_manager busy_mount_os (\<lambda>_. ''1'') (\<lambda>_ _. True) (tm_store busy_manager) ''/t''"
    by (simp add: busy_manager_def new_manager_def)
  have D: "bst_mounted ?w = []" "bst_emptied ?w = {}" by simp_all
  note D = docker_templates [OF ok M D c w]
  have "tpl_rootfs_path ?r \<in> bst_emptied w"
    using D by (auto simp: busy_mount_os_def Let_def)
  moreover have later: "snd st'' = snd st \<and> (res = Inr ?r \<or> (\<exists>e. res = Inl (Database e)))"
    if "later_requests busy_manager ?r ''D'' (db, w) st" "tsp_dockerfile spec' = ''D''"
      "create_template busy_manager now' spec' st = (st'', res)" for st now' spec' st'' res
    using D [THEN conjunct2, THEN conjunct2, THEN conjunct2, THEN conjunct2, rule_format, of st spec' now' st'' res] that
    by simp
  have one: "later_requests busy_manager ?r ''D'' (db, w) st1"
    by (rule later_requests.SameDockerfile [OF later_requests.Recorded _ _ again])
      (simp_all add: busy_manager_def new_manager_def docker_builder_def)
  have "snd st1 = w" using later [OF later_requests.Recorded _ again] by simp
  moreover have "snd st2 = snd st1 \<and> (res2 = Inr ?r \<or> (\<exists>e. res2 = Inl (Database e)))"
    using later [OF one _ third] by simp
  ultimately show ?thesis using c again third
    by (intro exI [of _ db] exI [of _ w] exI [of _ ?r] exI [of _ st1] exI [of _ res1] exI [of _ st2] exI [of _ res2]) simp
qed

end
