(* ===== verification/Warm_Pool.thy ===== *)
theory Warm_Pool
  imports Templates Demand
begin

text \<open>
  The warm pool of the host: its store (\<open>akssora-core/src/pool/store.rs\<close>) and the pool itself with its
  strategy, the claims, the replenishment and the scaling (\<open>pool/mod.rs\<close>). Identifiers and times are
  arguments; the creator of machines is a record of functions on a world, as the trait object is,
  and the one that the sources have is built from the sessions of the host. A call that has not
  returned yet is \<open>None\<close>.
\<close>

section \<open>The store\<close>

datatype pool_entry_status = EntryCreating | EntryReady | EntryClaimed | EntryFailed

record pool_entry =
  pe_id :: string
  pe_template_id :: string
  pe_snapshot_path :: string
  pe_mem_file_path :: string
  pe_vsock_uds_path :: string
  pe_status :: pool_entry_status
  pe_created_at :: datetime
  pe_updated_at :: datetime

record pool_stats =
  pst_hits :: u64
  pst_misses :: u64

record 'db pool_store =
  pos_db :: "'db database"
  pos_ser :: "pool_entry \<Rightarrow> string + bytes"
  pos_de :: "bytes \<Rightarrow> string + pool_entry"
  pos_ser_stats :: "pool_stats \<Rightarrow> string + bytes"
  pos_de_stats :: "bytes \<Rightarrow> string + pool_stats"

definition pool_insert :: "'db pool_store \<Rightarrow> pool_entry \<Rightarrow> 'db \<Rightarrow> 'db \<times> (core_error + unit)" where
  "pool_insert P r = store_insert (pos_db P) (pos_ser P) (text_bytes (pe_id r)) r"

definition pool_get :: "'db pool_store \<Rightarrow> string \<Rightarrow> 'db \<Rightarrow> 'db \<times> (core_error + pool_entry option)" where
  "pool_get P i = store_get (pos_db P) (pos_de P) (text_bytes i)"

text \<open>Keys of the store itself are passed over, and so are values that do not decode.\<close>

definition internal_key :: "bytes \<Rightarrow> bool" where
  "internal_key k \<longleftrightarrow> prefix (text_bytes ''__'') k"

fun pool_items :: "(bytes \<Rightarrow> string + pool_entry) \<Rightarrow> (string + bytes \<times> bytes) list \<Rightarrow> core_error + pool_entry list" where
  "pool_items de [] = Inr []"
| "pool_items de (Inl e # items) = Inl (Database e)"
| "pool_items de (Inr (k, v) # items) =
     (if internal_key k then pool_items de items
      else case pool_items de items of
        Inl e \<Rightarrow> Inl e
      | Inr rs \<Rightarrow> (case de v of Inl _ \<Rightarrow> Inr rs | Inr r \<Rightarrow> Inr (r # rs)))"

definition pool_list :: "'db pool_store \<Rightarrow> 'db \<Rightarrow> 'db \<times> (core_error + pool_entry list)" where
  "pool_list P db = (case db_iter (pos_db P) db of (db', items) \<Rightarrow> (db', pool_items (pos_de P) items))"

definition list_by_template :: "'db pool_store \<Rightarrow> string \<Rightarrow> 'db \<Rightarrow> 'db \<times> (core_error + pool_entry list)" where
  "list_by_template P t db =
     and_then (pool_list P db) (\<lambda>rs db. (db, Inr (filter (\<lambda>r. pe_template_id r = t) rs)))"

definition is_available :: "string \<Rightarrow> pool_entry \<Rightarrow> bool" where
  "is_available t r \<longleftrightarrow> pe_template_id r = t \<and> pe_status r = EntryReady"

definition list_available :: "'db pool_store \<Rightarrow> string \<Rightarrow> 'db \<Rightarrow> 'db \<times> (core_error + pool_entry list)" where
  "list_available P t db = and_then (pool_list P db) (\<lambda>rs db. (db, Inr (filter (is_available t) rs)))"

definition update_status ::
    "'db pool_store \<Rightarrow> datetime \<Rightarrow> string \<Rightarrow> pool_entry_status \<Rightarrow> 'db \<Rightarrow> 'db \<times> (core_error + pool_entry option)" where
  "update_status P now i status db =
     and_then (pool_get P i db) (\<lambda>found db.
       case found of
         None \<Rightarrow> (db, Inr None)
       | Some r \<Rightarrow>
           (let r' = r\<lparr>pe_status := status, pe_updated_at := now\<rparr>
            in and_then (pool_insert P r' db) (\<lambda>_ db. (db, Inr (Some r')))))"

definition pool_delete :: "'db pool_store \<Rightarrow> string \<Rightarrow> 'db \<Rightarrow> 'db \<times> (core_error + pool_entry option)" where
  "pool_delete P i = store_delete (pos_db P) (pos_de P) (text_bytes i)"

definition metrics_key :: bytes where
  "metrics_key = text_bytes ''__metrics__''"

definition get_metrics :: "'db pool_store \<Rightarrow> 'db \<Rightarrow> 'db \<times> (core_error + pool_stats)" where
  "get_metrics P db =
     and_then (store_get (pos_db P) (pos_de_stats P) metrics_key db) (\<lambda>found db.
       (db, Inr (case found of None \<Rightarrow> \<lparr>pst_hits = 0, pst_misses = 0\<rparr> | Some s \<Rightarrow> s)))"

definition save_metrics :: "'db pool_store \<Rightarrow> pool_stats \<Rightarrow> 'db \<Rightarrow> 'db \<times> (core_error + unit)" where
  "save_metrics P = store_insert (pos_db P) (pos_ser_stats P) metrics_key"

section \<open>Strategy and creator\<close>

record pool_strategy =
  str_target_size :: "string \<Rightarrow> nat"
  str_should_replenish :: "nat \<Rightarrow> nat \<Rightarrow> bool"

definition default_should_replenish :: "nat \<Rightarrow> nat \<Rightarrow> bool" where
  "default_should_replenish current_ready target \<longleftrightarrow> current_ready < target"

record fixed_capacity =
  fcs_default :: nat
  fcs_templates :: "string \<rightharpoonup> nat"

definition new_fixed_capacity :: "nat \<Rightarrow> fixed_capacity" where
  "new_fixed_capacity n = \<lparr>fcs_default = n, fcs_templates = Map.empty\<rparr>"

definition with_template_capacity :: "string \<Rightarrow> nat \<Rightarrow> fixed_capacity \<Rightarrow> fixed_capacity" where
  "with_template_capacity t n s = s\<lparr>fcs_templates := (fcs_templates s)(t \<mapsto> n)\<rparr>"

definition default_fixed_capacity :: fixed_capacity where
  "default_fixed_capacity = new_fixed_capacity 2"

definition fixed_target_size :: "fixed_capacity \<Rightarrow> string \<Rightarrow> nat" where
  "fixed_target_size s t = (case fcs_templates s t of None \<Rightarrow> fcs_default s | Some n \<Rightarrow> n)"

definition fixed_strategy :: "fixed_capacity \<Rightarrow> pool_strategy" where
  "fixed_strategy s = \<lparr>str_target_size = fixed_target_size s, str_should_replenish = default_should_replenish\<rparr>"

text \<open>What a creator does to the world, and the removal of a directory in it.\<close>

record 'w vm_creator =
  vcr_create :: "string \<Rightarrow> string \<Rightarrow> string \<Rightarrow> 'w \<Rightarrow> ('w \<times> (core_error + pool_entry)) option"
  vcr_restore :: "pool_entry \<Rightarrow> 'w \<Rightarrow> ('w \<times> (core_error + session)) option"
  vcr_remove_dir :: "string \<Rightarrow> 'w \<Rightarrow> 'w"

text \<open>The creator of the sources, on the host and the database of the templates. The identifier of a
  restored session is fresh: it is given by the host at that time.\<close>

record 'tdb fc_env =
  fe_os :: host_os
  fe_client :: client
  fe_templates :: "'tdb template_store option"
  fe_boot_id :: "string \<Rightarrow> uuid"
  fe_restore_id :: "host \<Rightarrow> uuid"
  fe_now :: datetime

definition custom_rootfs :: "'tdb fc_env \<Rightarrow> string \<Rightarrow> 'tdb \<Rightarrow> 'tdb \<times> (core_error + string option)" where
  "custom_rootfs env t tdb =
     (if t \<noteq> ''default'' \<and> t \<noteq> []
      then (case fe_templates env of
              None \<Rightarrow> (tdb, Inr None)
            | Some T \<Rightarrow> and_then (template_get T t tdb) (\<lambda>r tdb. (tdb, Inr (map_option tpl_rootfs_path r))))
      else (tdb, Inr None))"

definition fc_create ::
    "'tdb fc_env \<Rightarrow> string \<Rightarrow> string \<Rightarrow> string \<Rightarrow> host \<times> 'tdb \<Rightarrow>
     ((host \<times> 'tdb) \<times> (core_error + pool_entry)) option" where
  "fc_create env entry_id t storage_dir w =
     (let os = fe_os env; cl = fe_client env; base_dir = path_join storage_dir entry_id;
          snapshot_path = path_join base_dir ''snapshot.snap''; mem_file_path = path_join base_dir ''snapshot.mem''
      in case custom_rootfs env t (snd w) of
           (tdb, Inl e) \<Rightarrow> Some ((fst w, tdb), Inl e)
         | (tdb, Inr rootfs) \<Rightarrow>
             (case create_dir_all os base_dir (fst w) of
                (h, Inl e) \<Rightarrow> Some ((h, tdb), Inl e)
              | (h, Inr _) \<Rightarrow>
                  (case with_rootfs os cl (fe_boot_id env entry_id) rootfs h of
                     None \<Rightarrow> None
                   | Some (h, Inl e) \<Rightarrow> Some ((h, tdb), Inl e)
                   | Some (h, Inr s) \<Rightarrow>
                       (case and_then (pause_session cl s h) (\<lambda>_. snapshot_session cl s snapshot_path mem_file_path) of
                          (h, Inl e) \<Rightarrow> Some ((h, tdb), Inl e)
                        | (h, Inr _) \<Rightarrow> Some ((fst (end_session os s h), tdb),
                            Inr \<lparr>pe_id = entry_id, pe_template_id = t, pe_snapshot_path = snapshot_path,
                              pe_mem_file_path = mem_file_path, pe_vsock_uds_path = se_vsock_uds_path s,
                              pe_status = EntryReady, pe_created_at = fe_now env, pe_updated_at = fe_now env\<rparr>)))))"

definition fc_restore ::
    "'tdb fc_env \<Rightarrow> pool_entry \<Rightarrow> host \<times> 'tdb \<Rightarrow> ((host \<times> 'tdb) \<times> (core_error + session)) option" where
  "fc_restore env r w =
     map_option (\<lambda>(h, s). ((h, snd w), s))
       (from_snapshot (fe_os env) (fe_client env) (fe_restore_id env (fst w)) (pe_snapshot_path r)
          (pe_mem_file_path r) (pe_vsock_uds_path r) (fst w))"

definition fc_creator :: "'tdb fc_env \<Rightarrow> (host \<times> 'tdb) vm_creator" where
  "fc_creator env = \<lparr>vcr_create = fc_create env, vcr_restore = fc_restore env,
     vcr_remove_dir = (\<lambda>dir w. (remove_path dir (fst w), snd w))\<rparr>"

section \<open>The pool\<close>

record ('db, 'w) pool_config =
  pcf_store :: "'db pool_store"
  pcf_storage_dir :: string
  pcf_strategy :: pool_strategy
  pcf_creator :: "'w vm_creator"

text \<open>\<open>wp_spawned\<close> are the templates of the replenishments that were started and have not run.\<close>

record ('db, 'w) warm_pool =
  wp_db :: 'db
  wp_world :: 'w
  wp_hits :: u64
  wp_misses :: u64
  wp_known :: "string set"
  wp_caps :: "string \<rightharpoonup> nat"
  wp_spawned :: "string list"

definition new_pool :: "('db, 'w) pool_config \<Rightarrow> 'db \<Rightarrow> 'w \<Rightarrow> ('db, 'w) warm_pool" where
  "new_pool C db w =
     (case get_metrics (pcf_store C) db of
        (db', r) \<Rightarrow>
          (let stats = (case r of Inl _ \<Rightarrow> \<lparr>pst_hits = 0, pst_misses = 0\<rparr> | Inr s \<Rightarrow> s)
           in \<lparr>wp_db = db', wp_world = w, wp_hits = pst_hits stats, wp_misses = pst_misses stats,
               wp_known = {''default''}, wp_caps = Map.empty, wp_spawned = []\<rparr>))"

definition register_template :: "string \<Rightarrow> ('db, 'w) warm_pool \<Rightarrow> ('db, 'w) warm_pool" where
  "register_template t pool = pool\<lparr>wp_known := insert t (wp_known pool)\<rparr>"

definition list_registered_templates :: "('db, 'w) warm_pool \<Rightarrow> string set" where
  "list_registered_templates pool = wp_known pool"

definition template_or_default :: "string option \<Rightarrow> string" where
  "template_or_default t = (case t of None \<Rightarrow> ''default'' | Some t \<Rightarrow> t)"

text \<open>A claim in two parts, between which others may run: an entry is picked, and then it is marked and
  restored.\<close>

definition claim_pick ::
    "('db, 'w) pool_config \<Rightarrow> string \<Rightarrow> ('db, 'w) warm_pool \<Rightarrow> ('db, 'w) warm_pool \<times> (core_error + pool_entry option)" where
  "claim_pick C t pool =
     (case list_available (pcf_store C) t (wp_db pool) of
        (db, Inl e) \<Rightarrow> ((register_template t pool)\<lparr>wp_db := db\<rparr>, Inl e)
      | (db, Inr es) \<Rightarrow> ((register_template t pool)\<lparr>wp_db := db\<rparr>,
          Inr (case es of [] \<Rightarrow> None | r # _ \<Rightarrow> Some r)))"

definition save_counts :: "('db, 'w) pool_config \<Rightarrow> ('db, 'w) warm_pool \<Rightarrow> ('db, 'w) warm_pool" where
  "save_counts C pool = pool\<lparr>wp_db := fst (save_metrics (pcf_store C)
     \<lparr>pst_hits = wp_hits pool, pst_misses = wp_misses pool\<rparr> (wp_db pool))\<rparr>"

definition spawn_replenish :: "string \<Rightarrow> ('db, 'w) warm_pool \<Rightarrow> ('db, 'w) warm_pool" where
  "spawn_replenish t pool = pool\<lparr>wp_spawned := wp_spawned pool @ [t]\<rparr>"

definition claim_hit ::
    "('db, 'w) pool_config \<Rightarrow> datetime \<Rightarrow> string \<Rightarrow> pool_entry \<Rightarrow> ('db, 'w) warm_pool \<Rightarrow>
     (('db, 'w) warm_pool \<times> (core_error + session option)) option" where
  "claim_hit C now t r pool =
     (case update_status (pcf_store C) now (pe_id r) EntryClaimed (wp_db pool) of
        (db, Inl e) \<Rightarrow> Some (pool\<lparr>wp_db := db\<rparr>, Inl e)
      | (db, Inr _) \<Rightarrow>
          (case vcr_restore (pcf_creator C) r (wp_world pool) of
             None \<Rightarrow> None
           | Some (w, Inl e) \<Rightarrow> Some (pool\<lparr>wp_db := db, wp_world := w\<rparr>, Inl e)
           | Some (w, Inr s) \<Rightarrow> Some (spawn_replenish t (save_counts C
               (pool\<lparr>wp_db := db, wp_world := w, wp_hits := wp_hits pool + 1\<rparr>)), Inr (Some s))))"

definition claim_miss :: "('db, 'w) pool_config \<Rightarrow> string \<Rightarrow> ('db, 'w) warm_pool \<Rightarrow> ('db, 'w) warm_pool" where
  "claim_miss C t pool = spawn_replenish t (save_counts C (pool\<lparr>wp_misses := wp_misses pool + 1\<rparr>))"

definition claim ::
    "('db, 'w) pool_config \<Rightarrow> datetime \<Rightarrow> string option \<Rightarrow> ('db, 'w) warm_pool \<Rightarrow>
     (('db, 'w) warm_pool \<times> (core_error + session option)) option" where
  "claim C now template_id pool =
     (let t = template_or_default template_id
      in case claim_pick C t pool of
           (pool, Inl e) \<Rightarrow> Some (pool, Inl e)
         | (pool, Inr None) \<Rightarrow> Some (claim_miss C t pool, Inr None)
         | (pool, Inr (Some r)) \<Rightarrow> claim_hit C now t r pool)"

definition target_capacity :: "('db, 'w) pool_config \<Rightarrow> string \<Rightarrow> ('db, 'w) warm_pool \<Rightarrow> nat" where
  "target_capacity C t pool =
     (case wp_caps pool t of Some n \<Rightarrow> n | None \<Rightarrow> str_target_size (pcf_strategy C) t)"

text \<open>\<open>n\<close> new entries, with the identifiers \<open>fresh k\<close>, \<open>fresh (k + 1)\<close> and so on.\<close>

fun fill_pool ::
    "('db, 'w) pool_config \<Rightarrow> (nat \<Rightarrow> string) \<Rightarrow> string \<Rightarrow> nat \<Rightarrow> nat \<Rightarrow> ('db, 'w) warm_pool \<Rightarrow>
     (('db, 'w) warm_pool \<times> (core_error + unit)) option" where
  "fill_pool C fresh t k 0 pool = Some (pool, Inr ())"
| "fill_pool C fresh t k (Suc n) pool =
     (case vcr_create (pcf_creator C) (fresh k) t (pcf_storage_dir C) (wp_world pool) of
        None \<Rightarrow> None
      | Some (w, Inl e) \<Rightarrow> Some (pool\<lparr>wp_world := w\<rparr>, Inl e)
      | Some (w, Inr r) \<Rightarrow>
          (case pool_insert (pcf_store C) r (wp_db pool) of
             (db, Inl e) \<Rightarrow> Some (pool\<lparr>wp_world := w, wp_db := db\<rparr>, Inl e)
           | (db, Inr _) \<Rightarrow> fill_pool C fresh t (Suc k) n (pool\<lparr>wp_world := w, wp_db := db\<rparr>)))"

definition replenish ::
    "('db, 'w) pool_config \<Rightarrow> (nat \<Rightarrow> string) \<Rightarrow> string \<Rightarrow> ('db, 'w) warm_pool \<Rightarrow>
     (('db, 'w) warm_pool \<times> (core_error + unit)) option" where
  "replenish C fresh t pool =
     (case list_available (pcf_store C) t (wp_db pool) of
        (db, Inl e) \<Rightarrow> Some (pool\<lparr>wp_db := db\<rparr>, Inl e)
      | (db, Inr es) \<Rightarrow>
          (let target = target_capacity C t pool
           in if str_should_replenish (pcf_strategy C) (length es) target
              then fill_pool C fresh t 0 (target - length es) (pool\<lparr>wp_db := db\<rparr>)
              else Some (pool\<lparr>wp_db := db\<rparr>, Inr ())))"

section \<open>Metrics\<close>

record pool_metrics =
  pm_hits :: u64
  pm_misses :: u64
  pm_total_requests :: u64
  pm_hit_rate :: f64
  pm_ready_count :: nat
  pm_claimed_count :: nat

text \<open>The sum of the counts overflows when overflow is checked (\<open>ovf\<close>).\<close>

definition total_requests :: "bool \<Rightarrow> ('db, 'w) warm_pool \<Rightarrow> u64 outcome" where
  "total_requests ovf pool =
     (if ovf \<and> 2 ^ 64 \<le> unat (wp_hits pool) + unat (wp_misses pool) then Panics
      else Returns (wp_hits pool + wp_misses pool))"

definition rate_of :: "(rat \<Rightarrow> rat) \<Rightarrow> u64 \<Rightarrow> u64 \<Rightarrow> f64" where
  "rate_of rnd hits reqs =
     (if 0 < reqs then f64_div_fin rnd (rnd (of_nat (unat hits))) (rnd (of_nat (unat reqs))) else Fin 0)"

definition hit_rate :: "bool \<Rightarrow> (rat \<Rightarrow> rat) \<Rightarrow> ('db, 'w) warm_pool \<Rightarrow> f64 outcome" where
  "hit_rate ovf rnd pool = map_outcome_val (rate_of rnd (wp_hits pool)) (total_requests ovf pool)"

definition pool_metrics_of ::
    "('db, 'w) pool_config \<Rightarrow> bool \<Rightarrow> (rat \<Rightarrow> rat) \<Rightarrow> ('db, 'w) warm_pool \<Rightarrow>
     ('db, 'w) warm_pool \<times> pool_metrics outcome" where
  "pool_metrics_of C ovf rnd pool =
     (case total_requests ovf pool of
        Returns reqs \<Rightarrow>
          (case pool_list (pcf_store C) (wp_db pool) of
             (db, r) \<Rightarrow>
               (let all = (case r of Inl _ \<Rightarrow> [] | Inr es \<Rightarrow> es)
                in (pool\<lparr>wp_db := db\<rparr>, Returns
                     \<lparr>pm_hits = wp_hits pool, pm_misses = wp_misses pool, pm_total_requests = reqs,
                      pm_hit_rate = rate_of rnd (wp_hits pool) reqs,
                      pm_ready_count = length (filter (\<lambda>e. pe_status e = EntryReady) all),
                      pm_claimed_count = length (filter (\<lambda>e. pe_status e = EntryClaimed) all)\<rparr>)))
      | Panics \<Rightarrow> (pool, Panics)
      | Blocks \<Rightarrow> (pool, Blocks))"

section \<open>Scaling and the background loop\<close>

definition retire_entry ::
    "('db, 'w) pool_config \<Rightarrow> datetime \<Rightarrow> pool_entry \<Rightarrow> ('db, 'w) warm_pool \<Rightarrow> ('db, 'w) warm_pool" where
  "retire_entry C now r pool =
     pool\<lparr>wp_db := fst (update_status (pcf_store C) now (pe_id r) EntryClaimed (wp_db pool)),
       wp_world := vcr_remove_dir (pcf_creator C) (path_join (pcf_storage_dir C) (pe_id r)) (wp_world pool)\<rparr>"

definition scale ::
    "('db, 'w) pool_config \<Rightarrow> bool \<Rightarrow> (rat \<Rightarrow> rat) \<Rightarrow> datetime \<Rightarrow> (nat \<Rightarrow> string) \<Rightarrow> string option \<Rightarrow> nat \<Rightarrow>
     ('db, 'w) warm_pool \<Rightarrow> (('db, 'w) warm_pool \<times> (core_error + pool_metrics outcome)) option" where
  "scale C ovf rnd now fresh template_id capacity pool =
     (let t = template_or_default template_id;
          pool = (register_template t pool)\<lparr>wp_caps := (wp_caps pool)(t \<mapsto> capacity)\<rparr>;
          finish = (\<lambda>pool. case pool_metrics_of C ovf rnd pool of (pool, m) \<Rightarrow> Some (pool, Inr m))
      in case list_available (pcf_store C) t (wp_db pool) of
           (db, Inl e) \<Rightarrow> Some (pool\<lparr>wp_db := db\<rparr>, Inl e)
         | (db, Inr es) \<Rightarrow>
             (if length es < capacity
              then (case fill_pool C fresh t 0 (capacity - length es) (pool\<lparr>wp_db := db\<rparr>) of
                      None \<Rightarrow> None
                    | Some (pool, Inl e) \<Rightarrow> Some (pool, Inl e)
                    | Some (pool, Inr _) \<Rightarrow> finish pool)
              else if capacity < length es
              then finish (fold (retire_entry C now) (take (length es - capacity) es) (pool\<lparr>wp_db := db\<rparr>))
              else finish (pool\<lparr>wp_db := db\<rparr>)))"

text \<open>The templates in the order in which the set gives them.\<close>

fun replenish_all ::
    "('db, 'w) pool_config \<Rightarrow> (string \<Rightarrow> nat \<Rightarrow> string) \<Rightarrow> string list \<Rightarrow> ('db, 'w) warm_pool \<Rightarrow>
     (('db, 'w) warm_pool \<times> (core_error + unit)) option" where
  "replenish_all C fresh [] pool = Some (pool, Inr ())"
| "replenish_all C fresh (t # ts) pool =
     (case replenish C (fresh t) t pool of
        None \<Rightarrow> None
      | Some (pool, Inl e) \<Rightarrow> Some (pool, Inl e)
      | Some (pool, Inr _) \<Rightarrow> replenish_all C fresh ts pool)"

text \<open>The loop, for as many ticks as there are orders and identifiers for.\<close>

fun replenishment_loop ::
    "('db, 'w) pool_config \<Rightarrow> (string list \<times> (string \<Rightarrow> nat \<Rightarrow> string)) list \<Rightarrow> ('db, 'w) warm_pool \<Rightarrow>
     ('db, 'w) warm_pool option" where
  "replenishment_loop C [] pool = Some pool"
| "replenishment_loop C ((ts, fresh) # ticks) pool =
     (case replenish_all C fresh ts pool of
        None \<Rightarrow> None
      | Some (pool, _) \<Rightarrow> replenishment_loop C ticks pool)"

section \<open>The store is a map of entries\<close>

text \<open>The entries that a database holds, by identifier, when each is stored under its own.\<close>

definition pool_entries :: "'db pool_store \<Rightarrow> (bytes \<rightharpoonup> bytes) \<Rightarrow> string \<rightharpoonup> pool_entry" where
  "pool_entries P m i =
     (if internal_key (text_bytes i) then None
      else case m (text_bytes i) of
        None \<Rightarrow> None
      | Some b \<Rightarrow> (case pos_de P b of Inl _ \<Rightarrow> None | Inr r \<Rightarrow> Some r))"

definition pool_wf :: "'db pool_store \<Rightarrow> (bytes \<rightharpoonup> bytes) \<Rightarrow> bool" where
  "pool_wf P m \<longleftrightarrow> (\<forall>k b r. m k = Some b \<and> \<not> internal_key k \<and> pos_de P b = Inr r \<longrightarrow> k = text_bytes (pe_id r))"

definition pool_store_ok :: "'db pool_store \<Rightarrow> ('db \<Rightarrow> bytes \<rightharpoonup> bytes) \<Rightarrow> bool" where
  "pool_store_ok P view \<longleftrightarrow> database_ok (pos_db P) view \<and> codec_total (pos_ser P) (pos_de P)"

definition public_id :: "string \<Rightarrow> bool" where
  "public_id i \<longleftrightarrow> \<not> internal_key (text_bytes i)"

lemma pool_entries_Some:
  "pool_entries P m i = Some r \<longleftrightarrow>
     public_id i \<and> (\<exists>b. m (text_bytes i) = Some b \<and> pos_de P b = Inr r)"
  by (auto simp: pool_entries_def public_id_def split: option.splits sum.splits)

lemma pool_entries_id:
  assumes "pool_wf P m" "pool_entries P m i = Some r"
  shows "pe_id r = i \<and> public_id i"
proof -
  obtain b where "public_id i" "m (text_bytes i) = Some b" "pos_de P b = Inr r"
    using assms(2) pool_entries_Some by metis
  moreover from this have "text_bytes i = text_bytes (pe_id r)"
    using assms(1) unfolding pool_wf_def public_id_def by blast
  ultimately show ?thesis by simp
qed

lemma set_map_filter_iff: "set (List.map_filter f xs) = {y. \<exists>x\<in>set xs. f x = Some y}"
  by (induction xs) (auto simp: List.map_filter_def)

lemma distinct_map_filter:
  assumes "distinct (map key xs)" "\<And>x y. x \<in> set xs \<Longrightarrow> f x = Some y \<Longrightarrow> key x = g y"
  shows "distinct (map g (List.map_filter f xs))"
  using assms
proof (induction xs)
  case Nil
  then show ?case by (simp add: List.map_filter_def)
next
  case (Cons x xs)
  have IH: "distinct (map g (List.map_filter f xs))" using Cons by auto
  show ?case
  proof (cases "f x")
    case None
    with IH show ?thesis by (simp add: List.map_filter_def)
  next
    case (Some y)
    have "g y \<noteq> g z" if z: "z \<in> set (List.map_filter f xs)" for z
    proof -
      obtain x' where "x' \<in> set xs" "f x' = Some z" using z by (auto simp: set_map_filter_iff)
      with Cons.prems Some show ?thesis by (metis distinct.simps(2) image_eqI list.set_intros list.set_map list.simps(9))
    qed
    with IH Some show ?thesis by (auto simp: List.map_filter_def)
  qed
qed

lemma pool_items_Inr:
  "pool_items de items = Inr rs \<Longrightarrow> \<exists>kvs. items = map Inr kvs \<and>
     rs = List.map_filter (\<lambda>(k, v). if internal_key k then None else case de v of Inl _ \<Rightarrow> None | Inr r \<Rightarrow> Some r) kvs"
proof (induction de items arbitrary: rs rule: pool_items.induct)
  case (1 de)
  then show ?case by (simp add: List.map_filter_def)
next
  case (2 de e items)
  then show ?case by simp
next
  case (3 de k v items)
  let ?f = "\<lambda>(k, v). if internal_key k then None else case de v of Inl _ \<Rightarrow> None | Inr r \<Rightarrow> Some r"
  obtain rs' where rs': "pool_items de items = Inr rs'"
    using "3.prems" by (auto split: if_splits sum.splits)
  obtain kvs where "items = map Inr kvs" "rs' = List.map_filter ?f kvs"
  proof (cases "internal_key k")
    case True
    with "3.IH"(1) rs' show ?thesis using that by blast
  next
    case False
    with "3.IH"(2) rs' show ?thesis using that by blast
  qed
  with "3.prems" rs' show ?case
    by (intro exI [of _ "(k, v) # kvs"]) (auto simp: List.map_filter_def split: if_splits sum.splits)
qed

lemma listed_entries:
  assumes "pool_wf P m"
  shows "{r. \<exists>k b. m k = Some b \<and> \<not> internal_key k \<and> pos_de P b = Inr r} = ran (pool_entries P m)" (is "?L = _")
proof
  show "?L \<subseteq> ran (pool_entries P m)"
  proof
    fix r assume "r \<in> ?L"
    then obtain k b where kb: "m k = Some b" "\<not> internal_key k" "pos_de P b = Inr r" by blast
    then have "k = text_bytes (pe_id r)" using assms by (auto simp: pool_wf_def)
    with kb have "pool_entries P m (pe_id r) = Some r" by (auto simp: pool_entries_def)
    then show "r \<in> ran (pool_entries P m)" by (auto simp: ran_def)
  qed
  show "ran (pool_entries P m) \<subseteq> ?L"
    by (auto simp: ran_def pool_entries_Some public_id_def)
qed

lemma pool_list_entries:
  assumes "pool_store_ok P view" "pool_wf P (view db)" "pool_list P db = (db', res)"
  shows "view db' = view db \<and> (\<forall>rs. res = Inr rs \<longrightarrow> distinct (map pe_id rs) \<and> set rs = ran (pool_entries P (view db)))"
proof -
  let ?f = "\<lambda>(k, v). if internal_key k then None else case pos_de P v of Inl _ \<Rightarrow> None | Inr r \<Rightarrow> Some r"
  obtain items where it: "db_iter (pos_db P) db = (db', items)" "res = pool_items (pos_de P) items"
    using assms(3) by (auto simp: pool_list_def split: prod.splits)
  have v: "view db' = view db" "\<And>kvs. items = map Inr kvs \<Longrightarrow> distinct (map fst kvs) \<and> set kvs = {(k, v). view db k = Some v}"
    using db_iter_view [of "pos_db P" view db db' items] assms(1) it(1) by (auto simp: pool_store_ok_def)
  have "distinct (map pe_id rs) \<and> set rs = ran (pool_entries P (view db))" if r: "res = Inr rs" for rs
  proof -
    obtain kvs where kvs: "items = map Inr kvs" "rs = List.map_filter ?f kvs"
      using pool_items_Inr [of "pos_de P" items rs] it(2) r by auto
    note k = v(2) [OF kvs(1)]
    have "distinct (map text_bytes (map pe_id rs))"
      unfolding kvs(2) map_map
      by (rule distinct_map_filter [of fst])
        (use k assms(2) in \<open>auto simp: pool_wf_def split: if_splits sum.splits\<close>)
    then have "distinct (map pe_id rs)" by (auto simp: distinct_map intro: inj_on_imageI2)
    moreover have "set rs = {r. \<exists>k b. view db k = Some b \<and> \<not> internal_key k \<and> pos_de P b = Inr r}"
    proof -
      have "(case y of Inl _ \<Rightarrow> None | Inr r \<Rightarrow> Some r) = Some x \<longleftrightarrow> y = Inr x" for x :: pool_entry and y :: "string + pool_entry"
        by (cases y) simp_all
      then show ?thesis unfolding kvs(2) set_map_filter_iff using k by (auto split: if_splits)
    qed
    ultimately show ?thesis by (simp add: listed_entries [OF assms(2)])
  qed
  with v(1) show ?thesis by blast
qed

lemma pool_insert_entries:
  assumes "pool_store_ok P view" "pool_wf P (view db)" "public_id (pe_id r)" "pool_insert P r db = (db', res)"
  shows "pool_wf P (view db') \<and>
    (pool_entries P (view db') = (pool_entries P (view db))(pe_id r \<mapsto> r) \<or>
     res \<noteq> Inr () \<and> pool_entries P (view db') = pool_entries P (view db))"
proof -
  have "view db' = view db \<and> res \<noteq> Inr () \<or>
      (\<exists>b. pos_ser P r = Inr b \<and> view db' = (view db)(text_bytes (pe_id r) \<mapsto> b))"
    using store_insert_view [of "pos_db P" view "pos_ser P" "text_bytes (pe_id r)" r db db' res] assms(1,4)
    by (simp add: pool_store_ok_def pool_insert_def)
  then show ?thesis
  proof (elim disjE exE conjE)
    assume "view db' = view db" "res \<noteq> Inr ()"
    with assms(2) show ?thesis by simp
  next
    fix b assume b: "pos_ser P r = Inr b" "view db' = (view db)(text_bytes (pe_id r) \<mapsto> b)"
    then have de: "pos_de P b = Inr r" using assms(1) by (auto simp: pool_store_ok_def codec_total_def)
    have "pool_wf P (view db')" using assms(2) b(2) de by (auto simp: pool_wf_def)
    moreover have "pool_entries P (view db') = (pool_entries P (view db))(pe_id r \<mapsto> r)"
      using b(2) de assms(3) by (auto simp: fun_eq_iff pool_entries_def public_id_def)
    ultimately show ?thesis by blast
  qed
qed

lemma pool_get_entries:
  assumes "pool_store_ok P view" "public_id i" "pool_get P i db = (db', res)"
  shows "view db' = view db \<and> (\<forall>x. res = Inr x \<longrightarrow> pool_entries P (view db) i = x)"
  using store_get_view [of "pos_db P" view "pos_de P" "text_bytes i" db db' res] assms
  by (auto simp: pool_store_ok_def pool_get_def pool_entries_def public_id_def decode_found_def split: option.splits sum.splits)

lemma update_status_entries:
  assumes "pool_store_ok P view" "pool_wf P (view db)" "pool_entries P (view db) i = Some r"
    and "update_status P now i status db = (db', res)"
  shows "pool_wf P (view db') \<and>
    (pool_entries P (view db') = (pool_entries P (view db))(i \<mapsto> r\<lparr>pe_status := status, pe_updated_at := now\<rparr>) \<or>
     (\<exists>e. res = Inl e) \<and> pool_entries P (view db') = pool_entries P (view db))"
proof -
  note id = pool_entries_id [OF assms(2,3)]
  let ?r = "r\<lparr>pe_status := status, pe_updated_at := now\<rparr>"
  obtain db1 g where g: "pool_get P i db = (db1, g)" by fastforce
  note got = pool_get_entries [OF assms(1) _ g] 
  show ?thesis
  proof (cases g)
    case (Inl e)
    with g got id assms(2,4) show ?thesis by (auto simp: update_status_def)
  next
    case (Inr x)
    with got id assms(3) have x: "x = Some r" "view db1 = view db" by auto
    obtain db2 u where u: "pool_insert P ?r db1 = (db2, u)" by fastforce
    have "pool_wf P (view db2) \<and>
      (pool_entries P (view db2) = (pool_entries P (view db))(i \<mapsto> ?r) \<or>
       u \<noteq> Inr () \<and> pool_entries P (view db2) = pool_entries P (view db))"
      using pool_insert_entries [OF assms(1) _ _ u] assms(2) x(2) id by simp
    with assms(4) g Inr x(1) u show ?thesis by (cases u) (auto simp: update_status_def)
  qed
qed

lemma internal_metrics: "internal_key metrics_key"
  by (simp add: internal_key_def metrics_key_def text_bytes_def)

lemma save_metrics_entries:
  assumes "pool_store_ok P view" "pool_wf P (view db)" "save_metrics P s db = (db', res)"
  shows "pool_wf P (view db') \<and> pool_entries P (view db') = pool_entries P (view db)"
proof -
  have "view db' = view db \<or> (\<exists>b. view db' = (view db)(metrics_key \<mapsto> b))"
    using store_insert_view [of "pos_db P" view "pos_ser_stats P" metrics_key s db db' res] assms(1,3)
    by (auto simp: pool_store_ok_def save_metrics_def)
  then show ?thesis
  proof (elim disjE exE)
    fix b assume b: "view db' = (view db)(metrics_key \<mapsto> b)"
    have "pool_wf P (view db')" using assms(2) internal_metrics b unfolding pool_wf_def by (metis fun_upd_apply)
    moreover have "pool_entries P (view db') = pool_entries P (view db)"
      using internal_metrics b by (auto simp: pool_entries_def fun_eq_iff)
    ultimately show ?thesis by blast
  qed (use assms(2) in simp)
qed

section \<open>Claims\<close>

definition entries_of :: "('db, 'w) pool_config \<Rightarrow> ('db \<Rightarrow> bytes \<rightharpoonup> bytes) \<Rightarrow> ('db, 'w) warm_pool \<Rightarrow> string \<rightharpoonup> pool_entry" where
  "entries_of C view pool = pool_entries (pcf_store C) (view (wp_db pool))"

definition pool_inv :: "('db, 'w) pool_config \<Rightarrow> ('db \<Rightarrow> bytes \<rightharpoonup> bytes) \<Rightarrow> ('db, 'w) warm_pool \<Rightarrow> bool" where
  "pool_inv C view pool \<longleftrightarrow> pool_store_ok (pcf_store C) view \<and> pool_wf (pcf_store C) (view (wp_db pool))"

definition claimed_at :: "datetime \<Rightarrow> pool_entry \<Rightarrow> pool_entry" where
  "claimed_at now r = r\<lparr>pe_status := EntryClaimed, pe_updated_at := now\<rparr>"

lemma list_available_entries:
  assumes "pool_store_ok P view" "pool_wf P (view db)" "list_available P t db = (db', res)"
  shows "view db' = view db \<and> (\<forall>rs. res = Inr rs \<longrightarrow> distinct (map pe_id rs) \<and>
    set rs = {r \<in> ran (pool_entries P (view db)). is_available t r})"
proof -
  obtain db1 l where l: "pool_list P db = (db1, l)" by fastforce
  note entries = pool_list_entries [OF assms(1,2) l]
  show ?thesis
  proof (cases l)
    case (Inl e)
    with assms(3) l have "res = Inl e" "db' = db1" by (simp_all add: list_available_def)
    with entries show ?thesis by simp
  next
    case (Inr rs)
    with assms(3) l entries show ?thesis
      by (auto simp: list_available_def distinct_map inj_on_def)
  qed
qed

lemma claim_pick_entries:
  assumes "pool_inv C view pool" "claim_pick C t pool = (pool', res)"
  shows "pool_inv C view pool' \<and> entries_of C view pool' = entries_of C view pool \<and>
    wp_world pool' = wp_world pool \<and> wp_hits pool' = wp_hits pool \<and> wp_misses pool' = wp_misses pool \<and>
    wp_spawned pool' = wp_spawned pool \<and>
    (\<forall>found. res = Inr found \<longrightarrow> (case found of
       None \<Rightarrow> \<forall>r\<in>ran (entries_of C view pool). \<not> is_available t r
     | Some r \<Rightarrow> entries_of C view pool (pe_id r) = Some r \<and> is_available t r))"
proof -
  obtain db l where l: "list_available (pcf_store C) t (wp_db pool) = (db, l)" by fastforce
  note entries = list_available_entries [OF _ _ l, of view]
  have ok: "pool_store_ok (pcf_store C) view" "pool_wf (pcf_store C) (view (wp_db pool))"
    using assms(1) by (simp_all add: pool_inv_def)
  show ?thesis
  proof (cases l)
    case (Inl e)
    with assms(2) l entries ok show ?thesis
      by (auto simp: claim_pick_def register_template_def pool_inv_def entries_of_def)
  next
    case (Inr rs)
    have rs: "set rs = {r \<in> ran (entries_of C view pool). is_available t r}" "view db = view (wp_db pool)"
      using entries ok Inr by (simp_all add: entries_of_def)
    have id: "entries_of C view pool (pe_id r) = Some r" if "r \<in> ran (entries_of C view pool)" for r
      using that pool_entries_id [OF ok(2)] by (auto simp: ran_def entries_of_def)
    have pool': "pool' = (register_template t pool)\<lparr>wp_db := db\<rparr>" "res = Inr (case rs of [] \<Rightarrow> None | r # _ \<Rightarrow> Some r)"
      using assms(2) l Inr by (simp_all add: claim_pick_def)
    have found: "case (case rs of [] \<Rightarrow> None | r # _ \<Rightarrow> Some r) of
        None \<Rightarrow> \<forall>r\<in>ran (entries_of C view pool). \<not> is_available t r
      | Some r \<Rightarrow> entries_of C view pool (pe_id r) = Some r \<and> is_available t r"
    proof (cases rs)
      case Nil
      with rs(1) show ?thesis by auto
    next
      case (Cons r rs')
      then have "r \<in> {r \<in> ran (entries_of C view pool). is_available t r}" using rs(1) by auto
      with id Cons show ?thesis by simp
    qed
    from found pool' rs(2) ok show ?thesis
      by (simp add: register_template_def pool_inv_def entries_of_def)
  qed
qed

lemma save_counts_entries:
  assumes "pool_inv C view pool"
  shows "pool_inv C view (save_counts C pool) \<and> entries_of C view (save_counts C pool) = entries_of C view pool \<and>
    wp_world (save_counts C pool) = wp_world pool \<and> wp_hits (save_counts C pool) = wp_hits pool \<and>
    wp_misses (save_counts C pool) = wp_misses pool \<and> wp_spawned (save_counts C pool) = wp_spawned pool"
proof -
  obtain db r where s: "save_metrics (pcf_store C) \<lparr>pst_hits = wp_hits pool, pst_misses = wp_misses pool\<rparr> (wp_db pool) = (db, r)"
    by fastforce
  from save_metrics_entries [OF _ _ s, of view] assms s show ?thesis
    by (simp add: save_counts_def pool_inv_def entries_of_def)
qed

lemma claim_hit_entries:
  assumes "pool_inv C view pool" "entries_of C view pool (pe_id r) = Some r'" "claim_hit C now t r pool = Some (pool', res)"
  shows "pool_inv C view pool' \<and>
    (case res of
       Inl _ \<Rightarrow> entries_of C view pool' = entries_of C view pool \<or>
         entries_of C view pool' = (entries_of C view pool)(pe_id r \<mapsto> claimed_at now r')
     | Inr None \<Rightarrow> False
     | Inr (Some s) \<Rightarrow> entries_of C view pool' = (entries_of C view pool)(pe_id r \<mapsto> claimed_at now r') \<and>
         vcr_restore (pcf_creator C) r (wp_world pool) = Some (wp_world pool', Inr s) \<and>
         wp_hits pool' = wp_hits pool + 1 \<and> wp_misses pool' = wp_misses pool \<and> wp_spawned pool' = wp_spawned pool @ [t])"
proof -
  have ok: "pool_store_ok (pcf_store C) view" "pool_wf (pcf_store C) (view (wp_db pool))"
    using assms(1) by (simp_all add: pool_inv_def)
  obtain db u where u: "update_status (pcf_store C) now (pe_id r) EntryClaimed (wp_db pool) = (db, u)" by fastforce
  note entries = update_status_entries [OF ok assms(2) [unfolded entries_of_def] u]
  show ?thesis
  proof (cases u)
    case (Inl e)
    with assms(3) u entries ok show ?thesis
      by (auto simp: claim_hit_def pool_inv_def entries_of_def claimed_at_def)
  next
    case (Inr x)
    then have e': "pool_wf (pcf_store C) (view db)"
      "pool_entries (pcf_store C) (view db) = (pool_entries (pcf_store C) (view (wp_db pool)))(pe_id r \<mapsto> claimed_at now r')"
      using entries by (auto simp: claimed_at_def)
    obtain w s where w: "vcr_restore (pcf_creator C) r (wp_world pool) = Some (w, s)"
      using assms(3) u Inr by (auto simp: claim_hit_def split: option.splits)
    show ?thesis
    proof (cases s)
      case (Inl e)
      with assms(3) u Inr w e' ok show ?thesis by (auto simp: claim_hit_def pool_inv_def entries_of_def)
    next
      case (Inr s')
      let ?p = "pool\<lparr>wp_db := db, wp_world := w, wp_hits := wp_hits pool + 1\<rparr>"
      have "pool_inv C view ?p" using e' ok by (simp add: pool_inv_def)
      note saved = save_counts_entries [OF this]
      have "pool' = spawn_replenish t (save_counts C ?p)" "res = Inr (Some s')"
        using assms(3) u \<open>u = Inr x\<close> w Inr by (simp_all add: claim_hit_def)
      with saved e' w Inr show ?thesis
        by (simp add: spawn_replenish_def pool_inv_def entries_of_def)
    qed
  qed
qed

text \<open>
  A claim that gives a session has restored one entry that was ready for the template, and has
  marked exactly that entry as claimed; one that gives none found no ready entry, and changes no
  entry. Both are counted, and both start a replenishment. A claim that fails changes at most the
  one entry it picked: when the restoration fails, the entry stays claimed and nobody has it.
\<close>

theorem claim_effect:
  assumes "pool_inv C view pool" "claim C now template_id pool = Some (pool', res)" "t = template_or_default template_id"
  shows "pool_inv C view pool' \<and>
    (case res of
       Inr (Some s) \<Rightarrow> \<exists>r. entries_of C view pool (pe_id r) = Some r \<and> is_available t r \<and>
         entries_of C view pool' = (entries_of C view pool)(pe_id r \<mapsto> claimed_at now r) \<and>
         vcr_restore (pcf_creator C) r (wp_world pool) = Some (wp_world pool', Inr s) \<and>
         wp_hits pool' = wp_hits pool + 1 \<and> wp_misses pool' = wp_misses pool \<and> wp_spawned pool' = wp_spawned pool @ [t]
     | Inr None \<Rightarrow> (\<forall>r\<in>ran (entries_of C view pool). \<not> is_available t r) \<and>
         entries_of C view pool' = entries_of C view pool \<and> wp_world pool' = wp_world pool \<and>
         wp_misses pool' = wp_misses pool + 1 \<and> wp_hits pool' = wp_hits pool \<and> wp_spawned pool' = wp_spawned pool @ [t]
     | Inl _ \<Rightarrow> entries_of C view pool' = entries_of C view pool \<or>
         (\<exists>r. entries_of C view pool (pe_id r) = Some r \<and> is_available t r \<and>
           entries_of C view pool' = (entries_of C view pool)(pe_id r \<mapsto> claimed_at now r)))"
proof -
  obtain p1 found where p: "claim_pick C t pool = (p1, found)" by fastforce
  note pick = claim_pick_entries [OF assms(1) p]
  show ?thesis
  proof (cases found)
    case (Inl e)
    with assms(2,3) p pick show ?thesis by (auto simp: claim_def Let_def)
  next
    case (Inr x)
    show ?thesis
    proof (cases x)
      case None
      let ?p = "p1\<lparr>wp_misses := wp_misses p1 + 1\<rparr>"
      have "pool_inv C view ?p" using pick by (simp add: pool_inv_def)
      note saved = save_counts_entries [OF this]
      have "pool' = spawn_replenish t (save_counts C ?p)" "res = Inr None"
        using assms(2,3) p Inr None by (simp_all add: claim_def claim_miss_def)
      with saved pick Inr None show ?thesis
        by (simp add: spawn_replenish_def pool_inv_def entries_of_def)
    next
      case (Some r)
      have hit: "claim_hit C now t r p1 = Some (pool', res)"
        using assms(2,3) p Inr Some by (simp add: claim_def)
      have r: "entries_of C view p1 (pe_id r) = Some r" "is_available t r" using pick Inr Some by auto
      from claim_hit_entries [OF _ r(1) hit] pick r Inr Some show ?thesis
        by (auto split: sum.splits option.splits)
    qed
  qed
qed

lemma picked_not_claimed:
  assumes "pool_inv C view p" "entries_of C view p i = Some (claimed_at now r)" "claim_pick C t p = (p', Inr (Some r'))"
  shows "pe_id r' \<noteq> i"
proof
  assume i: "pe_id r' = i"
  have "entries_of C view p (pe_id r') = Some r'" "is_available t r'"
    using claim_pick_entries [OF assms(1,3)] by auto
  moreover have "r' = claimed_at now r" using assms(2) i calculation by simp
  ultimately show False by (simp add: is_available_def claimed_at_def)
qed

text \<open>
  After a claim has marked its entry, no later claim picks that entry. But the mark comes after the
  choice and the choice is not repeated: a claim that picks before the first one has marked gets the
  same entry, marks it again, and both return a session restored from the one snapshot.
\<close>

theorem claims_share_when_raced:
  assumes "pool_inv C view pool" "claim_pick C t pool = (p1, Inr (Some r))"
  shows "(\<forall>now p2 s. claim_hit C now t r p1 = Some (p2, Inr (Some s)) \<longrightarrow>
      (\<forall>t' p3 r'. claim_pick C t' p2 = (p3, Inr (Some r')) \<longrightarrow> pe_id r' \<noteq> pe_id r)) \<and>
    (\<forall>p2 r' now now' p3 p4 s1 s2. claim_pick C t p1 = (p2, Inr (Some r')) \<and> pe_id r' = pe_id r \<and>
      claim_hit C now t r p2 = Some (p3, Inr (Some s1)) \<and> claim_hit C now' t r' p3 = Some (p4, Inr (Some s2)) \<longrightarrow>
      r' = r \<and> vcr_restore (pcf_creator C) r (wp_world pool) = Some (wp_world p3, Inr s1) \<and>
      vcr_restore (pcf_creator C) r (wp_world p3) = Some (wp_world p4, Inr s2) \<and> wp_hits p4 = wp_hits pool + 2)"
proof (intro conjI allI impI)
  note pick = claim_pick_entries [OF assms]
  have r: "entries_of C view pool (pe_id r) = Some r" using pick by simp
  {
    fix now p2 s t' p3 r'
    assume a: "claim_hit C now t r p1 = Some (p2, Inr (Some s))" "claim_pick C t' p2 = (p3, Inr (Some r'))"
    have "entries_of C view p1 (pe_id r) = Some r" using pick r by simp
    from claim_hit_entries [OF _ this a(1)] pick
    have "pool_inv C view p2" "entries_of C view p2 (pe_id r) = Some (claimed_at now r)" by auto
    from picked_not_claimed [OF this a(2)] show "pe_id r' \<noteq> pe_id r" .
  }
  {
    fix p2 r' now now' p3 p4 s1 s2
    assume a: "claim_pick C t p1 = (p2, Inr (Some r')) \<and> pe_id r' = pe_id r \<and>
      claim_hit C now t r p2 = Some (p3, Inr (Some s1)) \<and> claim_hit C now' t r' p3 = Some (p4, Inr (Some s2))"
    then have a1: "claim_pick C t p1 = (p2, Inr (Some r'))" "pe_id r' = pe_id r"
      and a3: "claim_hit C now t r p2 = Some (p3, Inr (Some s1))"
      and a4: "claim_hit C now' t r' p3 = Some (p4, Inr (Some s2))" by auto
    have p1: "pool_inv C view p1" using pick by simp
    note pick2 = claim_pick_entries [OF p1 a1(1)]
    have p2: "entries_of C view p2 = entries_of C view pool" "pool_inv C view p2" "wp_world p2 = wp_world pool"
      "wp_hits p2 = wp_hits pool" "entries_of C view p1 (pe_id r') = Some r'"
      using pick2 a pick by auto
    then have same: "r' = r" using a r pick by simp
    have "entries_of C view p2 (pe_id r) = Some r" using p2 r by simp
    from claim_hit_entries [OF p2(2) this a3]
    have hit1: "pool_inv C view p3" "entries_of C view p3 (pe_id r) = Some (claimed_at now r)"
      "vcr_restore (pcf_creator C) r (wp_world p2) = Some (wp_world p3, Inr s1)" "wp_hits p3 = wp_hits p2 + 1"
      by auto
    from claim_hit_entries [OF hit1(1,2) a4 [unfolded same]]
    have "vcr_restore (pcf_creator C) r (wp_world p3) = Some (wp_world p4, Inr s2)" "wp_hits p4 = wp_hits p3 + 1"
      by auto
    with hit1 p2 same show "r' = r" "vcr_restore (pcf_creator C) r (wp_world pool) = Some (wp_world p3, Inr s1)"
      "vcr_restore (pcf_creator C) r (wp_world p3) = Some (wp_world p4, Inr s2)" "wp_hits p4 = wp_hits pool + 2"
      by simp_all
  }
qed

section \<open>A small pool\<close>

definition sample_pool_entry :: "pool_entry_status \<Rightarrow> datetime \<Rightarrow> pool_entry" where
  "sample_pool_entry status now = \<lparr>pe_id = ''e'', pe_template_id = ''default'', pe_snapshot_path = ''s'',
     pe_mem_file_path = ''m'', pe_vsock_uds_path = ''v'', pe_status = status, pe_created_at = 0, pe_updated_at = now\<rparr>"

definition sample_pool_store :: "list_db pool_store" where
  "sample_pool_store = \<lparr>pos_db = list_database,
     pos_ser = (\<lambda>r. if r = sample_pool_entry EntryReady 0 then Inr [1] else if r = sample_pool_entry EntryClaimed 5 then Inr [2] else Inl ''no''),
     pos_de = (\<lambda>b. if b = [1] then Inr (sample_pool_entry EntryReady 0) else if b = [2] then Inr (sample_pool_entry EntryClaimed 5) else Inl ''no''),
     pos_ser_stats = (\<lambda>_. Inl ''no''), pos_de_stats = (\<lambda>_. Inl ''no'')\<rparr>"

definition sample_pool_config :: "(list_db, unit) pool_config" where
  "sample_pool_config = \<lparr>pcf_store = sample_pool_store, pcf_storage_dir = ''/p'',
     pcf_strategy = fixed_strategy default_fixed_capacity,
     pcf_creator = \<lparr>vcr_create = (\<lambda>_ _ _ w. Some (w, Inl StdoutNotPiped)),
       vcr_restore = (\<lambda>_ w. Some (w, Inr sample_session)), vcr_remove_dir = (\<lambda>_ w. w)\<rparr>\<rparr>"

definition sample_pool :: "(list_db, unit) warm_pool" where
  "sample_pool = \<lparr>wp_db = ([(text_bytes ''e'', [1])], 100), wp_world = (), wp_hits = 0, wp_misses = 0,
     wp_known = {''default''}, wp_caps = Map.empty, wp_spawned = []\<rparr>"

lemma sample_pool_inv: "pool_inv sample_pool_config list_view sample_pool"
  by (auto simp: pool_inv_def pool_store_ok_def pool_wf_def codec_total_def sample_pool_config_def
      sample_pool_store_def list_database_ok sample_pool_def list_view_def sample_pool_entry_def)

lemma sample_entries: "entries_of sample_pool_config list_view sample_pool ''e'' = Some (sample_pool_entry EntryReady 0)"
  by (simp add: entries_of_def pool_entries_def sample_pool_config_def sample_pool_store_def sample_pool_def
      list_view_def internal_key_def text_bytes_def)

lemmas sample_pool_defs = sample_pool_config_def sample_pool_store_def sample_pool_def list_database_def spend_def
  claim_pick_def claim_hit_def list_available_def pool_list_def register_template_def is_available_def
  update_status_def pool_get_def store_get_def pool_insert_def store_insert_def decode_found_def
  save_counts_def save_metrics_def spawn_replenish_def internal_key_def text_bytes_def sample_pool_entry_def

theorem claim_effect_witness:
  "\<exists>pool'. claim sample_pool_config 5 None sample_pool = Some (pool', Inr (Some sample_session)) \<and>
     entries_of sample_pool_config list_view pool' ''e'' = Some (sample_pool_entry EntryClaimed 5)"
proof -
  obtain pool' where c: "claim sample_pool_config 5 None sample_pool = Some (pool', Inr (Some sample_session))"
    by (simp add: claim_def template_or_default_def sample_pool_defs Let_def)
  from claim_effect [OF sample_pool_inv c refl]
  obtain r where r: "entries_of sample_pool_config list_view sample_pool (pe_id r) = Some r"
    "is_available ''default'' r"
    "entries_of sample_pool_config list_view pool' =
      (entries_of sample_pool_config list_view sample_pool)(pe_id r \<mapsto> claimed_at 5 r)"
    by (auto simp: template_or_default_def)
  have "pe_id r = ''e''"
    using r(1) by (auto simp: entries_of_def pool_entries_def sample_pool_config_def sample_pool_store_def
        sample_pool_def list_view_def sample_pool_entry_def split: if_splits)
  with r sample_entries c show ?thesis by (auto simp: claimed_at_def sample_pool_entry_def)
qed

theorem claims_share_when_raced_witness:
  "\<exists>p1 p2 p3 p4. claim_pick sample_pool_config ''default'' sample_pool = (p1, Inr (Some (sample_pool_entry EntryReady 0))) \<and>
     claim_pick sample_pool_config ''default'' p1 = (p2, Inr (Some (sample_pool_entry EntryReady 0))) \<and>
     claim_hit sample_pool_config 5 ''default'' (sample_pool_entry EntryReady 0) p2 = Some (p3, Inr (Some sample_session)) \<and>
     claim_hit sample_pool_config 5 ''default'' (sample_pool_entry EntryReady 0) p3 = Some (p4, Inr (Some sample_session)) \<and>
     wp_hits p4 = wp_hits sample_pool + 2"
proof -
  let ?r = "sample_pool_entry EntryReady 0"
  obtain p1 p2 p3 p4 where p: "claim_pick sample_pool_config ''default'' sample_pool = (p1, Inr (Some ?r))"
    "claim_pick sample_pool_config ''default'' p1 = (p2, Inr (Some ?r))"
    "claim_hit sample_pool_config 5 ''default'' ?r p2 = Some (p3, Inr (Some sample_session))"
    "claim_hit sample_pool_config 5 ''default'' ?r p3 = Some (p4, Inr (Some sample_session))"
    by (simp add: sample_pool_defs)
  with claims_share_when_raced [OF sample_pool_inv p(1)] show ?thesis by blast
qed

section \<open>What a creator promises\<close>

text \<open>The pool relies on a creator for one thing: an entry it makes is ready, for the template it was
  asked for, under the identifier it was given.\<close>

text \<open>What \<open>m\<close> new machines, from the \<open>k\<close>-th identifier on, make of the entries.\<close>

definition made_between ::
    "(nat \<Rightarrow> string) \<Rightarrow> string \<Rightarrow> nat \<Rightarrow> nat \<Rightarrow> (string \<rightharpoonup> pool_entry) \<Rightarrow> (string \<rightharpoonup> pool_entry) \<Rightarrow> bool" where
  "made_between fresh t k m E E' \<longleftrightarrow>
     (\<forall>i. i \<notin> fresh ` {k..<k + m} \<longrightarrow> E' i = E i) \<and>
     (\<forall>i\<in>fresh ` {k..<k + m}. \<exists>r. E' i = Some r \<and> is_available t r)"

lemma made_none: "made_between fresh t k 0 E E"
  by (simp add: made_between_def)

lemma made_one: "is_available t r \<Longrightarrow> made_between fresh t k (Suc 0) E (E(fresh k \<mapsto> r))"
  by (simp add: made_between_def)

lemma made_Suc:
  assumes "made_between fresh t (Suc k) m (E(fresh k \<mapsto> r)) E'" "is_available t r"
  shows "made_between fresh t k (Suc m) E E'"
proof -
  have "fresh ` {k..<k + Suc m} = insert (fresh k) (fresh ` {Suc k..<Suc k + m})"
    by (subst image_insert [symmetric], rule arg_cong [where f = "image fresh"]) auto
  then show ?thesis
    using assms unfolding made_between_def by (cases "fresh k \<in> fresh ` {Suc k..<Suc k + m}") auto
qed

locale warm_vm_creator =
  fixes creator :: "'w vm_creator"
  assumes created: "vcr_create creator i t dir w = Some (w', Inr r) \<Longrightarrow> pe_id r = i \<and> is_available t r"
begin

lemma made_entry:
  fixes C :: "('db, 'w) pool_config"
  assumes "pool_inv C view pool" "public_id i"
    and "vcr_create creator i t (pcf_storage_dir C) (wp_world pool) = Some (w, Inr r)"
    and "pool_insert (pcf_store C) r (wp_db pool) = (db, u)" "p = pool\<lparr>wp_world := w, wp_db := db\<rparr>"
  shows "pool_inv C view p" "is_available t r"
    "entries_of C view p = (entries_of C view pool)(i \<mapsto> r) \<or> u \<noteq> Inr () \<and> entries_of C view p = entries_of C view pool"
proof -
  have r: "pe_id r = i" "is_available t r" using created [OF assms(3)] by simp_all
  then show "is_available t r" by simp
  show "pool_inv C view p"
    "entries_of C view p = (entries_of C view pool)(i \<mapsto> r) \<or> u \<noteq> Inr () \<and> entries_of C view p = entries_of C view pool"
    using pool_insert_entries [OF _ _ _ assms(4), of view] assms(1,2,5) r(1) by (auto simp: pool_inv_def entries_of_def)
qed

lemma fill_pool_made:
  fixes C :: "('db, 'w) pool_config"
  assumes "pcf_creator C = creator" "pool_inv C view pool" "\<And>j. public_id (fresh j)"
    and "fill_pool C fresh t k n pool = Some (pool', res)"
  shows "pool_inv C view pool' \<and> wp_caps pool' = wp_caps pool \<and>
    (\<exists>m\<le>n. (res = Inr () \<longrightarrow> m = n) \<and> made_between fresh t k m (entries_of C view pool) (entries_of C view pool'))"
  using assms(2,4)
proof (induction n arbitrary: k pool)
  case 0
  then show ?case by (simp add: made_none)
next
  case (Suc n)
  obtain w s where cr: "vcr_create creator (fresh k) t (pcf_storage_dir C) (wp_world pool) = Some (w, s)"
    using Suc.prems(2) assms(1) by (auto split: option.splits)
  show ?case
  proof (cases s)
    case (Inl e)
    with Suc.prems cr assms(1) have "pool' = pool\<lparr>wp_world := w\<rparr>" "res = Inl e" by simp_all
    with Suc.prems(1) show ?thesis by (auto simp: pool_inv_def entries_of_def made_none intro: exI [of _ 0])
  next
    case (Inr r)
    obtain db u where ins: "pool_insert (pcf_store C) r (wp_db pool) = (db, u)" by fastforce
    define p where "p = pool\<lparr>wp_world := w, wp_db := db\<rparr>"
    note made = made_entry [OF Suc.prems(1) assms(3) cr [unfolded Inr] ins p_def]
    show ?thesis
    proof (cases u)
      case (Inl e)
      have "pool' = p" "res = Inl e" using Suc.prems(2) cr assms(1) \<open>s = Inr r\<close> ins Inl by (simp_all add: p_def)
      with made made_one [OF made(2)] show ?thesis
        by (auto simp: p_def made_none intro: exI [of _ 0] exI [of _ "Suc 0"])
    next
      case (Inr x)
      have "fill_pool C fresh t (Suc k) n p = Some (pool', res)"
        using Suc.prems(2) cr assms(1) \<open>s = Inr r\<close> ins Inr by (simp add: p_def)
      from Suc.IH [OF made(1) this] obtain m where m: "m \<le> n" "res = Inr () \<longrightarrow> m = n"
        "made_between fresh t (Suc k) m (entries_of C view p) (entries_of C view pool')"
        "pool_inv C view pool'" "wp_caps pool' = wp_caps pool" by (auto simp: p_def)
      have "entries_of C view p = (entries_of C view pool)(fresh k \<mapsto> r)" using made(3) Inr by simp
      from made_Suc [OF m(3) [unfolded this] made(2)] m show ?thesis by (intro conjI exI [of _ "Suc m"]) auto
    qed
  qed
qed

lemma fill_pool_entries:
  fixes C :: "('db, 'w) pool_config"
  assumes "pcf_creator C = creator" "pool_inv C view pool" "\<And>j. public_id (fresh j)"
    and "fill_pool C fresh t k n pool = Some (pool', res)"
  shows "pool_inv C view pool' \<and> wp_caps pool' = wp_caps pool \<and>
    (\<exists>m\<le>n. (res = Inr () \<longrightarrow> m = n) \<and>
      (\<forall>i. i \<notin> fresh ` {k..<k + m} \<longrightarrow> entries_of C view pool' i = entries_of C view pool i) \<and>
      (\<forall>i\<in>fresh ` {k..<k + m}. \<exists>r. entries_of C view pool' i = Some r \<and> is_available t r))"
  using fill_pool_made [OF assms] unfolding made_between_def .

end

interpretation fc: warm_vm_creator "fc_creator env" for env :: "'tdb fc_env"
  by unfold_locales
    (auto simp: fc_creator_def fc_create_def Let_def is_available_def split: prod.splits sum.splits option.splits)

section \<open>Replenishment\<close>

definition ready_ids ::
    "('db, 'w) pool_config \<Rightarrow> ('db \<Rightarrow> bytes \<rightharpoonup> bytes) \<Rightarrow> string \<Rightarrow> ('db, 'w) warm_pool \<Rightarrow> string set" where
  "ready_ids C view t pool = {i. \<exists>r. entries_of C view pool i = Some r \<and> is_available t r}"

lemma ready_ids_listed:
  assumes "pool_inv C view pool" "list_available (pcf_store C) t (wp_db pool) = (db, Inr es)"
  shows "finite (ready_ids C view t pool) \<and> card (ready_ids C view t pool) = length es"
proof -
  have ok: "pool_store_ok (pcf_store C) view" "pool_wf (pcf_store C) (view (wp_db pool))"
    using assms(1) by (simp_all add: pool_inv_def)
  have es: "distinct (map pe_id es)" "set es = {r \<in> ran (entries_of C view pool). is_available t r}"
    using list_available_entries [OF ok assms(2)] by (simp_all add: entries_of_def)
  have "ready_ids C view t pool = set (map pe_id es)"
    using es(2) pool_entries_id [OF ok(2)]
    by (force simp: ready_ids_def ran_def entries_of_def)
  with distinct_card [OF es(1)] show ?thesis by simp
qed

lemma replenish_refilled:
  assumes "pool_inv C view pool" "str_should_replenish (pcf_strategy C) = default_should_replenish"
    and "target_capacity C t pool \<le> card (ready_ids C view t pool)" "replenish C fresh t pool = Some (pool', res)"
  shows "entries_of C view pool' = entries_of C view pool \<and> wp_world pool' = wp_world pool"
proof -
  obtain db l where l: "list_available (pcf_store C) t (wp_db pool) = (db, l)" by fastforce
  have v: "view db = view (wp_db pool)"
    using list_available_entries [OF _ _ l, of view] assms(1) by (simp add: pool_inv_def)
  show ?thesis
  proof (cases l)
    case (Inl e)
    with assms(4) l v show ?thesis by (auto simp: replenish_def entries_of_def)
  next
    case (Inr es)
    with ready_ids_listed [OF assms(1)] l assms(3) have "\<not> length es < target_capacity C t pool" by auto
    with assms(2,4) l Inr v show ?thesis
      by (auto simp: replenish_def default_should_replenish_def entries_of_def Let_def)
  qed
qed

text \<open>
  C30. A replenishment that succeeds brings the number of ready machines of its template up to the
  target and never takes it down: afterwards it is the larger of the target and what it was. It
  changes no entry that was there, and a second one changes nothing at all.
\<close>

theorem replenish_exact:
  assumes "pool_inv C view pool" "pcf_creator C = fc_creator env"
    and "str_should_replenish (pcf_strategy C) = default_should_replenish"
    and "inj fresh" "\<And>j. public_id (fresh j)" "\<And>j. entries_of C view pool (fresh j) = None"
    and "replenish C fresh t pool = Some (pool', Inr ())"
  shows "card (ready_ids C view t pool') = max (card (ready_ids C view t pool)) (target_capacity C t pool) \<and>
    (\<forall>i r. entries_of C view pool i = Some r \<longrightarrow> entries_of C view pool' i = Some r) \<and>
    (\<forall>fresh' pool'' res. replenish C fresh' t pool' = Some (pool'', res) \<longrightarrow>
      entries_of C view pool'' = entries_of C view pool' \<and> wp_world pool'' = wp_world pool')"
proof -
  let ?R = "ready_ids C view t" and ?T = "target_capacity C t pool"
  obtain db l where l: "list_available (pcf_store C) t (wp_db pool) = (db, l)" by fastforce
  then obtain es where es: "list_available (pcf_store C) t (wp_db pool) = (db, Inr es)"
    using assms(7) by (cases l) (auto simp: replenish_def)
  have v: "view db = view (wp_db pool)"
    using list_available_entries [OF _ _ es, of view] assms(1) by (simp add: pool_inv_def)
  have count: "finite (?R pool)" "card (?R pool) = length es" using ready_ids_listed [OF assms(1) es] by simp_all
  let ?p = "pool\<lparr>wp_db := db\<rparr>" and ?n = "?T - length es"
  have p: "pool_inv C view ?p" "entries_of C view ?p = entries_of C view pool" "target_capacity C t ?p = ?T"
    using assms(1) v by (simp_all add: pool_inv_def entries_of_def target_capacity_def)
  have "fill_pool C fresh t 0 ?n ?p = Some (pool', Inr ())"
    using assms(3,7) es by (auto simp: replenish_def Let_def default_should_replenish_def split: if_splits)
  from fc.fill_pool_entries [OF assms(2) p(1) assms(5) this]
  have made: "pool_inv C view pool'" "wp_caps pool' = wp_caps pool"
    "\<And>i. i \<notin> fresh ` {0..<?n} \<Longrightarrow> entries_of C view pool' i = entries_of C view pool i"
    "\<And>i. i \<in> fresh ` {0..<?n} \<Longrightarrow> \<exists>r. entries_of C view pool' i = Some r \<and> is_available t r"
    using p(2) by auto
  have "?R pool' = ?R pool \<union> fresh ` {0..<?n}" using made(3,4) assms(6) unfolding ready_ids_def by fastforce
  moreover have "?R pool \<inter> fresh ` {0..<?n} = {}" using assms(6) by (auto simp: ready_ids_def)
  moreover have "card (fresh ` {0..<?n}) = ?n" using assms(4) by (simp add: card_image inj_on_subset)
  ultimately have card: "card (?R pool') = max (card (?R pool)) ?T" using count by (simp add: card_Un_disjoint)
  have "target_capacity C t pool' = ?T" using made(2) by (simp add: target_capacity_def)
  then have "?T \<le> card (?R pool')" "target_capacity C t pool' \<le> card (?R pool')" using card by simp_all
  note again = replenish_refilled [OF made(1) assms(3) this(2)]
  have "entries_of C view pool' i = Some r" if "entries_of C view pool i = Some r" for i r
    using made(3) [of i] that assms(6) by (cases "i \<in> fresh ` {0..<?n}") auto
  with card again show ?thesis by blast
qed

text \<open>Scaling down removes the files of an entry but not the entry, which from then on counts as claimed.\<close>

lemma retired_entry_stays:
  assumes "pool_inv C view pool" "entries_of C view pool (pe_id r) = Some r'"
  shows "pool_inv C view (retire_entry C now r pool) \<and>
    (entries_of C view (retire_entry C now r pool) = (entries_of C view pool)(pe_id r \<mapsto> claimed_at now r') \<or>
     entries_of C view (retire_entry C now r pool) = entries_of C view pool) \<and>
    wp_world (retire_entry C now r pool) =
      vcr_remove_dir (pcf_creator C) (path_join (pcf_storage_dir C) (pe_id r)) (wp_world pool)"
proof -
  obtain db u where u: "update_status (pcf_store C) now (pe_id r) EntryClaimed (wp_db pool) = (db, u)" by fastforce
  have ok: "pool_store_ok (pcf_store C) view" "pool_wf (pcf_store C) (view (wp_db pool))"
    using assms(1) by (simp_all add: pool_inv_def)
  from update_status_entries [OF ok assms(2) [unfolded entries_of_def] u] u ok show ?thesis
    by (auto simp: retire_entry_def pool_inv_def entries_of_def claimed_at_def)
qed

section \<open>An empty pool\<close>

definition idle_env :: "unit fc_env" where
  "idle_env = \<lparr>fe_os = sample_os, fe_client = willing_client, fe_templates = None, fe_boot_id = (\<lambda>_. 7),
     fe_restore_id = (\<lambda>_. 8), fe_now = 5\<rparr>"

definition made_entry :: pool_entry where
  "made_entry = \<lparr>pe_id = ''x'', pe_template_id = ''default'', pe_snapshot_path = ''/p/x/snapshot.snap'',
     pe_mem_file_path = ''/p/x/snapshot.mem'', pe_vsock_uds_path = se_vsock_uds_path sample_session,
     pe_status = EntryReady, pe_created_at = 5, pe_updated_at = 5\<rparr>"

definition idle_config :: "(list_db, host \<times> unit) pool_config" where
  "idle_config = \<lparr>pcf_store = \<lparr>pos_db = list_database,
       pos_ser = (\<lambda>r. if r = made_entry then Inr [1] else Inl ''no''),
       pos_de = (\<lambda>b. if b = [1] then Inr made_entry else Inl ''no''),
       pos_ser_stats = (\<lambda>_. Inl ''no''), pos_de_stats = (\<lambda>_. Inl ''no'')\<rparr>,
     pcf_storage_dir = ''/p'', pcf_strategy = fixed_strategy (new_fixed_capacity 1), pcf_creator = fc_creator idle_env\<rparr>"

definition idle_pool :: "(list_db, host \<times> unit) warm_pool" where
  "idle_pool = \<lparr>wp_db = ([], 100), wp_world = (idle_host, ()), wp_hits = 0, wp_misses = 0,
     wp_known = {''default''}, wp_caps = Map.empty, wp_spawned = []\<rparr>"

definition idle_fresh :: "nat \<Rightarrow> string" where
  "idle_fresh j = replicate (Suc j) (CHR ''x'')"

lemma idle_pool_inv: "pool_inv idle_config list_view idle_pool"
  by (auto simp: pool_inv_def pool_store_ok_def pool_wf_def codec_total_def idle_config_def list_database_ok
      idle_pool_def list_view_def)

lemma idle_entries: "entries_of idle_config list_view idle_pool = Map.empty"
  by (simp add: fun_eq_iff entries_of_def pool_entries_def idle_pool_def list_view_def)

lemma idle_fresh_public: "inj idle_fresh" "public_id (idle_fresh j)"
  by (auto simp: inj_def idle_fresh_def public_id_def internal_key_def text_bytes_def
      dest: arg_cong [where f = length])

lemma made_by_idle:
  "\<exists>w. vcr_create (pcf_creator idle_config) ''x'' ''default'' ''/p'' (wp_world idle_pool) = Some (w, Inr made_entry)"
  by (simp add: idle_config_def idle_pool_def fc_creator_def fc_create_def custom_rootfs_def idle_env_def made_entry_def
      with_rootfs_def configure_vm_def put_request_def patch_request_def api_request_def willing_client_def
      config_with_rootfs_def create_dir_all_def path_from_env_def existing_path_def start_process_def remove_path_def
      sample_os_def idle_host_def sample_session_def path_join_def pause_session_def pause_vm_def snapshot_session_def
      create_snapshot_def Let_def)

lemma idle_replenish: "\<exists>pool'. replenish idle_config idle_fresh ''default'' idle_pool = Some (pool', Inr ())"
proof -
  have "\<exists>w. vcr_create (fc_creator idle_env) ''x'' ''default'' ''/p'' (idle_host, ()) = Some (w, Inr made_entry)"
    using made_by_idle by (simp add: idle_config_def idle_pool_def)
  then show ?thesis
    by (auto simp: replenish_def idle_config_def idle_pool_def list_available_def pool_list_def list_database_def
        spend_def target_capacity_def fixed_strategy_def new_fixed_capacity_def fixed_target_size_def
        default_should_replenish_def idle_fresh_def pool_insert_def store_insert_def Let_def)
qed

theorem replenish_exact_witness:
  "\<exists>pool'. replenish idle_config idle_fresh ''default'' idle_pool = Some (pool', Inr ()) \<and>
     card (ready_ids idle_config list_view ''default'' pool') = 1"
proof -
  obtain pool' where r: "replenish idle_config idle_fresh ''default'' idle_pool = Some (pool', Inr ())"
    using idle_replenish by blast
  have "pcf_creator idle_config = fc_creator idle_env"
    "str_should_replenish (pcf_strategy idle_config) = default_should_replenish"
    "target_capacity idle_config ''default'' idle_pool = 1"
    "ready_ids idle_config list_view ''default'' idle_pool = {}"
    by (simp_all add: ready_ids_def idle_entries)
      (simp_all add: idle_config_def fixed_strategy_def target_capacity_def idle_pool_def fixed_target_size_def
        new_fixed_capacity_def)
  with replenish_exact [OF idle_pool_inv this(1,2) idle_fresh_public _ r] r idle_entries show ?thesis by auto
qed

end
