(* ===== verification/Pool_Runs.thy ===== *)
theory Pool_Runs
  imports Warm_Pool
begin

text \<open>
  The warm pool under any interleaving of its calls (\<open>akssora-core/src/pool/mod.rs\<close>). A claim chooses an
  entry and marks it in two steps, and a replenishment adds its entries one by one, so the states
  between are states that other calls see. A run has the pool and the claims that have chosen an
  entry and not marked it.
\<close>

section \<open>Runs\<close>

type_synonym 'p pool_run_state = "'p \<times> (string \<times> pool_entry) list"

definition add_made :: "('db, 'w) pool_config \<Rightarrow> pool_entry \<Rightarrow> 'w \<Rightarrow> ('db, 'w) warm_pool \<Rightarrow> ('db, 'w) warm_pool" where
  "add_made C r w pool = pool\<lparr>wp_world := w, wp_db := fst (pool_insert (pcf_store C) r (wp_db pool))\<rparr>"

text \<open>The identifiers of new entries are fresh, and none is a key of the store itself.\<close>

inductive pool_run ::
    "('db, 'w) pool_config \<Rightarrow> ('db \<Rightarrow> bytes \<rightharpoonup> bytes) \<Rightarrow> ('db, 'w) warm_pool \<Rightarrow>
     ('db, 'w) warm_pool pool_run_state \<Rightarrow> bool"
  for C view pool0 where
  Begun: "pool_run C view pool0 (pool0, [])"
| Chosen: "pool_run C view pool0 (pool, fl) \<Longrightarrow> claim_pick C t pool = (pool', Inr (Some r)) \<Longrightarrow>
    pool_run C view pool0 (pool', fl @ [(t, r)])"
| Missed: "pool_run C view pool0 (pool, fl) \<Longrightarrow> claim_pick C t pool = (pool', Inr None) \<Longrightarrow>
    pool_run C view pool0 (claim_miss C t pool', fl)"
| ChoiceFailed: "pool_run C view pool0 (pool, fl) \<Longrightarrow> claim_pick C t pool = (pool', Inl e) \<Longrightarrow>
    pool_run C view pool0 (pool', fl)"
| Claimed: "pool_run C view pool0 (pool, fl) \<Longrightarrow> (t, r) \<in> set fl \<Longrightarrow> claim_hit C now t r pool = Some (pool', res) \<Longrightarrow>
    pool_run C view pool0 (pool', remove1 (t, r) fl)"
| Made: "pool_run C view pool0 (pool, fl) \<Longrightarrow> public_id i \<Longrightarrow> entries_of C view pool i = None \<Longrightarrow>
    vcr_create (pcf_creator C) i t dir w0 = Some (w, Inr r) \<Longrightarrow> pool_run C view pool0 (add_made C r w pool, fl)"
| Retired: "pool_run C view pool0 (pool, fl) \<Longrightarrow> entries_of C view pool (pe_id r) = Some r' \<Longrightarrow>
    pool_run C view pool0 (retire_entry C now r pool, fl)"

section \<open>What every run keeps\<close>

text \<open>Two states of one entry differ in the status and the time of the last change only, and a claimed
  entry stays claimed.\<close>

definition later_entry :: "pool_entry \<Rightarrow> pool_entry \<Rightarrow> bool" where
  "later_entry r r' \<longleftrightarrow> r' = r\<lparr>pe_status := pe_status r', pe_updated_at := pe_updated_at r'\<rparr> \<and>
     (pe_status r = EntryClaimed \<longrightarrow> pe_status r' = EntryClaimed)"

lemma later_refl: "later_entry r r"
  by (simp add: later_entry_def)

lemma later_claimed: "later_entry r r' \<Longrightarrow> later_entry r (claimed_at now r')"
  by (cases r, cases r') (simp add: later_entry_def claimed_at_def)

text \<open>The typing of a state: each entry is stored under its own identifier and is ready or claimed; the
  entries of \<open>E0\<close> are all there, no earlier than they were, and so are those chosen.\<close>

definition entry_typed :: "string \<Rightarrow> pool_entry \<Rightarrow> bool" where
  "entry_typed i r \<longleftrightarrow> pe_id r = i \<and> pe_status r \<in> {EntryReady, EntryClaimed}"

definition run_typed ::
    "(string \<rightharpoonup> pool_entry) \<Rightarrow> (string \<rightharpoonup> pool_entry) \<Rightarrow> (string \<times> pool_entry) list \<Rightarrow> bool" where
  "run_typed E0 E fl \<longleftrightarrow> (\<forall>i r. E i = Some r \<longrightarrow> entry_typed i r) \<and>
     (\<forall>i r. E0 i = Some r \<longrightarrow> (\<exists>r'. E i = Some r' \<and> later_entry r r')) \<and>
     (\<forall>(t, r)\<in>set fl. pe_template_id r = t \<and> (\<exists>r'. E (pe_id r) = Some r' \<and> later_entry r r'))"

lemma later_trans: "later_entry r r' \<Longrightarrow> later_entry r' r'' \<Longrightarrow> later_entry r r''"
  by (cases r, cases r', cases r'') (auto simp: later_entry_def)

lemma run_typed_step:
  assumes "run_typed E0 E fl" "\<And>j r. E j = Some r \<Longrightarrow> \<exists>r'. E' j = Some r' \<and> later_entry r r'"
    and "\<And>j r. E' j = Some r \<Longrightarrow> entry_typed j r"
  shows "run_typed E0 E' fl"
proof -
  have "\<exists>r''. E' j = Some r'' \<and> later_entry r r''" if "\<exists>r'. E j = Some r' \<and> later_entry r r'" for j r
    using that assms(2) later_trans by blast
  with assms(1,3) show ?thesis unfolding run_typed_def by blast
qed

lemma run_typed_mark:
  assumes "run_typed E0 E fl" "E i = Some r"
  shows "run_typed E0 (E(i \<mapsto> claimed_at now r)) fl"
proof (rule run_typed_step [OF assms(1)])
  have typed: "entry_typed j r" if "E j = Some r" for j r using assms(1) that unfolding run_typed_def by blast
  show "\<exists>r''. (E(i \<mapsto> claimed_at now r)) j = Some r'' \<and> later_entry r' r''" if "E j = Some r'" for j r'
    using that assms(2) later_claimed later_refl by auto
  show "entry_typed j r'" if "(E(i \<mapsto> claimed_at now r)) j = Some r'" for j r'
    using that typed [OF assms(2)] typed by (auto simp: entry_typed_def claimed_at_def split: if_splits)
qed

lemma run_typed_add:
  assumes "run_typed E0 E fl" "E i = None" "entry_typed i r"
  shows "run_typed E0 (E(i \<mapsto> r)) fl"
proof (rule run_typed_step [OF assms(1)])
  show "\<exists>r''. (E(i \<mapsto> r)) j = Some r'' \<and> later_entry r' r''" if "E j = Some r'" for j r'
    using that assms(2) later_refl by auto
  show "entry_typed j r'" if "(E(i \<mapsto> r)) j = Some r'" for j r'
    using that assms(1,3) unfolding run_typed_def by (auto split: if_splits)
qed

lemma run_typed_choose:
  assumes "run_typed E0 E fl" "E (pe_id r) = Some r" "is_available t r"
  shows "run_typed E0 E (fl @ [(t, r)])"
proof -
  have "pe_template_id r = t \<and> (\<exists>r'. E (pe_id r) = Some r' \<and> later_entry r r')"
    using assms(2,3) later_refl by (simp add: is_available_def)
  with assms(1) show ?thesis unfolding run_typed_def by auto
qed

lemma run_typed_forget: "run_typed E0 E fl \<Longrightarrow> set fl' \<subseteq> set fl \<Longrightarrow> run_typed E0 E fl'"
  unfolding run_typed_def by blast

lemma claim_miss_entries:
  assumes "pool_inv C view pool"
  shows "pool_inv C view (claim_miss C t pool) \<and> entries_of C view (claim_miss C t pool) = entries_of C view pool"
proof -
  have "pool_inv C view (pool\<lparr>wp_misses := wp_misses pool + 1\<rparr>)" using assms by (simp add: pool_inv_def)
  from save_counts_entries [OF this] show ?thesis
    by (simp add: claim_miss_def spawn_replenish_def pool_inv_def entries_of_def)
qed

lemma add_made_entries:
  assumes "pool_inv C view pool" "public_id (pe_id r)"
  shows "pool_inv C view (add_made C r w pool) \<and>
    (entries_of C view (add_made C r w pool) = (entries_of C view pool)(pe_id r \<mapsto> r) \<or>
     entries_of C view (add_made C r w pool) = entries_of C view pool)"
proof -
  obtain db u where ins: "pool_insert (pcf_store C) r (wp_db pool) = (db, u)" by fastforce
  from pool_insert_entries [OF _ _ assms(2) ins, of view] assms(1) ins show ?thesis
    by (auto simp: add_made_def pool_inv_def entries_of_def)
qed

text \<open>Marking an entry, as a claim or a scaling does, has one of two effects.\<close>

lemma marked_typed:
  assumes "run_typed E0 E fl" "E i = Some r" "E' = E \<or> E' = E(i \<mapsto> claimed_at now r)"
  shows "run_typed E0 E' fl"
  using assms run_typed_mark [OF assms(1,2)] by auto

lemma claim_hit_marks:
  assumes "pool_inv C view pool" "entries_of C view pool (pe_id r) = Some r'" "claim_hit C now t r pool = Some (pool', res)"
  shows "pool_inv C view pool'" "entries_of C view pool' = entries_of C view pool \<or>
    entries_of C view pool' = (entries_of C view pool)(pe_id r \<mapsto> claimed_at now r')"
  using claim_hit_entries [OF assms] by (auto split: sum.splits option.splits)

lemma pool_run_typed:
  assumes "pool_run C view pool0 st" "pcf_creator C = fc_creator env" "pool_inv C view pool0"
    and "\<And>i r. entries_of C view pool0 i = Some r \<Longrightarrow> entry_typed i r"
  shows "pool_inv C view (fst st) \<and> run_typed (entries_of C view pool0) (entries_of C view (fst st)) (snd st)"
  using assms(1)
proof induction
  case Begun
  then show ?case using assms(3,4) later_refl by (simp add: run_typed_def)
next
  case (Chosen pool fl t pool' r)
  then show ?case using claim_pick_entries [OF _ Chosen.hyps(2), of view] by (auto intro: run_typed_choose)
next
  case (Missed pool fl t pool')
  then show ?case using claim_pick_entries [OF _ Missed.hyps(2), of view] claim_miss_entries [of C view pool' t] by auto
next
  case (ChoiceFailed pool fl t pool' e)
  then show ?case using claim_pick_entries [OF _ ChoiceFailed.hyps(2), of view] by auto
next
  case (Claimed pool fl t r now pool' res)
  then obtain r' where r': "entries_of C view pool (pe_id r) = Some r'" unfolding run_typed_def by fastforce
  have inv: "pool_inv C view pool" and typed: "run_typed (entries_of C view pool0) (entries_of C view pool) fl"
    using Claimed.IH by simp_all
  note marks = claim_hit_marks [OF inv r' Claimed.hyps(3)]
  have "run_typed (entries_of C view pool0) (entries_of C view pool') fl"
    by (rule marked_typed [OF typed r' marks(2)])
  then show ?case using marks(1) run_typed_forget [OF _ set_remove1_subset] by simp
next
  case (Made pool fl i t dir w0 w r)
  have r: "pe_id r = i" "is_available t r" using fc.created [of env i t dir w0] Made.hyps(4) assms(2) by auto
  with add_made_entries [of C view pool r w] Made run_typed_add [of _ _ fl i r] show ?case
    by (auto simp: entry_typed_def is_available_def)
next
  case (Retired pool fl r r' now)
  have inv: "pool_inv C view pool" and typed: "run_typed (entries_of C view pool0) (entries_of C view pool) fl"
    using Retired.IH by simp_all
  note stays = retired_entry_stays [OF inv Retired.hyps(2), of now]
  have "run_typed (entries_of C view pool0) (entries_of C view (retire_entry C now r pool)) fl"
    by (rule marked_typed [OF typed Retired.hyps(2), where now = now]) (use stays in blast)
  then show ?case using stays by simp
qed

text \<open>
  C11. In every state that calls on the pool can reach, interleaved in any way, each entry is stored
  under its own identifier and is ready or claimed, so that the statuses for an entry in creation and
  for a failed one are never seen; no entry is ever removed, no claimed one becomes ready again, and
  nothing else of an entry changes. Every claim under way has chosen an entry of its template that is
  still there.
\<close>

theorem pool_entries_typed:
  assumes "pool_run C view pool0 (pool, fl)" "pcf_creator C = fc_creator env" "pool_inv C view pool0"
    and "\<And>i r. entries_of C view pool0 i = Some r \<Longrightarrow> entry_typed i r"
  shows "(\<forall>i r. entries_of C view pool i = Some r \<longrightarrow> pe_id r = i \<and> pe_status r \<in> {EntryReady, EntryClaimed}) \<and>
    (\<forall>i r. entries_of C view pool0 i = Some r \<longrightarrow> (\<exists>r'. entries_of C view pool i = Some r' \<and>
      r' = r\<lparr>pe_status := pe_status r', pe_updated_at := pe_updated_at r'\<rparr> \<and>
      (pe_status r = EntryClaimed \<longrightarrow> pe_status r' = EntryClaimed))) \<and>
    (\<forall>(t, r)\<in>set fl. pe_template_id r = t \<and> entries_of C view pool (pe_id r) \<noteq> None)"
  using pool_run_typed [OF assms] by (fastforce simp: run_typed_def entry_typed_def later_entry_def)

lemma idle_picks:
  "\<exists>pool'. claim_pick idle_config ''default'' (add_made idle_config made_entry w idle_pool) = (pool', Inr (Some made_entry))"
proof -
  have avail: "is_available ''default'' made_entry" and key: "\<not> internal_key (text_bytes (pe_id made_entry))"
    by (simp_all add: is_available_def made_entry_def internal_key_def text_bytes_def)
  then show ?thesis
    by (simp add: add_made_def claim_pick_def idle_config_def idle_pool_def list_database_def spend_def
        register_template_def pool_insert_def store_insert_def list_available_def pool_list_def)
qed

theorem pool_entries_typed_witness:
  "\<exists>pool. pool_run idle_config list_view idle_pool (pool, [(''default'', made_entry)]) \<and>
     entries_of idle_config list_view pool ''x'' \<noteq> None"
proof -
  obtain w where w: "vcr_create (pcf_creator idle_config) ''x'' ''default'' ''/p'' (wp_world idle_pool) = Some (w, Inr made_entry)"
    using made_by_idle by blast
  define pool where "pool = add_made idle_config made_entry w idle_pool"
  have "pool_run idle_config list_view idle_pool (pool, [])"
    unfolding pool_def
  proof (rule pool_run.Made [OF pool_run.Begun])
    show "public_id ''x''" "entries_of idle_config list_view idle_pool ''x'' = None"
      using idle_entries by (simp_all add: public_id_def internal_key_def text_bytes_def)
  qed (rule w)
  then obtain pool' where "pool_run idle_config list_view idle_pool (pool', [] @ [(''default'', made_entry)])"
    using pool_run.Chosen idle_picks [of w] unfolding pool_def by blast
  then have run: "pool_run idle_config list_view idle_pool (pool', [(''default'', made_entry)])" by simp
  have "pcf_creator idle_config = fc_creator idle_env" by (simp add: idle_config_def)
  from pool_entries_typed [OF run this idle_pool_inv] have "entries_of idle_config list_view pool' (pe_id made_entry) \<noteq> None"
    by (simp add: idle_entries)
  with run show ?thesis by (auto simp: made_entry_def)
qed

end
