(* ===== verification/Pool_Sessions.thy ===== *)
theory Pool_Sessions
  imports Pool_Runs
begin

text \<open>
  The pool (\<open>akssora-core/src/pool/mod.rs\<close>) on top of the sessions of the host
  (\<open>akssora-core/src/session/session.rs\<close>): what the machines are that claims give, and what two claims
  have in common.
\<close>

text \<open>The one call of the API that starts a session from an entry.\<close>

definition entry_load :: "'tdb fc_env \<Rightarrow> uuid \<Rightarrow> pool_entry \<Rightarrow> api_call" where
  "entry_load env sid r =
     \<lparr>ac_socket = path_join (path_join (os_temp_dir (fe_os env)) (os_show_uuid (fe_os env) sid)) ''firecracker.socket'',
      ac_method = Put, ac_path = ''/snapshot/load'',
      ac_body = LoadSnapshotBody \<lparr>ls_snapshot_path = pe_snapshot_path r, ls_mem_file_path = pe_mem_file_path r,
        ls_enable_diff_snapshots = None, ls_resume_vm = Some True\<rparr>\<rparr>"

text \<open>A session that was restored from an entry.\<close>

definition restored_from :: "'tdb fc_env \<Rightarrow> pool_entry \<Rightarrow> host \<Rightarrow> host \<Rightarrow> session \<Rightarrow> bool" where
  "restored_from env r h h' s \<longleftrightarrow> se_session_id s = fe_restore_id env h \<and> se_process s \<in> ho_running h' \<and>
     se_vsock_uds_path s = pe_vsock_uds_path r \<and>
     ho_calls h' = ho_calls h @ [entry_load env (fe_restore_id env h) r]"

lemma fc_restored:
  assumes "vcr_restore (fc_creator env) r w = Some (w', Inr s)"
  shows "restored_from env r (fst w) (fst w') s"
proof -
  obtain h where h: "from_snapshot (fe_os env) (fe_client env) (fe_restore_id env (fst w)) (pe_snapshot_path r)
      (pe_mem_file_path r) (pe_vsock_uds_path r) (fst w) = Some (h, Inr s)" "w' = (h, snd w)"
    using assms by (auto simp: fc_creator_def fc_restore_def)
  from from_snapshot_outcome [OF h(1) refl] h(2) show ?thesis
    by (simp add: restored_from_def entry_load_def)
qed

lemma claim_gives:
  assumes "claim C now tid pool = Some (pool', Inr (Some s))"
  obtains p r where "claim_pick C (template_or_default tid) pool = (p, Inr (Some r))"
    "claim_hit C now (template_or_default tid) r p = Some (pool', Inr (Some s))"
  using assms by (auto simp: claim_def Let_def split: prod.splits sum.splits option.splits)

lemma hit_restores:
  assumes "pool_inv C view p" "pcf_creator C = fc_creator env" "entries_of C view p (pe_id r) = Some r'"
    and "claim_hit C now t r p = Some (p', Inr (Some s))"
  shows "pool_inv C view p'" "entries_of C view p' = (entries_of C view p)(pe_id r \<mapsto> claimed_at now r')"
    and "restored_from env r (fst (wp_world p)) (fst (wp_world p')) s"
  using claim_hit_entries [OF assms(1,3,4)] assms(2) fc_restored [of env r "wp_world p" "wp_world p'" s] by auto

text \<open>
  C10. The session of a claim is a running machine, restored by one call from the files of an entry that
  was ready for the template, and it keeps the socket of that entry; a claim that begins after it
  loads another entry. But two claims that choose before either marks give two sessions, both
  running, from the same files and on the same socket.
\<close>

theorem claimed_sessions:
  assumes "pool_inv C view pool" "pcf_creator C = fc_creator env" "t = template_or_default tid"
  shows "(\<forall>now pool' s. claim C now tid pool = Some (pool', Inr (Some s)) \<longrightarrow>
      (\<exists>r. entries_of C view pool (pe_id r) = Some r \<and> is_available t r \<and>
        restored_from env r (fst (wp_world pool)) (fst (wp_world pool')) s \<and>
        (\<forall>now' tid' pool'' s'. claim C now' tid' pool' = Some (pool'', Inr (Some s')) \<longrightarrow>
          (\<exists>r'. pe_id r' \<noteq> pe_id r \<and> entries_of C view pool (pe_id r') = Some r' \<and>
            restored_from env r' (fst (wp_world pool')) (fst (wp_world pool'')) s')))) \<and>
    (\<forall>p1 p2 p3 p4 r now now' s1 s2. claim_pick C t pool = (p1, Inr (Some r)) \<and> claim_pick C t p1 = (p2, Inr (Some r)) \<and>
      claim_hit C now t r p2 = Some (p3, Inr (Some s1)) \<and> claim_hit C now' t r p3 = Some (p4, Inr (Some s2)) \<longrightarrow>
      restored_from env r (fst (wp_world pool)) (fst (wp_world p3)) s1 \<and>
      restored_from env r (fst (wp_world p3)) (fst (wp_world p4)) s2 \<and> se_vsock_uds_path s1 = se_vsock_uds_path s2)"
proof (intro conjI allI impI)
  fix now pool' s assume "claim C now tid pool = Some (pool', Inr (Some s))"
  then obtain p r where pick: "claim_pick C t pool = (p, Inr (Some r))"
    and hit: "claim_hit C now t r p = Some (pool', Inr (Some s))" using assms(3) claim_gives by metis
  note p = claim_pick_entries [OF assms(1) pick]
  then have pr: "pool_inv C view p" "entries_of C view p (pe_id r) = Some r" by simp_all
  note hit = hit_restores [OF pr(1) assms(2) pr(2) hit]
  have "\<exists>r'. pe_id r' \<noteq> pe_id r \<and> entries_of C view pool (pe_id r') = Some r' \<and>
      restored_from env r' (fst (wp_world pool')) (fst (wp_world pool'')) s'"
    if c: "claim C now' tid' pool' = Some (pool'', Inr (Some s'))" for now' tid' pool'' s'
  proof -
    obtain q r' where pick': "claim_pick C (template_or_default tid') pool' = (q, Inr (Some r'))"
      and hit': "claim_hit C now' (template_or_default tid') r' q = Some (pool'', Inr (Some s'))"
      using c by (rule claim_gives)
    note q = claim_pick_entries [OF hit(1) pick']
    then have qr: "pool_inv C view q" "entries_of C view q (pe_id r') = Some r'" by simp_all
    have "entries_of C view pool' (pe_id r) = Some (claimed_at now r)" using hit(2) by simp
    then have new: "pe_id r' \<noteq> pe_id r" using picked_not_claimed [OF hit(1) _ pick'] by blast
    moreover have "entries_of C view pool (pe_id r') = Some r'" using q hit(2) p new by auto
    ultimately show ?thesis using hit_restores(3) [OF qr(1) assms(2) qr(2) hit'] q by auto
  qed
  with p hit(3) show "\<exists>r. entries_of C view pool (pe_id r) = Some r \<and> is_available t r \<and>
        restored_from env r (fst (wp_world pool)) (fst (wp_world pool')) s \<and>
        (\<forall>now' tid' pool'' s'. claim C now' tid' pool' = Some (pool'', Inr (Some s')) \<longrightarrow>
          (\<exists>r'. pe_id r' \<noteq> pe_id r \<and> entries_of C view pool (pe_id r') = Some r' \<and>
            restored_from env r' (fst (wp_world pool')) (fst (wp_world pool'')) s'))" by auto
next
  fix p1 p2 p3 p4 r now now' s1 s2
  assume a: "claim_pick C t pool = (p1, Inr (Some r)) \<and> claim_pick C t p1 = (p2, Inr (Some r)) \<and>
      claim_hit C now t r p2 = Some (p3, Inr (Some s1)) \<and> claim_hit C now' t r p3 = Some (p4, Inr (Some s2))"
  have p1: "pool_inv C view p1" "wp_world p1 = wp_world pool" using claim_pick_entries [OF assms(1), of t p1] a by auto
  have p2: "pool_inv C view p2" "wp_world p2 = wp_world p1" "entries_of C view p2 (pe_id r) = Some r"
    using claim_pick_entries [OF p1(1), of t p2 "Inr (Some r)"] a by auto
  note hit1 = hit_restores [OF p2(1) assms(2) p2(3), of now t p3 s1]
  then have p3: "pool_inv C view p3" "entries_of C view p3 (pe_id r) = Some (claimed_at now r)" using a by simp_all
  note hit2 = hit_restores(3) [OF p3(1) assms(2) p3(2), of now' t p4 s2]
  show "restored_from env r (fst (wp_world pool)) (fst (wp_world p3)) s1"
    "restored_from env r (fst (wp_world p3)) (fst (wp_world p4)) s2"
    using hit1(3) hit2 a p1(2) p2(2) by simp_all
  then show "se_vsock_uds_path s1 = se_vsock_uds_path s2" by (simp add: restored_from_def)
qed

section \<open>A pool with one machine\<close>

definition one_config :: "(list_db, host \<times> unit) pool_config" where
  "one_config = idle_config\<lparr>pcf_store := \<lparr>pos_db = list_database,
     pos_ser = (\<lambda>r. if r = made_entry then Inr [1] else if r = claimed_at 9 made_entry then Inr [2] else Inl ''no''),
     pos_de = (\<lambda>b. if b = [1] then Inr made_entry else if b = [2] then Inr (claimed_at 9 made_entry) else Inl ''no''),
     pos_ser_stats = (\<lambda>_. Inl ''no''), pos_de_stats = (\<lambda>_. Inl ''no'')\<rparr>\<rparr>"

definition one_pool :: "(list_db, host \<times> unit) warm_pool" where
  "one_pool = idle_pool\<lparr>wp_db := ([(text_bytes ''x'', [1])], 100)\<rparr>"

lemma one_pool_inv: "pool_inv one_config list_view one_pool"
  by (auto simp: pool_inv_def pool_store_ok_def pool_wf_def codec_total_def one_config_def idle_config_def
      list_database_ok one_pool_def idle_pool_def list_view_def made_entry_def claimed_at_def text_bytes_def)

lemma one_restored:
  "\<exists>w s. vcr_restore (fc_creator idle_env) made_entry (idle_host, ()) = Some (w, Inr s)"
  by (simp add: fc_creator_def fc_restore_def from_snapshot_def idle_env_def made_entry_def put_request_def
      api_request_def willing_client_def load_snapshot_def create_dir_all_def start_process_def remove_path_def
      sample_os_def idle_host_def sample_session_def path_join_def Let_def)

lemma one_claim: "\<exists>pool' s. claim one_config 9 None one_pool = Some (pool', Inr (Some s))"
proof -
  obtain w s where w: "vcr_restore (fc_creator idle_env) made_entry (idle_host, ()) = Some (w, Inr s)"
    using one_restored by blast
  have e: "pe_template_id made_entry = ''default''" "pe_status made_entry = EntryReady" "pe_id made_entry = ''x''"
    by (simp_all add: made_entry_def)
  show ?thesis
    by (simp add: claim_def template_or_default_def claim_pick_def claim_hit_def list_available_def pool_list_def
        register_template_def is_available_def update_status_def pool_get_def store_get_def pool_insert_def
        store_insert_def decode_found_def save_counts_def save_metrics_def spawn_replenish_def internal_key_def
        text_bytes_def one_config_def idle_config_def one_pool_def idle_pool_def list_database_def spend_def
        claimed_at_def [symmetric] e w Let_def)
qed

theorem claimed_sessions_witness:
  "\<exists>pool' s. claim one_config 9 None one_pool = Some (pool', Inr (Some s)) \<and>
     se_process s \<in> ho_running (fst (wp_world pool')) \<and> se_vsock_uds_path s = se_vsock_uds_path sample_session"
proof -
  obtain pool' s where c: "claim one_config 9 None one_pool = Some (pool', Inr (Some s))" using one_claim by blast
  have C: "pcf_creator one_config = fc_creator idle_env" by (simp add: one_config_def idle_config_def)
  have only: "entries_of one_config list_view one_pool i = Some r \<Longrightarrow> r = made_entry" for i r
    by (auto simp: entries_of_def pool_entries_def one_config_def one_pool_def list_view_def
        split: if_splits option.splits)
  from claimed_sessions [OF one_pool_inv C refl, of None] c
  obtain r where r: "entries_of one_config list_view one_pool (pe_id r) = Some r"
    "restored_from idle_env r (fst (wp_world one_pool)) (fst (wp_world pool')) s" by blast
  have "r = made_entry" using r(1) by (rule only)
  then have "pe_vsock_uds_path r = se_vsock_uds_path sample_session" by (simp add: made_entry_def)
  with r(2) c show ?thesis by (auto simp: restored_from_def)
qed

end
