(* ===== verification/Webhooks.thy ===== *)
theory Webhooks
  imports Guest_Shell
begin

text \<open>
  Webhooks (\<open>akssora-core/src/webhooks.rs\<close>): the registrations, the choice of those an event is sent
  to, and the delivery of one payload with its repeated attempts. The texts of identifiers, the JSON
  of a payload and the signature are parameters, and so is what the server answers to each attempt.
\<close>

section \<open>Registrations\<close>

datatype sandbox_event = SbCreated | SbPaused | SbResumed | SbDestroyed | SbCrashed | SbForked

fun show_event :: "sandbox_event \<Rightarrow> string" where
  "show_event SbCreated = ''created''"
| "show_event SbPaused = ''paused''"
| "show_event SbResumed = ''resumed''"
| "show_event SbDestroyed = ''destroyed''"
| "show_event SbCrashed = ''crashed''"
| "show_event SbForked = ''forked''"

record 'j webhook_payload =
  whp_event :: sandbox_event
  whp_sandbox_id :: uuid
  whp_owner_id :: "uuid option"
  whp_timestamp :: datetime
  whp_metadata :: "'j option"

record webhook_registration =
  whr_id :: uuid
  whr_owner_id :: uuid
  whr_url :: string
  whr_secret :: "string option"
  whr_events :: "sandbox_event list"
  whr_created_at :: datetime

type_synonym webhook_dispatcher = "uuid \<rightharpoonup> webhook_registration"

definition new_dispatcher :: webhook_dispatcher where
  "new_dispatcher = Map.empty"

definition register_webhook :: "webhook_registration \<Rightarrow> webhook_dispatcher \<Rightarrow> webhook_dispatcher" where
  "register_webhook reg d = d(whr_id reg \<mapsto> reg)"

definition unregister_webhook :: "uuid \<Rightarrow> webhook_dispatcher \<Rightarrow> webhook_dispatcher \<times> bool" where
  "unregister_webhook i d = (d(i := None), d i \<noteq> None)"

definition list_for_owner :: "uuid list \<Rightarrow> uuid \<Rightarrow> webhook_dispatcher \<Rightarrow> webhook_registration list" where
  "list_for_owner ks owner d = filter (\<lambda>r. whr_owner_id r = owner) (values_in ks d)"

definition wants_event :: "sandbox_event \<Rightarrow> webhook_registration \<Rightarrow> bool" where
  "wants_event e r \<longleftrightarrow> whr_events r = [] \<or> e \<in> set (whr_events r)"

text \<open>The deliveries that are started.\<close>

definition dispatch ::
    "uuid list \<Rightarrow> 'j webhook_payload \<Rightarrow> webhook_dispatcher \<Rightarrow> (webhook_registration \<times> 'j webhook_payload) list" where
  "dispatch ks payload d = map (\<lambda>r. (r, payload)) (filter (wants_event (whp_event payload)) (values_in ks d))"

section \<open>Delivery\<close>

record http_post =
  hp_url :: string
  hp_headers :: "(string \<times> string) list"
  hp_body :: bytes

datatype http_answer = HttpStatus nat | HttpFailed string

fun is_success :: "http_answer \<Rightarrow> bool" where
  "is_success (HttpStatus code) \<longleftrightarrow> 200 \<le> code \<and> code < 300"
| "is_success (HttpFailed _) \<longleftrightarrow> False"

datatype delivery_event = Posted http_post | Slept u64

record 'j webhook_env =
  whe_show_uuid :: "uuid \<Rightarrow> string"
  whe_ser :: "'j webhook_payload \<Rightarrow> string + bytes"
  whe_sign :: "bytes \<Rightarrow> bytes \<Rightarrow> string"

definition max_attempts :: nat where
  "max_attempts = 3"

definition delivery_request ::
    "'j webhook_env \<Rightarrow> webhook_registration \<Rightarrow> 'j webhook_payload \<Rightarrow> bytes \<Rightarrow> http_post" where
  "delivery_request env reg payload body =
     \<lparr>hp_url = whr_url reg,
      hp_headers = [(''Content-Type'', ''application/json''), (''X-Akssora-Event'', show_event (whp_event payload)),
        (''X-Akssora-Delivery'', whe_show_uuid env (whp_sandbox_id payload))] @
        (case whr_secret reg of
           None \<Rightarrow> []
         | Some secret \<Rightarrow> [(''X-Akssora-Signature'', ''sha256='' @ whe_sign env (text_bytes secret) body)]),
      hp_body = body\<rparr>"

text \<open>The attempts from \<open>attempt\<close> on, of which \<open>n\<close> are left; \<open>answer\<close> gives the server's answer to each.
  The result says whether one was successful.\<close>

fun delivery_loop :: "(nat \<Rightarrow> http_answer) \<Rightarrow> http_post \<Rightarrow> nat \<Rightarrow> nat \<Rightarrow> u64 \<Rightarrow> delivery_event list \<times> bool" where
  "delivery_loop answer rq attempt 0 delay_ms = ([], False)"
| "delivery_loop answer rq attempt (Suc n) delay_ms =
     (if is_success (answer attempt) then ([Posted rq], True)
      else if attempt < max_attempts
      then (case delivery_loop answer rq (Suc attempt) n (delay_ms * 2) of
              (evs, ok) \<Rightarrow> (Posted rq # Slept delay_ms # evs, ok))
      else (case delivery_loop answer rq (Suc attempt) n delay_ms of (evs, ok) \<Rightarrow> (Posted rq # evs, ok)))"

definition deliver_with_retry ::
    "'j webhook_env \<Rightarrow> (nat \<Rightarrow> http_answer) \<Rightarrow> webhook_registration \<Rightarrow> 'j webhook_payload \<Rightarrow>
     delivery_event list \<times> bool" where
  "deliver_with_retry env answer reg payload =
     (case whe_ser env payload of
        Inl _ \<Rightarrow> ([], False)
      | Inr body \<Rightarrow> delivery_loop answer (delivery_request env reg payload body) 1 max_attempts 1000)"

section \<open>Who gets an event, and how often it is tried\<close>

interpretation webhook_store: keyed_store
  "\<lambda>d. d" register_webhook "\<lambda>i d. fst (unregister_webhook i d)" whr_id "\<lambda>r. r"
  by unfold_locales (auto simp: register_webhook_def unregister_webhook_def)

definition webhook_run :: "(webhook_registration + uuid) list \<Rightarrow> webhook_dispatcher" where
  "webhook_run ws = fold (apply_write register_webhook (\<lambda>i d. fst (unregister_webhook i d))) ws new_dispatcher"

lemma last_write_key: "last_write key (\<lambda>r. r) ws k v = Some r \<Longrightarrow> v = Some r \<or> key r = k"
proof (induction ws arbitrary: v)
  case Nil
  then show ?case by simp
next
  case (Cons w ws)
  then show ?case by (cases w) (auto split: if_splits)
qed

lemma distinct_values_in:
  assumes "distinct ks" "\<And>k v. m k = Some v \<Longrightarrow> key v = k"
  shows "distinct (map key (values_in ks m))"
  using assms(1)
proof (induction ks)
  case Nil
  then show ?case by simp
next
  case (Cons k ks)
  then show ?case using assms(2) by (auto simp: set_values_in split: option.split)
qed

text \<open>
  After any registrations and removals an event starts exactly one delivery for each registration
  that is the last under its identifier and asks for the event or for all. The owner of the sandbox
  has no part in it: a registration that asks for all events gets those of every other owner.
\<close>

theorem webhook_targets:
  assumes "iterates ks (webhook_run ws)"
  shows "set (map fst (dispatch ks payload (webhook_run ws))) =
      {r. \<exists>i. last_write whr_id (\<lambda>r. r) ws i None = Some r \<and> wants_event (whp_event payload) r} \<and>
    distinct (map (whr_id \<circ> fst) (dispatch ks payload (webhook_run ws))) \<and>
    (\<forall>i r. last_write whr_id (\<lambda>r. r) ws i None = Some r \<and> whr_events r = [] \<longrightarrow>
      (r, payload) \<in> set (dispatch ks payload (webhook_run ws)))"
proof -
  have run: "webhook_run ws i = last_write whr_id (\<lambda>r. r) ws i None" for i
    using webhook_store.lookup_run [of ws new_dispatcher i] by (simp add: webhook_run_def new_dispatcher_def)
  have vals: "set (values_in ks (webhook_run ws)) = {r. \<exists>i. last_write whr_id (\<lambda>r. r) ws i None = Some r}"
    using iterates_values [OF assms] run by (auto simp: ran_def)
  have "distinct (map whr_id (values_in ks (webhook_run ws)))"
    using assms run last_write_key by (intro distinct_values_in) (fastforce simp: iterates_def)+
  then have "distinct (map (whr_id \<circ> fst) (dispatch ks payload (webhook_run ws)))"
    by (simp add: dispatch_def comp_def distinct_map_filter)
  with vals show ?thesis by (auto simp: dispatch_def wants_event_def)
qed

text \<open>Who may list a registration, though, is its owner.\<close>

lemma list_for_owner_exact:
  "iterates ks d \<Longrightarrow> set (list_for_owner ks owner d) = {r \<in> ran d. whr_owner_id r = owner}"
  by (auto simp: list_for_owner_def iterates_values)

text \<open>
  A delivery posts the same signed request once, twice or three times: it stops after the first
  success and waits one second before the second attempt and two before the third. When no attempt
  succeeds nothing more is tried; a payload that cannot be written as JSON is never sent.
\<close>

theorem delivery_schedule:
  "deliver_with_retry env answer reg payload =
     (case whe_ser env payload of
        Inl _ \<Rightarrow> ([], False)
      | Inr body \<Rightarrow>
          (let post = Posted (delivery_request env reg payload body)
           in if is_success (answer 1) then ([post], True)
              else if is_success (answer 2) then ([post, Slept 1000, post], True)
              else ([post, Slept 1000, post, Slept 2000, post], is_success (answer 3))))"
  by (simp add: deliver_with_retry_def max_attempts_def numeral_eq_Suc Let_def split: sum.split)

definition sample_hook :: "uuid \<Rightarrow> uuid \<Rightarrow> sandbox_event list \<Rightarrow> webhook_registration" where
  "sample_hook i owner evs = \<lparr>whr_id = i, whr_owner_id = owner, whr_url = ''https://a.com'', whr_secret = None,
     whr_events = evs, whr_created_at = 0\<rparr>"

definition sample_payload :: "unit webhook_payload" where
  "sample_payload = \<lparr>whp_event = SbPaused, whp_sandbox_id = 9, whp_owner_id = Some 1, whp_timestamp = 0, whp_metadata = None\<rparr>"

theorem webhook_targets_witness:
  "(sample_hook 2 5 [], sample_payload) \<in> set (dispatch [1, 2] sample_payload
     (webhook_run [Inl (sample_hook 1 1 [SbCreated]), Inl (sample_hook 2 5 []), Inr 3])) \<and>
   whp_owner_id sample_payload \<noteq> Some (whr_owner_id (sample_hook 2 5 []))"
proof -
  let ?ws = "[Inl (sample_hook 1 1 [SbCreated]), Inl (sample_hook 2 5 []), Inr 3]"
  have "iterates [1, 2] (webhook_run ?ws)"
    by (auto simp: iterates_def webhook_run_def new_dispatcher_def register_webhook_def unregister_webhook_def
        sample_hook_def)
  note targets = webhook_targets [OF this, of sample_payload]
  have "last_write whr_id (\<lambda>r. r) ?ws 2 None = Some (sample_hook 2 5 [])"
    "whr_events (sample_hook 2 5 []) = []"
    by (simp_all add: sample_hook_def)
  with targets have "(sample_hook 2 5 [], sample_payload) \<in> set (dispatch [1, 2] sample_payload (webhook_run ?ws))"
    by blast
  then show ?thesis by (simp add: sample_hook_def sample_payload_def)
qed

end
