(* ===== verification/Volumes.thy ===== *)
theory Volumes
  imports Host_Session
begin

text \<open>
  Volumes (\<open>akssora-core/src/volumes.rs\<close>): disk images with a file of metadata beside each. The state
  is the directories and files there are; what the commands \<open>truncate\<close> and \<open>mkfs.ext4\<close> and the
  system answer is a record of parameters, and so are the JSON of the metadata and the texts of
  identifiers. Paths are valid text.
\<close>

section \<open>Data\<close>

record volume_meta =
  vme_id :: uuid
  vme_sandbox_id :: uuid
  vme_owner_id :: "uuid option"
  vme_image_path :: string
  vme_mount_path :: string
  vme_size_mib :: u32
  vme_created_at :: datetime

datatype volume_error =
    VolumeIo io_error
  | VolumeSerde string
  | VolumeNotFound uuid
  | VolumeAlreadyExists uuid

text \<open>What a file is: an image of a number of MiB, with a file system on it or not; empty; a text.\<close>

datatype vol_file = DiskImage u32 bool | EmptyFile | TextFile string

record vol_state =
  vls_dirs :: "string set"
  vls_files :: "string \<rightharpoonup> vol_file"

record vol_os =
  vlo_show_uuid :: "uuid \<Rightarrow> string"
  vlo_truncate :: "string \<Rightarrow> io_error + bool"
  vlo_mkfs :: "string \<Rightarrow> io_error + bool"
  vlo_mkdir :: "string \<Rightarrow> io_error option"
  vlo_write :: "string \<Rightarrow> io_error option"
  vlo_read :: "string \<Rightarrow> vol_file \<Rightarrow> io_error + string"
  vlo_remove :: "string \<Rightarrow> io_error option"
  vlo_ser :: "volume_meta \<Rightarrow> string + string"
  vlo_de :: "string \<Rightarrow> string + volume_meta"

section \<open>Operations\<close>

definition volume_image_path :: "vol_os \<Rightarrow> string \<Rightarrow> uuid \<Rightarrow> string" where
  "volume_image_path os dir i = path_join dir (''volume-'' @ vlo_show_uuid os i @ ''.ext4'')"

definition volume_meta_path :: "vol_os \<Rightarrow> string \<Rightarrow> uuid \<Rightarrow> string" where
  "volume_meta_path os dir i = path_join dir (''volume-'' @ vlo_show_uuid os i @ ''.json'')"

definition put_vol_file :: "string \<Rightarrow> vol_file \<Rightarrow> vol_state \<Rightarrow> vol_state" where
  "put_vol_file p f st = st\<lparr>vls_files := (vls_files st)(p \<mapsto> f)\<rparr>"

definition ensure_volume_dir :: "vol_os \<Rightarrow> string \<Rightarrow> vol_state \<Rightarrow> vol_state \<times> (volume_error + unit)" where
  "ensure_volume_dir os dir st =
     (case vlo_mkdir os dir of
        Some e \<Rightarrow> (st, Inl (VolumeIo e))
      | None \<Rightarrow> (st\<lparr>vls_dirs := insert dir (vls_dirs st)\<rparr>, Inr ()))"

definition write_file :: "vol_os \<Rightarrow> string \<Rightarrow> vol_file \<Rightarrow> vol_state \<Rightarrow> vol_state \<times> (volume_error + unit)" where
  "write_file os p f st =
     (case vlo_write os p of Some e \<Rightarrow> (st, Inl (VolumeIo e)) | None \<Rightarrow> (put_vol_file p f st, Inr ()))"

definition write_meta :: "vol_os \<Rightarrow> string \<Rightarrow> volume_meta \<Rightarrow> vol_state \<Rightarrow> vol_state \<times> (volume_error + unit)" where
  "write_meta os dir meta st =
     (case vlo_ser os meta of
        Inl e \<Rightarrow> (st, Inl (VolumeSerde e))
      | Inr json \<Rightarrow> write_file os (volume_meta_path os dir (vme_id meta)) (TextFile json) st)"

text \<open>The image: a sparse file of the size asked for, on which the making of a file system is tried,
  or an empty file when \<open>truncate\<close> cannot be run or fails, which leaves no file of its own.\<close>

definition make_volume_image ::
    "vol_os \<Rightarrow> string \<Rightarrow> u32 \<Rightarrow> vol_state \<Rightarrow> vol_state \<times> (volume_error + unit)" where
  "make_volume_image os p mib st =
     (case vlo_truncate os p of
        Inr True \<Rightarrow> (put_vol_file p (DiskImage mib (vlo_mkfs os p = Inr True)) st, Inr ())
      | _ \<Rightarrow> write_file os p EmptyFile st)"

definition create_volume ::
    "vol_os \<Rightarrow> string \<Rightarrow> uuid \<Rightarrow> datetime \<Rightarrow> uuid \<Rightarrow> uuid option \<Rightarrow> string \<Rightarrow> u32 \<Rightarrow> vol_state \<Rightarrow>
     vol_state \<times> (volume_error + volume_meta)" where
  "create_volume os dir i now sandbox_id owner_id mount_path mib st =
     (let p = volume_image_path os dir i;
          meta = \<lparr>vme_id = i, vme_sandbox_id = sandbox_id, vme_owner_id = owner_id, vme_image_path = p,
            vme_mount_path = mount_path, vme_size_mib = mib, vme_created_at = now\<rparr>
      in case make_volume_image os p mib st of
           (st, Inl e) \<Rightarrow> (st, Inl e)
         | (st, Inr _) \<Rightarrow>
             (case write_meta os dir meta st of
                (st, Inl e) \<Rightarrow> (st, Inl e)
              | (st, Inr _) \<Rightarrow> (st, Inr meta)))"

definition get_volume :: "vol_os \<Rightarrow> string \<Rightarrow> uuid \<Rightarrow> vol_state \<Rightarrow> volume_error + volume_meta" where
  "get_volume os dir i st =
     (let p = volume_meta_path os dir i
      in case vls_files st p of
           None \<Rightarrow> Inl (VolumeNotFound i)
         | Some f \<Rightarrow>
             (case vlo_read os p f of
                Inl e \<Rightarrow> Inl (VolumeIo e)
              | Inr data \<Rightarrow> (case vlo_de os data of Inl e \<Rightarrow> Inl (VolumeSerde e) | Inr meta \<Rightarrow> Inr meta)))"

text \<open>The stem and the extension of a file name.\<close>

definition split_extension :: "string \<Rightarrow> string \<times> string option" where
  "split_extension name =
     (case dropWhile (\<lambda>c. c \<noteq> CHR ''.'') (rev name) of
        [] \<Rightarrow> (name, None)
      | _ # stem \<Rightarrow> if stem = [] then (name, None)
          else (rev stem, Some (rev (takeWhile (\<lambda>c. c \<noteq> CHR ''.'') (rev name)))))"

definition is_volume_meta :: "string \<Rightarrow> bool" where
  "is_volume_meta name \<longleftrightarrow>
     snd (split_extension name) = Some ''json'' \<and> prefix ''volume-'' (fst (split_extension name))"

definition volume_of_entry :: "vol_os \<Rightarrow> string \<Rightarrow> uuid \<Rightarrow> string \<Rightarrow> vol_state \<Rightarrow> volume_meta option" where
  "volume_of_entry os dir sandbox_id name st =
     (if \<not> is_volume_meta name then None
      else case vls_files st (path_join dir name) of
        None \<Rightarrow> None
      | Some f \<Rightarrow>
          (case vlo_read os (path_join dir name) f of
             Inl _ \<Rightarrow> None
           | Inr data \<Rightarrow>
               (case vlo_de os data of
                  Inl _ \<Rightarrow> None
                | Inr meta \<Rightarrow> if vme_sandbox_id meta = sandbox_id then Some meta else None)))"

text \<open>The names in the directory in the order the system gives them; an entry can fail.\<close>

fun volumes_of_entries ::
    "vol_os \<Rightarrow> string \<Rightarrow> uuid \<Rightarrow> vol_state \<Rightarrow> (io_error + string) list \<Rightarrow> volume_error + volume_meta list" where
  "volumes_of_entries os dir sandbox_id st [] = Inr []"
| "volumes_of_entries os dir sandbox_id st (Inl e # es) = Inl (VolumeIo e)"
| "volumes_of_entries os dir sandbox_id st (Inr name # es) =
     (case volumes_of_entries os dir sandbox_id st es of
        Inl e \<Rightarrow> Inl e
      | Inr ms \<Rightarrow> Inr (case volume_of_entry os dir sandbox_id name st of None \<Rightarrow> ms | Some m \<Rightarrow> m # ms))"

definition list_for_sandbox ::
    "vol_os \<Rightarrow> string \<Rightarrow> io_error + (io_error + string) list \<Rightarrow> uuid \<Rightarrow> vol_state \<Rightarrow>
     volume_error + volume_meta list" where
  "list_for_sandbox os dir entries sandbox_id st =
     (if dir \<notin> vls_dirs st then Inr []
      else case entries of
        Inl e \<Rightarrow> Inl (VolumeIo e)
      | Inr es \<Rightarrow> volumes_of_entries os dir sandbox_id st es)"

definition remove_volume_file :: "vol_os \<Rightarrow> string \<Rightarrow> vol_state \<Rightarrow> vol_state \<times> (volume_error + unit)" where
  "remove_volume_file os p st =
     (if vls_files st p = None then (st, Inr ())
      else case vlo_remove os p of
        Some e \<Rightarrow> (st, Inl (VolumeIo e))
      | None \<Rightarrow> (st\<lparr>vls_files := (vls_files st)(p := None)\<rparr>, Inr ()))"

definition detach_volume :: "vol_os \<Rightarrow> string \<Rightarrow> uuid \<Rightarrow> vol_state \<Rightarrow> vol_state \<times> (volume_error + unit)" where
  "detach_volume os dir i st =
     (case remove_volume_file os (volume_meta_path os dir i) st of
        (st, Inl e) \<Rightarrow> (st, Inl e)
      | (st, Inr _) \<Rightarrow> remove_volume_file os (volume_image_path os dir i) st)"

definition firecracker_drive_config ::
    "vol_os \<Rightarrow> string \<Rightarrow> uuid \<Rightarrow> vol_state \<Rightarrow> volume_error + string \<times> string" where
  "firecracker_drive_config os dir i st =
     (case get_volume os dir i st of
        Inl e \<Rightarrow> Inl e
      | Inr meta \<Rightarrow> Inr (''vol-'' @ vlo_show_uuid os (vme_id meta), vme_image_path meta))"

section \<open>The life of a volume\<close>

text \<open>What is relied on: the metadata can be read back, and a text file gives its text.\<close>

definition vol_os_ok :: "vol_os \<Rightarrow> bool" where
  "vol_os_ok os \<longleftrightarrow> (\<forall>m json. vlo_ser os m = Inr json \<longrightarrow> vlo_de os json = Inr m) \<and>
     (\<forall>p t. vlo_read os p (TextFile t) = Inr t)"

lemma volume_paths_differ: "volume_image_path os dir i \<noteq> volume_meta_path os dir j"
proof
  assume "volume_image_path os dir i = volume_meta_path os dir j"
  then have "last (volume_image_path os dir i) = last (volume_meta_path os dir j)" by simp
  then show False by (simp add: volume_image_path_def volume_meta_path_def path_join_def)
qed

lemma make_image_result:
  "make_volume_image os p mib st = (st', Inr u) \<longleftrightarrow>
     st' = put_vol_file p (if vlo_truncate os p = Inr True then DiskImage mib (vlo_mkfs os p = Inr True) else EmptyFile) st \<and>
     (vlo_truncate os p = Inr True \<or> vlo_write os p = None)"
  by (auto simp: make_volume_image_def write_file_def split: sum.splits bool.splits option.splits)

lemma write_meta_result:
  "write_meta os dir meta st = (st', Inr u) \<longleftrightarrow>
     (\<exists>json. vlo_ser os meta = Inr json \<and> st' = put_vol_file (volume_meta_path os dir (vme_id meta)) (TextFile json) st \<and>
        vlo_write os (volume_meta_path os dir (vme_id meta)) = None)"
  by (auto simp: write_meta_def write_file_def split: sum.splits option.splits)

lemma remove_result:
  "remove_volume_file os p st = (st', Inr u) \<Longrightarrow> vls_files st' = (vls_files st)(p := None) \<and> vls_dirs st' = vls_dirs st"
  by (auto simp: remove_volume_file_def fun_eq_iff split: if_splits option.splits)

lemma volume_name_listed: "is_volume_meta (''volume-'' @ s @ ''.json'')"
  by (simp add: is_volume_meta_def split_extension_def)

lemma listed_volume:
  assumes "volumes_of_entries os dir sb st es = Inr ms" "Inr name \<in> set es"
    and "volume_of_entry os dir sb name st = Some m"
  shows "m \<in> set ms"
  using assms
proof (induction es arbitrary: ms)
  case Nil
  then show ?case by simp
next
  case (Cons x es)
  then show ?case by (cases x) (auto split: sum.splits option.splits)
qed

text \<open>
  C39. A volume that was created can be read back, is listed for its sandbox under its file name and
  gives the drive with its image; only its two files are new. Detaching it restores the files there
  were, after which it is not found; detaching what does not exist succeeds. But when \<open>truncate\<close>
  fails the image is an empty file, and when the making of the file system fails it has none: the
  creation succeeds all the same, with the size that was asked for.
\<close>

theorem volume_lifecycle:
  assumes "vol_os_ok os" "create_volume os dir i now sb owner mount mib st = (st', Inr meta)"
    and "vls_files st (volume_image_path os dir i) = None" "vls_files st (volume_meta_path os dir i) = None"
  shows "get_volume os dir i st' = Inr meta \<and> vme_size_mib meta = mib \<and>
    firecracker_drive_config os dir i st' = Inr (''vol-'' @ vlo_show_uuid os i, volume_image_path os dir i) \<and>
    vls_files st' (volume_image_path os dir i) =
      Some (if vlo_truncate os (volume_image_path os dir i) = Inr True
            then DiskImage mib (vlo_mkfs os (volume_image_path os dir i) = Inr True) else EmptyFile) \<and>
    (\<forall>p. p \<noteq> volume_image_path os dir i \<and> p \<noteq> volume_meta_path os dir i \<longrightarrow> vls_files st' p = vls_files st p) \<and>
    (\<forall>es ms. dir \<in> vls_dirs st \<and> Inr (''volume-'' @ vlo_show_uuid os i @ ''.json'') \<in> set es \<and>
      list_for_sandbox os dir (Inr es) sb st' = Inr ms \<longrightarrow> meta \<in> set ms) \<and>
    (\<forall>st''. detach_volume os dir i st' = (st'', Inr ()) \<longrightarrow>
      vls_files st'' = vls_files st \<and> get_volume os dir i st'' = Inl (VolumeNotFound i)) \<and>
    detach_volume os dir i st = (st, Inr ())"
proof -
  let ?img = "volume_image_path os dir i" and ?meta = "volume_meta_path os dir i"
  let ?f = "if vlo_truncate os ?img = Inr True then DiskImage mib (vlo_mkfs os ?img = Inr True) else EmptyFile"
  obtain st1 where img: "make_volume_image os ?img mib st = (st1, Inr ())"
    and wr: "write_meta os dir meta st1 = (st', Inr ())"
    and meta: "vme_id meta = i" "vme_sandbox_id meta = sb" "vme_image_path meta = ?img" "vme_size_mib meta = mib"
    using assms(2) by (auto simp: create_volume_def Let_def split: prod.splits sum.splits)
  obtain json where json: "vlo_ser os meta = Inr json" and st': "st' = put_vol_file ?meta (TextFile json) (put_vol_file ?img ?f st)"
    using img wr meta(1) unfolding make_image_result write_meta_result by auto
  have files: "vls_files st' = (vls_files st)(?img \<mapsto> ?f, ?meta \<mapsto> TextFile json)" "vls_dirs st' = vls_dirs st"
    by (simp_all add: st' put_vol_file_def)
  have de: "vlo_de os json = Inr meta" "\<And>p. vlo_read os p (TextFile json) = Inr json"
    using assms(1) json by (simp_all add: vol_os_ok_def)
  have get: "get_volume os dir i st' = Inr meta" using files de by (simp add: get_volume_def)
  have "firecracker_drive_config os dir i st' = Inr (''vol-'' @ vlo_show_uuid os i, ?img)"
    using get meta by (simp add: firecracker_drive_config_def)
  moreover have "volume_of_entry os dir sb (''volume-'' @ vlo_show_uuid os i @ ''.json'') st' = Some meta"
    using files de meta(2) volume_name_listed by (simp add: volume_of_entry_def volume_meta_path_def)
  then have "\<forall>es ms. dir \<in> vls_dirs st \<and> Inr (''volume-'' @ vlo_show_uuid os i @ ''.json'') \<in> set es \<and>
      list_for_sandbox os dir (Inr es) sb st' = Inr ms \<longrightarrow> meta \<in> set ms"
    using listed_volume files(2) by (fastforce simp: list_for_sandbox_def)
  moreover have "vls_files st'' = vls_files st \<and> get_volume os dir i st'' = Inl (VolumeNotFound i)"
    if d: "detach_volume os dir i st' = (st'', Inr ())" for st''
  proof -
    obtain st2 where "remove_volume_file os ?meta st' = (st2, Inr ())" "remove_volume_file os ?img st2 = (st'', Inr ())"
      using d by (auto simp: detach_volume_def split: prod.splits sum.splits)
    then have "vls_files st'' = (vls_files st')(?meta := None, ?img := None)" using remove_result by metis
    then show ?thesis using files assms(3,4) volume_paths_differ [of os dir i i]
      by (auto simp: get_volume_def fun_eq_iff)
  qed
  moreover have "detach_volume os dir i st = (st, Inr ())"
    using assms(3,4) by (simp add: detach_volume_def remove_volume_file_def)
  moreover have "vls_files st' ?img = Some ?f" using files volume_paths_differ [of os dir i i] by simp
  ultimately show ?thesis using get meta(4) files by auto
qed

text \<open>A host without \<open>truncate\<close>.\<close>

definition sample_volume :: volume_meta where
  "sample_volume = \<lparr>vme_id = 7, vme_sandbox_id = 3, vme_owner_id = None, vme_image_path = ''/v/volume-seven.ext4'',
     vme_mount_path = ''/data'', vme_size_mib = 64, vme_created_at = 0\<rparr>"

definition sample_volume_os :: vol_os where
  "sample_volume_os = \<lparr>vlo_show_uuid = (\<lambda>_. ''seven''), vlo_truncate = (\<lambda>_. Inl (IoFailed ''not found'')),
     vlo_mkfs = (\<lambda>_. Inr True), vlo_mkdir = (\<lambda>_. None), vlo_write = (\<lambda>_. None),
     vlo_read = (\<lambda>_ f. case f of TextFile t \<Rightarrow> Inr t | _ \<Rightarrow> Inl (IoFailed ''not text'')),
     vlo_remove = (\<lambda>_. None), vlo_ser = (\<lambda>m. if m = sample_volume then Inr ''json'' else Inl ''no''),
     vlo_de = (\<lambda>t. if t = ''json'' then Inr sample_volume else Inl ''no'')\<rparr>"

theorem volume_lifecycle_witness:
  "\<exists>st. create_volume sample_volume_os ''/v'' 7 0 3 None ''/data'' 64 \<lparr>vls_dirs = {''/v''}, vls_files = Map.empty\<rparr> =
       (st, Inr sample_volume) \<and>
     vls_files st ''/v/volume-seven.ext4'' = Some EmptyFile \<and> vme_size_mib sample_volume = 64"
proof -
  let ?st = "\<lparr>vls_dirs = {''/v''}, vls_files = Map.empty\<rparr> :: vol_state"
  obtain st where c: "create_volume sample_volume_os ''/v'' 7 0 3 None ''/data'' 64 ?st = (st, Inr sample_volume)"
    by (simp add: create_volume_def make_volume_image_def write_file_def write_meta_def sample_volume_os_def
        sample_volume_def volume_image_path_def volume_meta_path_def path_join_def Let_def)
  have "vol_os_ok sample_volume_os" by (auto simp: vol_os_ok_def sample_volume_os_def)
  from volume_lifecycle [OF this c] have "vme_size_mib sample_volume = 64"
    "vls_files st (volume_image_path sample_volume_os ''/v'' 7) = Some EmptyFile"
    by (simp_all add: sample_volume_os_def)
  with c show ?thesis by (simp add: volume_image_path_def path_join_def sample_volume_os_def)
qed

end
