(* ===== verification/Block_Device.thy ===== *)
theory Block_Device
  imports Volumes
begin

text \<open>
  Root file systems of sandboxes (\<open>akssora-core/src/block_device.rs\<close>): the configurations, the four
  kinds of storage and how each is set up and taken down by commands. \<open>bko_answer\<close> says for each
  command, given those before it, whether it cannot be run or with what success it ends; the state
  has the commands so far, the directories made, the files removed and the texts written.
\<close>

section \<open>Configurations\<close>

datatype storage_backend = FlatFile | SparseFile | CowOverlay | RawBlock

definition default_backend :: storage_backend where
  "default_backend = SparseFile"

datatype block_error =
    BlockIo io_error
  | BlockCommandFailed string
  | BlockUnsupported string
  | BlockOverlaySetup string

record block_device_config =
  bdc_backend :: storage_backend
  bdc_image_path :: string
  bdc_size_mib :: u32
  bdc_base_image_path :: "string option"
  bdc_device_path :: "string option"
  bdc_multi_queue :: bool
  bdc_queue_depth :: u32

definition flat_file :: "string \<Rightarrow> u32 \<Rightarrow> block_device_config" where
  "flat_file p mib = \<lparr>bdc_backend = FlatFile, bdc_image_path = p, bdc_size_mib = mib,
     bdc_base_image_path = None, bdc_device_path = None, bdc_multi_queue = False, bdc_queue_depth = 128\<rparr>"

definition sparse_file :: "string \<Rightarrow> u32 \<Rightarrow> block_device_config" where
  "sparse_file p mib = \<lparr>bdc_backend = SparseFile, bdc_image_path = p, bdc_size_mib = mib,
     bdc_base_image_path = None, bdc_device_path = None, bdc_multi_queue = False, bdc_queue_depth = 128\<rparr>"

definition cow_overlay :: "string \<Rightarrow> string \<Rightarrow> u32 \<Rightarrow> block_device_config" where
  "cow_overlay overlay base mib = \<lparr>bdc_backend = CowOverlay, bdc_image_path = overlay, bdc_size_mib = mib,
     bdc_base_image_path = Some base, bdc_device_path = None, bdc_multi_queue = False, bdc_queue_depth = 128\<rparr>"

definition raw_block :: "string \<Rightarrow> u32 \<Rightarrow> block_device_config" where
  "raw_block device mib = \<lparr>bdc_backend = RawBlock, bdc_image_path = device, bdc_size_mib = mib,
     bdc_base_image_path = None, bdc_device_path = Some device, bdc_multi_queue = True, bdc_queue_depth = 128\<rparr>"

definition with_multi_queue :: "bool \<Rightarrow> block_device_config \<Rightarrow> block_device_config" where
  "with_multi_queue enabled cfg = cfg\<lparr>bdc_multi_queue := enabled\<rparr>"

definition with_queue_depth :: "u32 \<Rightarrow> block_device_config \<Rightarrow> block_device_config" where
  "with_queue_depth depth cfg = cfg\<lparr>bdc_queue_depth := depth\<rparr>"

section \<open>Commands\<close>

record block_os =
  bko_show_uuid :: "uuid \<Rightarrow> string"
  bko_mkdir :: "string \<Rightarrow> io_error option"
  bko_answer :: "string list list \<Rightarrow> string list \<Rightarrow> io_error + bool"
  bko_exists :: "string list list \<Rightarrow> string \<Rightarrow> bool"
  bko_remove :: "string \<Rightarrow> io_error option"
  bko_write :: "string \<Rightarrow> io_error option"
  bko_base_entries :: "(io_error + (io_error + string) list) option"

record block_state =
  bks_log :: "string list list"
  bks_dirs :: "string set"
  bks_removed :: "string list"
  bks_texts :: "string \<rightharpoonup> string"

definition block_command :: "block_os \<Rightarrow> string list \<Rightarrow> block_state \<Rightarrow> block_state \<times> (io_error + bool)" where
  "block_command os cmd st = (st\<lparr>bks_log := bks_log st @ [cmd]\<rparr>, bko_answer os (bks_log st) cmd)"

definition block_mkdir :: "block_os \<Rightarrow> string \<Rightarrow> block_state \<Rightarrow> block_state \<times> (block_error + unit)" where
  "block_mkdir os dir st =
     (case bko_mkdir os dir of
        Some e \<Rightarrow> (st, Inl (BlockIo e))
      | None \<Rightarrow> (st\<lparr>bks_dirs := insert dir (bks_dirs st)\<rparr>, Inr ()))"

text \<open>A command whose failure ends the call.\<close>

definition must_succeed ::
    "block_os \<Rightarrow> string list \<Rightarrow> block_error \<Rightarrow> block_state \<Rightarrow> block_state \<times> (block_error + unit)" where
  "must_succeed os cmd failure st =
     and_then (map_err BlockIo (block_command os cmd st)) (\<lambda>ok st. (st, if ok then Inr () else Inl failure))"

section \<open>The manager\<close>

record block_manager =
  bdm_storage_dir :: string
  bdm_base_images_dir :: string
  bdm_default_backend :: storage_backend

definition new_block_manager :: "string \<Rightarrow> string \<Rightarrow> block_manager" where
  "new_block_manager storage_dir base_images_dir = \<lparr>bdm_storage_dir = storage_dir,
     bdm_base_images_dir = base_images_dir, bdm_default_backend = default_backend\<rparr>"

definition with_backend :: "storage_backend \<Rightarrow> block_manager \<Rightarrow> block_manager" where
  "with_backend backend mgr = mgr\<lparr>bdm_default_backend := backend\<rparr>"

definition ensure_block_dirs :: "block_os \<Rightarrow> block_manager \<Rightarrow> block_state \<Rightarrow> block_state \<times> (block_error + unit)" where
  "ensure_block_dirs os mgr st =
     and_then (block_mkdir os (bdm_storage_dir mgr) st) (\<lambda>_. block_mkdir os (bdm_base_images_dir mgr))"

definition rootfs_image_path :: "block_os \<Rightarrow> block_manager \<Rightarrow> uuid \<Rightarrow> string" where
  "rootfs_image_path os mgr i = path_join (bdm_storage_dir mgr) (''rootfs-'' @ bko_show_uuid os i @ ''.ext4'')"

definition mkfs_command :: "string \<Rightarrow> string list" where
  "mkfs_command p = [''mkfs.ext4'', ''-F'', p]"

definition dd_command :: "string \<Rightarrow> u32 \<Rightarrow> string list" where
  "dd_command p mib = [''dd'', ''if=/dev/zero'', ''of='' @ p, ''bs=1M'', show_nat (unat mib)]"

definition fallocate_command :: "string \<Rightarrow> u32 \<Rightarrow> string list" where
  "fallocate_command p mib = [''fallocate'', ''-l'', show_nat (unat mib) @ ''M'', p]"

definition create_flat_file ::
    "block_os \<Rightarrow> block_manager \<Rightarrow> uuid \<Rightarrow> u32 \<Rightarrow> block_state \<Rightarrow> block_state \<times> (block_error + block_device_config)" where
  "create_flat_file os mgr i mib st =
     (let p = rootfs_image_path os mgr i
      in and_then (must_succeed os (dd_command p mib) (BlockCommandFailed ''dd failed'') st) (\<lambda>_ st.
         and_then (must_succeed os (mkfs_command p) (BlockCommandFailed ''mkfs.ext4 failed'') st) (\<lambda>_ st.
           (st, Inr (flat_file p mib)))))"

definition create_sparse_file ::
    "block_os \<Rightarrow> block_manager \<Rightarrow> uuid \<Rightarrow> u32 \<Rightarrow> block_state \<Rightarrow> block_state \<times> (block_error + block_device_config)" where
  "create_sparse_file os mgr i mib st =
     (let p = rootfs_image_path os mgr i
      in and_then (map_err BlockIo (block_command os (fallocate_command p mib) st)) (\<lambda>ok st.
         if \<not> ok then create_flat_file os mgr i mib st
         else and_then (must_succeed os (mkfs_command p) (BlockCommandFailed ''mkfs.ext4 failed'') st) (\<lambda>_ st.
           (st, Inr (sparse_file p mib)))))"

text \<open>The first entry of the directory, in the order the system gives, that is named as an image;
  entries that cannot be read are passed over.\<close>

fun first_image :: "(io_error + string) list \<Rightarrow> string option" where
  "first_image [] = None"
| "first_image (Inl _ # es) = first_image es"
| "first_image (Inr name # es) =
     (if snd (split_extension name) = Some ''ext4'' then Some name else first_image es)"

definition find_base_image :: "block_os \<Rightarrow> block_manager \<Rightarrow> string option" where
  "find_base_image os mgr =
     (case bko_base_entries os of
        None \<Rightarrow> None
      | Some (Inl _) \<Rightarrow> None
      | Some (Inr es) \<Rightarrow> map_option (path_join (bdm_base_images_dir mgr)) (first_image es))"

definition overlay_dir :: "block_os \<Rightarrow> block_manager \<Rightarrow> uuid \<Rightarrow> string" where
  "overlay_dir os mgr i = path_join (bdm_storage_dir mgr) (''overlay-'' @ bko_show_uuid os i)"

definition overlay_mount_command :: "string \<Rightarrow> string \<Rightarrow> string list" where
  "overlay_mount_command base overlay =
     [''sudo'', ''mount'', ''-t'', ''overlay'', ''overlay'', ''-o'',
      ''lowerdir='' @ base @ '',upperdir='' @ path_join overlay ''upper'' @ '',workdir='' @ path_join overlay ''work'',
      path_join overlay ''merged'']"

definition create_cow_overlay ::
    "block_os \<Rightarrow> block_manager \<Rightarrow> uuid \<Rightarrow> u32 \<Rightarrow> block_state \<Rightarrow> block_state \<times> (block_error + block_device_config)" where
  "create_cow_overlay os mgr i mib st =
     (let overlay = overlay_dir os mgr i
      in and_then (block_mkdir os (path_join overlay ''upper'') st) (\<lambda>_ st.
         and_then (block_mkdir os (path_join overlay ''work'') st) (\<lambda>_ st.
         and_then (block_mkdir os (path_join overlay ''merged'') st) (\<lambda>_ st.
         case find_base_image os mgr of
           None \<Rightarrow> (st, Inl (BlockOverlaySetup ''no base image found in base_images_dir''))
         | Some base \<Rightarrow>
             and_then (must_succeed os (overlay_mount_command base overlay)
               (BlockOverlaySetup ''mount -t overlay failed'') st) (\<lambda>_ st.
               (st, Inr (cow_overlay overlay base mib)))))))"

definition create_rootfs ::
    "block_os \<Rightarrow> block_manager \<Rightarrow> uuid \<Rightarrow> u32 \<Rightarrow> block_state \<Rightarrow> block_state \<times> (block_error + block_device_config)" where
  "create_rootfs os mgr i mib st =
     (case bdm_default_backend mgr of
        FlatFile \<Rightarrow> create_flat_file os mgr i mib st
      | SparseFile \<Rightarrow> create_sparse_file os mgr i mib st
      | CowOverlay \<Rightarrow> create_cow_overlay os mgr i mib st
      | RawBlock \<Rightarrow> (st, Inl (BlockUnsupported ''raw block device requires manual setup'')))"

definition remove_block_dir :: "string \<Rightarrow> block_state \<Rightarrow> block_state" where
  "remove_block_dir dir st = st\<lparr>bks_dirs := bks_dirs st - {dir}\<rparr>"

definition destroy_rootfs ::
    "block_os \<Rightarrow> block_device_config \<Rightarrow> block_state \<Rightarrow> block_state \<times> (block_error + unit)" where
  "destroy_rootfs os cfg st =
     (let p = bdc_image_path cfg
      in case bdc_backend cfg of
           CowOverlay \<Rightarrow>
             (let st = fst (block_command os [''sudo'', ''umount'', ''-l'', path_join p ''merged''] st)
              in (remove_block_dir p (remove_block_dir (path_join p ''merged'')
                    (remove_block_dir (path_join p ''work'') (remove_block_dir (path_join p ''upper'') st))), Inr ()))
         | _ \<Rightarrow>
             (if bko_exists os (bks_log st) p
              then (case bko_remove os p of
                      Some e \<Rightarrow> (st, Inl (BlockIo e))
                    | None \<Rightarrow> (st\<lparr>bks_removed := bks_removed st @ [p]\<rparr>, Inr ()))
              else (st, Inr ())))"

text \<open>The identifier and path of the drive, whether it is the root, and whether it is read-only.\<close>

definition rootfs_drive :: "block_device_config \<Rightarrow> string \<times> string \<times> bool \<times> bool" where
  "rootfs_drive cfg =
     (case bdc_backend cfg of
        CowOverlay \<Rightarrow> (''rootfs'',
          (case bdc_base_image_path cfg of Some base \<Rightarrow> base | None \<Rightarrow> bdc_image_path cfg), True, False)
      | _ \<Rightarrow> (''rootfs'', bdc_image_path cfg, True, False))"

section \<open>A job file for benchmarks\<close>

definition fio_job :: "string \<Rightarrow> string" where
  "fio_job test_dir = concat (map (\<lambda>l. l @ [CHR 0x0A])
     [''[global]'', ''directory='' @ test_dir, ''ioengine=libaio'', ''direct=1'', ''size=64m'', ''time_based'',
      ''runtime=10'', '''',
      ''[seq-write]'', ''bs=128k'', ''rw=write'', ''iodepth=32'', ''name=seq-write'', '''',
      ''[rand-read-4k]'', ''bs=4k'', ''rw=randread'', ''iodepth=64'', ''name=rand-read-4k'', '''',
      ''[rand-write-4k]'', ''bs=4k'', ''rw=randwrite'', ''iodepth=32'', ''name=rand-write-4k''])"

definition generate_fio_job_file ::
    "block_os \<Rightarrow> string \<Rightarrow> string \<Rightarrow> block_state \<Rightarrow> block_state \<times> (block_error + unit)" where
  "generate_fio_job_file os output_path test_dir st =
     (case bko_write os output_path of
        Some e \<Rightarrow> (st, Inl (BlockIo e))
      | None \<Rightarrow> (st\<lparr>bks_texts := (bks_texts st)(output_path \<mapsto> fio_job test_dir)\<rparr>, Inr ()))"

section \<open>What a creation gives\<close>

text \<open>The commands of a creation, each of which succeeded given those before it.\<close>

fun all_succeed :: "block_os \<Rightarrow> string list list \<Rightarrow> string list list \<Rightarrow> bool" where
  "all_succeed os past [] \<longleftrightarrow> True"
| "all_succeed os past (cmd # cmds) \<longleftrightarrow> bko_answer os past cmd = Inr True \<and> all_succeed os (past @ [cmd]) cmds"

lemma must_succeed_Inr:
  "must_succeed os cmd failure st = (st', Inr u) \<longleftrightarrow>
     st' = st\<lparr>bks_log := bks_log st @ [cmd]\<rparr> \<and> bko_answer os (bks_log st) cmd = Inr True"
  by (auto simp: must_succeed_def block_command_def and_then_def map_err_def split: sum.splits if_splits)

lemma block_mkdir_Inr:
  "block_mkdir os dir st = (st', Inr u) \<longleftrightarrow> st' = st\<lparr>bks_dirs := insert dir (bks_dirs st)\<rparr> \<and> bko_mkdir os dir = None"
  by (auto simp: block_mkdir_def split: option.splits)

lemmas block_calls = must_succeed_Inr block_mkdir_Inr and_then_Inr

lemma create_flat_Inr:
  "create_flat_file os mgr i mib st = (st', Inr cfg) \<longleftrightarrow>
     (let p = rootfs_image_path os mgr i; cmds = [dd_command p mib, mkfs_command p]
      in cfg = flat_file p mib \<and> st' = st\<lparr>bks_log := bks_log st @ cmds\<rparr> \<and> all_succeed os (bks_log st) cmds)"
  by (auto simp: create_flat_file_def block_calls Let_def)

lemma create_sparse_Inr:
  "create_sparse_file os mgr i mib st = (st', Inr cfg) \<longleftrightarrow>
     (let p = rootfs_image_path os mgr i; alloc = fallocate_command p mib
      in if bko_answer os (bks_log st) alloc = Inr False
         then create_flat_file os mgr i mib (st\<lparr>bks_log := bks_log st @ [alloc]\<rparr>) = (st', Inr cfg)
         else cfg = sparse_file p mib \<and> st' = st\<lparr>bks_log := bks_log st @ [alloc, mkfs_command p]\<rparr> \<and>
           all_succeed os (bks_log st) [alloc, mkfs_command p])"
  by (cases "bko_answer os (bks_log st) (fallocate_command (rootfs_image_path os mgr i) mib)")
    (auto simp: create_sparse_file_def block_command_def block_calls Let_def)

lemma create_cow_Inr:
  assumes "create_cow_overlay os mgr i mib st = (st', Inr cfg)"
  obtains base where "find_base_image os mgr = Some base" "cfg = cow_overlay (overlay_dir os mgr i) base mib"
    "bks_log st' = bks_log st @ [overlay_mount_command base (overlay_dir os mgr i)]"
    "all_succeed os (bks_log st) [overlay_mount_command base (overlay_dir os mgr i)]"
  using assms by (auto simp: create_cow_overlay_def block_calls Let_def split: option.splits)

text \<open>
  A root file system that was created comes from commands that all succeeded: an image allocated
  and formatted, sparse or, when only the allocation fails, flat; or a mounted overlay; never a raw
  device. Its drive is the image. For an overlay, though, the drive is the base image itself,
  writable: the overlay is not used, and all sandboxes of the manager write to the same image.
\<close>

theorem rootfs_result:
  assumes "create_rootfs os mgr i mib st = (st', Inr cfg)"
  shows "\<exists>cmds. bks_log st' = bks_log st @ cmds \<and> bdc_size_mib cfg = mib \<and> bdc_backend cfg \<noteq> RawBlock \<and>
    (bdc_backend cfg \<noteq> CowOverlay \<longrightarrow> last cmds = mkfs_command (rootfs_image_path os mgr i) \<and>
      rootfs_drive cfg = (''rootfs'', rootfs_image_path os mgr i, True, False)) \<and>
    (bdc_backend cfg \<noteq> bdm_default_backend mgr \<longrightarrow> bdm_default_backend mgr = SparseFile \<and> bdc_backend cfg = FlatFile \<and>
      bko_answer os (bks_log st) (hd cmds) = Inr False \<and> all_succeed os (bks_log st @ [hd cmds]) (tl cmds)) \<and>
    (bdc_backend cfg = bdm_default_backend mgr \<longrightarrow> all_succeed os (bks_log st) cmds) \<and>
    (bdc_backend cfg = CowOverlay \<longrightarrow>
      (\<forall>j mib' st1 st2 cfg'. create_rootfs os mgr j mib' st1 = (st2, Inr cfg') \<longrightarrow>
        (\<exists>base. find_base_image os mgr = Some base \<and> rootfs_drive cfg = (''rootfs'', base, True, False) \<and>
          rootfs_drive cfg' = rootfs_drive cfg)))"
proof (cases "bdm_default_backend mgr")
  case FlatFile
  with assms show ?thesis
    by (auto simp: create_rootfs_def create_flat_Inr Let_def flat_file_def rootfs_drive_def)
next
  case SparseFile
  with assms show ?thesis
    by (auto simp: create_rootfs_def create_sparse_Inr create_flat_Inr Let_def flat_file_def sparse_file_def
        rootfs_drive_def split: if_splits)
next
  case CowOverlay
  have drive: "\<exists>base. find_base_image os mgr = Some base \<and> rootfs_drive cfg' = (''rootfs'', base, True, False)"
    if "create_rootfs os mgr j mib' st1 = (st2, Inr cfg')" for j mib' st1 st2 cfg'
    using that CowOverlay
    by (auto simp: create_rootfs_def cow_overlay_def rootfs_drive_def elim!: create_cow_Inr)
  from assms CowOverlay have "create_cow_overlay os mgr i mib st = (st', Inr cfg)" by (simp add: create_rootfs_def)
  then obtain base where "cfg = cow_overlay (overlay_dir os mgr i) base mib"
    "bks_log st' = bks_log st @ [overlay_mount_command base (overlay_dir os mgr i)]"
    "all_succeed os (bks_log st) [overlay_mount_command base (overlay_dir os mgr i)]"
    by (rule create_cow_Inr)
  with CowOverlay drive drive [OF assms] show ?thesis
    by (intro exI [of _ "[overlay_mount_command base (overlay_dir os mgr i)]"]) (fastforce simp: cow_overlay_def)
next
  case RawBlock
  with assms show ?thesis by (simp add: create_rootfs_def)
qed

text \<open>A creation of an overlay that fails leaves the directories it made.\<close>

lemma failed_overlay_leaves_dirs:
  assumes "\<And>d. bko_mkdir os d = None" "find_base_image os mgr = None" "bdm_default_backend mgr = CowOverlay"
  shows "\<exists>e. create_rootfs os mgr i mib st = (st\<lparr>bks_dirs := bks_dirs st \<union>
    {path_join (overlay_dir os mgr i) d |d. d \<in> {''upper'', ''work'', ''merged''}}\<rparr>, Inl e)"
  using assms by (auto simp: create_rootfs_def create_cow_overlay_def block_mkdir_def Let_def
      intro!: arg_cong [where f = "\<lambda>d. st\<lparr>bks_dirs := d\<rparr>"])

text \<open>Destroying a file system removes the file at its image path, which for a raw device is the node of
  the device itself.\<close>

lemma destroy_removes_raw_device:
  assumes "bko_exists os (bks_log st) dev" "bko_remove os dev = None"
  shows "destroy_rootfs os (raw_block dev mib) st = (st\<lparr>bks_removed := bks_removed st @ [dev]\<rparr>, Inr ())"
  using assms by (simp add: destroy_rootfs_def raw_block_def)

definition sample_block_os :: block_os where
  "sample_block_os = \<lparr>bko_show_uuid = (\<lambda>i. if i = 1 then ''one'' else ''two''), bko_mkdir = (\<lambda>_. None),
     bko_answer = (\<lambda>_ _. Inr True), bko_exists = (\<lambda>_ _. True), bko_remove = (\<lambda>_. None), bko_write = (\<lambda>_. None),
     bko_base_entries = Some (Inr [Inr ''notes.txt'', Inr ''base.ext4''])\<rparr>"

theorem rootfs_result_witness:
  "\<exists>st1 cfg1 st2 cfg2 mgr st. mgr = with_backend CowOverlay (new_block_manager ''/s'' ''/b'') \<and>
     create_rootfs sample_block_os mgr 1 64 st = (st1, Inr cfg1) \<and> create_rootfs sample_block_os mgr 2 64 st1 = (st2, Inr cfg2) \<and>
     rootfs_drive cfg1 = (''rootfs'', ''/b/base.ext4'', True, False) \<and> rootfs_drive cfg2 = rootfs_drive cfg1"
proof -
  let ?mgr = "with_backend CowOverlay (new_block_manager ''/s'' ''/b'')"
  let ?st = "\<lparr>bks_log = [], bks_dirs = {}, bks_removed = [], bks_texts = Map.empty\<rparr>"
  have base: "find_base_image sample_block_os ?mgr = Some ''/b/base.ext4''"
    by (simp add: find_base_image_def sample_block_os_def split_extension_def with_backend_def new_block_manager_def
        path_join_def)
  have "\<exists>st' cfg. create_rootfs sample_block_os ?mgr i 64 st = (st', Inr cfg) \<and> bdc_backend cfg = CowOverlay" for i st
    using base by (simp add: create_rootfs_def create_cow_overlay_def block_mkdir_def must_succeed_def block_command_def
        sample_block_os_def cow_overlay_def with_backend_def new_block_manager_def Let_def)
  then obtain st1 cfg1 st2 cfg2 where c: "create_rootfs sample_block_os ?mgr 1 64 ?st = (st1, Inr cfg1)"
    "bdc_backend cfg1 = CowOverlay" "create_rootfs sample_block_os ?mgr 2 64 st1 = (st2, Inr cfg2)"
    by metis
  from rootfs_result [OF c(1)] c(2,3) base
  have "rootfs_drive cfg1 = (''rootfs'', ''/b/base.ext4'', True, False)" "rootfs_drive cfg2 = rootfs_drive cfg1"
    by (metis option.inject)+
  with c show ?thesis by blast
qed

end
