(* ===== verification/Port_Forward.thy ===== *)
theory Port_Forward
  imports Host_Exec
begin

text \<open>
  Ports of a guest on the host: the forwarding of the host (\<open>akssora-core/src/port_forward.rs\<close>) with
  its listener, its connection to the guest and the relay of bytes, and the proxy in the guest
  (\<open>akssora-guest-agent/src/port_forward.rs\<close>). What the sockets do is a list of events.
\<close>

section \<open>Copying between two sockets\<close>

text \<open>
  One direction of a relay: what was written, what was read and waits to be written, and whether the
  reading side has ended. The copying itself is the library's; what is stated here is its documented
  behaviour: it writes what it reads, in order, and is done when the reading side has ended and all is
  written, or at an error, of either side (a write that takes nothing is one). A read after the end
  gives nothing.
\<close>

record copy_dir =
  cpd_done :: bytes
  cpd_pending :: bytes
  cpd_eof :: bool

datatype copy_event = CopyRead bytes | CopyWrite nat | CopyEof | CopyError io_error

definition fresh_copy :: copy_dir where
  "fresh_copy = \<lparr>cpd_done = [], cpd_pending = [], cpd_eof = False\<rparr>"

fun copy_step :: "copy_event \<Rightarrow> copy_dir \<Rightarrow> copy_dir \<times> bool" where
  "copy_step (CopyRead bs) d = (if cpd_eof d then d else d\<lparr>cpd_pending := cpd_pending d @ bs\<rparr>, False)"
| "copy_step (CopyWrite n) d =
     (d\<lparr>cpd_done := cpd_done d @ take n (cpd_pending d), cpd_pending := drop n (cpd_pending d)\<rparr>,
      cpd_eof d \<and> drop n (cpd_pending d) = [])"
| "copy_step CopyEof d = (d\<lparr>cpd_eof := True\<rparr>, cpd_pending d = [])"
| "copy_step (CopyError e) d = (d, True)"

datatype relay_side = ToGuest | ToClient

type_synonym relay_state = "relay_side \<Rightarrow> copy_dir"

text \<open>The relay ends with the first direction that is done, whatever the other one holds; the result
  says whether it has ended.\<close>

fun relay :: "(relay_side \<times> copy_event) list \<Rightarrow> relay_state \<Rightarrow> relay_state \<times> bool" where
  "relay [] st = (st, False)"
| "relay ((s, ev) # es) st =
     (case copy_step ev (st s) of
        (d, True) \<Rightarrow> (st(s := d), True)
      | (d, False) \<Rightarrow> relay es (st(s := d)))"

section \<open>The host\<close>

text \<open>The line is read byte by byte, so that nothing after it is lost; \<open>lossy\<close> shows a rejection.\<close>

definition connect_to_guest_vsock ::
    "(bytes \<Rightarrow> string) \<Rightarrow> u16 \<Rightarrow> io_error + stream \<Rightarrow> core_error + stream" where
  "connect_to_guest_vsock lossy guest_port connection =
     (case connection of
        Inl e \<Rightarrow> Inl (VsockConnect e)
      | Inr s \<Rightarrow>
          (case write_all (text_bytes (''CONNECT '' @ show_nat (unat guest_port)) @ [10]) s of
             (s, Some e) \<Rightarrow> Inl (WriteRequest e)
           | (s, None) \<Rightarrow>
               (case read_reply s of
                  (s, response) \<Rightarrow>
                    (if 10 \<notin> set response then Inl (ReadLengthPrefix (st_end s))
                     else if \<not> prefix (text_bytes ''OK'') response
                     then Inl (VsockConnect (IoFailed (''vsock CONNECT rejected: '' @ lossy response)))
                     else Inr s))))"

definition relay_connection ::
    "(bytes \<Rightarrow> string) \<Rightarrow> u16 \<Rightarrow> io_error + stream \<Rightarrow> (relay_side \<times> copy_event) list \<Rightarrow>
     core_error + relay_state \<times> bool" where
  "relay_connection lossy guest_port connection es =
     (case connect_to_guest_vsock lossy guest_port connection of
        Inl e \<Rightarrow> Inl e
      | Inr _ \<Rightarrow> Inr (relay es (\<lambda>_. fresh_copy)))"

record port_forward_handle =
  pfh_sandbox_id :: uuid
  pfh_guest_port :: u16
  pfh_host_port :: u16
  pfh_listen_port :: u16

definition local_url :: "port_forward_handle \<Rightarrow> string" where
  "local_url h = ''http://127.0.0.1:'' @ show_nat (unat (pfh_host_port h))"

text \<open>What the task of the listener sees: a connection, which gets a relay of its own; a failure; and
  that the value of the handle has changed, by \<open>stop\<close> or by the end of the handle.\<close>

datatype forward_event = Accepted nat | AcceptFailed io_error | StopSent | HandleDropped

fun forward_loop :: "forward_event list \<Rightarrow> nat list \<Rightarrow> nat list \<times> bool" where
  "forward_loop [] relays = (relays, True)"
| "forward_loop (Accepted c # es) relays = forward_loop es (relays @ [c])"
| "forward_loop (AcceptFailed _ # es) relays = forward_loop es relays"
| "forward_loop (StopSent # es) relays = (relays, False)"
| "forward_loop (HandleDropped # es) relays = (relays, False)"

text \<open>\<open>bind\<close> gives the port that is listened on, or the error of either call.\<close>

definition start_port_forward ::
    "(u16 \<Rightarrow> io_error + u16) \<Rightarrow> uuid \<Rightarrow> u16 \<Rightarrow> u16 \<Rightarrow> core_error + port_forward_handle" where
  "start_port_forward bind sandbox_id guest_port host_port =
     (case bind host_port of
        Inl e \<Rightarrow> Inl (Io e)
      | Inr port \<Rightarrow> Inr \<lparr>pfh_sandbox_id = sandbox_id, pfh_guest_port = guest_port, pfh_host_port = host_port,
          pfh_listen_port = port\<rparr>)"

section \<open>The guest\<close>

text \<open>The proxy takes one connection; \<open>None\<close>: it has not come yet, or the relay goes on.\<close>

definition start_guest_port_proxy ::
    "(u16 \<Rightarrow> io_error + u16) \<Rightarrow> (io_error + unit) option \<Rightarrow> (relay_side \<times> copy_event) list \<Rightarrow> u16 \<Rightarrow>
     (relay_state \<times> (guest_error + u16)) option" where
  "start_guest_port_proxy bind accept es guest_port =
     (case bind guest_port of
        Inl e \<Rightarrow> Some (\<lambda>_. fresh_copy, Inl (GuestChildIo e))
      | Inr actual_port \<Rightarrow>
          (case accept of
             None \<Rightarrow> None
           | Some (Inl e) \<Rightarrow> Some (\<lambda>_. fresh_copy, Inl (GuestChildIo e))
           | Some (Inr _) \<Rightarrow>
               (case relay es (\<lambda>_. fresh_copy) of
                  (st, True) \<Rightarrow> Some (st, Inr actual_port)
                | (st, False) \<Rightarrow> None)))"

section \<open>What a relay delivers\<close>

fun reads_of :: "relay_side \<Rightarrow> (relay_side \<times> copy_event) list \<Rightarrow> bytes" where
  "reads_of s [] = []"
| "reads_of s ((s', ev) # es) =
     (if s' \<noteq> s then reads_of s es
      else case ev of CopyRead bs \<Rightarrow> bs @ reads_of s es | CopyEof \<Rightarrow> [] | _ \<Rightarrow> reads_of s es)"

definition received :: "copy_dir \<Rightarrow> bytes" where
  "received d = cpd_done d @ cpd_pending d"

lemma relay_received:
  "relay es st = (st', False) \<Longrightarrow>
     received (st' s) = received (st s) @ (if cpd_eof (st s) then [] else reads_of s es)"
proof (induction es arbitrary: st)
  case Nil
  then show ?case by simp
next
  case (Cons x es)
  obtain s1 ev where x: "x = (s1, ev)" by fastforce
  obtain d where d: "copy_step ev (st s1) = (d, False)" "relay es (st(s1 := d)) = (st', False)"
    using Cons.prems x by (auto split: prod.splits bool.splits)
  show ?case
    using Cons.IH [OF d(2)] d(1) x by (cases ev) (auto simp: received_def split: if_splits)
qed

lemma relay_stops:
  "relay es st = (st', True) \<Longrightarrow> \<exists>pre s ev post st1 d. es = pre @ (s, ev) # post \<and> relay pre st = (st1, False) \<and>
     copy_step ev (st1 s) = (d, True) \<and> st' = st1(s := d)"
proof (induction es arbitrary: st)
  case Nil
  then show ?case by simp
next
  case (Cons x es)
  obtain s ev where x: "x = (s, ev)" by fastforce
  obtain d fin where d: "copy_step ev (st s) = (d, fin)" by fastforce
  show ?case
  proof (cases fin)
    case True
    with Cons.prems x d show ?thesis by (intro exI [of _ "[]"]) auto
  next
    case False
    with Cons.prems x d have "relay es (st(s := d)) = (st', True)" by simp
    from Cons.IH [OF this] obtain pre s1 ev1 post st1 d1 where r: "es = pre @ (s1, ev1) # post"
      "relay pre (st(s := d)) = (st1, False)" "copy_step ev1 (st1 s1) = (d1, True)" "st' = st1(s1 := d1)"
      by blast
    have "relay ((s, ev) # pre) st = (st1, False)" using r(2) d False by simp
    with r x show ?thesis by (metis append_Cons)
  qed
qed

lemma relay_append: "relay es st = (st', True) \<Longrightarrow> relay (es @ later) st = (st', True)"
  by (induction es st rule: relay.induct) (auto split: prod.splits bool.splits)

lemma reads_of_snoc:
  assumes "\<And>bs. ev \<noteq> CopyRead bs"
  shows "reads_of s' (pre @ [(s, ev)]) = reads_of s' pre"
proof (induction pre)
  case Nil
  then show ?case using assms by (cases ev) auto
next
  case (Cons x pre)
  then show ?case by (cases x) (simp split: copy_event.split)
qed

text \<open>
  C38. Until a relay ends, what it has read in either direction is what it has written, followed by
  what waits, in order. When it ends, all that was read in the direction that is done is written,
  unless an error ended it; but what waits in the other direction is dropped, and nothing that comes
  later is relayed: a client that ends its side after the request never gets the answer.
\<close>

theorem relay_delivers:
  assumes "relay es (\<lambda>_. fresh_copy) = (st, fin)"
  shows "(\<not> fin \<longrightarrow> (\<forall>s. cpd_done (st s) @ cpd_pending (st s) = reads_of s es)) \<and>
    (fin \<longrightarrow> (\<exists>pre s ev post. es = pre @ (s, ev) # post \<and>
      (\<forall>s'. cpd_done (st s') @ cpd_pending (st s') = reads_of s' (pre @ [(s, ev)])) \<and>
      ((\<exists>e. ev = CopyError e) \<or> cpd_done (st s) = reads_of s (pre @ [(s, ev)])) \<and>
      (\<forall>later. relay (es @ later) (\<lambda>_. fresh_copy) = (st, True)))) \<and>
    (\<forall>request later. cpd_done (fst (relay ([(ToGuest, CopyRead request), (ToGuest, CopyWrite (length request)),
      (ToGuest, CopyEof)] @ later) (\<lambda>_. fresh_copy)) ToClient) = [])"
proof (intro conjI impI)
  assume "\<not> fin"
  then show "\<forall>s. cpd_done (st s) @ cpd_pending (st s) = reads_of s es"
    using relay_received [of es "\<lambda>_. fresh_copy" st] assms by (simp add: received_def fresh_copy_def)
next
  assume fin
  then have es: "relay es (\<lambda>_. fresh_copy) = (st, True)" using assms by simp
  then obtain pre s ev post st1 d where r: "es = pre @ (s, ev) # post" "relay pre (\<lambda>_. fresh_copy) = (st1, False)"
    "copy_step ev (st1 s) = (d, True)" "st = st1(s := d)"
    using relay_stops by blast
  have before: "received (st1 s') = reads_of s' pre" for s'
    using relay_received [OF r(2), of s'] by (simp add: received_def fresh_copy_def)
  have snoc: "reads_of s' (pre @ [(s, ev)]) = reads_of s' pre" for s'
    using r(3) by (intro reads_of_snoc) (cases ev, auto)
  have same: "received d = received (st1 s)" using r(3) by (cases ev) (auto simp: received_def)
  have all: "received (st s') = reads_of s' (pre @ [(s, ev)])" for s' using before same snoc r(4) by simp
  have "(\<exists>e. ev = CopyError e) \<or> cpd_pending (st s) = []" using r(3,4) by (cases ev) auto
  then have own: "(\<exists>e. ev = CopyError e) \<or> cpd_done (st s) = reads_of s (pre @ [(s, ev)])"
    using all [of s] by (auto simp: received_def)
  show "\<exists>pre s ev post. es = pre @ (s, ev) # post \<and>
      (\<forall>s'. cpd_done (st s') @ cpd_pending (st s') = reads_of s' (pre @ [(s, ev)])) \<and>
      ((\<exists>e. ev = CopyError e) \<or> cpd_done (st s) = reads_of s (pre @ [(s, ev)])) \<and>
      (\<forall>later. relay (es @ later) (\<lambda>_. fresh_copy) = (st, True))"
    using r(1) relay_append [OF es] all own
    by (intro exI [of _ pre] exI [of _ s] exI [of _ ev] exI [of _ post]) (simp add: received_def)
next
  show "\<forall>request later. cpd_done (fst (relay ([(ToGuest, CopyRead request), (ToGuest, CopyWrite (length request)),
      (ToGuest, CopyEof)] @ later) (\<lambda>_. fresh_copy)) ToClient) = []"
    by (simp add: fresh_copy_def)
qed

theorem relay_delivers_witness:
  "fst (relay [(ToGuest, CopyRead [1, 2]), (ToGuest, CopyWrite 1), (ToClient, CopyRead [9])] (\<lambda>_. fresh_copy)) ToGuest =
     \<lparr>cpd_done = [1], cpd_pending = [2], cpd_eof = False\<rparr>"
proof -
  let ?es = "[(ToGuest, CopyRead [1, 2]), (ToGuest, CopyWrite 1), (ToClient, CopyRead [9])]"
  have r: "relay ?es (\<lambda>_. fresh_copy) = (\<lambda>s. if s = ToGuest then \<lparr>cpd_done = [1], cpd_pending = [2], cpd_eof = False\<rparr>
      else \<lparr>cpd_done = [], cpd_pending = [9], cpd_eof = False\<rparr>, False)"
    by (auto simp: fresh_copy_def fun_eq_iff intro: relay_side.exhaust)
  from relay_delivers [OF r] have "cpd_done (fst (relay ?es (\<lambda>_. fresh_copy)) ToGuest) @
      cpd_pending (fst (relay ?es (\<lambda>_. fresh_copy)) ToGuest) = [1, 2]"
    unfolding r by simp
  with r show ?thesis by simp
qed

section \<open>The listener\<close>

text \<open>Dropping the handle stops the forwarding as \<open>stop\<close> does; the relays that run go on.\<close>

lemma forward_stops:
  "forward_loop (es @ HandleDropped # later) relays = forward_loop (es @ [StopSent]) relays"
  by (induction es relays rule: forward_loop.induct) auto

lemma show_zero: "show_nat 0 = ''0''"
  by code_simp

text \<open>When the system chooses the port, the address that is shown names port 0.\<close>

lemma chosen_port_not_shown:
  assumes "start_port_forward bind i guest_port 0 = Inr h"
  shows "local_url h = ''http://127.0.0.1:0''"
  using assms by (auto simp: start_port_forward_def local_url_def show_zero split: sum.splits)

end
