(* ===== verification/Interleaving.thy ===== *)
theory Interleaving
  imports Prelude
begin

text \<open>
  Calls that overlap. A call is a thread whose next access to the shared state \<open>atomic\<close> performs; a
  list of turns says which thread moves. The interface \<open>atomic_calls\<close> relates the single accesses to
  the function that a call is when no other overlaps it; what it gives is that every sequence of
  calls, one after the other, is among the interleavings.
\<close>

section \<open>Threads\<close>

text \<open>A thread that has not had a turn has not begun, so that calls can begin at any time.\<close>

fun run_threads :: "('p \<Rightarrow> 's \<Rightarrow> 's \<times> 'p) \<Rightarrow> nat list \<Rightarrow> 's \<times> 'p list \<Rightarrow> 's \<times> 'p list" where
  "run_threads atomic [] st = st"
| "run_threads atomic (i # turns) (s, ps) =
     (if i < length ps
      then (case atomic (ps ! i) s of (s', p) \<Rightarrow> run_threads atomic turns (s', ps[i := p]))
      else run_threads atomic turns (s, ps))"

text \<open>One thread alone.\<close>

fun run_alone :: "('p \<Rightarrow> 's \<Rightarrow> 's \<times> 'p) \<Rightarrow> nat \<Rightarrow> 's \<times> 'p \<Rightarrow> 's \<times> 'p" where
  "run_alone atomic 0 st = st"
| "run_alone atomic (Suc n) (s, p) = run_alone atomic n (atomic p s)"

text \<open>Calls one after the other.\<close>

fun run_serially :: "('c \<Rightarrow> 's \<Rightarrow> 's \<times> 'r) \<Rightarrow> 'c list \<Rightarrow> 's \<Rightarrow> 's \<times> 'r list" where
  "run_serially call [] s = (s, [])"
| "run_serially call (c # cs) s =
     (case call c s of (s', r) \<Rightarrow> case run_serially call cs s' of (s'', rs) \<Rightarrow> (s'', r # rs))"

lemma run_threads_append:
  "run_threads atomic (xs @ ys) st = run_threads atomic ys (run_threads atomic xs st)"
  by (induction atomic xs st rule: run_threads.induct) (simp_all split: prod.split)

lemma run_threads_length: "length (snd (run_threads atomic turns st)) = length (snd st)"
  by (induction atomic turns st rule: run_threads.induct) (auto split: prod.split)

lemma run_threads_one:
  "i < length ps \<Longrightarrow> run_threads atomic (replicate n i) (s, ps) =
     (case run_alone atomic n (s, ps ! i) of (s', p) \<Rightarrow> (s', ps[i := p]))"
  by (induction n arbitrary: s ps) (auto split: prod.split)

text \<open>What every access of every thread keeps holds after any turns.\<close>

lemma run_threads_keeps:
  assumes "\<And>s ps i. P s ps \<Longrightarrow> i < length ps \<Longrightarrow> P (fst (atomic (ps ! i) s)) (ps[i := snd (atomic (ps ! i) s)])"
    and "P s ps"
  shows "P (fst (run_threads atomic turns (s, ps))) (snd (run_threads atomic turns (s, ps)))"
  using assms(2)
proof (induction turns arbitrary: s ps)
  case (Cons i turns)
  then show ?case using assms(1) [of s ps i] by (auto split: prod.split)
qed simp

lemma run_threads_keeps_state:
  assumes "\<And>s p. P s \<Longrightarrow> P (fst (atomic p s))" "P s"
  shows "P (fst (run_threads atomic turns (s, ps)))"
  using run_threads_keeps [where P = "\<lambda>s _. P s", OF assms] .

section \<open>Accesses and calls\<close>

locale atomic_calls =
  fixes atomic :: "'p \<Rightarrow> 's \<Rightarrow> 's \<times> 'p"
    and start :: "'c \<Rightarrow> 'p"
    and call :: "'c \<Rightarrow> 's \<Rightarrow> 's \<times> 'r"
    and ended :: "'r \<Rightarrow> 'p"
    and accesses :: nat
  assumes alone: "run_alone atomic accesses (s, start c) = (fst (call c s), ended (snd (call c s)))"
begin

lemma one_call:
  "run_threads atomic (replicate accesses 0) (s, [start c]) = (fst (call c s), [ended (snd (call c s))])"
  by (simp add: run_threads_one alone)

lemma serial_turns:
  "run_threads atomic (concat (map (replicate accesses) [length ps..<length ps + length cs])) (s, ps @ map start cs) =
     (fst (run_serially call cs s), ps @ map ended (snd (run_serially call cs s)))"
proof (induction cs arbitrary: s ps)
  case (Cons c cs)
  have "run_threads atomic (replicate accesses (length ps)) (s, ps @ map start (c # cs)) =
      (fst (call c s), (ps @ [ended (snd (call c s))]) @ map start cs)"
    by (simp add: run_threads_one alone nth_append list_update_append)
  moreover have "[length ps..<length ps + length (c # cs)] = length ps # [Suc (length ps)..<Suc (length ps) + length cs]"
    by (simp add: upt_conv_Cons del: upt_Suc)
  ultimately show ?case
    using Cons.IH [of "ps @ [ended (snd (call c s))]" "fst (call c s)"]
    by (simp add: run_threads_append split: prod.split del: upt_Suc)
qed simp

lemma serial_run:
  "\<exists>turns. run_threads atomic turns (s, map start cs) =
     (fst (run_serially call cs s), map ended (snd (run_serially call cs s)))"
  using serial_turns [of "[]"] by auto

end

end
