(* ===== verification/Breaker_Races.thy ===== *)
theory Breaker_Races
  imports Circuit_Breaker Interleaving
begin

text \<open>
  The circuit breaker (\<open>akssora-scheduler/src/circuit_breaker.rs\<close>) when calls overlap: each call as its
  loads, stores and additions on the atomics, one after the other, and any interleaving of the steps
  of any calls. The atomics are taken as sequentially consistent.
\<close>

section \<open>Calls in steps\<close>

text \<open>Where a call is; each constructor but the last names the access that comes next.\<close>

datatype breaker_pc =
    StateLoad u64 | StateOpenedAt u64 | StateHalfOpen | StateReset
  | SuccessLoad | SuccessCount | SuccessClose | SuccessClear
  | FailureLoad u64 | FailureCount u64 | FailureAgain u64
  | TripOpen u64 | TripTime u64 | TripReset
  | CallDone "circuit_state option"

fun atomic_step :: "breaker_pc \<Rightarrow> circuit_breaker \<Rightarrow> circuit_breaker \<times> breaker_pc" where
  "atomic_step (StateLoad now) cb =
     (cb, if breaker_word cb = 0 then CallDone (Some Closed)
          else if breaker_word cb = 1 then StateOpenedAt now
          else if breaker_word cb = 2 then CallDone (Some HalfOpen)
          else CallDone (Some Closed))"
| "atomic_step (StateOpenedAt now) cb =
     (cb, if OPEN_DURATION_SECS \<le> saturating_sub now (opened_at cb) then StateHalfOpen else CallDone (Some Open))"
| "atomic_step StateHalfOpen cb = (cb\<lparr>breaker_word := state_as_u32 HalfOpen\<rparr>, StateReset)"
| "atomic_step StateReset cb = (cb\<lparr>successes := 0\<rparr>, CallDone (Some HalfOpen))"
| "atomic_step SuccessLoad cb =
     (cb, if breaker_word cb = 0 then SuccessClear
          else if breaker_word cb = 2 then SuccessCount
          else CallDone None)"
| "atomic_step SuccessCount cb =
     (cb\<lparr>successes := successes cb + 1\<rparr>,
      if SUCCESS_THRESHOLD \<le> successes cb + 1 then SuccessClose else CallDone None)"
| "atomic_step SuccessClose cb = (cb\<lparr>breaker_word := state_as_u32 Closed\<rparr>, SuccessClear)"
| "atomic_step SuccessClear cb = (cb\<lparr>failures := 0\<rparr>, CallDone None)"
| "atomic_step (FailureLoad now) cb =
     (cb, if breaker_word cb = 0 then FailureCount now
          else if breaker_word cb = 1 then FailureAgain now
          else if breaker_word cb = 2 then TripOpen now
          else CallDone None)"
| "atomic_step (FailureCount now) cb =
     (cb\<lparr>failures := failures cb + 1\<rparr>,
      if FAILURE_THRESHOLD \<le> failures cb + 1 then TripOpen now else CallDone None)"
| "atomic_step (FailureAgain now) cb = (cb\<lparr>opened_at := now\<rparr>, CallDone None)"
| "atomic_step (TripOpen now) cb = (cb\<lparr>breaker_word := state_as_u32 Open\<rparr>, TripTime now)"
| "atomic_step (TripTime now) cb = (cb\<lparr>opened_at := now\<rparr>, TripReset)"
| "atomic_step TripReset cb = (cb\<lparr>successes := 0\<rparr>, CallDone None)"
| "atomic_step (CallDone r) cb = (cb, CallDone r)"

fun begin_call :: "breaker_call \<Rightarrow> breaker_pc" where
  "begin_call (CallState now) = StateLoad now"
| "begin_call CallSuccess = SuccessLoad"
| "begin_call (CallFailure now) = FailureLoad now"

section \<open>Calls that do not overlap\<close>

fun run_call :: "breaker_call \<Rightarrow> circuit_breaker \<Rightarrow> circuit_breaker \<times> circuit_state option" where
  "run_call (CallState now) cb = (case breaker_state now cb of (cb', st) \<Rightarrow> (cb', Some st))"
| "run_call CallSuccess cb = (record_success cb, None)"
| "run_call (CallFailure now) cb = (record_failure now cb, None)"

interpretation breaker_accesses: atomic_calls atomic_step begin_call run_call CallDone 5
proof unfold_locales
  fix cb c
  show "run_alone atomic_step 5 (cb, begin_call c) = (fst (run_call c cb), CallDone (snd (run_call c cb)))"
    by (cases c) (auto simp: breaker_op_defs numeral_eq_Suc)
qed

section \<open>Any interleaving\<close>

lemma interleave_word:
  assumes "breaker_word cb \<in> {0, 1, 2}"
  shows "breaker_word (fst (run_threads atomic_step turns (cb, pcs))) \<in> {0, 1, 2}"
proof (rule run_threads_keeps_state)
  show "breaker_word (fst (atomic_step pc cb)) \<in> {0, 1, 2}" if "breaker_word cb \<in> {0, 1, 2}" for cb pc
    using that by (cases pc) auto
qed (rule assms)

text \<open>Calls on a closed breaker that does not trip are at one of these steps, and each call that
  reports a failure counts once.\<close>

fun calm :: "breaker_pc \<Rightarrow> bool" where
  "calm (StateLoad _) \<longleftrightarrow> True"
| "calm SuccessLoad \<longleftrightarrow> True"
| "calm SuccessClear \<longleftrightarrow> True"
| "calm (FailureLoad _) \<longleftrightarrow> True"
| "calm (FailureCount _) \<longleftrightarrow> True"
| "calm (CallDone _) \<longleftrightarrow> True"
| "calm _ \<longleftrightarrow> False"

fun may_count :: "breaker_pc \<Rightarrow> nat" where
  "may_count (FailureLoad _) = 1"
| "may_count (FailureCount _) = 1"
| "may_count _ = 0"

fun is_failure :: "breaker_call \<Rightarrow> bool" where
  "is_failure (CallFailure _) \<longleftrightarrow> True"
| "is_failure _ \<longleftrightarrow> False"

definition closed_below :: "nat \<Rightarrow> circuit_breaker \<Rightarrow> breaker_pc list \<Rightarrow> bool" where
  "closed_below n cb pcs \<longleftrightarrow> breaker_word cb = 0 \<and> (\<forall>p\<in>set pcs. calm p) \<and>
     unat (failures cb) + sum_list (map may_count pcs) \<le> n"

lemma calm_step:
  assumes "breaker_word cb = 0" "calm p" "unat (failures cb) + may_count p \<le> n" "n < 5"
  shows "breaker_word (fst (atomic_step p cb)) = 0 \<and> calm (snd (atomic_step p cb)) \<and>
    unat (failures (fst (atomic_step p cb))) + may_count (snd (atomic_step p cb)) \<le> unat (failures cb) + may_count p"
proof (cases p)
  case (FailureCount now)
  then have f: "unat (failures cb) < 4" using assms(3,4) by simp
  then have "failures cb < 4" by (simp add: word_less_nat_alt)
  then have s: "unat (failures cb + 1) = unat (failures cb) + 1" by (rule u32_succ_less)
  with f have "\<not> FAILURE_THRESHOLD \<le> failures cb + 1" by (simp add: FAILURE_THRESHOLD_def word_le_nat_alt)
  with s show ?thesis using assms(1) FailureCount by simp
qed (use assms in auto)

lemma closed_below_step:
  assumes "n < 5" "closed_below n cb pcs" "i < length pcs"
  shows "closed_below n (fst (atomic_step (pcs ! i) cb)) (pcs[i := snd (atomic_step (pcs ! i) cb)])"
proof -
  have le: "may_count (pcs ! i) \<le> sum_list (map may_count pcs)"
    using assms(3) elem_le_sum_list [of i "map may_count pcs"] by simp
  have "calm (pcs ! i)" using assms(2,3) by (simp add: closed_below_def)
  from calm_step [OF _ this _ assms(1)] assms(2) le
  have s: "breaker_word (fst (atomic_step (pcs ! i) cb)) = 0" "calm (snd (atomic_step (pcs ! i) cb))"
    "unat (failures (fst (atomic_step (pcs ! i) cb))) + may_count (snd (atomic_step (pcs ! i) cb))
      \<le> unat (failures cb) + may_count (pcs ! i)"
    by (simp_all add: closed_below_def)
  have "sum_list (map may_count (pcs[i := q])) = sum_list (map may_count pcs) + may_count q - may_count (pcs ! i)" for q
    using assms(3) by (simp add: map_update sum_list_update)
  with s le assms(2) show ?thesis
    by (auto simp: closed_below_def dest!: set_update_subset_insert [THEN subsetD])
qed

lemma few_failures_stay_closed:
  assumes "length (filter is_failure cs) < 5"
  shows "breaker_word (fst (run_threads atomic_step turns (new_breaker, map begin_call cs))) = 0"
proof -
  let ?n = "length (filter is_failure cs)"
  have "calm (begin_call c)" "may_count (begin_call c) = (if is_failure c then 1 else 0)" for c
    by (cases c; simp)+
  moreover from this have "sum_list (map may_count (map begin_call cs)) = ?n" by (induction cs) simp_all
  ultimately have "closed_below ?n new_breaker (map begin_call cs)"
    by (auto simp: closed_below_def new_breaker_def)
  from run_threads_keeps [where P = "closed_below ?n", OF closed_below_step [OF assms] this]
  show ?thesis by (simp add: closed_below_def)
qed

section \<open>A trip that is read too early\<close>

definition four_failures :: "u64 \<Rightarrow> circuit_breaker" where
  "four_failures t = fold breaker_step [CallFailure t, CallFailure t, CallFailure t, CallFailure t] new_breaker"

lemma four_failures_eq: "four_failures t = new_breaker\<lparr>failures := 4\<rparr>"
  by (simp add: four_failures_def breaker_op_defs new_breaker_def) (simp add: word_le_nat_alt)

lemma early_read:
  assumes "30 \<le> now"
  shows "run_threads atomic_step [0, 0, 0, 1, 1, 1, 1, 0, 0] (four_failures t, [FailureLoad now, StateLoad now]) =
    (\<lparr>failures = 5, successes = 0, opened_at = now, breaker_word = 2\<rparr>, [CallDone None, CallDone (Some HalfOpen)])"
  using assms by (simp add: four_failures_eq new_breaker_def FAILURE_THRESHOLD_def OPEN_DURATION_SECS_def saturating_sub_def)

lemma early_reads:
  assumes "30 \<le> now"
  shows "\<exists>turns cb'. run_threads atomic_step turns (four_failures t, [FailureLoad now, StateLoad now]) =
    (cb', [CallDone None, CallDone (Some HalfOpen)]) \<and> breaker_word cb' = 2"
  by (intro exI conjI, rule early_read [OF assms]) simp

text \<open>
  C18. Every sequence of calls, one after the other, is an interleaving and does what the functions say. However calls overlap, the state word
  stays one of the three codes, and a new breaker stays closed as long as fewer than five calls report
  a failure. But a trip stores the state before the time: a read between the two stores sees an open
  breaker with the time of an earlier trip, or none, and makes it half-open at once, so that a host
  that has just failed for the fifth time is admitted, which no order of the two calls allows.
\<close>

theorem overlapping_calls:
  "(\<exists>turns. run_threads atomic_step turns (cb, map begin_call cs) =
     (fst (run_serially run_call cs cb), map CallDone (snd (run_serially run_call cs cb)))) \<and>
   (breaker_word cb \<in> {0, 1, 2} \<longrightarrow> breaker_word (fst (run_threads atomic_step turns (cb, map begin_call cs))) \<in> {0, 1, 2}) \<and>
   (length (filter is_failure cs) < 5 \<longrightarrow>
     breaker_word (fst (run_threads atomic_step turns (new_breaker, map begin_call cs))) = 0) \<and>
   (30 \<le> now \<longrightarrow>
     (\<exists>turns cb'. run_threads atomic_step turns (four_failures t, map begin_call [CallFailure now, CallState now]) =
        (cb', [CallDone None, CallDone (Some HalfOpen)]) \<and> breaker_word cb' = 2) \<and>
     snd (run_call (CallState now) (four_failures t)) = Some Closed \<and>
     snd (run_call (CallState now) (fst (run_call (CallFailure now) (four_failures t)))) = Some Open)"
proof (intro conjI impI)
  show "\<exists>turns cb'. run_threads atomic_step turns (four_failures t, map begin_call [CallFailure now, CallState now]) =
      (cb', [CallDone None, CallDone (Some HalfOpen)]) \<and> breaker_word cb' = 2" if "30 \<le> now"
    using early_reads [OF that] by simp
qed (use interleave_word few_failures_stay_closed breaker_accesses.serial_run in
    \<open>auto simp: four_failures_eq new_breaker_def breaker_op_defs saturating_sub_def\<close>)

theorem overlapping_calls_witness:
  "breaker_word (fst (run_threads atomic_step [0, 1, 1, 0] (new_breaker, [FailureLoad 7, FailureLoad 8]))) = 0 \<and>
   (\<exists>turns cb'. run_threads atomic_step turns (four_failures 7, [FailureLoad 100, StateLoad 100]) =
      (cb', [CallDone None, CallDone (Some HalfOpen)]) \<and> breaker_word cb' = 2)"
  using overlapping_calls [where now = 100 and t = 7 and turns = "[0, 1, 1, 0]" and cs = "[CallFailure 7, CallFailure 8]"]
  by simp

end
