(* ===== verification/Region_Races.thy ===== *)
theory Region_Races
  imports Region_Registry Interleaving
begin

text \<open>
  Registrations and removals of hosts that overlap (\<open>akssora-scheduler/src/region_registry.rs\<close>). A
  registration looks the region up, lists the host in it, records the region of the host and enters
  the host in the host registry; a removal takes these back, one access after the other on three
  maps.
\<close>

section \<open>Calls in accesses\<close>

record join_request =
  jn_now :: datetime
  jn_host :: uuid
  jn_region :: string
  jn_address :: socket_addr
  jn_vcpus :: u32
  jn_mem_mib :: u32

datatype region_pc =
    JoinCheck join_request | JoinList join_request | JoinRecord join_request | JoinEnter join_request
  | LeaveRecord uuid | LeaveList uuid string | LeaveRegistry uuid
  | MoveDone bool

fun region_access ::
    "region_pc \<Rightarrow> region_registry \<times> host_registry \<Rightarrow> (region_registry \<times> host_registry) \<times> region_pc" where
  "region_access (JoinCheck j) (rr, hr) =
     ((rr, hr), if regions rr (jn_region j) = None then MoveDone False else JoinList j)"
| "region_access (JoinList j) (rr, hr) =
     (((case regions rr (jn_region j) of
          None \<Rightarrow> rr
        | Some region \<Rightarrow> rr\<lparr>regions := (regions rr)(jn_region j \<mapsto>
            region\<lparr>rg_hosts := (rg_hosts region)(jn_host j \<mapsto>
              \<lparr>hre_region_id = jn_region j, hre_address = jn_address j, hre_registered_at = jn_now j\<rparr>)\<rparr>)\<rparr>), hr),
      JoinRecord j)"
| "region_access (JoinRecord j) (rr, hr) =
     ((rr\<lparr>host_regions := (host_regions rr)(jn_host j \<mapsto> jn_region j)\<rparr>, hr), JoinEnter j)"
| "region_access (JoinEnter j) (rr, hr) =
     ((rr, upsert_host (jn_now j) (jn_host j) (jn_address j) (jn_vcpus j) (jn_mem_mib j) hr), MoveDone True)"
| "region_access (LeaveRecord h) (rr, hr) =
     (case host_regions rr h of
        None \<Rightarrow> ((rr, hr), MoveDone False)
      | Some rid \<Rightarrow> ((rr\<lparr>host_regions := (host_regions rr)(h := None)\<rparr>, hr), LeaveList h rid))"
| "region_access (LeaveList h rid) (rr, hr) =
     (((case regions rr rid of
          None \<Rightarrow> rr
        | Some region \<Rightarrow> rr\<lparr>regions := (regions rr)(rid \<mapsto> region\<lparr>rg_hosts := (rg_hosts region)(h := None)\<rparr>)\<rparr>), hr),
      LeaveRegistry h)"
| "region_access (LeaveRegistry h) (rr, hr) = ((rr, fst (registry_remove_host h hr)), MoveDone True)"
| "region_access (MoveDone b) s = (s, MoveDone b)"

datatype host_move = Join join_request | Leave uuid

fun start_move :: "host_move \<Rightarrow> region_pc" where
  "start_move (Join j) = JoinCheck j"
| "start_move (Leave h) = LeaveRecord h"

section \<open>Moves that do not overlap\<close>

fun move_call :: "host_move \<Rightarrow> region_registry \<times> host_registry \<Rightarrow> (region_registry \<times> host_registry) \<times> bool" where
  "move_call (Join j) (rr, hr) =
     (case register_host (jn_now j) (jn_host j) (jn_region j) (jn_address j) (jn_vcpus j) (jn_mem_mib j) rr hr of
        (rr', hr', b) \<Rightarrow> ((rr', hr'), b))"
| "move_call (Leave h) (rr, hr) = (case region_remove_host h rr hr of (rr', hr', b) \<Rightarrow> ((rr', hr'), b))"

interpretation region_accesses: atomic_calls region_access start_move move_call MoveDone 4
proof unfold_locales
  fix s :: "region_registry \<times> host_registry" and c
  obtain rr hr where s: "s = (rr, hr)" by fastforce
  show "run_alone region_access 4 (s, start_move c) = (fst (move_call c s), MoveDone (snd (move_call c s)))"
  proof (cases c)
    case (Join j)
    then show ?thesis
      by (cases "regions rr (jn_region j)") (auto simp: s register_host_def numeral_eq_Suc)
  next
    case (Leave h)
    then show ?thesis
      by (auto simp: s region_remove_host_def Let_def numeral_eq_Suc split: option.split)
  qed
qed

section \<open>Any interleaving\<close>

text \<open>A registration that has seen its region relies on its being there; no call removes a region.\<close>

fun region_seen :: "region_registry \<Rightarrow> region_pc \<Rightarrow> bool" where
  "region_seen rr (JoinList j) \<longleftrightarrow> jn_region j \<in> dom (regions rr)"
| "region_seen rr (JoinRecord j) \<longleftrightarrow> jn_region j \<in> dom (regions rr)"
| "region_seen rr _ \<longleftrightarrow> True"

definition moves_inv :: "region_registry \<times> host_registry \<Rightarrow> region_pc list \<Rightarrow> bool" where
  "moves_inv s ps \<longleftrightarrow> region_machine_inv s \<and> (\<forall>p\<in>set ps. region_seen (fst s) p)"

lemma access_dom: "dom (regions (fst (fst (region_access p s)))) = dom (regions (fst s))"
  by (cases s; cases p) (auto split: option.splits)

lemma region_seen_dom: "dom (regions rr') = dom (regions rr) \<Longrightarrow> region_seen rr' p = region_seen rr p"
  by (cases p) simp_all

lemma access_seen: "region_seen (fst s) p \<Longrightarrow> region_seen (fst s) (snd (region_access p s))"
  by (cases s; cases p) (auto split: option.splits)

lemma access_inv:
  assumes "region_machine_inv s" "region_seen (fst s) p"
  shows "region_machine_inv (fst (region_access p s))"
proof -
  obtain rr hr where s: "s = (rr, hr)" by fastforce
  then have wf: "regions_wf rr" and inv: "registry_inv hr" using assms(1) by (simp_all add: region_machine_inv_def)
  have "regions_wf (fst (fst (region_access p s)))"
  proof (cases p)
    case (JoinRecord j)
    then show ?thesis using wf assms(2) ran_update_subset [of "host_regions rr" "jn_host j" "Some (jn_region j)"]
      by (auto simp: s regions_wf_def)
  next
    case (LeaveRecord h)
    then show ?thesis using wf ran_update_subset [of "host_regions rr" h None]
      by (auto simp: s regions_wf_def split: option.split)
  qed (use wf in \<open>auto simp: s regions_wf_def split: option.split\<close>)
  moreover have "registry_inv (snd (fst (region_access p s)))"
    using inv by (cases p) (auto simp: s upsert_host_inv registry_remove_host_inv split: option.split)
  ultimately show ?thesis by (simp add: region_machine_inv_def)
qed

lemma moves_inv_access:
  assumes "moves_inv s ps" "i < length ps"
  shows "moves_inv (fst (region_access (ps ! i) s)) (ps[i := snd (region_access (ps ! i) s)])"
  using assms access_inv [of s "ps ! i"] access_seen [of s "ps ! i"] region_seen_dom [OF access_dom]
  by (auto simp: moves_inv_def dest!: set_update_subset_insert [THEN subsetD])

lemma moves_keep_inv:
  assumes "region_machine_inv s"
  shows "region_machine_inv (fst (run_threads region_access turns (s, map start_move cs)))"
proof -
  have "region_seen rr (start_move c)" for rr c by (cases c) simp_all
  with assms have "moves_inv s (map start_move cs)" by (auto simp: moves_inv_def)
  from run_threads_keeps [where P = moves_inv, OF moves_inv_access this] show ?thesis by (simp add: moves_inv_def)
qed

section \<open>A registration that is half taken back\<close>

definition recorded_in :: "uuid \<Rightarrow> string \<Rightarrow> region_registry \<times> host_registry \<Rightarrow> bool" where
  "recorded_in h rid s \<longleftrightarrow> host_regions (fst s) h = Some rid"

definition listed_in :: "uuid \<Rightarrow> string \<Rightarrow> region_registry \<times> host_registry \<Rightarrow> bool" where
  "listed_in h rid s \<longleftrightarrow> (\<exists>region. regions (fst s) rid = Some region \<and> rg_hosts region h \<noteq> None)"

definition known_host :: "uuid \<Rightarrow> region_registry \<times> host_registry \<Rightarrow> bool" where
  "known_host h s \<longleftrightarrow> hosts (snd s) h \<noteq> None"

lemmas host_places = recorded_in_def listed_in_def known_host_def

text \<open>
  C20. However registrations and removals of hosts overlap, every region stays under its own name, the
  hosts it lists name it, and the region recorded for a host exists; and every sequence of calls, one
  after the other, is an interleaving and does what the functions say. But the removal of a host
  that overlaps with its registration in the same region can leave it half: both calls succeed, and
  the region is recorded for a host that the region does not list and that the registry does not
  know. After either call that follows the other the three agree.
\<close>

theorem overlapping_moves:
  "(region_machine_inv s \<longrightarrow> region_machine_inv (fst (run_threads region_access turns (s, map start_move cs)))) \<and>
   (\<exists>serial. run_threads region_access serial (s, map start_move cs) =
     (fst (run_serially move_call cs s), map MoveDone (snd (run_serially move_call cs s)))) \<and>
   (recorded_in (jn_host j) (jn_region j) s \<and> regions (fst s) (jn_region j) \<noteq> None \<longrightarrow>
     (\<exists>half s'. run_threads region_access half (s, map start_move [Join j, Leave (jn_host j)]) =
         (s', [MoveDone True, MoveDone True]) \<and>
       recorded_in (jn_host j) (jn_region j) s' \<and> \<not> listed_in (jn_host j) (jn_region j) s' \<and>
       \<not> known_host (jn_host j) s') \<and>
     (\<forall>moves\<in>{[Join j, Leave (jn_host j)], [Leave (jn_host j), Join j]}.
       let s' = fst (run_serially move_call moves s)
       in listed_in (jn_host j) (jn_region j) s' = recorded_in (jn_host j) (jn_region j) s' \<and>
         known_host (jn_host j) s' = recorded_in (jn_host j) (jn_region j) s'))"
proof (intro conjI impI)
  assume a: "recorded_in (jn_host j) (jn_region j) s \<and> regions (fst s) (jn_region j) \<noteq> None"
  obtain rr hr region where s: "s = (rr, hr)" "host_regions rr (jn_host j) = Some (jn_region j)"
    "regions rr (jn_region j) = Some region"
    using a by (cases s) (auto simp: host_places)
  show "\<exists>half s'. run_threads region_access half (s, map start_move [Join j, Leave (jn_host j)]) =
         (s', [MoveDone True, MoveDone True]) \<and>
       recorded_in (jn_host j) (jn_region j) s' \<and> \<not> listed_in (jn_host j) (jn_region j) s' \<and>
       \<not> known_host (jn_host j) s'"
    using s(2,3) unfolding s(1)
    by (intro exI [of _ "[0, 0, 1, 0, 1, 0, 1]"]) (simp add: host_places registry_remove_host_def)
  show "\<forall>moves\<in>{[Join j, Leave (jn_host j)], [Leave (jn_host j), Join j]}.
       let s' = fst (run_serially move_call moves s)
       in listed_in (jn_host j) (jn_region j) s' = recorded_in (jn_host j) (jn_region j) s' \<and>
         known_host (jn_host j) s' = recorded_in (jn_host j) (jn_region j) s'"
    using s(2,3) unfolding s(1)
    by (simp add: host_places register_host_def region_remove_host_def upsert_host_def registry_remove_host_def Let_def)
qed (use moves_keep_inv region_accesses.serial_run in blast)+

theorem overlapping_moves_witness:
  "\<exists>j s half s'. j = \<lparr>jn_now = 0, jn_host = 1, jn_region = ''eu'', jn_address = sample_address, jn_vcpus = 8, jn_mem_mib = 1024\<rparr> \<and>
     s = fst (move_call (Join j) (register_region 0 ''eu'' ''EU'' ''Dublin'' new_region_registry, default_host_registry)) \<and>
     run_threads region_access half (s, map start_move [Join j, Leave 1]) = (s', [MoveDone True, MoveDone True]) \<and>
     recorded_in 1 ''eu'' s' \<and> \<not> listed_in 1 ''eu'' s' \<and> \<not> known_host 1 s'"
proof -
  define j where "j = \<lparr>jn_now = 0, jn_host = 1, jn_region = ''eu'', jn_address = sample_address, jn_vcpus = 8, jn_mem_mib = 1024\<rparr>"
  define s where "s = fst (move_call (Join j) (register_region 0 ''eu'' ''EU'' ''Dublin'' new_region_registry, default_host_registry))"
  have j: "jn_host j = 1" "jn_region j = ''eu''" by (simp_all add: j_def)
  have "recorded_in (jn_host j) (jn_region j) s \<and> regions (fst s) (jn_region j) \<noteq> None"
    by (simp add: s_def j host_places register_host_def register_region_def new_region_registry_def)
  from overlapping_moves [THEN conjunct2, THEN conjunct2, rule_format, OF this, THEN conjunct1]
  show ?thesis unfolding j using j_def s_def by blast
qed

end
