(* ===== verification/Scheduling_Bursts.thy ===== *)
theory Scheduling_Bursts
  imports Scheduler
begin

text \<open>
  Requests for placement that arrive between two heartbeats (\<open>akssora-scheduler/src/main.rs\<close>): what the
  later ones know of the earlier ones.
\<close>

text \<open>The requests of a burst, each with the time its demand is recorded at.\<close>

fun burst ::
    "datetime \<Rightarrow> (uuid \<Rightarrow> u64) \<Rightarrow> uuid list \<Rightarrow> (datetime \<times> schedule_request) list \<Rightarrow> scheduler_state \<Rightarrow>
     scheduler_state \<times> (string, schedule_response) response list" where
  "burst now secs ks [] st = (st, [])"
| "burst now secs ks ((t, req) # reqs) st =
     (let (st', r) = schedule_handler t now secs ks req st;
          (st'', rs) = burst now secs ks reqs st'
      in (st'', r # rs))"

lemma refreshed_view: "host_view t k (refreshed t e) = host_view t k e"
  by (auto simp: host_view_def refreshed_def snapshot_of_def breaker_op_defs)

lemma live_view_kept:
  assumes "distinct ks"
  shows "live_view now secs (fst (available_hosts now secs ks reg)) = live_view now secs reg"
proof
  fix k
  have "timed_out now (reg\<lparr>hosts := f\<rparr>) (refreshed t e) = timed_out now reg e" for f t e
    by (simp add: timed_out_def refreshed_def)
  moreover have "timed_out now (reg\<lparr>hosts := f\<rparr>) e = timed_out now reg e" for f e
    by (simp add: timed_out_def)
  ultimately show "live_view now secs (fst (available_hosts now secs ks reg)) k = live_view now secs reg k"
    using available_hosts_eq [OF assms, of now secs reg]
    by (auto simp: live_view_def refreshed_view split: option.splits if_splits)
qed

lemma capacity_kept:
  assumes "distinct ks"
  shows "map_option (\<lambda>e. (he_used_vcpus e, he_used_mem_mib e, he_sandbox_count e))
      (hosts (fst (available_hosts now secs ks reg)) k) =
    map_option (\<lambda>e. (he_used_vcpus e, he_used_mem_mib e, he_sandbox_count e)) (hosts reg k)"
  using available_hosts_eq [OF assms, of now secs reg] by (simp add: option.map_comp comp_def refreshed_def)

lemma handler_registry:
  "sr_region req = None \<Longrightarrow>
     sch_registry (fst (schedule_handler t now secs ks req st)) = fst (available_hosts now secs ks (sch_registry st))"
  by (simp add: schedule_handler_def split_def Let_def)

lemma answer_by_view:
  assumes "distinct ks" "sr_region req = None" "live_view now secs (sch_registry st') = live_view now secs (sch_registry st)"
  shows "snd (schedule_handler t now secs ks req st') = snd (schedule_handler t now secs ks req st)"
  using assms by (simp add: schedule_response_eq)

lemma burst_answers:
  assumes "distinct ks" "\<forall>q\<in>set reqs. sr_region (snd q) = None"
    and "live_view now secs (sch_registry st') = live_view now secs (sch_registry st)"
  shows "snd (burst now secs ks reqs st') = map (\<lambda>(t, req). snd (schedule_handler t now secs ks req st)) reqs"
  using assms(2,3)
proof (induction reqs arbitrary: st')
  case (Cons q reqs)
  obtain t req where q: "q = (t, req)" "sr_region req = None" using Cons.prems(1) by (cases q) auto
  have "live_view now secs (sch_registry (fst (schedule_handler t now secs ks req st'))) = live_view now secs (sch_registry st)"
    using Cons.prems(2) by (simp add: handler_registry [OF q(2)] live_view_kept [OF assms(1)])
  from Cons.IH [OF _ this] Cons.prems(1)
  have "snd (burst now secs ks reqs (fst (schedule_handler t now secs ks req st'))) =
      map (\<lambda>(t, req). snd (schedule_handler t now secs ks req st)) reqs" by simp
  with answer_by_view [OF assms(1) q(2) Cons.prems(2)] show ?case
    by (simp add: q(1) split_def Let_def)
qed simp

lemma burst_capacity:
  assumes "distinct ks" "\<forall>q\<in>set reqs. sr_region (snd q) = None"
  shows "map_option (\<lambda>e. (he_used_vcpus e, he_used_mem_mib e, he_sandbox_count e))
      (hosts (sch_registry (fst (burst now secs ks reqs st))) k) =
    map_option (\<lambda>e. (he_used_vcpus e, he_used_mem_mib e, he_sandbox_count e)) (hosts (sch_registry st) k)"
  using assms(2)
proof (induction reqs arbitrary: st)
  case (Cons q reqs)
  obtain t req where q: "q = (t, req)" "sr_region req = None" using Cons.prems by (cases q) auto
  let ?st = "fst (schedule_handler t now secs ks req st)"
  have "fst (burst now secs ks (q # reqs) st) = fst (burst now secs ks reqs ?st)"
    by (simp add: q(1) split_def Let_def)
  with Cons.IH [of ?st] Cons.prems show ?case
    by (simp add: handler_registry [OF q(2)] capacity_kept [OF assms(1)])
qed simp

text \<open>
  C17. Between two heartbeats every request of a burst is answered as if it were the only one: a placement
  changes neither the capacity nor the count of sandboxes recorded for a host. So once a request
  for at least one processor is placed, any number of them are placed on the same host, whatever
  it can hold.
\<close>

theorem burst_reserves_nothing:
  assumes "iterates ks (hosts (sch_registry st))" "\<forall>q\<in>set reqs. sr_region (snd q) = None"
  shows "snd (burst now secs ks reqs st) = map (\<lambda>(t, req). snd (schedule_handler t now secs ks req st)) reqs \<and>
    (\<forall>k. map_option (\<lambda>e. (he_used_vcpus e, he_used_mem_mib e, he_sandbox_count e))
        (hosts (sch_registry (fst (burst now secs ks reqs st))) k) =
      map_option (\<lambda>e. (he_used_vcpus e, he_used_mem_mib e, he_sandbox_count e)) (hosts (sch_registry st) k)) \<and>
    (\<forall>t req r total. sr_region req = None \<and> 0 < sr_vcpus req \<and>
      snd (schedule_handler t now secs ks req st) = Returns (Inr r) \<longrightarrow>
      (\<exists>n. total < n * unat (sr_vcpus req) \<and>
        snd (burst now secs ks (replicate n (t, req)) st) = replicate n (Returns (Inr r))))"
proof (intro conjI allI impI)
  have d: "distinct ks" using assms(1) by (simp add: iterates_def)
  show "snd (burst now secs ks reqs st) = map (\<lambda>(t, req). snd (schedule_handler t now secs ks req st)) reqs"
    using burst_answers [OF d assms(2) refl] .
  show "map_option (\<lambda>e. (he_used_vcpus e, he_used_mem_mib e, he_sandbox_count e))
      (hosts (sch_registry (fst (burst now secs ks reqs st))) k) =
    map_option (\<lambda>e. (he_used_vcpus e, he_used_mem_mib e, he_sandbox_count e)) (hosts (sch_registry st) k)" for k
    using burst_capacity [OF d assms(2)] .
  fix t req r and total :: nat
  assume a: "sr_region req = None \<and> 0 < sr_vcpus req \<and> snd (schedule_handler t now secs ks req st) = Returns (Inr r)"
  then have "1 \<le> unat (sr_vcpus req)" by (simp add: word_less_nat_alt)
  then have "Suc total * 1 \<le> Suc total * unat (sr_vcpus req)" by (rule mult_le_mono2)
  then have "total < Suc total * unat (sr_vcpus req)" by simp
  moreover have "snd (burst now secs ks (replicate (Suc total) (t, req)) st) = replicate (Suc total) (Returns (Inr r))"
    using burst_answers [OF d _ refl, of "replicate (Suc total) (t, req)" now secs st] a by simp
  ultimately show "\<exists>n. total < n * unat (sr_vcpus req) \<and>
      snd (burst now secs ks (replicate n (t, req)) st) = replicate n (Returns (Inr r))" by blast
qed

text \<open>A host of 8 processors is given six requests for 2 each.\<close>

theorem burst_reserves_nothing_witness:
  "\<exists>r. srs_host_id r = 1 \<and> snd (burst 0 (\<lambda>_. 0) [1] (replicate 6 (0, sample_request)) one_host_state) =
     replicate 6 (Returns (Inr (200, r))) \<and> 8 < 6 * unat (sr_vcpus sample_request)"
proof -
  have it: "iterates [1] (hosts (sch_registry one_host_state))" by (simp add: iterates_def one_host)
  have none: "sr_region sample_request = None" by (simp add: sample_request_def)
  have "snd (schedule_handler 0 0 (\<lambda>_. 0) [1] sample_request one_host_state) =
      Returns (Inr (200, \<lparr>srs_host_id = 1, srs_address = sample_address, srs_free_vcpus = 8, srs_free_mem_mib = 4096\<rparr>))"
    using none by (simp add: schedule_response_eq live_view_def one_host timed_out_def num_seconds_def
        as_u64_def host_view_def snapshot_of_def breaker_state_def new_breaker_def best_fit_place_def decide_def
        can_schedule_def free_vcpus_def free_mem_mib_def saturating_sub_def sample_request_def word_le_nat_alt
        word_less_nat_alt unsigned_minus_1_eq_mask mask_eq_exp_minus_1)
  moreover have "\<forall>q\<in>set (replicate 6 (0, sample_request)). sr_region (snd q) = None" using none by simp
  note burst_reserves_nothing [OF it this, of 0 "\<lambda>_. 0"]
  ultimately show ?thesis by (simp add: sample_request_def)
qed

end
