(* ===== verification/Template_Races.thy ===== *)
theory Template_Races
  imports Template_Builds Interleaving
begin

text \<open>
  Requests for templates that overlap (\<open>akssora-core/src/templates/mod.rs\<close>): a request looks its
  Dockerfile up, builds and then records what it has built, and nothing keeps a second request for the
  same Dockerfile from looking up before the first has recorded. Each of the three parts is one access
  here, so that the parts of a build do not overlap those of another, though they may.
\<close>

section \<open>A request in three accesses\<close>





section \<open>Two builds of the same image\<close>











end
