(* ===== verification/Service.thy ===== *)
theory Service
  imports Scheduler Egress
begin

text \<open>
  The scheduler as an HTTP service (\<open>akssora-scheduler/src/main.rs\<close>): its routes, what of a request
  each handler extracts, and the start-up. The matching of paths against patterns, the parsers of
  identifiers and of JSON bodies, and the readings of clocks and iteration orders that a request
  makes are arguments.
\<close>

section \<open>Routes\<close>

datatype http_method = GET | HEAD | POST | DELETE | OtherMethod

datatype endpoint =
    Heartbeat | Schedule | Fleet | ListRegions | GetRegion | GetHost | ReportFailure | Decommission
  | DemandAll | DemandTop | Prewarm | StartMigration | ListMigrations | CompletedMigrations
  | GetMigration | AdvanceMigration | RollbackMigration | Redirect | Health

definition routes :: "(string \<times> http_method \<times> endpoint) list" where
  "routes =
     [(''/heartbeat'', POST, Heartbeat),
      (''/schedule'', POST, Schedule),
      (''/fleet'', GET, Fleet),
      (''/regions'', GET, ListRegions),
      (''/regions/{id}'', GET, GetRegion),
      (''/hosts/{id}'', GET, GetHost),
      (''/hosts/{id}/report-failure'', POST, ReportFailure),
      (''/hosts/{id}'', DELETE, Decommission),
      (''/demand'', GET, DemandAll),
      (''/demand/top/{n}'', GET, DemandTop),
      (''/prewarm'', GET, Prewarm),
      (''/migrations'', POST, StartMigration),
      (''/migrations'', GET, ListMigrations),
      (''/migrations/completed'', GET, CompletedMigrations),
      (''/migrations/{migration_id}'', GET, GetMigration),
      (''/migrations/{migration_id}/advance'', POST, AdvanceMigration),
      (''/migrations/{migration_id}/rollback'', POST, RollbackMigration),
      (''/redirects/{sandbox_id}'', GET, Redirect),
      (''/health'', GET, Health)]"

definition patterns :: "string list" where
  "patterns = remdups (map fst routes)"

text \<open>A route for GET answers HEAD too. \<open>matcher\<close> gives the pattern that a path is served by, with the
  parts of the path in its braces, decoded.\<close>

definition served_as :: "http_method \<Rightarrow> http_method" where
  "served_as m = (case m of HEAD \<Rightarrow> GET | _ \<Rightarrow> m)"

definition find_route ::
    "(string list \<Rightarrow> string \<Rightarrow> (string \<times> string list) option) \<Rightarrow> http_method \<Rightarrow> string \<Rightarrow>
     nat + endpoint \<times> string list" where
  "find_route matcher method path =
     (case matcher patterns path of
        None \<Rightarrow> Inl 404
      | Some (pat, captured) \<Rightarrow>
          (case find (\<lambda>(p, m, _). p = pat \<and> m = served_as method) routes of
             None \<Rightarrow> Inl 405
           | Some (_, _, e) \<Rightarrow> Inr (e, captured)))"

section \<open>Requests\<close>

record readings =
  rd_now1 :: datetime
  rd_now2 :: datetime
  rd_instant1 :: int
  rd_instant2 :: int
  rd_instant3 :: int
  rd_unix :: u64
  rd_unix_of :: "uuid \<Rightarrow> u64"
  rd_clock :: "string \<Rightarrow> datetime"
  rd_hosts :: "uuid list"
  rd_regions :: "string list"
  rd_region_hosts :: "string \<Rightarrow> uuid list"
  rd_templates :: "string list"
  rd_migrations :: "uuid list"
  rd_new_id :: uuid

text \<open>The body of a migration request, in which the two times may be absent.\<close>

record migration_body =
  mb_sandbox_id :: uuid
  mb_source_host_id :: uuid
  mb_target_host_id :: "uuid option"
  mb_template_id :: "string option"
  mb_timeout_secs :: "u64 option"
  mb_drain_secs :: "u64 option"

definition or_default :: "'a \<Rightarrow> 'a option \<Rightarrow> 'a" where
  "or_default d x = (case x of None \<Rightarrow> d | Some v \<Rightarrow> v)"

definition migration_request_of :: "migration_body \<Rightarrow> start_migration_request" where
  "migration_request_of b =
     \<lparr>smr_sandbox_id = mb_sandbox_id b, smr_source_host_id = mb_source_host_id b,
      smr_target_host_id = mb_target_host_id b, smr_template_id = mb_template_id b,
      smr_timeout_secs = or_default default_migration_timeout (mb_timeout_secs b),
      smr_drain_secs = or_default default_drain_secs (mb_drain_secs b)\<rparr>"

text \<open>The parsers; a body that is not accepted gives the status of the rejection. A rollback reads the
  text under \<open>reason\<close>, if the body has one.\<close>

record 'b extractors =
  ex_uuid :: "string \<Rightarrow> uuid option"
  ex_usize :: "string \<Rightarrow> nat option"
  ex_heartbeat :: "'b \<Rightarrow> nat + heartbeat_request"
  ex_schedule :: "'b \<Rightarrow> nat + schedule_request"
  ex_migration :: "'b \<Rightarrow> nat + migration_body"
  ex_reason :: "'b \<Rightarrow> nat + string option"

datatype reply =
    NoBody | Text string | Acknowledged bool | ScheduledOn schedule_response | FleetReport fleet_metrics_response
  | HostReport host_snapshot | HealthReport health_response | Demands "template_demand list"
  | PrewarmReport prewarm_response | MigrationReport migration_record_snapshot
  | MigrationList "migration_record_snapshot list" | MigrationFailure "migration_error option"
  | RegionList "region_info list" | RegionReport region_info

type_synonym answer = "(nat \<times> reply) outcome"

definition reply_with :: "('e \<Rightarrow> reply) \<Rightarrow> ('a \<Rightarrow> reply) \<Rightarrow> ('e, 'a) response \<Rightarrow> answer" where
  "reply_with fe fa resp = map_outcome_val (\<lambda>r. case r of Inl (s, e) \<Rightarrow> (s, fe e) | Inr (s, a) \<Rightarrow> (s, fa a)) resp"

definition replied :: "('e \<Rightarrow> reply) \<Rightarrow> ('a \<Rightarrow> reply) \<Rightarrow> scheduler_state \<times> ('e, 'a) response \<Rightarrow> scheduler_state \<times> answer" where
  "replied fe fa m = (fst m, reply_with fe fa (snd m))"

text \<open>The extractors run before the handler: the path, whose text may not parse (400) or whose
  pattern may not have one capture (500), then the body.\<close>

definition with_path ::
    "(string \<Rightarrow> 'a option) \<Rightarrow> string list \<Rightarrow> scheduler_state \<Rightarrow> ('a \<Rightarrow> scheduler_state \<times> answer) \<Rightarrow>
     scheduler_state \<times> answer" where
  "with_path parse captured st k =
     (case captured of
        [c] \<Rightarrow> (case parse c of None \<Rightarrow> (st, Returns (400, NoBody)) | Some x \<Rightarrow> k x)
      | _ \<Rightarrow> (st, Returns (500, NoBody)))"

definition with_body ::
    "nat + 'a \<Rightarrow> scheduler_state \<Rightarrow> ('a \<Rightarrow> scheduler_state \<times> answer) \<Rightarrow> scheduler_state \<times> answer" where
  "with_body decoded st k = (case decoded of Inl s \<Rightarrow> (st, Returns (s, NoBody)) | Inr x \<Rightarrow> k x)"

definition status_only :: "scheduler_state \<times> nat \<Rightarrow> scheduler_state \<times> answer" where
  "status_only m = (fst m, Returns (snd m, NoBody))"

abbreviation no_body :: "'a \<Rightarrow> reply" where "no_body \<equiv> \<lambda>_. NoBody"

fun handle ::
    "(rat \<Rightarrow> rat) \<Rightarrow> (uuid \<Rightarrow> uuid \<Rightarrow> bool) \<Rightarrow> bool \<Rightarrow> 'b extractors \<Rightarrow> readings \<Rightarrow> endpoint \<Rightarrow> string list \<Rightarrow> 'b \<Rightarrow>
     scheduler_state \<Rightarrow> scheduler_state \<times> answer" where
  "handle rnd waits ovf X rd Heartbeat cap body st =
     with_body (ex_heartbeat X body) st (\<lambda>req.
       replied no_body Acknowledged (heartbeat_handler ovf (rd_now1 rd) (rd_now2 rd) req st))"
| "handle rnd waits ovf X rd Schedule cap body st =
     with_body (ex_schedule X body) st (\<lambda>req.
       replied Text ScheduledOn (schedule_handler (rd_now1 rd) (rd_now2 rd) (rd_unix_of rd) (rd_hosts rd) req st))"
| "handle rnd waits ovf X rd Fleet cap body st =
     replied no_body FleetReport (fleet_handler ovf (rd_now1 rd) (rd_unix_of rd) (rd_hosts rd) st)"
| "handle rnd waits ovf X rd ListRegions cap body st =
     replied no_body RegionList (list_regions_handler ovf (rd_unix_of rd) (rd_region_hosts rd) (rd_regions rd) st)"
| "handle rnd waits ovf X rd GetRegion cap body st =
     with_path Some cap st (\<lambda>r.
       replied no_body RegionReport (get_region_handler ovf (rd_unix_of rd) (rd_region_hosts rd r) r st))"
| "handle rnd waits ovf X rd GetHost cap body st =
     with_path (ex_uuid X) cap st (\<lambda>h. replied no_body HostReport (host_handler (rd_unix rd) h st))"
| "handle rnd waits ovf X rd ReportFailure cap body st =
     with_path (ex_uuid X) cap st (\<lambda>h. status_only (report_failure_handler (rd_unix rd) h st))"
| "handle rnd waits ovf X rd Decommission cap body st =
     with_path (ex_uuid X) cap st (\<lambda>h. status_only (decommission_handler h st))"
| "handle rnd waits ovf X rd DemandAll cap body st =
     (st, Returns (200, Demands (demand_handler rnd (rd_clock rd) (rd_templates rd) st)))"
| "handle rnd waits ovf X rd DemandTop cap body st =
     with_path (ex_usize X) cap st (\<lambda>n.
       (st, Returns (200, Demands (demand_top_handler rnd (rd_clock rd) (rd_templates rd) n st))))"
| "handle rnd waits ovf X rd Prewarm cap body st =
     replied no_body PrewarmReport (prewarm_handler rnd (rd_clock rd) (rd_templates rd) st)"
| "handle rnd waits ovf X rd StartMigration cap body st =
     with_body (ex_migration X body) st (\<lambda>b.
       replied MigrationFailure MigrationReport (start_migration_handler waits (rd_now1 rd) (rd_instant1 rd)
         (rd_unix rd) (rd_unix_of rd) (rd_hosts rd) (rd_new_id rd) (migration_request_of b) (rd_now2 rd)
         (rd_instant2 rd) (rd_instant3 rd) st))"
| "handle rnd waits ovf X rd ListMigrations cap body st =
     (st, map_outcome_val (\<lambda>ms. (200, MigrationList ms)) (list_migrations_handler (rd_instant1 rd) (rd_migrations rd) st))"
| "handle rnd waits ovf X rd CompletedMigrations cap body st =
     (st, Returns (200, MigrationList (completed_migrations_handler (rd_instant1 rd) (rd_migrations rd) st)))"
| "handle rnd waits ovf X rd GetMigration cap body st =
     with_path (ex_uuid X) cap st (\<lambda>i.
       (st, reply_with MigrationFailure MigrationReport (get_migration_handler waits (rd_instant1 rd) i st)))"
| "handle rnd waits ovf X rd AdvanceMigration cap body st =
     with_path (ex_uuid X) cap st (\<lambda>i.
       replied MigrationFailure MigrationReport (advance_migration_handler waits (rd_now1 rd) (rd_instant1 rd)
         (rd_instant2 rd) (rd_unix rd) (rd_instant3 rd) i st))"
| "handle rnd waits ovf X rd RollbackMigration cap body st =
     with_path (ex_uuid X) cap st (\<lambda>i. with_body (ex_reason X body) st (\<lambda>reason.
       replied MigrationFailure MigrationReport (rollback_migration_handler waits (rd_now1 rd) (rd_instant1 rd)
         i reason st)))"
| "handle rnd waits ovf X rd Redirect cap body st =
     with_path (ex_uuid X) cap st (\<lambda>i.
       (st, reply_with no_body MigrationReport (redirect_handler (rd_now1 rd) i st)))"
| "handle rnd waits ovf X rd Health cap body st = (st, Returns (200, HealthReport (health_handler st)))"

record 'b http_request =
  hq_method :: http_method
  hq_path :: string
  hq_body :: 'b
  hq_readings :: readings

text \<open>An answer to HEAD has the status of the answer to GET and no body.\<close>

definition answer_to :: "http_method \<Rightarrow> answer \<Rightarrow> answer" where
  "answer_to method ans = map_outcome_val (\<lambda>(s, r). (s, if method = HEAD then NoBody else r)) ans"

definition serve ::
    "(rat \<Rightarrow> rat) \<Rightarrow> (uuid \<Rightarrow> uuid \<Rightarrow> bool) \<Rightarrow> bool \<Rightarrow> 'b extractors \<Rightarrow>
     (string list \<Rightarrow> string \<Rightarrow> (string \<times> string list) option) \<Rightarrow> 'b http_request \<Rightarrow>
     scheduler_state \<Rightarrow> scheduler_state \<times> answer" where
  "serve rnd waits ovf X matcher req st =
     (case find_route matcher (hq_method req) (hq_path req) of
        Inl s \<Rightarrow> (st, Returns (s, NoBody))
      | Inr (e, captured) \<Rightarrow>
          (let (st', ans) = handle rnd waits ovf X (hq_readings req) e captured (hq_body req) st
           in (st', answer_to (hq_method req) ans)))"

section \<open>Start-up\<close>

text \<open>\<open>str::parse::<u16>\<close>.\<close>

definition parse_u16 :: "string \<Rightarrow> u16 option" where
  "parse_u16 s =
     (let ds = (case s of c # cs \<Rightarrow> if c = CHR ''+'' then cs else s | [] \<Rightarrow> s)
      in if ds \<noteq> [] \<and> list_all is_digit ds \<and> digits_val ds < 2 ^ 16
         then Some (of_nat (digits_val ds)) else None)"

definition listen_port :: "(string \<rightharpoonup> string) \<Rightarrow> u16" where
  "listen_port env = or_default 4000 (Option.bind (env ''PORT'') parse_u16)"

definition listen_text :: "(string \<rightharpoonup> string) \<Rightarrow> string" where
  "listen_text env = or_default ''0.0.0.0'' (env ''HOST'') @ '':'' @ show_nat (unat (listen_port env))"

text \<open>\<open>parse_addr\<close> reads an address and \<open>bind\<close> takes it; either may fail, which ends the process.\<close>

definition start_up ::
    "(string \<Rightarrow> 'e + socket_addr) \<Rightarrow> (socket_addr \<Rightarrow> 'e option) \<Rightarrow> (string \<rightharpoonup> string) \<Rightarrow> (rat \<Rightarrow> rat) \<Rightarrow> datetime \<Rightarrow>
     'e + socket_addr \<times> scheduler_state" where
  "start_up parse_addr bind env rnd now =
     (case parse_addr (listen_text env) of
        Inl e \<Rightarrow> Inl e
      | Inr addr \<Rightarrow> (case bind addr of Some e \<Rightarrow> Inl e | None \<Rightarrow> Inr (addr, boot_state rnd now)))"

section \<open>What a request does to the state\<close>

text \<open>The call of the service that a request is; \<open>None\<close> for one that is rejected or only reads.\<close>

definition one_capture :: "(string \<Rightarrow> 'a option) \<Rightarrow> string list \<Rightarrow> 'a option" where
  "one_capture parse captured = (case captured of [c] \<Rightarrow> parse c | _ \<Rightarrow> None)"

definition accepted :: "nat + 'a \<Rightarrow> 'a option" where
  "accepted decoded = (case decoded of Inl _ \<Rightarrow> None | Inr x \<Rightarrow> Some x)"

fun endpoint_call ::
    "bool \<Rightarrow> 'b extractors \<Rightarrow> readings \<Rightarrow> 'b \<Rightarrow> string list \<Rightarrow> endpoint \<Rightarrow> scheduler_call option" where
  "endpoint_call ovf X rd body cap Heartbeat =
     map_option (PostHeartbeat ovf (rd_now1 rd) (rd_now2 rd)) (accepted (ex_heartbeat X body))"
| "endpoint_call ovf X rd body cap Schedule =
     map_option (PostSchedule (rd_now1 rd) (rd_now2 rd) (rd_unix_of rd) (rd_hosts rd)) (accepted (ex_schedule X body))"
| "endpoint_call ovf X rd body cap Fleet = Some (GetFleet ovf (rd_now1 rd) (rd_unix_of rd) (rd_hosts rd))"
| "endpoint_call ovf X rd body cap ListRegions =
     Some (GetRegions ovf (rd_unix_of rd) (rd_region_hosts rd) (rd_regions rd))"
| "endpoint_call ovf X rd body cap GetRegion =
     map_option (\<lambda>r. GetRegionById ovf (rd_unix_of rd) (rd_region_hosts rd r) r) (one_capture Some cap)"
| "endpoint_call ovf X rd body cap GetHost = map_option (GetHostById (rd_unix rd)) (one_capture (ex_uuid X) cap)"
| "endpoint_call ovf X rd body cap ReportFailure =
     map_option (PostReportFailure (rd_unix rd)) (one_capture (ex_uuid X) cap)"
| "endpoint_call ovf X rd body cap Decommission = map_option DeleteHost (one_capture (ex_uuid X) cap)"
| "endpoint_call ovf X rd body cap Prewarm = Some (GetPrewarm (rd_clock rd) (rd_templates rd))"
| "endpoint_call ovf X rd body cap StartMigration =
     map_option (\<lambda>b. PostMigration (rd_now1 rd) (rd_instant1 rd) (rd_unix rd) (rd_unix_of rd) (rd_hosts rd)
       (rd_new_id rd) (migration_request_of b) (rd_now2 rd) (rd_instant2 rd) (rd_instant3 rd))
       (accepted (ex_migration X body))"
| "endpoint_call ovf X rd body cap AdvanceMigration =
     map_option (PostAdvance (rd_now1 rd) (rd_instant1 rd) (rd_instant2 rd) (rd_unix rd) (rd_instant3 rd))
       (one_capture (ex_uuid X) cap)"
| "endpoint_call ovf X rd body cap RollbackMigration =
     Option.bind (one_capture (ex_uuid X) cap) (\<lambda>i.
       map_option (PostRollback (rd_now1 rd) (rd_instant1 rd) i) (accepted (ex_reason X body)))"
| "endpoint_call ovf X rd body cap _ = None"

definition request_call ::
    "bool \<Rightarrow> 'b extractors \<Rightarrow> (string list \<Rightarrow> string \<Rightarrow> (string \<times> string list) option) \<Rightarrow> 'b http_request \<Rightarrow>
     scheduler_call option" where
  "request_call ovf X matcher req =
     (case find_route matcher (hq_method req) (hq_path req) of
        Inl _ \<Rightarrow> None
      | Inr (e, captured) \<Rightarrow> endpoint_call ovf X (hq_readings req) (hq_body req) captured e)"

definition maybe_step ::
    "(rat \<Rightarrow> rat) \<Rightarrow> (uuid \<Rightarrow> uuid \<Rightarrow> bool) \<Rightarrow> scheduler_call option \<Rightarrow> scheduler_state \<Rightarrow> scheduler_state" where
  "maybe_step rnd waits c st = (case c of None \<Rightarrow> st | Some c \<Rightarrow> scheduler_step rnd waits c st)"

lemma fst_with_path:
  "fst (with_path f cap st k) = (case one_capture f cap of None \<Rightarrow> st | Some x \<Rightarrow> fst (k x))"
  by (simp add: with_path_def one_capture_def split: list.split option.split)

lemma fst_with_body: "fst (with_body d st k) = (case accepted d of None \<Rightarrow> st | Some x \<Rightarrow> fst (k x))"
  by (simp add: with_body_def accepted_def split: sum.split)

lemma handle_step:
  "fst (handle rnd waits ovf X rd e cap body st) = maybe_step rnd waits (endpoint_call ovf X rd body cap e) st"
  by (cases e) (simp_all add: maybe_step_def fst_with_path fst_with_body replied_def status_only_def split: option.split)

lemma serve_step:
  "fst (serve rnd waits ovf X matcher req st) = maybe_step rnd waits (request_call ovf X matcher req) st"
  using handle_step [of rnd waits ovf X "hq_readings req"]
  by (auto simp: serve_def request_call_def maybe_step_def split_def Let_def split: sum.split)

text \<open>The states of the service: what it starts with, and what requests make of it. A request that starts
  a migration finds its new identifier unused.\<close>

inductive served ::
    "(rat \<Rightarrow> rat) \<Rightarrow> (uuid \<Rightarrow> uuid \<Rightarrow> bool) \<Rightarrow> bool \<Rightarrow> 'b extractors \<Rightarrow>
     (string list \<Rightarrow> string \<Rightarrow> (string \<times> string list) option) \<Rightarrow> scheduler_state \<Rightarrow> bool"
  for rnd waits ovf and X :: "'b extractors" and matcher where
  Started: "served rnd waits ovf X matcher (boot_state rnd now)"
| Request: "served rnd waits ovf X matcher st \<Longrightarrow>
    active (sch_orchestrator st) (rd_new_id (hq_readings req)) = None \<Longrightarrow>
    completed (sch_orchestrator st) (rd_new_id (hq_readings req)) = None \<Longrightarrow>
    served rnd waits ovf X matcher (fst (serve rnd waits ovf X matcher req st))"

lemma endpoint_call_fresh:
  assumes "endpoint_call ovf X rd body cap e = Some c"
    and "active (sch_orchestrator st) (rd_new_id rd) = None" "completed (sch_orchestrator st) (rd_new_id rd) = None"
  shows "fresh_call c st"
  using assms by (cases e) (auto simp: bind_eq_Some_conv)

lemma served_reachable: "served rnd waits ovf X matcher st \<Longrightarrow> scheduler_reachable rnd waits st"
proof (induction rule: served.induct)
  case (Request st req)
  show ?case
  proof (cases "request_call ovf X matcher req")
    case (Some c)
    then have "fresh_call c st"
      using endpoint_call_fresh [OF _ Request.hyps(2,3)]
      by (auto simp: request_call_def split: sum.splits prod.splits)
    then show ?thesis
      using scheduler_reachable.Call [OF Request.IH] Some by (simp add: serve_step maybe_step_def)
  qed (simp add: serve_step maybe_step_def Request.IH)
qed (rule scheduler_reachable.Boot)

section \<open>Which hosts are registered\<close>

lemma available_hosts_dom: "dom (hosts (fst (available_hosts now secs ks reg))) = dom (hosts reg)"
proof (induction ks arbitrary: reg)
  case (Cons k ks)
  then show ?case by (cases "hosts reg k") (auto simp: split_def Let_def split: if_splits)
qed simp

lemma region_snapshots_dom: "dom (hosts (fst (region_snapshots secs ks region hr))) = dom (hosts hr)"
proof (induction ks arbitrary: hr)
  case (Cons k ks)
  then show ?case by (simp add: split_def Let_def get_host_dom split: option.split)
qed simp

lemma hosts_in_region_dom: "dom (hosts (fst (hosts_in_region secs ks r rr hr))) = dom (hosts hr)"
  by (simp add: hosts_in_region_def region_snapshots_dom split: option.split)

lemma place_sandbox_dom: "dom (hosts (fst (place_sandbox now secs ks req r rr hr))) = dom (hosts hr)"
  by (simp add: place_sandbox_def hosts_in_region_dom available_hosts_dom split_def Let_def split: option.split)

lemma get_region_info_dom: "dom (hosts (fst (get_region_info ovf secs ks r rr hr))) = dom (hosts hr)"
  by (simp add: get_region_info_def hosts_in_region_dom split_def Let_def split: option.split)

lemma list_region_info_dom: "dom (hosts (fst (list_region_info ovf secs kss rs rr hr))) = dom (hosts hr)"
proof (induction rs arbitrary: hr)
  case (Cons r rs)
  obtain hr' out where i: "get_region_info ovf secs (kss r) r rr hr = (hr', out)" by fastforce
  then have "dom (hosts hr') = dom (hosts hr)" using get_region_info_dom [of ovf secs "kss r" r rr hr] by simp
  with Cons.IH i show ?case by (cases out) (simp_all add: split_def Let_def)
qed simp

lemma choose_target_dom: "dom (hosts (fst (choose_target now secs ks req hr))) = dom (hosts hr)"
  by (simp add: choose_target_def get_host_dom available_hosts_dom split_def Let_def split: option.split)

lemma start_migration_dom:
  "dom (hosts (fst (snd (start_migration waits now i t secs ks mid req orch hr)))) = dom (hosts hr)"
  by (simp add: start_migration_def get_host_dom choose_target_dom split_def Let_def split: sum.split)

lemma redirect_completed_dom:
  "dom (hosts (sch_registry (fst (redirect_completed waits i t mid st)))) = dom (hosts (sch_registry st))"
  by (simp add: redirect_completed_def get_host_dom split_def Let_def split: option.split outcome.split)

lemmas doms = available_hosts_dom place_sandbox_dom get_region_info_dom list_region_info_dom get_host_dom
  start_migration_dom redirect_completed_dom

lemma step_hosts:
  "dom (hosts (sch_registry (scheduler_step rnd waits c st))) =
     (case c of
        PostHeartbeat _ _ _ req \<Rightarrow> insert (hb_host_id req) (dom (hosts (sch_registry st)))
      | DeleteHost h \<Rightarrow> dom (hosts (sch_registry st)) - {h}
      | _ \<Rightarrow> dom (hosts (sch_registry st)))"
  by (cases c)
    (auto simp: heartbeat_handler_def upsert_host_def heartbeat_def schedule_handler_def doms
      fleet_handler_def host_handler_def report_failure_handler_def host_record_failure_def
      decommission_handler_def registry_remove_host_def prewarm_handler_def start_migration_handler_def
      advance_migration_handler_def rollback_migration_handler_def list_regions_handler_def get_region_handler_def
      split_def Let_def split: outcome.split sum.split option.split)

section \<open>Requests that do not return\<close>

lemma reply_with_outcome [simp]:
  "reply_with fe fa r = Panics \<longleftrightarrow> r = Panics" "reply_with fe fa r = Blocks \<longleftrightarrow> r = Blocks"
  by (cases r; simp add: reply_with_def)+

lemma map_outcome_iff [simp]:
  "map_outcome_val f r = Panics \<longleftrightarrow> r = Panics" "map_outcome_val f r = Blocks \<longleftrightarrow> r = Blocks"
  by (cases r; simp)+

lemma answer_to_outcome [simp]:
  "answer_to m a = Panics \<longleftrightarrow> a = Panics" "answer_to m a = Blocks \<longleftrightarrow> a = Blocks"
  by (simp_all add: answer_to_def)

text \<open>Only heartbeats and the fleet report can panic, in a build with overflow checks, and only what
  looks into the migrations can wait for ever.\<close>

definition outcome_ok :: "bool \<Rightarrow> endpoint \<Rightarrow> answer \<Rightarrow> bool" where
  "outcome_ok ovf e ans \<longleftrightarrow> (ans = Panics \<longrightarrow> ovf \<and> e \<in> {Heartbeat, Fleet}) \<and>
     (ans = Blocks \<longrightarrow> e \<in> {StartMigration, ListMigrations, GetMigration, AdvanceMigration, RollbackMigration})"

lemma outcome_ok_path: "(\<And>x. outcome_ok ovf e (snd (k x))) \<Longrightarrow> outcome_ok ovf e (snd (with_path f cap st k))"
  by (simp add: with_path_def outcome_ok_def split: list.split option.split)

lemma outcome_ok_body: "(\<And>x. outcome_ok ovf e (snd (k x))) \<Longrightarrow> outcome_ok ovf e (snd (with_body d st k))"
  by (simp add: with_body_def outcome_ok_def split: sum.split)

lemma prewarm_returns:
  assumes "default_pools (sch_prewarm st)"
  shows "\<exists>r. snd (prewarm_handler rnd now ts st) = Returns r"
proof -
  obtain m where "snd (compute_prewarm_targets rnd now ts (adaptive_desired_pool_size rnd) 20 (sch_demand st)
      (sch_prewarm st)) = Returns m"
    using adaptive.loop_targets [of "sch_prewarm st" Map.empty 20 rnd "all_demands rnd now ts (sch_demand st)"] assms
    by (auto simp: default_pools_def compute_prewarm_targets_def)
  then show ?thesis by (simp add: prewarm_handler_def split_def Let_def)
qed

lemma orchestrator_no_panic:
  "snd (snd (start_migration waits now i t secs ks mid req orch hr)) \<noteq> Panics"
  "snd (advance waits now i mid orch) \<noteq> Panics" "snd (rollback waits now mid reason orch) \<noteq> Panics"
  "answer_record waits i mid a b st \<noteq> Panics"
  by (auto simp: start_migration_def advance_def rollback_def promote_and_return_def promote_to_completed_def
      answer_record_def get_record_cases Let_def split_def split: sum.split option.split migration_state.split)

lemma redirect_completed_no_panic: "snd (redirect_completed waits i t mid st) \<noteq> Panics"
  using get_record_cases by (auto simp: redirect_completed_def split_def Let_def split: outcome.split option.split)

lemma migration_no_panic:
  "snd (start_migration_handler waits now i t secs ks mid req now' i' i'' st) \<noteq> Panics"
  "snd (advance_migration_handler waits now i i' t i'' mid st) \<noteq> Panics"
  "snd (rollback_migration_handler waits now i mid r st) \<noteq> Panics"
  using orchestrator_no_panic redirect_completed_no_panic
  by (auto simp: start_migration_handler_def advance_migration_handler_def rollback_migration_handler_def
      Let_def split_def split: outcome.split sum.split)

lemma region_info_returns:
  assumes "\<forall>region. regions rr r = Some region \<longrightarrow> rg_hosts region = Map.empty"
  shows "\<exists>i. snd (get_region_info ovf secs ks r rr hr) = Returns i"
  using assms
  by (auto simp: get_region_info_def hosts_in_region_def region_snapshots_empty sum_u32_def seq_outcome_def split: option.split)

lemma list_region_info_returns:
  assumes "\<forall>r region. regions rr r = Some region \<longrightarrow> rg_hosts region = Map.empty"
  shows "\<exists>infos. snd (list_region_info ovf secs kss rs rr hr) = Returns infos"
proof (induction rs arbitrary: hr)
  case (Cons r rs)
  obtain hr' i where "get_region_info ovf secs (kss r) r rr hr = (hr', Returns i)"
    using region_info_returns [of rr r ovf secs "kss r" hr] assms by (metis surj_pair snd_conv)
  moreover obtain infos where "snd (list_region_info ovf secs kss rs rr hr') = Returns infos" using Cons.IH by blast
  ultimately show ?case by (simp add: split_def Let_def)
qed simp

lemma registry_outcome:
  "snd (heartbeat_handler ovf now1 now2 req st) \<noteq> Blocks" "snd (fleet_handler ovf now secs ks st) \<noteq> Blocks"
  "snd (heartbeat_handler ovf now1 now2 req st) = Panics \<Longrightarrow> ovf" "snd (fleet_handler ovf now secs ks st) = Panics \<Longrightarrow> ovf"
  by (auto simp: heartbeat_handler_def heartbeat_def sub_u32_def fleet_handler_def registry_total_sandboxes_def
      sum_u32_def split_def Let_def split: outcome.splits option.splits if_splits)

lemma region_handlers_return:
  assumes "\<forall>r region. regions (sch_regions st) r = Some region \<longrightarrow> rg_hosts region = Map.empty"
  shows "snd (list_regions_handler ovf secs kss rs st) \<notin> {Panics, Blocks}"
    "snd (get_region_handler ovf secs ks r st) \<notin> {Panics, Blocks}"
proof -
  obtain infos i where "snd (list_region_info ovf secs kss rs (sch_regions st) (sch_registry st)) = Returns infos"
    "snd (get_region_info ovf secs ks r (sch_regions st) (sch_registry st)) = Returns i"
    using list_region_info_returns [OF assms] region_info_returns [of "sch_regions st" r] assms by blast
  then show "snd (list_regions_handler ovf secs kss rs st) \<notin> {Panics, Blocks}"
    "snd (get_region_handler ovf secs ks r st) \<notin> {Panics, Blocks}"
    by (simp_all add: list_regions_handler_def get_region_handler_def split_def Let_def)
qed

lemma reading_handlers:
  "snd (schedule_handler nr now secs ks req st) \<notin> {Panics, Blocks}" "snd (host_handler t h st) \<notin> {Panics, Blocks}"
  "redirect_handler now i st \<notin> {Panics, Blocks}" "get_migration_handler waits t' i st \<noteq> Panics"
  "list_migrations_handler t' ks st \<noteq> Panics"
  by (auto simp: schedule_handler_def host_handler_def redirect_handler_def get_migration_handler_def
      list_migrations_handler_def active_migrations_def orchestrator_no_panic split_def Let_def)

lemma handle_outcome:
  assumes "scheduler_inv waits st"
  shows "outcome_ok ovf e (snd (handle rnd waits ovf X rd e cap body st))"
proof -
  have empty: "\<forall>r region. regions (sch_regions st) r = Some region \<longrightarrow> rg_hosts region = Map.empty"
    and pools: "default_pools (sch_prewarm st)" using assms(1) by (simp_all add: scheduler_inv_def)
  have prewarm: "snd (prewarm_handler rnd now ts st) \<notin> {Panics, Blocks}" for now ts
    using prewarm_returns [OF pools, of rnd now ts] by auto
  show ?thesis
    using region_handlers_return [OF empty] prewarm registry_outcome(1,2) migration_no_panic reading_handlers
    by (cases e; simp only: handle.simps; (intro outcome_ok_path outcome_ok_body)?;
      simp add: outcome_ok_def replied_def status_only_def; (intro impI; elim registry_outcome)?)
qed

section \<open>The service\<close>

definition registers_host ::
    "'b extractors \<Rightarrow> (string list \<Rightarrow> string \<Rightarrow> (string \<times> string list) option) \<Rightarrow> 'b http_request \<Rightarrow> uuid \<Rightarrow> bool" where
  "registers_host X matcher req k \<longleftrightarrow>
     (\<exists>cap hb. find_route matcher (hq_method req) (hq_path req) = Inr (Heartbeat, cap) \<and>
       ex_heartbeat X (hq_body req) = Inr hb \<and> hb_host_id hb = k)"

definition removes_host ::
    "'b extractors \<Rightarrow> (string list \<Rightarrow> string \<Rightarrow> (string \<times> string list) option) \<Rightarrow> 'b http_request \<Rightarrow> uuid \<Rightarrow> bool" where
  "removes_host X matcher req k \<longleftrightarrow>
     (\<exists>c. find_route matcher (hq_method req) (hq_path req) = Inr (Decommission, [c]) \<and> ex_uuid X c = Some k)"

lemma endpoint_call_host:
  "endpoint_call ovf X rd body cap e = Some (PostHeartbeat a b c hb) \<longleftrightarrow>
     e = Heartbeat \<and> ex_heartbeat X body = Inr hb \<and> a = ovf \<and> b = rd_now1 rd \<and> c = rd_now2 rd"
  "endpoint_call ovf X rd body cap e = Some (DeleteHost h) \<longleftrightarrow>
     e = Decommission \<and> (\<exists>c. cap = [c] \<and> ex_uuid X c = Some h)"
  by (cases e; auto simp: accepted_def one_capture_def bind_eq_Some_conv split: sum.splits list.splits)+

lemma registered_after:
  "k \<in> dom (hosts (sch_registry (fst (serve rnd waits ovf X matcher req st)))) \<longleftrightarrow>
     registers_host X matcher req k \<or> k \<in> dom (hosts (sch_registry st)) \<and> \<not> removes_host X matcher req k"
proof (cases "request_call ovf X matcher req")
  case None
  then show ?thesis
    by (auto simp: serve_step maybe_step_def request_call_def registers_host_def removes_host_def
        accepted_def one_capture_def split: sum.splits)
next
  case (Some c)
  then obtain e cap where e: "find_route matcher (hq_method req) (hq_path req) = Inr (e, cap)"
    "endpoint_call ovf X (hq_readings req) (hq_body req) cap e = Some c"
    by (auto simp: request_call_def split: sum.splits)
  have reg: "registers_host X matcher req k \<longleftrightarrow> (\<exists>a b d hb. c = PostHeartbeat a b d hb \<and> hb_host_id hb = k)"
    and rem: "removes_host X matcher req k \<longleftrightarrow> c = DeleteHost k"
    using e(2) endpoint_call_host [of ovf X "hq_readings req" "hq_body req" cap e]
    by (auto simp: registers_host_def removes_host_def e(1) accepted_def)
  show ?thesis by (simp add: serve_step Some maybe_step_def step_hosts reg rem split: scheduler_call.split) auto
qed

section \<open>What the service answers\<close>

text \<open>
  The interface of the service as a reader of its documentation sees it, by the text of the pattern
  that serves a path and the method. A request is rejected for its method, for what stands in the
  place of a brace, or for its body; any other is answered as its handler answers. \<open>cap\<close> is what the
  braces of the pattern matched.
\<close>

definition identifier_paths :: "string set" where
  "identifier_paths =
     {''/hosts/{id}'', ''/hosts/{id}/report-failure'', ''/migrations/{migration_id}'',
      ''/migrations/{migration_id}/advance'', ''/migrations/{migration_id}/rollback'', ''/redirects/{sandbox_id}''}"

definition methods_of :: "string \<Rightarrow> http_method set" where
  "methods_of pat = {m. (pat, m) \<in>
     {(''/heartbeat'', POST), (''/schedule'', POST), (''/fleet'', GET), (''/regions'', GET), (''/regions/{id}'', GET),
      (''/hosts/{id}'', GET), (''/hosts/{id}/report-failure'', POST), (''/hosts/{id}'', DELETE), (''/demand'', GET),
      (''/demand/top/{n}'', GET), (''/prewarm'', GET), (''/migrations'', POST), (''/migrations'', GET),
      (''/migrations/completed'', GET), (''/migrations/{migration_id}'', GET),
      (''/migrations/{migration_id}/advance'', POST), (''/migrations/{migration_id}/rollback'', POST),
      (''/redirects/{sandbox_id}'', GET), (''/health'', GET)}}"

inductive rejects :: "'b extractors \<Rightarrow> 'b \<Rightarrow> string \<Rightarrow> http_method \<Rightarrow> string list \<Rightarrow> nat \<Rightarrow> bool"
  for X :: "'b extractors" and body where
  No_method: "m \<notin> methods_of pat \<Longrightarrow> rejects X body pat m cap 405"
| Braces: "m \<in> methods_of pat \<Longrightarrow>
    pat \<in> identifier_paths \<union> {''/regions/{id}'', ''/demand/top/{n}''} \<Longrightarrow> length cap \<noteq> 1 \<Longrightarrow>
    rejects X body pat m cap 500"
| Identifier: "m \<in> methods_of pat \<Longrightarrow> pat \<in> identifier_paths \<Longrightarrow> ex_uuid X c = None \<Longrightarrow> rejects X body pat m [c] 400"
| Number: "ex_usize X c = None \<Longrightarrow> rejects X body ''/demand/top/{n}'' GET [c] 400"
| Heartbeat_body: "ex_heartbeat X body = Inl s \<Longrightarrow> rejects X body ''/heartbeat'' POST cap s"
| Schedule_body: "ex_schedule X body = Inl s \<Longrightarrow> rejects X body ''/schedule'' POST cap s"
| Migration_body: "ex_migration X body = Inl s \<Longrightarrow> rejects X body ''/migrations'' POST cap s"
| Rollback_body: "ex_uuid X c = Some i \<Longrightarrow> ex_reason X body = Inl s \<Longrightarrow>
    rejects X body ''/migrations/{migration_id}/rollback'' POST [c] s"

inductive answers ::
    "(rat \<Rightarrow> rat) \<Rightarrow> (uuid \<Rightarrow> uuid \<Rightarrow> bool) \<Rightarrow> bool \<Rightarrow> 'b extractors \<Rightarrow> readings \<Rightarrow> 'b \<Rightarrow> scheduler_state \<Rightarrow>
     string \<Rightarrow> http_method \<Rightarrow> string list \<Rightarrow> scheduler_state \<times> answer \<Rightarrow> bool"
  for rnd waits ovf and X :: "'b extractors" and rd body st where
  Heartbeat: "ex_heartbeat X body = Inr req \<Longrightarrow>
    answers rnd waits ovf X rd body st ''/heartbeat'' POST cap
      (replied no_body Acknowledged (heartbeat_handler ovf (rd_now1 rd) (rd_now2 rd) req st))"
| Schedule: "ex_schedule X body = Inr req' \<Longrightarrow>
    answers rnd waits ovf X rd body st ''/schedule'' POST cap
      (replied Text ScheduledOn (schedule_handler (rd_now1 rd) (rd_now2 rd) (rd_unix_of rd) (rd_hosts rd) req' st))"
| Fleet: "answers rnd waits ovf X rd body st ''/fleet'' GET cap
    (replied no_body FleetReport (fleet_handler ovf (rd_now1 rd) (rd_unix_of rd) (rd_hosts rd) st))"
| Regions: "answers rnd waits ovf X rd body st ''/regions'' GET cap
    (replied no_body RegionList (list_regions_handler ovf (rd_unix_of rd) (rd_region_hosts rd) (rd_regions rd) st))"
| Region: "answers rnd waits ovf X rd body st ''/regions/{id}'' GET [c]
    (replied no_body RegionReport (get_region_handler ovf (rd_unix_of rd) (rd_region_hosts rd c) c st))"
| Host: "ex_uuid X c = Some k \<Longrightarrow> answers rnd waits ovf X rd body st ''/hosts/{id}'' GET [c]
    (replied no_body HostReport (host_handler (rd_unix rd) k st))"
| Failure: "ex_uuid X c = Some k \<Longrightarrow> answers rnd waits ovf X rd body st ''/hosts/{id}/report-failure'' POST [c]
    (st\<lparr>sch_registry := host_record_failure (rd_unix rd) k (sch_registry st)\<rparr>, Returns (200, NoBody))"
| Decommission: "ex_uuid X c = Some k \<Longrightarrow> answers rnd waits ovf X rd body st ''/hosts/{id}'' DELETE [c]
    (st\<lparr>sch_registry := fst (registry_remove_host k (sch_registry st))\<rparr>,
     Returns (if k \<in> dom (hosts (sch_registry st)) then 204 else 404, NoBody))"
| Demand: "answers rnd waits ovf X rd body st ''/demand'' GET cap
    (st, Returns (200, Demands (all_demands rnd (rd_clock rd) (rd_templates rd) (sch_demand st))))"
| Demand_top: "ex_usize X c = Some n \<Longrightarrow> answers rnd waits ovf X rd body st ''/demand/top/{n}'' GET [c]
    (st, Returns (200, Demands (top_templates rnd (rd_clock rd) (rd_templates rd) n (sch_demand st))))"
| Prewarm: "answers rnd waits ovf X rd body st ''/prewarm'' GET cap
    (replied no_body PrewarmReport (prewarm_handler rnd (rd_clock rd) (rd_templates rd) st))"
| Migration_start: "ex_migration X body = Inr b \<Longrightarrow> answers rnd waits ovf X rd body st ''/migrations'' POST cap
    (replied MigrationFailure MigrationReport (start_migration_handler waits (rd_now1 rd) (rd_instant1 rd)
       (rd_unix rd) (rd_unix_of rd) (rd_hosts rd) (rd_new_id rd) (migration_request_of b) (rd_now2 rd)
       (rd_instant2 rd) (rd_instant3 rd) st))"
| Migrations: "answers rnd waits ovf X rd body st ''/migrations'' GET cap
    (st, map_outcome_val (\<lambda>ms. (200, MigrationList ms))
       (active_migrations (rd_instant1 rd) (rd_migrations rd) (sch_orchestrator st)))"
| Migrations_done: "answers rnd waits ovf X rd body st ''/migrations/completed'' GET cap
    (st, Returns (200, MigrationList (completed_migrations (rd_instant1 rd) (rd_migrations rd) (sch_orchestrator st))))"
| Migration: "ex_uuid X c = Some i \<Longrightarrow> answers rnd waits ovf X rd body st ''/migrations/{migration_id}'' GET [c]
    (st, reply_with MigrationFailure MigrationReport (get_migration_handler waits (rd_instant1 rd) i st))"
| Migration_advance: "ex_uuid X c = Some i \<Longrightarrow>
    answers rnd waits ovf X rd body st ''/migrations/{migration_id}/advance'' POST [c]
    (replied MigrationFailure MigrationReport (advance_migration_handler waits (rd_now1 rd) (rd_instant1 rd)
       (rd_instant2 rd) (rd_unix rd) (rd_instant3 rd) i st))"
| Migration_rollback: "ex_uuid X c = Some i \<Longrightarrow> ex_reason X body = Inr reason \<Longrightarrow>
    answers rnd waits ovf X rd body st ''/migrations/{migration_id}/rollback'' POST [c]
    (replied MigrationFailure MigrationReport (rollback_migration_handler waits (rd_now1 rd) (rd_instant1 rd)
       i reason st))"
| Redirect: "ex_uuid X c = Some i \<Longrightarrow> answers rnd waits ovf X rd body st ''/redirects/{sandbox_id}'' GET [c]
    (st, reply_with no_body MigrationReport (redirect_handler (rd_now1 rd) i st))"
| Health: "answers rnd waits ovf X rd body st ''/health'' GET cap
    (st, Returns (200, HealthReport \<lparr>hr_status = ''ok'', hr_hosts = card (dom (hosts (sch_registry st)))\<rparr>))"

lemma find_by_key:
  "distinct (map f xs) \<Longrightarrow> find (\<lambda>x. f x = k) xs = Some x \<longleftrightarrow> x \<in> set xs \<and> f x = k"
  by (induction xs) (auto simp: image_iff)

lemma routes_distinct: "distinct (map (\<lambda>(p, m, _). (p, m)) routes)"
  by (simp add: routes_def)

lemma find_route_iff:
  "find_route matcher method path = Inr (e, cap) \<longleftrightarrow>
     (\<exists>pat. matcher patterns path = Some (pat, cap) \<and> (pat, served_as method, e) \<in> set routes)"
proof -
  have "find (\<lambda>(p, m, _). p = pat \<and> m = served_as method) routes = Some x \<longleftrightarrow>
      x \<in> set routes \<and> (case x of (p, m, _) \<Rightarrow> (p, m)) = (pat, served_as method)" for pat x
    using find_by_key [OF routes_distinct, of "(pat, served_as method)" x] by (simp add: split_def)
  note found = this
  show ?thesis
  proof (cases "matcher patterns path")
    case None
    then show ?thesis by (simp add: find_route_def)
  next
    case (Some pc)
    obtain pat cap' where pc: "pc = (pat, cap')" by (cases pc)
    have "find_route matcher method path = Inr (e, cap) \<longleftrightarrow> cap = cap' \<and>
        (\<exists>p m. find (\<lambda>(p, m, _). p = pat \<and> m = served_as method) routes = Some (p, m, e))"
      by (auto simp: find_route_def Some pc split: option.split)
    then show ?thesis unfolding found by (auto simp: Some pc)
  qed
qed

lemma routes_methods: "(\<exists>e. (pat, m, e) \<in> set routes) \<longleftrightarrow> m \<in> methods_of pat"
proof -
  have "(\<exists>e. (pat, m, e) \<in> set routes) \<longleftrightarrow> (pat, m) \<in> (\<lambda>(p, m, _). (p, m)) ` set routes" by force
  also have "(\<lambda>(p, m, _). (p, m)) ` set routes =
      {(''/heartbeat'', POST), (''/schedule'', POST), (''/fleet'', GET), (''/regions'', GET), (''/regions/{id}'', GET),
      (''/hosts/{id}'', GET), (''/hosts/{id}/report-failure'', POST), (''/hosts/{id}'', DELETE), (''/demand'', GET),
      (''/demand/top/{n}'', GET), (''/prewarm'', GET), (''/migrations'', POST), (''/migrations'', GET),
      (''/migrations/completed'', GET), (''/migrations/{migration_id}'', GET),
      (''/migrations/{migration_id}/advance'', POST), (''/migrations/{migration_id}/rollback'', POST),
      (''/redirects/{sandbox_id}'', GET), (''/health'', GET)}"
    unfolding routes_def list.set image_insert image_empty prod.case by (rule refl)
  finally show ?thesis by (simp only: methods_of_def mem_Collect_eq)
qed

lemma find_route_rejects:
  "find_route matcher method path = Inl s \<longleftrightarrow>
     (case matcher patterns path of None \<Rightarrow> s = 404
      | Some (pat, cap) \<Rightarrow> served_as method \<notin> methods_of pat \<and> s = 405)"
proof (cases "matcher patterns path")
  case None
  then show ?thesis by (auto simp: find_route_def)
next
  case (Some pc)
  then obtain pat cap where pc: "matcher patterns path = Some (pat, cap)" by (cases pc) auto
  have "(\<exists>e. find_route matcher method path = Inr (e, cap)) \<longleftrightarrow> served_as method \<in> methods_of pat"
    using routes_methods [of pat "served_as method"] by (auto simp: find_route_iff pc)
  moreover have "find_route matcher method path = Inl 405 \<or> (\<exists>e. find_route matcher method path = Inr (e, cap))"
    by (auto simp: find_route_def pc split: option.split)
  ultimately show ?thesis using pc by auto
qed

definition fits ::
    "(rat \<Rightarrow> rat) \<Rightarrow> (uuid \<Rightarrow> uuid \<Rightarrow> bool) \<Rightarrow> bool \<Rightarrow> 'b extractors \<Rightarrow> readings \<Rightarrow> 'b \<Rightarrow> scheduler_state \<Rightarrow>
     string \<Rightarrow> http_method \<Rightarrow> string list \<Rightarrow> scheduler_state \<times> answer \<Rightarrow> bool" where
  "fits rnd waits ovf X rd body st pat m cap r \<longleftrightarrow>
     (\<exists>s. rejects X body pat m cap s \<and> r = (st, Returns (s, NoBody))) \<or> answers rnd waits ovf X rd body st pat m cap r"

lemma fits_answer: "answers rnd waits ovf X rd body st pat m cap r \<Longrightarrow> fits rnd waits ovf X rd body st pat m cap r"
  by (simp add: fits_def)

lemma fits_body:
  assumes "\<And>s. d = Inl s \<Longrightarrow> rejects X body pat m cap s"
    and "\<And>x. d = Inr x \<Longrightarrow> fits rnd waits ovf X rd body st pat m cap (k x)"
  shows "fits rnd waits ovf X rd body st pat m cap (with_body d st k)"
  using assms by (cases d) (auto simp: with_body_def fits_def)

lemma fits_path:
  assumes "m \<in> methods_of pat" "pat \<in> identifier_paths \<union> {''/regions/{id}'', ''/demand/top/{n}''}"
    and "\<And>c. cap = [c] \<Longrightarrow> parse c = None \<Longrightarrow> rejects X body pat m cap 400"
    and "\<And>c x. cap = [c] \<Longrightarrow> parse c = Some x \<Longrightarrow> fits rnd waits ovf X rd body st pat m cap (k x)"
  shows "fits rnd waits ovf X rd body st pat m cap (with_path parse cap st k)"
proof (cases "length cap = 1")
  case True
  then obtain c where "cap = [c]" by (auto simp: length_Suc_conv)
  with assms(3,4) show ?thesis by (cases "parse c") (auto simp: with_path_def fits_def)
next
  case False
  then have "rejects X body pat m cap 500" "with_path parse cap st k = (st, Returns (500, NoBody))"
    using rejects.Braces [OF assms(1,2)] by (auto simp: with_path_def split: list.split)
  then show ?thesis by (auto simp: fits_def)
qed

lemma fits_identifier:
  assumes "m \<in> methods_of pat" "pat \<in> identifier_paths"
    and "\<And>c x. cap = [c] \<Longrightarrow> ex_uuid X c = Some x \<Longrightarrow> fits rnd waits ovf X rd body st pat m cap (k x)"
  shows "fits rnd waits ovf X rd body st pat m cap (with_path (ex_uuid X) cap st k)"
  using assms by (intro fits_path) (auto intro: rejects.Identifier)

lemma route_of:
  assumes "(pat, m, e) \<in> set routes"
  shows "(pat, m) = (case e of Heartbeat \<Rightarrow> (''/heartbeat'', POST) | Schedule \<Rightarrow> (''/schedule'', POST)
    | Fleet \<Rightarrow> (''/fleet'', GET) | ListRegions \<Rightarrow> (''/regions'', GET) | GetRegion \<Rightarrow> (''/regions/{id}'', GET)
    | GetHost \<Rightarrow> (''/hosts/{id}'', GET) | ReportFailure \<Rightarrow> (''/hosts/{id}/report-failure'', POST)
    | Decommission \<Rightarrow> (''/hosts/{id}'', DELETE) | DemandAll \<Rightarrow> (''/demand'', GET)
    | DemandTop \<Rightarrow> (''/demand/top/{n}'', GET) | Prewarm \<Rightarrow> (''/prewarm'', GET)
    | StartMigration \<Rightarrow> (''/migrations'', POST) | ListMigrations \<Rightarrow> (''/migrations'', GET)
    | CompletedMigrations \<Rightarrow> (''/migrations/completed'', GET) | GetMigration \<Rightarrow> (''/migrations/{migration_id}'', GET)
    | AdvanceMigration \<Rightarrow> (''/migrations/{migration_id}/advance'', POST)
    | RollbackMigration \<Rightarrow> (''/migrations/{migration_id}/rollback'', POST)
    | Redirect \<Rightarrow> (''/redirects/{sandbox_id}'', GET) | Health \<Rightarrow> (''/health'', GET))"
  using assms unfolding routes_def list.set insert_iff prod.inject
  by (elim disjE conjE emptyE; simp only: endpoint.case)

lemma decommission_answer:
  "status_only (decommission_handler h st) =
     (st\<lparr>sch_registry := fst (registry_remove_host h (sch_registry st))\<rparr>,
      Returns (if h \<in> dom (hosts (sch_registry st)) then 204 else 404, NoBody))"
  by (auto simp: status_only_def decommission_handler_def registry_remove_host_def Let_def split_def)

lemma handle_fits:
  assumes "(pat, m, e) \<in> set routes"
  shows "fits rnd waits ovf X rd body st pat m cap (handle rnd waits ovf X rd e cap body st)"
proof -
  have m: "m \<in> methods_of pat" using assms routes_methods [of pat m] by blast
  note pm = route_of [OF assms]
  show ?thesis
  proof (cases e)
    case Heartbeat
    then show ?thesis using pm by (auto intro!: fits_body intro: rejects.Heartbeat_body answers.Heartbeat fits_answer)
  next
    case Schedule
    then show ?thesis using pm by (auto intro!: fits_body intro: rejects.Schedule_body answers.Schedule fits_answer)
  next
    case StartMigration
    then show ?thesis using pm by (auto intro!: fits_body intro: rejects.Migration_body answers.Migration_start fits_answer)
  next
    case GetRegion
    then show ?thesis using pm m by (auto intro!: fits_path intro: answers.Region fits_answer)
  next
    case DemandTop
    then show ?thesis using pm m
      by (auto intro!: fits_path intro: rejects.Number answers.Demand_top fits_answer simp: demand_top_handler_def)
  next
    case GetHost
    then show ?thesis using pm m
      by (auto intro!: fits_identifier intro: answers.Host fits_answer simp: identifier_paths_def)
  next
    case ReportFailure
    then show ?thesis using pm m
      by (auto intro!: fits_identifier intro: fits_answer [OF answers.Failure] simp: identifier_paths_def status_only_def report_failure_handler_def)
  next
    case Decommission
    then show ?thesis using pm m
      by (auto intro!: fits_identifier intro: fits_answer [OF answers.Decommission] simp: identifier_paths_def decommission_answer)
  next
    case GetMigration
    then show ?thesis using pm m by (auto intro!: fits_identifier intro: answers.Migration fits_answer simp: identifier_paths_def)
  next
    case AdvanceMigration
    then show ?thesis using pm m by (auto intro!: fits_identifier intro: answers.Migration_advance fits_answer simp: identifier_paths_def)
  next
    case RollbackMigration
    then show ?thesis using pm m
      by (auto intro!: fits_identifier fits_body intro: rejects.Rollback_body answers.Migration_rollback fits_answer
          simp: identifier_paths_def)
  next
    case Redirect
    then show ?thesis using pm m by (auto intro!: fits_identifier intro: answers.Redirect fits_answer simp: identifier_paths_def)
  qed (use pm in \<open>auto intro: fits_answer answers.intros simp: demand_handler_def list_migrations_handler_def
      completed_migrations_handler_def health_handler_def host_count_def\<close>)
qed

lemma answers_handle:
  assumes "(pat, m, e) \<in> set routes" "answers rnd waits ovf X rd body st pat m cap r"
  shows "handle rnd waits ovf X rd e cap body st = r"
  using route_of [OF assms(1)] assms(2)
  by (cases e) (auto elim!: answers.cases simp: with_body_def with_path_def demand_handler_def demand_top_handler_def
      list_migrations_handler_def completed_migrations_handler_def health_handler_def host_count_def
      status_only_def report_failure_handler_def decommission_handler_def registry_remove_host_def split_def Let_def)

lemma rejects_handle:
  assumes "(pat, m, e) \<in> set routes" "rejects X body pat m cap s"
  shows "handle rnd waits ovf X rd e cap body st = (st, Returns (s, NoBody))"
proof -
  have "m \<in> methods_of pat" using assms(1) routes_methods [of pat m] by blast
  then show ?thesis
    using route_of [OF assms(1)] assms(2)
    by (cases e) (auto elim!: rejects.cases simp: with_body_def with_path_def identifier_paths_def split: list.split)
qed

definition answered_as ::
    "(rat \<Rightarrow> rat) \<Rightarrow> (uuid \<Rightarrow> uuid \<Rightarrow> bool) \<Rightarrow> bool \<Rightarrow> 'b extractors \<Rightarrow>
     (string list \<Rightarrow> string \<Rightarrow> (string \<times> string list) option) \<Rightarrow> 'b http_request \<Rightarrow> scheduler_state \<Rightarrow>
     scheduler_state \<Rightarrow> answer \<Rightarrow> bool" where
  "answered_as rnd waits ovf X matcher req st st' ans \<longleftrightarrow>
     (case matcher patterns (hq_path req) of
        None \<Rightarrow> st' = st \<and> ans = Returns (404, NoBody)
      | Some (pat, cap) \<Rightarrow>
          (let m = served_as (hq_method req);
               rejected = rejects X (hq_body req) pat m cap;
               answered = answers rnd waits ovf X (hq_readings req) (hq_body req) st pat m cap
           in (\<forall>s. rejected s \<longrightarrow> st' = st \<and> ans = Returns (s, NoBody)) \<and>
              (\<forall>r. answered r \<longrightarrow> st' = fst r \<and> ans = answer_to (hq_method req) (snd r)) \<and>
              ((\<exists>s. rejected s) \<or> (\<exists>r. answered r))))"

lemma answers_method: "answers rnd waits ovf X rd body st pat m cap r \<Longrightarrow> m \<in> methods_of pat"
  by (induction rule: answers.induct) (simp_all add: methods_of_def)

lemma body_methods:
  "GET \<in> methods_of ''/demand/top/{n}''" "POST \<in> methods_of ''/heartbeat''" "POST \<in> methods_of ''/schedule''"
  "POST \<in> methods_of ''/migrations''" "POST \<in> methods_of ''/migrations/{migration_id}/rollback''"
  by (simp_all add: methods_of_def)

lemma unserved_method: "rejects X body pat m cap s \<Longrightarrow> m \<notin> methods_of pat \<Longrightarrow> s = 405"
  by (induction rule: rejects.induct) (simp_all add: body_methods)

lemma serve_answered: "answered_as rnd waits ovf X matcher req st
  (fst (serve rnd waits ovf X matcher req st)) (snd (serve rnd waits ovf X matcher req st))"
proof (cases "matcher patterns (hq_path req)")
  case None
  then show ?thesis by (simp add: answered_as_def serve_def find_route_def)
next
  case (Some pc)
  obtain pat cap where pc: "pc = (pat, cap)" by (cases pc)
  let ?m = "served_as (hq_method req)"
  show ?thesis
  proof (cases "find_route matcher (hq_method req) (hq_path req)")
    case (Inl s)
    then have "?m \<notin> methods_of pat" "s = 405" by (simp_all add: find_route_rejects Some pc)
    moreover from this have "rejects X (hq_body req) pat ?m cap s' \<longleftrightarrow> s' = 405"
      "\<not> answers rnd waits ovf X (hq_readings req) (hq_body req) st pat ?m cap r" for s' r
      by (auto intro: rejects.No_method dest: unserved_method answers_method)
    ultimately show ?thesis by (auto simp: answered_as_def serve_def Inl Some pc intro: exI [of _ 405])
  next
    case (Inr ec)
    then obtain e where e: "ec = (e, cap)" and rt: "(pat, ?m, e) \<in> set routes"
      by (cases ec) (auto simp: find_route_iff Some pc)
    define h where "h = handle rnd waits ovf X (hq_readings req) e cap (hq_body req) st"
    have sv: "fst (serve rnd waits ovf X matcher req st) = fst h"
      "snd (serve rnd waits ovf X matcher req st) = answer_to (hq_method req) (snd h)"
      by (simp_all add: serve_def Inr e h_def split_def Let_def)
    have rj: "rejects X (hq_body req) pat ?m cap s \<Longrightarrow> h = (st, Returns (s, NoBody))" for s
      unfolding h_def by (rule rejects_handle [OF rt])
    have an: "answers rnd waits ovf X (hq_readings req) (hq_body req) st pat ?m cap r \<Longrightarrow> h = r" for r
      unfolding h_def by (rule answers_handle [OF rt])
    have ex: "(\<exists>s. rejects X (hq_body req) pat ?m cap s) \<or>
        (\<exists>r. answers rnd waits ovf X (hq_readings req) (hq_body req) st pat ?m cap r)"
      using handle_fits [OF rt, of rnd waits ovf X "hq_readings req" "hq_body req" st cap] unfolding fits_def by blast
    have at: "answer_to (hq_method req) (Returns (s, NoBody)) = Returns (s, NoBody)" for s
      by (simp add: answer_to_def)
    show ?thesis
      unfolding answered_as_def Some pc option.case prod.case Let_def
      by (intro conjI allI impI ex) (simp_all add: sv at rj an)
  qed
qed

text \<open>
  C3. The service, request by request. Its states are those the calls of the handlers reach, so that
  their invariants hold. A path that no pattern matches is answered 404; a request that is rejected,
  for its method (405), the text in the braces of its path (400, 500) or its body (the status of the
  extractor), is answered so; and none of these changes anything. Every other request gives the
  state and the answer of the handler that the pattern and the method of the table name. A
  host is registered after a request exactly when the request is an accepted heartbeat of that
  host, or it was registered and the request does not decommission it. Only a heartbeat or the
  fleet report can panic, and only with overflow checks; only requests about migrations can fail to
  return.
\<close>

theorem requests_served:
  assumes "served rnd waits ovf X matcher st" "serve rnd waits ovf X matcher req st = (st', ans)"
  shows "scheduler_reachable rnd waits st \<and>
    answered_as rnd waits ovf X matcher req st st' ans \<and>
    (\<forall>k. k \<in> dom (hosts (sch_registry st')) \<longleftrightarrow>
      registers_host X matcher req k \<or> k \<in> dom (hosts (sch_registry st)) \<and> \<not> removes_host X matcher req k) \<and>
    (\<forall>e cap. find_route matcher (hq_method req) (hq_path req) = Inr (e, cap) \<longrightarrow>
      (ans = Panics \<longrightarrow> ovf \<and> e \<in> {Heartbeat, Fleet}) \<and>
      (ans = Blocks \<longrightarrow> e \<in> {StartMigration, ListMigrations, GetMigration, AdvanceMigration, RollbackMigration}))"
proof -
  have reach: "scheduler_reachable rnd waits st" using assms(1) by (rule served_reachable)
  have "outcome_ok ovf e ans" if "find_route matcher (hq_method req) (hq_path req) = Inr (e, cap)" for e cap
    using handle_outcome [OF scheduler_reachable_inv [OF reach], of ovf e rnd X "hq_readings req" cap "hq_body req"]
      assms(2) that by (auto simp: serve_def outcome_ok_def answer_to_def split_def Let_def)
  moreover have "k \<in> dom (hosts (sch_registry st')) \<longleftrightarrow>
      registers_host X matcher req k \<or> k \<in> dom (hosts (sch_registry st)) \<and> \<not> removes_host X matcher req k" for k
    using registered_after [of k rnd waits ovf X matcher req st] assms(2) by simp
  ultimately show ?thesis
    using reach serve_answered [of rnd waits ovf X matcher req st] assms(2) by (auto simp: outcome_ok_def)
qed

text \<open>A matcher and parsers for concrete requests: a path that is a pattern is served by it.\<close>

definition sample_matcher :: "string list \<Rightarrow> string \<Rightarrow> (string \<times> string list) option" where
  "sample_matcher ps path =
     (if path \<in> set ps then Some (path, [])
      else if path = ''/migrations/7/rollback'' then Some (''/migrations/{migration_id}/rollback'', [''7''])
      else None)"

definition sample_extractors :: "unit extractors" where
  "sample_extractors = \<lparr>ex_uuid = (\<lambda>s. if s = ''7'' then Some 7 else None), ex_usize = (\<lambda>_. None),
     ex_heartbeat = (\<lambda>_. Inr (sample_heartbeat 1)), ex_schedule = (\<lambda>_. Inl 422), ex_migration = (\<lambda>_. Inl 422),
     ex_reason = (\<lambda>_. Inr None)\<rparr>"

definition sample_readings :: readings where
  "sample_readings = \<lparr>rd_now1 = 0, rd_now2 = 0, rd_instant1 = 0, rd_instant2 = 0, rd_instant3 = 0, rd_unix = 0,
     rd_unix_of = (\<lambda>_. 0), rd_clock = (\<lambda>_. 0), rd_hosts = [], rd_regions = [], rd_region_hosts = (\<lambda>_. []),
     rd_templates = [], rd_migrations = [], rd_new_id = 9\<rparr>"

definition sample_http :: "http_method \<Rightarrow> string \<Rightarrow> unit http_request" where
  "sample_http m path = \<lparr>hq_method = m, hq_path = path, hq_body = (), hq_readings = sample_readings\<rparr>"

lemma sample_routes:
  "find_route sample_matcher POST ''/heartbeat'' = Inr (Heartbeat, [])"
  "find_route sample_matcher POST ''/migrations/7/rollback'' = Inr (RollbackMigration, [''7''])"
  "find_route sample_matcher GET ''/migrations'' = Inr (ListMigrations, [])"
  by (simp_all add: find_route_def sample_matcher_def patterns_def routes_def served_as_def)

theorem requests_served_witness:
  "1 \<in> dom (hosts (sch_registry (fst (serve (\<lambda>x. x) (=) True sample_extractors sample_matcher
     (sample_http POST ''/heartbeat'') (boot_state (\<lambda>x. x) 0))))) \<and>
   snd (serve (\<lambda>x. x) (=) True sample_extractors sample_matcher
     (sample_http POST ''/heartbeat'') (boot_state (\<lambda>x. x) 0)) = Returns (200, Acknowledged True) \<and>
   serve (\<lambda>x. x) (=) True sample_extractors sample_matcher
     (sample_http POST ''/schedule'') (boot_state (\<lambda>x. x) 0) = (boot_state (\<lambda>x. x) 0, Returns (422, NoBody))"
proof -
  let ?st = "boot_state (\<lambda>x. x) 0"
  let ?serve = "\<lambda>req. serve (\<lambda>x. x) (=) True sample_extractors sample_matcher req ?st"
  note served = requests_served [where rnd = "\<lambda>x. x" and waits = "(=)" and ovf = True and X = sample_extractors
      and matcher = sample_matcher, OF served.Started surjective_pairing]
  let ?req = "sample_http POST ''/heartbeat''" and ?sched = "sample_http POST ''/schedule''"
  have "registers_host sample_extractors sample_matcher ?req 1"
    by (simp add: registers_host_def sample_http_def sample_routes sample_extractors_def sample_heartbeat_def)
  then have reg: "1 \<in> dom (hosts (sch_registry (fst (?serve ?req))))"
    using served [of 0 ?req] by blast
  have m: "sample_matcher patterns ''/heartbeat'' = Some (''/heartbeat'', [])"
    "sample_matcher patterns ''/schedule'' = Some (''/schedule'', [])"
    by (simp_all add: sample_matcher_def patterns_def routes_def)
  have "answers (\<lambda>x. x) (=) True sample_extractors sample_readings () ?st ''/heartbeat'' POST []
      (replied no_body Acknowledged (heartbeat_handler True 0 0 (sample_heartbeat 1) ?st))"
    using answers.Heartbeat [of sample_extractors "()" "sample_heartbeat 1" "\<lambda>x. x" "(=)" True sample_readings ?st "[]"]
    by (simp add: sample_extractors_def sample_readings_def)
  moreover have "snd (heartbeat_handler True 0 0 (sample_heartbeat 1) ?st) = Returns (Inr (200, True))"
    by (simp add: heartbeat_handler_def heartbeat_def upsert_host_def boot_state_def default_host_registry_def
        new_host_registry_def sample_heartbeat_def sub_u32_def split_def Let_def)
  ultimately have ans: "snd (?serve ?req) = Returns (200, Acknowledged True)"
    using served [of 0 ?req] by (fastforce simp: answered_as_def sample_http_def m served_as_def Let_def replied_def
        reply_with_def answer_to_def)
  have "rejects sample_extractors () ''/schedule'' POST [] 422"
    by (rule rejects.Schedule_body) (simp add: sample_extractors_def)
  then have "?serve ?sched = (?st, Returns (422, NoBody))"
    using served [of 0 ?sched] by (auto simp: answered_as_def sample_http_def m served_as_def Let_def prod_eq_iff)
  with reg ans show ?thesis by blast
qed

section \<open>A guard that is never released\<close>

text \<open>Nothing gives back a guard that a call holds for ever.\<close>

lemma orchestrator_held:
  "set (held orch) \<subseteq> set (held (fst (start_migration waits now i t secs ks mid req orch hr)))"
  "set (held orch) \<subseteq> set (held (fst (advance waits now i mid orch)))"
  "set (held orch) \<subseteq> set (held (fst (rollback waits now mid reason orch)))"
  by (auto simp: start_migration_def advance_def rollback_def promote_and_return_def promote_to_completed_def
      set_active_def Let_def split_def split: sum.split option.split migration_state.split)

lemma step_held:
  "set (held (sch_orchestrator st)) \<subseteq> set (held (sch_orchestrator (scheduler_step rnd waits c st)))"
proof (cases c)
  case (PostMigration now i t secs ks mid req now' i' i'')
  then show ?thesis
    using start_handler_orchestrator [of waits now i t secs ks mid req now' i' i'' st] orchestrator_held
    by (auto simp: Let_def) (metis (no_types, lifting) orchestrator_held(1,2) subsetD)+
qed (use orchestrator_held in \<open>simp_all add: heartbeat_handler_def schedule_handler_def fleet_handler_def
    host_handler_def report_failure_handler_def decommission_handler_def prewarm_handler_def
    list_regions_handler_def get_region_handler_def advance_handler_frame rollback_migration_handler_def
    split_def Let_def split: outcome.split sum.split\<close>)

lemma served_held:
  "held (sch_orchestrator st) \<noteq> [] \<Longrightarrow>
   held (sch_orchestrator (fold (\<lambda>r s. fst (serve rnd waits ovf X matcher r s)) reqs st)) \<noteq> []"
proof (induction reqs arbitrary: st)
  case (Cons r reqs)
  have "held (sch_orchestrator (fst (serve rnd waits ovf X matcher r st))) \<noteq> []"
    using Cons.prems step_held [of st rnd waits]
    by (auto simp: serve_step maybe_step_def split: option.split) (metis set_empty subset_empty)
  from Cons.IH [OF this] show ?case by simp
qed simp

lemma rollback_holds:
  assumes "waits k k" "active orch k = Some r" "can_rollback (mr_state r)"
  shows "snd (rollback waits now k reason orch) = Blocks \<and> held (fst (rollback waits now k reason orch)) \<noteq> []"
  using assms by (auto simp: rollback_def promote_blocks must_wait_def)

text \<open>
  C14. One request to roll a migration back, of a migration that can be rolled back, is never answered,
  where the map makes a call for a key wait for a guard on that key; and from then on no request
  for the list of migrations is ever answered, whatever requests come in between.
\<close>

theorem one_rollback_stops_the_list:
  assumes "\<And>k. waits k k" "active (sch_orchestrator st) i = Some r" "can_rollback (mr_state r)"
    and "find_route matcher (hq_method req) (hq_path req) = Inr (RollbackMigration, [c])"
    and "ex_uuid X c = Some i" "ex_reason X (hq_body req) = Inr reason"
    and "find_route matcher (hq_method lst) (hq_path lst) = Inr (ListMigrations, cap)"
  shows "snd (serve rnd waits ovf X matcher req st) = Blocks \<and>
    snd (serve rnd waits ovf X matcher lst
      (fold (\<lambda>r s. fst (serve rnd waits ovf X matcher r s)) between (fst (serve rnd waits ovf X matcher req st)))) = Blocks"
proof -
  have roll: "snd (rollback_migration_handler waits now t i reason st) = Blocks \<and>
      held (sch_orchestrator (fst (rollback_migration_handler waits now t i reason st))) \<noteq> []" for now t
    using rollback_holds [of waits i "sch_orchestrator st" r, OF assms(1-3)]
    by (simp add: rollback_migration_handler_def split_def Let_def)
  then have "snd (serve rnd waits ovf X matcher req st) = Blocks"
      "held (sch_orchestrator (fst (serve rnd waits ovf X matcher req st))) \<noteq> []"
    by (simp_all add: serve_def assms(4-6) with_path_def with_body_def replied_def)
  with served_held [OF this(2)] show ?thesis
    by (simp add: serve_def assms(7) list_migrations_handler_def active_migrations_def)
qed

theorem one_rollback_stops_the_list_witness:
  "\<exists>st. active (sch_orchestrator st) 7 \<noteq> None \<and>
     snd (serve (\<lambda>x. x) (=) True sample_extractors sample_matcher (sample_http POST ''/migrations/7/rollback'') st) = Blocks \<and>
     snd (serve (\<lambda>x. x) (=) True sample_extractors sample_matcher (sample_http GET ''/migrations'')
       (fst (serve (\<lambda>x. x) (=) True sample_extractors sample_matcher (sample_http POST ''/migrations/7/rollback'') st))) = Blocks"
proof -
  define r where "r = fst (transition 0 Draining None (new_migration_record 0 0 7 \<lparr>mreq_sandbox_id = 3,
    mreq_source_host_id = 1, mreq_target_host_id = None, mreq_template_id = None, mreq_timeout_secs = 60,
    mreq_drain_secs = 5\<rparr>))"
  define st where "st = (boot_state (\<lambda>x. x) 0)\<lparr>sch_orchestrator := new_orchestrator\<lparr>active := [7 \<mapsto> r]\<rparr>\<rparr>"
  have st: "active (sch_orchestrator st) 7 = Some r" "can_rollback (mr_state r)"
    by (simp_all add: st_def r_def transition_def new_migration_record_def)
  note stopped = one_rollback_stops_the_list [where waits = "(=)" and matcher = sample_matcher and c = "''7''"
      and req = "sample_http POST ''/migrations/7/rollback''" and lst = "sample_http GET ''/migrations''"
      and X = sample_extractors and reason = None and cap = "[]" and rnd = "\<lambda>x. x" and ovf = True and between = "[]",
      OF refl st]
  show ?thesis
    using stopped st(1) by (intro exI [of _ st]) (simp add: sample_http_def sample_routes sample_extractors_def)
qed

section \<open>The port that the service listens on\<close>

text \<open>A \<open>PORT\<close> that is not a port is taken as if it were not set.\<close>

lemma listen_port_cases:
  "listen_port env = (case env ''PORT'' of
     Some p \<Rightarrow> (case parse_u16 p of Some n \<Rightarrow> n | None \<Rightarrow> 4000)
   | None \<Rightarrow> 4000)"
  by (simp add: listen_port_def or_default_def split: option.split)

lemma bad_port_ignored: "listen_port [''PORT'' \<mapsto> ''70000''] = 4000" "listen_port [''PORT'' \<mapsto> ''http''] = 4000"
  by (simp_all add: listen_port_cases parse_u16_def digits_val_def digit_val_def is_digit_def Let_def)

end
