(* ===== verification/Firecracker_Client.thy ===== *)
theory Firecracker_Client
  imports Prelude
begin

text \<open>
  The first client of the machine's HTTP interface (\<open>akssora-core/src/firecracker_client.rs\<close>), which
  no crate compiles any more. What it sends, and what becomes of a failure. The connection, the
  handshake and the exchange are arguments.
\<close>

record put_message =
  pm_uri :: string
  pm_headers :: "(string \<times> string) list"
  pm_body :: "u8 list"

text \<open>Each step on the world \<open>'w\<close> may fail; a request that is sent is answered with a status.\<close>

record 'w http_io =
  hio_connect :: "string \<Rightarrow> 'w \<Rightarrow> 'w \<times> nat option"
  hio_handshake :: "nat \<Rightarrow> 'w \<Rightarrow> 'w \<times> bool"
  hio_uri_ok :: "string \<Rightarrow> bool"
  hio_send :: "nat \<Rightarrow> put_message \<Rightarrow> 'w \<Rightarrow> 'w \<times> nat option"

definition put_headers :: "(string \<times> string) list" where
  "put_headers = [(''Host'', ''localhost''), (''Content-Type'', ''application/json'')]"

text \<open>\<open>expect\<close> makes every failure a panic. The status is printed.\<close>

definition client_put :: "'w http_io \<Rightarrow> string \<Rightarrow> string \<Rightarrow> u8 list option \<Rightarrow> 'w \<Rightarrow> 'w \<times> unit outcome" where
  "client_put io socket_path path encoded w =
     (case hio_connect io socket_path w of
        (w, None) \<Rightarrow> (w, Panics)
      | (w, Some conn) \<Rightarrow>
          (case hio_handshake io conn w of
             (w, False) \<Rightarrow> (w, Panics)
           | (w, True) \<Rightarrow>
               (case encoded of
                  None \<Rightarrow> (w, Panics)
                | Some body \<Rightarrow>
                    if \<not> hio_uri_ok io path then (w, Panics)
                    else (case hio_send io conn \<lparr>pm_uri = path, pm_headers = put_headers, pm_body = body\<rparr> w of
                            (w, None) \<Rightarrow> (w, Panics)
                          | (w, Some status) \<Rightarrow> (w, Returns ())))))"

text \<open>
  A call returns exactly when the request was sent and answered, with whatever status: a machine that
  refuses the request looks like one that accepts it, and every other failure is a panic.
\<close>

lemma client_put_returns:
  "snd (client_put io socket_path path encoded w) = Returns () \<longleftrightarrow>
     (\<exists>w1 conn w2 body w3 status. hio_connect io socket_path w = (w1, Some conn) \<and>
       hio_handshake io conn w1 = (w2, True) \<and> encoded = Some body \<and> hio_uri_ok io path \<and>
       hio_send io conn \<lparr>pm_uri = path, pm_headers = put_headers, pm_body = body\<rparr> w2 = (w3, Some status))"
  by (auto simp: client_put_def split: prod.split option.split bool.split)

lemma client_put_panics:
  "snd (client_put io socket_path path encoded w) = Panics \<longleftrightarrow>
     snd (client_put io socket_path path encoded w) \<noteq> Returns ()"
  by (auto simp: client_put_def split: prod.split option.split bool.split)

text \<open>Two machines that differ in the status of their answers only cannot be told apart.\<close>

lemma client_put_ignores_status:
  assumes "hio_send io' = (\<lambda>conn m w. case hio_send io conn m w of (w, s) \<Rightarrow> (w, map_option f s))"
    and "hio_connect io' = hio_connect io" "hio_handshake io' = hio_handshake io" "hio_uri_ok io' = hio_uri_ok io"
  shows "client_put io' socket_path path encoded w = client_put io socket_path path encoded w"
  by (simp add: client_put_def assms split: prod.split option.split bool.split)

end
