(* ===== verification/Spec2Isabelle.thy ===== *)
theory Spec2Isabelle
  imports Prelude Circuit_Breaker Host_Registry Placement Region_Registry Migration Sharding Demand
    Scheduler Egress Seccomp Snapshot_Sharing Protocol Guest_Files Guest_Shell Guest_Agent File_Transfer
    Resource_Tiers Vm_Api Host_Session Host_Exec Host_Shell Vm_Manager Record_Db Templates Template_Builds
    Warm_Pool Pool_Runs Pool_Sessions Webhooks Volumes Block_Device Port_Forward Interleaving
    Breaker_Races Region_Races Scheduling_Bursts Template_Races Service Firecracker_Client
begin

text \<open>
  \<^bold>\<open>The program.\<close> Akssora runs sandboxes as Firecracker virtual machines. It has three parts, each a
  crate under \<open>src/crates\<close>, and a small command line.

  \<^item> The \<^emph>\<open>scheduler\<close> (\<open>akssora-scheduler\<close>) is an HTTP service that keeps a registry of hosts from their
    heartbeats, places sandboxes on hosts, tracks the demand for templates to advise how many machines
    to keep warm, and drives migrations of sandboxes between hosts.
  \<^item> The \<^emph>\<open>host side\<close> (\<open>akssora-core\<close>) starts, restores, forks and closes the sessions of machines,
    talks to the agent in each, builds templates, keeps a pool of warm machines, and has the policies
    and services around a sandbox: egress, sharing of snapshots, sizes, volumes, block devices,
    forwarded ports and webhooks.
  \<^item> The \<^emph>\<open>guest agent\<close> (\<open>akssora-guest-agent\<close>) runs in the machine as its first process and serves the
    host's requests over a vsock connection: commands, shells, files, environment, ports.
  \<^item> The \<^emph>\<open>command line\<close> (\<open>akssora-cli\<close> with the crate \<open>session\<close>) runs one command in a fresh machine.

  The host and the agent share one protocol (\<open>akssora-core/src/protocol.rs\<close>). The scheduler does not
  call the hosts in this repository: the two meet only in the requests it is sent.
\<close>

text \<open>
  \<^bold>\<open>Conventions.\<close> A struct is a record whose fields carry a prefix, an enum a datatype. Machine
  integers are words of their width, and sums and differences wrap where the source's do; where the
  source uses plain arithmetic that a build with overflow checks would refuse, an argument \<open>ovf\<close>
  says which build it is, and a panic is the value \<open>Panics\<close>. A concurrent map (\<open>DashMap\<close>) is a map
  together with an argument for the order in which it is iterated, of which only the hypothesis
  \<open>iterates\<close> (every key once) is used. Clocks, fresh identifiers, hash functions and the answers of
  the operating system are arguments of the operation that asks for them, or come as a list of events
  where a call asks many times; so a property that quantifies over them holds for all environments.
  Strings are character lists, sent and stored data lists of bytes.

  Errors are the left side of a sum, with the constructors of the source's error types. A call that
  may not return is an option, where \<open>None\<close> says that it still waits after the events given; a call
  that waits for a lock that its own caller holds is \<open>Blocks\<close>. Calls that other calls can come
  between are separate definitions, composed by a step relation over the interleavings.

  Code that is not in the repository is a parameter: JSON encoders and decoders, the database
  (\<open>sled\<close>), the HTTP client, the hash and signature functions, the parser of TOML, the kernel, and the
  module \<open>firecracker\<close> that \<open>lib.rs\<close> names but the repository does not hold. What is relied on is
  named: \<open>codec_ok\<close> and \<open>codec_total\<close> (what was encoded is decoded again), \<open>database_ok\<close> (a store of
  keys with values, each operation of which may fail without an effect), \<open>vol_os_ok\<close>, \<open>iterates\<close>.
  Each witness instantiates the parameters with concrete functions. The library of asynchronous
  tasks is modelled only in what it promises: reads and writes of a stream with what they transfer,
  channels with their capacity, \<open>select\<close> as the choice of the next event, and the copying of one
  stream to another.
\<close>

text \<open>
  \<^bold>\<open>The scheduler.\<close>

  \<^item> \<open>Circuit_Breaker\<close> (\<open>circuit_breaker.rs\<close>): the atomics of a breaker as a record of words. The breaker
    implements an abstract three-state machine (closed with a count, open since a time, half-open with
    a count); five failures in a row trip it and it recovers after 30 seconds and three successes.
    \<open>Breaker_Races\<close> has the same calls as single accesses to the atomics and any interleaving of them.
  \<^item> \<open>Host_Registry\<close> (\<open>host_registry.rs\<close>): entries of hosts with their breakers; heartbeats, failures,
    removal, the list of live hosts. The age in seconds wraps for a heartbeat from the future.
  \<^item> \<open>Placement\<close> (\<open>placement.rs\<close>): the loops of the three strategies against declarative choices, under
    one interface \<open>placement_strategy\<close> that all three interpret.
  \<^item> \<open>Region_Registry\<close> (\<open>region_registry.rs\<close>): regions, the hosts in them, placement with a preferred
    region, and a proof that region lists and recorded regions agree after any calls. \<open>Region_Races\<close>
    has registrations and removals as single accesses to the maps, and what is left when they overlap.
  \<^item> \<open>Migration\<close> (\<open>migration.rs\<close>): the eight states, the transitions allowed, the orchestrator with
    its active and completed records, the table of redirects. Reachable states by rule induction. The
    parameter \<open>waits\<close> says for which pairs of keys the map makes a removal wait for a guard that is alive.
  \<^item> \<open>Sharding\<close> (\<open>sharding.rs\<close>): the registry of shards, the hash ring with virtual nodes and binary search,
    and routing.
  \<^item> \<open>Demand\<close> (\<open>demand_tracker.rs\<close>, \<open>prewarm_policy.rs\<close>): the log of events with its cap and the three
    policies under one interface \<open>prewarm_policy\<close>; floating-point numbers are rationals with infinities
    and NaN, and the rounding is a parameter.
  \<^item> \<open>Scheduler\<close> (\<open>main.rs\<close>): the state \<open>main\<close> builds and one definition per HTTP handler. A step relation
    over all requests gives the reachable states, in which the invariants of the components hold; the
    properties of requests (what a schedule request returns, that regions are always refused, that a
    failing host is not chosen) compose the components above. \<open>Scheduling_Bursts\<close> has the requests that
    arrive between two heartbeats.
  \<^item> \<open>Service\<close> (\<open>main.rs\<close>): the routes of the HTTP service, what each handler extracts from a request, the
    answers, and the start-up. Each request is one of the calls of \<open>Scheduler\<close>, is rejected, or only
    reads; what the calls keep is kept by any requests. What is answered is stated as two relations over
    the text of the pattern and the method, one for rejections and one for the handlers' answers.
\<close>

text \<open>
  \<^bold>\<open>The host and the guest.\<close>

  \<^item> \<open>Protocol\<close> (\<open>protocol.rs\<close>, \<open>error.rs\<close>): messages, errors, framing over a stream that can end or fail at any
    byte; the interface \<open>message_channel\<close> is interpreted for requests and for responses.
  \<^item> \<open>Guest_Files\<close>, \<open>Guest_Shell\<close>, \<open>Guest_Agent\<close>, \<open>Seccomp\<close> (the files of \<open>akssora-guest-agent/src\<close>): paths and
    their confinement, chunks of files, a shell on a terminal as events, commands as events of pipes,
    the loop over requests, which ends with its connection, the steps of the
    start, and the filter program with an interpreter of its instructions.
  \<^item> \<open>Vm_Api\<close>, \<open>Host_Session\<close> (\<open>session/*.rs\<close>, \<open>snapshot.rs\<close>, \<open>fork.rs\<close>): the calls of the machine's API and the
    sessions: boot, restore, close, fork, and the table of sessions in histories in which processes also
    exit by themselves. The state \<open>host\<close> has the processes, directories, files and the calls made.
  \<^item> \<open>Host_Exec\<close>, \<open>Host_Shell\<close>, \<open>File_Transfer\<close> (\<open>session/session.rs\<close>, \<open>files.rs\<close>): commands, shells and files from
    the host, each composed with the agent at the other end of the connection. Closing a shell drops the
    sender and asks both tasks to abort, which they do at some later await: a relation has what the tasks
    still do until then.
  \<^item> \<open>Vm_Manager\<close> (\<open>vm_manager.rs\<close>, the crate \<open>session\<close>, \<open>akssora-cli\<close>): the older manager of one machine and
    the command line, with the equivalence of its \<open>exec\<close> with that of the sessions.
  \<^item> \<open>Record_Db\<close>, \<open>Templates\<close>, \<open>Template_Builds\<close> (\<open>templates/*.rs\<close>): the record stores over the database, the
    manager, the builder as a log of commands and removals that may each fail, official templates; and
    the manager over its builder, with any requests after a build. \<open>Template_Races\<close> has two requests for one template that overlap.
  \<^item> \<open>Warm_Pool\<close>, \<open>Pool_Runs\<close>, \<open>Pool_Sessions\<close> (\<open>pool/*.rs\<close>): the store and the pool, with the interface
    \<open>warm_vm_creator\<close> that the Firecracker creator interprets; all interleavings of claims,
    replenishments and scalings; and the pool over the sessions of the host.
  \<^item> \<open>Egress\<close>, \<open>Snapshot_Sharing\<close>, \<open>Resource_Tiers\<close>, \<open>Webhooks\<close>, \<open>Volumes\<close>, \<open>Block_Device\<close>, \<open>Port_Forward\<close>: the
    files of these names under \<open>akssora-core/src\<close>, the last with \<open>port_forward.rs\<close> of the agent. The
    patterns of \<open>Egress\<close> have a meaning of their own, over the texts, that the matching is proved to have.
  \<^item> \<open>Firecracker_Client\<close> (\<open>firecracker_client.rs\<close>): the one call of a client that no crate compiles any more.

  \<open>Prelude\<close> has the types, the arithmetic of the standard library, iterated maps, and the two interfaces
  that several components share: \<open>invariant_machine\<close> (steps that keep an invariant, with what holds
  after any run) and \<open>keyed_store\<close> (a store under keys, in which the last write decides a look-up).
  \<open>Interleaving\<close> has calls that overlap, as threads of single accesses, and the interface
  \<open>atomic_calls\<close> between the accesses and the function that a call is alone; the breakers, the region
  registry and the template manager interpret it.
\<close>

text \<open>
  \<^bold>\<open>Loops, bounds and fuel.\<close> Loops over data are structural recursion. A loop that waits for the outside
  runs over the list of its events (reads of a pipe, polls of a socket, requests with the world in
  which each is handled), and its value is \<open>None\<close> or a flag when the list ends before the loop does:
  there is no fuel that a result could depend on, and \<open>connection_ends\<close>, \<open>socket_wait_ends\<close>,
  \<open>connecting_ends\<close> and the end-to-end properties say from which list on it has ended. The loops over
  messages and chunks recurse on the bytes that are left in the stream, the interpreter of the filter
  on the instructions left, each with that as its measure. Bounds are the source's: 2 seconds for the
  API socket, 3 attempts for a webhook, 10 seconds for a connection to the agent, the lengths of the channels.

  \<^bold>\<open>Compositions.\<close> \<open>Scheduler\<close> over its six components, and \<open>Service\<close> over \<open>Scheduler\<close>;
  \<open>File_Transfer\<close>, \<open>Host_Exec\<close> and \<open>Host_Shell\<close> over the protocol and the agent; \<open>Template_Builds\<close> over
  the store and the builder; \<open>Pool_Sessions\<close> over the pool and the sessions; \<open>Vm_Manager\<close> against the
  sessions.

  \<^bold>\<open>Not modelled.\<close>

  \<^item> The matching of paths and the JSON of the HTTP service, which are the work of its framework and
    arguments here, the sockets under it and the shutdown signal in \<open>main.rs\<close>; logging and tracing
    everywhere.
  \<^item> The module \<open>firecracker\<close>, which is missing: its calls are a parameter of \<open>Vm_Api\<close>.
  \<^item> The opening of the databases and the constructors that only open one at its default path.
  \<^item> \<open>lib.rs\<close>, \<open>mod.rs\<close> of the sessions and \<open>traits.rs\<close>, which declare modules and an interface of two
    accessors; the wrapper of a stream in \<open>port_forward.rs\<close>, which passes every call on.
  \<^item> The parsing of command-line arguments, fixed pauses, the text of log lines and of the breaker's
    states.
  \<^item> The build files, the script under \<open>images\<close> and the documentation.
\<close>

end
